(* ===== verification/Prelude.thy ===== *)
theory Prelude
  imports
    Main
    "HOL-Library.Multiset"
    "HOL-Library.Char_ord"
    "HOL-Library.List_Lexorder"
    "HOL-Library.Product_Lexorder"
begin

section \<open>Prelude: what the components share\<close>

text \<open>
  Generic material used by every component: a value-level rendering of thrown exceptions,
  the two JavaScript collection idioms the code relies on (\<open>[...new Set(xs)]\<close> and
  \<open>Array.prototype.sort\<close> with a comparator), and the two contracts that several components
  implement independently: a comparator that \<open>sort\<close> may be given, and a test for the overlap
  of half-open intervals. The contracts are locales; each component interprets them on its own
  functions.
\<close>

named_theorems err_simps \<open>evaluation rules of the exception plumbing\<close>
named_theorems sort_simps \<open>facts about the sorted copy of an array\<close>

subsection \<open>Exceptions as values\<close>

text \<open>
  A function that may throw returns \<open>Inl e\<close> when it throws \<open>e\<close>. \<open>bindE\<close> is the sequencing of
  two statements, \<open>mapE\<close> is \<open>Array.prototype.map\<close> with a callback that may throw: the callback
  runs from left to right and the first exception ends the map.
\<close>

definition bindE :: "'e + 'a \<Rightarrow> ('a \<Rightarrow> 'e + 'b) \<Rightarrow> 'e + 'b" where
  "bindE m f = (case m of Inl e \<Rightarrow> Inl e | Inr a \<Rightarrow> f a)"

lemma bindE_simps [simp, err_simps]:
  "bindE (Inl e) f = Inl e"
  "bindE (Inr a) f = f a"
  by (simp_all add: bindE_def)

lemma bindE_Inr_iff: "bindE m f = Inr b \<longleftrightarrow> (\<exists>a. m = Inr a \<and> f a = Inr b)"
  by (cases m) auto

lemma bindE_Inl_iff: "bindE m f = Inl e \<longleftrightarrow> m = Inl e \<or> (\<exists>a. m = Inr a \<and> f a = Inl e)"
  by (cases m) auto

lemma bindE_cong [fundef_cong]:
  "m = m' \<Longrightarrow> (\<And>a. m' = Inr a \<Longrightarrow> f a = f' a) \<Longrightarrow> bindE m f = bindE m' f'"
  by (cases m') auto

fun mapE :: "('a \<Rightarrow> 'e + 'b) \<Rightarrow> 'a list \<Rightarrow> 'e + 'b list" where
  "mapE f [] = Inr []"
| "mapE f (x # xs) = bindE (f x) (\<lambda>y. bindE (mapE f xs) (\<lambda>ys. Inr (y # ys)))"

lemma mapE_cong [fundef_cong]:
  "xs = ys \<Longrightarrow> (\<And>x. x \<in> set ys \<Longrightarrow> f x = g x) \<Longrightarrow> mapE f xs = mapE g ys"
  by (induction xs arbitrary: ys) auto

lemma mapE_Inr: "mapE f xs = Inr ys \<longleftrightarrow> list_all2 (\<lambda>x y. f x = Inr y) xs ys"
proof (induction xs arbitrary: ys)
  case Nil
  then show ?case by auto
next
  case (Cons x xs)
  then show ?case
    by (cases ys) (auto simp: bindE_Inr_iff)
qed

lemma mapE_Inr_set: "mapE f xs = Inr ys \<Longrightarrow> y \<in> set ys \<Longrightarrow> \<exists>x \<in> set xs. f x = Inr y"
  by (force simp: mapE_Inr list_all2_conv_all_nth in_set_conv_nth)

lemma mapE_Inr_length: "mapE f xs = Inr ys \<Longrightarrow> length ys = length xs"
  by (auto simp: mapE_Inr dest: list_all2_lengthD)

lemma mapE_total: "(\<And>x. x \<in> set xs \<Longrightarrow> f x = Inr (g x)) \<Longrightarrow> mapE f xs = Inr (map g xs)"
  by (induction xs) auto

text \<open>A loop that may throw, over the elements of a list, carrying the variables it updates.\<close>

fun foldE :: "('s \<Rightarrow> 'a \<Rightarrow> 'e + 's) \<Rightarrow> 's \<Rightarrow> 'a list \<Rightarrow> 'e + 's" where
  "foldE f s [] = Inr s"
| "foldE f s (x # xs) = bindE (f s x) (\<lambda>s'. foldE f s' xs)"

lemma foldE_append: "foldE f s (xs @ ys) = bindE (foldE f s xs) (\<lambda>s'. foldE f s' ys)"
  by (induction xs arbitrary: s) (simp_all add: bindE_def split: sum.splits)

lemma foldE_invariant:
  assumes "foldE f s xs = Inr s'" "P s"
    and "\<And>s x s'. x \<in> set xs \<Longrightarrow> P s \<Longrightarrow> f s x = Inr s' \<Longrightarrow> P s'"
  shows "P s'"
  using assms
proof (induction xs arbitrary: s)
  case (Cons x xs)
  then obtain m where m: "f s x = Inr m" "foldE f m xs = Inr s'" by (auto simp: bindE_Inr_iff)
  have "P m" by (rule Cons.prems(3) [OF _ Cons.prems(2) m(1)]) simp
  then show ?case by (rule Cons.IH [OF m(2)]) (rule Cons.prems(3) [OF list.set_intros(2)])
qed simp

text \<open>An exception the model keeps apart from a missing value.\<close>

definition orThrow :: "'e \<Rightarrow> 'a option \<Rightarrow> 'e + 'a" where
  "orThrow e x = (case x of None \<Rightarrow> Inl e | Some a \<Rightarrow> Inr a)"

lemma orThrow_simps [simp, err_simps]:
  "orThrow e None = Inl e"
  "orThrow e (Some a) = Inr a"
  by (simp_all add: orThrow_def)

lemma orThrow_Inr [simp]: "orThrow e x = Inr a \<longleftrightarrow> x = Some a"
  by (cases x) auto

subsection \<open>\<open>[...new Set(xs)]\<close>: the distinct elements in order of first insertion\<close>

fun uniq :: "'a list \<Rightarrow> 'a list" where
  "uniq [] = []"
| "uniq (x # xs) = x # filter (\<lambda>y. y \<noteq> x) (uniq xs)"

lemma set_uniq [simp]: "set (uniq xs) = set xs"
  by (induction xs) auto

lemma distinct_uniq [simp]: "distinct (uniq xs)"
  by (induction xs) auto

lemma uniq_id [simp]: "distinct xs \<Longrightarrow> uniq xs = xs"
  by (induction xs) (auto intro: filter_True)

lemma length_uniq_iff: "length (uniq xs) = length xs \<longleftrightarrow> distinct xs"
proof
  assume "length (uniq xs) = length xs"
  then have "card (set xs) = length xs"
    using distinct_card [OF distinct_uniq, of xs] by simp
  then show "distinct xs" by (rule card_distinct)
qed simp

subsection \<open>\<open>Array.prototype.sort\<close> with a comparator\<close>

text \<open>
  The comparator answers with a number: not positive means the left element may stay in front.
  The language guarantees a stable sort; inserting from the right in front of the elements that
  are not smaller is one.
\<close>

fun js_insert :: "('a \<Rightarrow> 'a \<Rightarrow> int) \<Rightarrow> 'a \<Rightarrow> 'a list \<Rightarrow> 'a list" where
  "js_insert cmp x [] = [x]"
| "js_insert cmp x (y # ys) = (if cmp x y \<le> 0 then x # y # ys else y # js_insert cmp x ys)"

definition js_sort :: "('a \<Rightarrow> 'a \<Rightarrow> int) \<Rightarrow> 'a list \<Rightarrow> 'a list" where
  "js_sort cmp xs = foldr (js_insert cmp) xs []"

lemma js_sort_simps [simp]:
  "js_sort cmp [] = []"
  "js_sort cmp (x # xs) = js_insert cmp x (js_sort cmp xs)"
  by (simp_all add: js_sort_def)

lemma mset_js_insert [simp]: "mset (js_insert cmp x xs) = add_mset x (mset xs)"
  by (induction xs) auto

lemma mset_js_sort [simp, sort_simps]: "mset (js_sort cmp xs) = mset xs"
  by (induction xs) auto

lemma set_js_insert [simp]: "set (js_insert cmp x xs) = insert x (set xs)"
  by (induction xs) auto

lemma set_js_sort [simp, sort_simps]: "set (js_sort cmp xs) = set xs"
  by (induction xs) auto

lemma length_js_sort [simp, sort_simps]: "length (js_sort cmp xs) = length xs"
  by (metis mset_js_sort size_mset)

lemma distinct_js_sort [simp]: "distinct (js_sort cmp xs) = distinct xs"
  by (metis mset_eq_imp_distinct_iff mset_js_sort)

lemma js_sort_eq_Nil [simp]: "js_sort cmp xs = [] \<longleftrightarrow> xs = []"
  by (metis length_js_sort length_0_conv)

definition js_compare :: "'a::linorder \<Rightarrow> 'a \<Rightarrow> int" where
  "js_compare l r = (if l < r then - 1 else if r < l then 1 else 0)"

text \<open>\<open>a || b\<close> on the numbers a comparator returns: the second test decides ties of the first.\<close>

definition cmp_or :: "int \<Rightarrow> int \<Rightarrow> int" where
  "cmp_or a b = (if a = 0 then b else a)"

lemma js_compare_le [simp]: "js_compare l r \<le> 0 \<longleftrightarrow> l \<le> r"
  by (auto simp: js_compare_def)

lemma js_compare_pair: "cmp_or (js_compare a c) (js_compare b d) = js_compare (a, b) (c, d)"
  by (auto simp: js_compare_def cmp_or_def)

text \<open>The contract of a comparator, and what \<open>sort\<close> then delivers.\<close>

locale comparator =
  fixes cmp :: "'a \<Rightarrow> 'a \<Rightarrow> int"
  assumes total: "cmp x y \<le> 0 \<or> cmp y x \<le> 0"
    and trans: "cmp x y \<le> 0 \<Longrightarrow> cmp y z \<le> 0 \<Longrightarrow> cmp x z \<le> 0"
begin

lemma sorted_insert:
  "sorted_wrt (\<lambda>x y. cmp x y \<le> 0) xs \<Longrightarrow> sorted_wrt (\<lambda>x y. cmp x y \<le> 0) (js_insert cmp x xs)"
proof (induction xs)
  case Nil
  then show ?case by simp
next
  case (Cons y ys)
  show ?case
  proof (cases "cmp x y \<le> 0")
    case True
    with Cons.prems show ?thesis by (auto intro: trans)
  next
    case False
    then have "cmp y x \<le> 0" using total by blast
    with Cons False show ?thesis by auto
  qed
qed

lemma sorted_sort: "sorted_wrt (\<lambda>x y. cmp x y \<le> 0) (js_sort cmp xs)"
  by (induction xs) (auto intro: sorted_insert)

lemma hd_sort_least: "x \<in> set xs \<Longrightarrow> cmp (hd (js_sort cmp xs)) x \<le> 0"
proof (cases "js_sort cmp xs")
  case Nil
  then show "x \<in> set xs \<Longrightarrow> cmp (hd (js_sort cmp xs)) x \<le> 0" by simp
next
  case (Cons y ys)
  assume "x \<in> set xs"
  then have "x \<in> set (y # ys)" using Cons set_js_sort by metis
  moreover have "cmp y y \<le> 0" using total by blast
  ultimately show ?thesis
    using sorted_sort [of xs] Cons by auto
qed

lemma sorted_unique_on:
  assumes "sorted_wrt (\<lambda>x y. cmp x y \<le> 0) xs" "sorted_wrt (\<lambda>x y. cmp x y \<le> 0) ys"
    and "mset xs = mset ys"
    and "\<And>x y. x \<in> set xs \<Longrightarrow> y \<in> set xs \<Longrightarrow> cmp x y \<le> 0 \<Longrightarrow> cmp y x \<le> 0 \<Longrightarrow> x = y"
  shows "xs = ys"
  using assms
proof (induction xs arbitrary: ys)
  case Nil
  then show ?case by simp
next
  case (Cons x xs)
  then obtain y ys' where ys: "ys = y # ys'" by (cases ys) auto
  have same: "set (x # xs) = set (y # ys')" using Cons.prems(3) ys by (metis mset_eq_setD)
  then have "x = y \<or> cmp x y \<le> 0 \<and> cmp y x \<le> 0"
    using Cons.prems(1,2) ys by auto
  then have "x = y" using Cons.prems(4) [of x y] same by auto
  with Cons ys show ?case by auto
qed

lemma sort_cong_on:
  assumes "mset xs = mset ys"
    and "\<And>x y. x \<in> set xs \<Longrightarrow> y \<in> set xs \<Longrightarrow> cmp x y \<le> 0 \<Longrightarrow> cmp y x \<le> 0 \<Longrightarrow> x = y"
  shows "js_sort cmp xs = js_sort cmp ys"
  by (rule sorted_unique_on [OF sorted_sort sorted_sort]) (use assms in auto)

end

text \<open>
  When ties are equalities, the sorted array depends on the contents of the array only: this is
  what makes the hashed documents independent of the order in which rows were read.
\<close>

locale strict_comparator = comparator +
  assumes antisym: "cmp x y \<le> 0 \<Longrightarrow> cmp y x \<le> 0 \<Longrightarrow> x = y"
begin

lemma sort_cong: "mset xs = mset ys \<Longrightarrow> js_sort cmp xs = js_sort cmp ys"
  by (rule sort_cong_on) (auto intro: antisym)

end

text \<open>
  The comparators of the code are chains \<open>first || second || ...\<close>. A chain of comparators is one
  again when each of them changes its sign with the order of its arguments.
\<close>

locale consistent_comparator = comparator +
  assumes flip: "sgn (cmp y x) = - sgn (cmp x y)"
begin

lemma tie_sym: "cmp x y = 0 \<Longrightarrow> cmp y x = 0"
  using flip [of y x] by (simp add: sgn_0_0)

lemma less_flip: "cmp x y < 0 \<longleftrightarrow> 0 < cmp y x"
  using flip [of y x] by (metis neg_0_less_iff_less sgn_greater sgn_less)

lemma le_less_trans: "cmp x y \<le> 0 \<Longrightarrow> cmp y z < 0 \<Longrightarrow> cmp x z < 0"
  using trans [of z x y] less_flip [of y z] less_flip [of x z] total [of x z] tie_sym [of x z] by linarith

lemma less_le_trans: "cmp x y < 0 \<Longrightarrow> cmp y z \<le> 0 \<Longrightarrow> cmp x z < 0"
  using trans [of y z x] less_flip [of x y] less_flip [of x z] total [of x z] tie_sym [of x z] by linarith

end

lemma consistent_or:
  assumes "consistent_comparator a" "consistent_comparator b"
  shows "consistent_comparator (\<lambda>x y. cmp_or (a x y) (b x y))"
proof -
  note A = assms(1) and B = assms(2)
  note ca = consistent_comparator.axioms(1) [OF A] and cb = consistent_comparator.axioms(1) [OF B]
  show ?thesis
  proof (unfold_locales, goal_cases)
    case (1 x y)
    show ?case
      using comparator.total [OF ca, of x y] comparator.total [OF cb, of x y]
        consistent_comparator.tie_sym [OF A, of x y] consistent_comparator.tie_sym [OF A, of y x]
      by (auto simp: cmp_or_def)
  next
    case (2 x y z)
    then consider "a x y < 0" "a y z \<le> 0" | "a x y \<le> 0" "a y z < 0" | "a x y = 0" "a y z = 0" "b x y \<le> 0" "b y z \<le> 0"
      by (auto simp: cmp_or_def split: if_splits)
    then show ?case
    proof cases
      case 1
      then show ?thesis using consistent_comparator.less_le_trans [OF A] by (fastforce simp: cmp_or_def)
    next
      case 2
      then show ?thesis using consistent_comparator.le_less_trans [OF A] by (fastforce simp: cmp_or_def)
    next
      case 3
      have "a x z \<le> 0" using 3 comparator.trans [OF ca, of x y z] by simp
      moreover have "b x z \<le> 0" using 3 comparator.trans [OF cb, of x y z] by simp
      ultimately show ?thesis by (simp add: cmp_or_def)
    qed
  next
    case (3 y x)
    show ?case
      using consistent_comparator.flip [OF A, of y x] consistent_comparator.flip [OF B, of y x]
        consistent_comparator.tie_sym [OF A, of x y] consistent_comparator.tie_sym [OF A, of y x]
      by (auto simp: cmp_or_def)
  qed
qed

lemma consistent_key:
  assumes c: "consistent_comparator c"
  shows "consistent_comparator (\<lambda>x y. c (k x) (k y))"
proof -
  note cc = consistent_comparator.axioms(1) [OF c]
  show ?thesis
    by unfold_locales (rule comparator.total [OF cc] comparator.trans [OF cc] consistent_comparator.flip [OF c]; assumption?)+
qed

lemma consistent_diff: "consistent_comparator (\<lambda>x y :: int. x - y)"
  by unfold_locales (auto simp: sgn_if)

lemma consistent_js_compare: "consistent_comparator js_compare"
proof (unfold_locales, goal_cases)
  case (3 y x)
  show ?case by (auto simp: js_compare_def)
qed auto

lemma comparator_key: "comparator (\<lambda>x y. js_compare (k x) (k y))"
  by unfold_locales auto

lemma strict_comparator_key: "inj k \<Longrightarrow> strict_comparator (\<lambda>x y. js_compare (k x) (k y))"
  by unfold_locales (auto dest: injD)

subsection \<open>Half-open intervals\<close>

text \<open>
  Several components test whether two half-open intervals share time, each on its own
  representation. The contract is the usual formula on well-formed intervals; its
  meaning, that the two intervals have an instant in common, is proved once.
\<close>

locale half_open =
  fixes lo hi :: "'a \<Rightarrow> 't::linorder"
    and valid :: "'a \<Rightarrow> bool"
    and ov :: "'a \<Rightarrow> 'a \<Rightarrow> bool"
  assumes nonempty: "valid a \<Longrightarrow> lo a < hi a"
    and ov_iff: "valid a \<Longrightarrow> valid b \<Longrightarrow> ov a b \<longleftrightarrow> lo a < hi b \<and> lo b < hi a"
begin

lemma ov_sym: "valid a \<Longrightarrow> valid b \<Longrightarrow> ov a b = ov b a"
  by (auto simp: ov_iff)

lemma ov_refl: "valid a \<Longrightarrow> ov a a"
  by (simp add: ov_iff nonempty)

lemma ov_common_instant:
  assumes "valid a" "valid b"
  shows "ov a b \<longleftrightarrow> (\<exists>t. lo a \<le> t \<and> t < hi a \<and> lo b \<le> t \<and> t < hi b)"
proof
  assume "ov a b"
  with assms have "lo a \<le> max (lo a) (lo b)" "max (lo a) (lo b) < hi a"
    "lo b \<le> max (lo a) (lo b)" "max (lo a) (lo b) < hi b"
    by (auto simp: ov_iff nonempty)
  then show "\<exists>t. lo a \<le> t \<and> t < hi a \<and> lo b \<le> t \<and> t < hi b" by blast
next
  assume "\<exists>t. lo a \<le> t \<and> t < hi a \<and> lo b \<le> t \<and> t < hi b"
  with assms show "ov a b" by (auto simp: ov_iff)
qed

lemma not_ov_ordered: "valid a \<Longrightarrow> valid b \<Longrightarrow> \<not> ov a b \<Longrightarrow> hi a \<le> lo b \<or> hi b \<le> lo a"
  by (auto simp: ov_iff)

end

end
