(* ===== verification/Js_Text.thy ===== *)
theory Js_Text
  imports Prelude
begin

section \<open>JavaScript strings\<close>

text \<open>
  The string operations of the language that the code uses. A string is a \<open>string\<close> of the
  logic, one \<open>char\<close> per UTF-16 code unit: the model covers the strings whose code units are below
  256 (ASCII and Latin-1). On these the operations below are the ones of ECMAScript: no code unit of
  that range composes or decomposes, so \<open>normalize("NFC")\<close> is the identity, \<open><\<close> on strings is the
  lexicographic order of the code units, and the Unicode classes are finite tables.
\<close>

abbreviation code :: "char \<Rightarrow> nat" where
  "code c \<equiv> of_char c"

definition normalize_NFC :: "string \<Rightarrow> string" where
  "normalize_NFC s = s"

text \<open>White space and line terminators, as \<open>trim\<close> and \<open>\s\<close> see them.\<close>

definition is_white :: "char \<Rightarrow> bool" where
  "is_white c \<longleftrightarrow> code c \<in> {9, 10, 11, 12, 13, 32, 160}"

definition trim :: "string \<Rightarrow> string" where
  "trim s = rev (dropWhile is_white (rev (dropWhile is_white s)))"

definition lower_char :: "char \<Rightarrow> char" where
  "lower_char c =
     (if 65 \<le> code c \<and> code c \<le> 90 \<or> 192 \<le> code c \<and> code c \<le> 222 \<and> code c \<noteq> 215
      then char_of (code c + 32) else c)"

definition toLowerCase :: "string \<Rightarrow> string" where
  "toLowerCase s = map lower_char s"

text \<open>The classes \<open>\p{L}\<close>, \<open>\p{N}\<close>, \<open>\p{Cc}\<close> and \<open>\p{Cf}\<close>.\<close>

definition is_letter :: "char \<Rightarrow> bool" where
  "is_letter c \<longleftrightarrow>
     65 \<le> code c \<and> code c \<le> 90 \<or> 97 \<le> code c \<and> code c \<le> 122 \<or>
     code c \<in> {170, 181, 186} \<or> 192 \<le> code c \<and> code c \<noteq> 215 \<and> code c \<noteq> 247"

definition is_number :: "char \<Rightarrow> bool" where
  "is_number c \<longleftrightarrow> 48 \<le> code c \<and> code c \<le> 57 \<or> code c \<in> {178, 179, 185, 188, 189, 190}"

definition is_control :: "char \<Rightarrow> bool" where
  "is_control c \<longleftrightarrow> code c < 32 \<or> 127 \<le> code c \<and> code c < 160 \<or> code c = 173"

definition word_char :: "char \<Rightarrow> bool" where
  "word_char c \<longleftrightarrow> is_letter c \<or> is_number c \<or> c = CHR ''_''"

subsection \<open>Decimal numerals\<close>

definition digit :: "nat \<Rightarrow> char" where
  "digit d = char_of (48 + d)"

definition is_digit :: "char \<Rightarrow> bool" where
  "is_digit c \<longleftrightarrow> 48 \<le> code c \<and> code c \<le> 57"

definition digit_val :: "char \<Rightarrow> nat" where
  "digit_val c = code c - 48"

fun dec :: "nat \<Rightarrow> string" where
  "dec n = (if n < 10 then [digit n] else dec (n div 10) @ [digit (n mod 10)])"

declare dec.simps [simp del]

definition dec_int :: "int \<Rightarrow> string" where
  "dec_int i = (if i < 0 then CHR ''-'' # dec (nat (- i)) else dec (nat i))"

text \<open>Exactly \<open>k\<close> digits, as the fixed-width fields of a date are written.\<close>

fun pad :: "nat \<Rightarrow> nat \<Rightarrow> string" where
  "pad 0 n = []"
| "pad (Suc k) n = pad k (n div 10) @ [digit (n mod 10)]"

definition undec :: "string \<Rightarrow> nat" where
  "undec s = foldl (\<lambda>n c. 10 * n + digit_val c) 0 s"

lemma code_digit [simp]: "d < 10 \<Longrightarrow> code (digit d) = 48 + d"
  by (simp add: digit_def)

lemma digit_val_digit [simp]: "d < 10 \<Longrightarrow> digit_val (digit d) = d"
  by (simp add: digit_val_def)

lemma is_digit_digit [simp]: "d < 10 \<Longrightarrow> is_digit (digit d)"
  by (simp add: is_digit_def)

lemma digit_val_less: "is_digit c \<Longrightarrow> digit_val c < 10"
  by (auto simp: is_digit_def digit_val_def)

lemma undec_snoc [simp]: "undec (s @ [c]) = 10 * undec s + digit_val c"
  by (simp add: undec_def)

lemma undec_Nil [simp]: "undec [] = 0"
  by (simp add: undec_def)

lemma digits_dec: "list_all is_digit (dec n)"
  by (induction n rule: dec.induct) (subst dec.simps, auto)

lemma undec_dec [simp]: "undec (dec n) = n"
proof (induction n rule: dec.induct)
  case (1 n)
  show ?case
  proof (cases "n < 10")
    case True
    then show ?thesis
      by (simp add: dec.simps [of n] undec_def)
  next
    case False
    with 1 show ?thesis by (simp add: dec.simps [of n])
  qed
qed

lemma dec_nonempty [simp]: "dec n \<noteq> []"
  by (subst dec.simps) auto

lemma length_pad [simp]: "length (pad k n) = k"
  by (induction k n rule: pad.induct) auto

lemma digits_pad: "list_all is_digit (pad k n)"
  by (induction k n rule: pad.induct) auto

lemma undec_pad [simp]: "n < 10 ^ k \<Longrightarrow> undec (pad k n) = n"
proof (induction k n rule: pad.induct)
  case (2 k n)
  then have "n div 10 < 10 ^ k" by (simp add: less_mult_imp_div_less mult.commute)
  with 2 show ?case by simp
qed simp

subsection \<open>Prefix codes\<close>

text \<open>
  A numeral ends at the first character that is no digit, so it can be read back off the front
  of a longer text.
\<close>

definition no_digit_front :: "string \<Rightarrow> bool" where
  "no_digit_front s \<longleftrightarrow> s = [] \<or> \<not> is_digit (hd s)"

lemma takeWhile_digits:
  assumes "list_all is_digit ds" "no_digit_front r"
  shows "takeWhile is_digit (ds @ r) = ds \<and> dropWhile is_digit (ds @ r) = r"
proof -
  have "takeWhile is_digit r = [] \<and> dropWhile is_digit r = r"
    using assms(2) by (cases r) (auto simp: no_digit_front_def)
  with assms(1) show ?thesis
    by (simp add: list_all_iff takeWhile_append dropWhile_append)
qed

lemma dec_prefix_code:
  assumes "dec m @ r = dec n @ s" "no_digit_front r" "no_digit_front s"
  shows "m = n \<and> r = s"
  using takeWhile_digits [OF digits_dec assms(2), of m]
    takeWhile_digits [OF digits_dec assms(3), of n] assms(1) undec_dec
  by metis

lemma hd_dec_digit: "is_digit (hd (dec n @ r))"
proof -
  have "hd (dec n) \<in> set (dec n)" by simp
  then have "is_digit (hd (dec n))" using digits_dec [of n] by (simp add: list_all_iff)
  then show ?thesis by simp
qed

lemma dec_int_prefix_code:
  assumes "dec_int i @ r = dec_int j @ s" "no_digit_front r" "no_digit_front s"
  shows "i = j \<and> r = s"
proof -
  have hd: "hd (dec_int k @ t) = CHR ''-'' \<longleftrightarrow> k < 0" for k t
  proof -
    have "hd (dec (nat k) @ t) \<noteq> CHR ''-''"
      using hd_dec_digit [of "nat k" t] by (auto simp: is_digit_def)
    then show ?thesis by (simp add: dec_int_def)
  qed
  from assms(1) hd have same: "(i < 0) = (j < 0)" by metis
  show ?thesis
  proof (cases "i < 0")
    case True
    with same assms have "dec (nat (- i)) @ r = dec (nat (- j)) @ s" by (simp add: dec_int_def)
    then have "nat (- i) = nat (- j) \<and> r = s" using assms(2,3) by (rule dec_prefix_code)
    with True same show ?thesis by arith
  next
    case False
    with same assms have "dec (nat i) @ r = dec (nat j) @ s" by (simp add: dec_int_def)
    then have "nat i = nat j \<and> r = s" using assms(2,3) by (rule dec_prefix_code)
    with False same show ?thesis by arith
  qed
qed

subsection \<open>Evaluation of characters and numerals\<close>

text \<open>Equations for evaluation that compute with integers and bits instead of natural numbers.\<close>

definition int_code :: "char \<Rightarrow> int" where
  "int_code c = int (code c)"

lemma int_code_code [code]:
  "int_code (Char b0 b1 b2 b3 b4 b5 b6 b7) =
     (if b0 then 1 else 0) + (if b1 then 2 else 0) + (if b2 then 4 else 0) + (if b3 then 8 else 0)
     + (if b4 then 16 else 0) + (if b5 then 32 else 0) + (if b6 then 64 else 0) + (if b7 then 128 else 0)"
  by (simp add: int_code_def of_char_def)

lemma code_classes [code]:
  "is_white c \<longleftrightarrow> (let i = int_code c in 9 \<le> i \<and> i \<le> 13 \<or> i = 32 \<or> i = 160)"
  "is_letter c \<longleftrightarrow> (let i = int_code c in 65 \<le> i \<and> i \<le> 90 \<or> 97 \<le> i \<and> i \<le> 122 \<or> i = 170 \<or> i = 181 \<or> i = 186
     \<or> 192 \<le> i \<and> i \<noteq> 215 \<and> i \<noteq> 247)"
  "is_number c \<longleftrightarrow> (let i = int_code c in 48 \<le> i \<and> i \<le> 57 \<or> i = 178 \<or> i = 179 \<or> i = 185 \<or> i = 188 \<or> i = 189 \<or> i = 190)"
  "is_control c \<longleftrightarrow> (let i = int_code c in i < 32 \<or> 127 \<le> i \<and> i < 160 \<or> i = 173)"
  unfolding is_white_def is_letter_def is_number_def is_control_def int_code_def Let_def by auto

lemma lower_bit: "char_of (of_char (Char b0 b1 b2 b3 b4 False b6 b7) + (32::nat)) = Char b0 b1 b2 b3 b4 True b6 b7"
proof -
  have "of_char (Char b0 b1 b2 b3 b4 False b6 b7) + (32::nat) = of_char (Char b0 b1 b2 b3 b4 True b6 b7)"
    by (simp add: of_char_def)
  then show ?thesis by (simp only: char_of_char)
qed

lemma lower_char_int:
  "lower_char c = (if 65 \<le> int_code c \<and> int_code c \<le> 90 \<or> 192 \<le> int_code c \<and> int_code c \<le> 222 \<and> int_code c \<noteq> 215
     then char_of (code c + 32) else c)"
  by (auto simp: lower_char_def int_code_def)

lemma lower_char_code [code]:
  "lower_char (Char b0 b1 b2 b3 b4 b5 b6 b7) = (let c = Char b0 b1 b2 b3 b4 b5 b6 b7; i = int_code c in
     if 65 \<le> i \<and> i \<le> 90 \<or> 192 \<le> i \<and> i \<le> 222 \<and> i \<noteq> 215
     then if b5 then char_of (code c + 32) else Char b0 b1 b2 b3 b4 True b6 b7 else c)"
  by (cases b5) (simp_all only: lower_char_int Let_def lower_bit if_True if_False)

definition int_digit :: "int \<Rightarrow> char" where
  "int_digit i = digit (nat i)"

lemma digit_texts:
  "digit 0 = CHR ''0''" "digit (Suc 0) = CHR ''1''" "digit 2 = CHR ''2''" "digit 3 = CHR ''3''" "digit 4 = CHR ''4''"
  "digit 5 = CHR ''5''" "digit 6 = CHR ''6''" "digit 7 = CHR ''7''" "digit 8 = CHR ''8''" "digit 9 = CHR ''9''"
  by code_simp+

lemma int_digit_code [code]:
  "int_digit i =
     (if i = 0 then CHR ''0'' else if i = 1 then CHR ''1'' else if i = 2 then CHR ''2'' else if i = 3 then CHR ''3''
      else if i = 4 then CHR ''4'' else if i = 5 then CHR ''5'' else if i = 6 then CHR ''6'' else if i = 7 then CHR ''7''
      else if i = 8 then CHR ''8'' else if i = 9 then CHR ''9'' else digit (nat i))"
  by (simp add: int_digit_def digit_texts)

function dec_of_int :: "int \<Rightarrow> string" where
  "dec_of_int i = (if i < 10 then [int_digit i] else dec_of_int (i div 10) @ [int_digit (i mod 10)])"
  by auto
termination by (relation "measure nat") auto

declare dec_of_int.simps [simp del]

lemma dec_of_int: "0 \<le> i \<Longrightarrow> dec_of_int i = dec (nat i)"
proof (induction i rule: dec_of_int.induct)
  case (1 i)
  have "nat i < 10 \<longleftrightarrow> i < 10" by linarith
  with 1 show ?case
    by (simp add: dec_of_int.simps [of i] dec.simps [of "nat i"] int_digit_def nat_div_distrib nat_mod_distrib)
qed

lemma dec_int_code [code]: "dec_int i = (if i < 0 then CHR ''-'' # dec_of_int (- i) else dec_of_int i)"
  by (simp add: dec_int_def dec_of_int)

lemma is_digit_code [code]:
  "is_digit (Char b0 b1 b2 b3 b4 b5 b6 b7) \<longleftrightarrow> b4 \<and> b5 \<and> \<not> b6 \<and> \<not> b7 \<and> (b3 \<longrightarrow> \<not> b1 \<and> \<not> b2)"
  by (auto simp: is_digit_def of_char_def)

definition int_digit_val :: "char \<Rightarrow> int" where
  "int_digit_val c = int (digit_val c)"

lemma int_digit_val_code [code]:
  "int_digit_val (Char b0 b1 b2 b3 b4 b5 b6 b7) =
     (if b4 \<and> b5 \<and> \<not> b6 \<and> \<not> b7 then of_bool b0 + (if b1 then 2 else 0) + (if b2 then 4 else 0) + (if b3 then 8 else 0)
      else int (digit_val (Char b0 b1 b2 b3 b4 b5 b6 b7)))"
  by (auto simp: int_digit_val_def digit_val_def of_char_def)

definition int_undec :: "string \<Rightarrow> int" where
  "int_undec s = foldl (\<lambda>n c. 10 * n + int_digit_val c) 0 s"

lemma int_undec: "int (undec s) = int_undec s"
proof -
  have "int (foldl (\<lambda>n c. 10 * n + digit_val c) a s) = foldl (\<lambda>n c. 10 * n + int_digit_val c) (int a) s" for a
    by (induction s arbitrary: a) (simp_all add: int_digit_val_def)
  then show ?thesis by (simp add: undec_def int_undec_def)
qed

subsection \<open>\<open>JSON.stringify\<close> of a string\<close>

definition hex_digit :: "nat \<Rightarrow> char" where
  "hex_digit d = (if d < 10 then digit d else char_of (87 + d))"

definition json_escape :: "char \<Rightarrow> string" where
  "json_escape c =
     (if c = CHR 0x22 then [CHR 0x5C, CHR 0x22]
      else if c = CHR 0x5C then [CHR 0x5C, CHR 0x5C]
      else if code c = 8 then [CHR 0x5C, CHR ''b'']
      else if code c = 9 then [CHR 0x5C, CHR ''t'']
      else if code c = 10 then [CHR 0x5C, CHR ''n'']
      else if code c = 12 then [CHR 0x5C, CHR ''f'']
      else if code c = 13 then [CHR 0x5C, CHR ''r'']
      else if code c < 32 then
        [CHR 0x5C, CHR ''u'', CHR ''0'', CHR ''0'', hex_digit (code c div 16), hex_digit (code c mod 16)]
      else [c])"

text \<open>For evaluation: a character above the control characters is decided by its bits.\<close>

definition json_escape_control :: "char \<Rightarrow> string" where
  "json_escape_control c = json_escape c"

lemmas json_escape_control_code [code] = json_escape_control_def [unfolded json_escape_def]

lemma json_escape_code [code]:
  "json_escape (Char b0 b1 b2 b3 b4 b5 b6 b7) =
     (if b5 \<or> b6 \<or> b7 then
        if Char b0 b1 b2 b3 b4 b5 b6 b7 = CHR 0x22 then [CHR 0x5C, CHR 0x22]
        else if Char b0 b1 b2 b3 b4 b5 b6 b7 = CHR 0x5C then [CHR 0x5C, CHR 0x5C]
        else [Char b0 b1 b2 b3 b4 b5 b6 b7]
      else json_escape_control (Char b0 b1 b2 b3 b4 b5 b6 b7))"
  by (auto simp: json_escape_control_def json_escape_def of_char_def)

definition json_quote :: "string \<Rightarrow> string" where
  "json_quote s = CHR 0x22 # concat (map json_escape s) @ [CHR 0x22]"

text \<open>Reading one escaped character back shows that the escapes form a prefix code.\<close>

definition unhex :: "char \<Rightarrow> nat" where
  "unhex c = (if is_digit c then digit_val c else code c - 87)"

definition json_read :: "string \<Rightarrow> (char \<times> string) option" where
  "json_read s = (case s of
      [] \<Rightarrow> None
    | c # r \<Rightarrow>
        if c = CHR 0x22 then None
        else if c \<noteq> CHR 0x5C then Some (c, r)
        else (case r of
            [] \<Rightarrow> None
          | d # r' \<Rightarrow>
              if d = CHR ''b'' then Some (char_of (8::nat), r')
              else if d = CHR ''t'' then Some (char_of (9::nat), r')
              else if d = CHR ''n'' then Some (char_of (10::nat), r')
              else if d = CHR ''f'' then Some (char_of (12::nat), r')
              else if d = CHR ''r'' then Some (char_of (13::nat), r')
              else if d = CHR ''u'' then
                Some (char_of (16 * unhex (r' ! 2) + unhex (r' ! 3)), drop 4 r')
              else Some (d, r')))"

lemma unhex_hex_digit: "d < 16 \<Longrightarrow> unhex (hex_digit d) = d"
  by (auto simp: unhex_def hex_digit_def is_digit_def)

lemma char_of_eq: "code c = n \<Longrightarrow> char_of n = c"
  by auto

lemma json_read_escape: "json_read (json_escape c @ r) = Some (c, r)"
proof -
  have u: "unhex (hex_digit (code c div 16)) = code c div 16"
    "unhex (hex_digit (code c mod 16)) = code c mod 16"
    using nat_of_char_less_256 [of c] by (auto intro!: unhex_hex_digit simp del: nat_of_char_less_256)
  show ?thesis
    by (auto simp: json_read_def json_escape_def u intro: char_of_eq)
qed

lemma json_escape_prefix_code:
  "concat (map json_escape s) @ CHR 0x22 # x = concat (map json_escape t) @ CHR 0x22 # y \<Longrightarrow>
   s = t \<and> x = y"
proof (induction s arbitrary: t)
  case Nil
  have "json_read (CHR 0x22 # x) = None" by (simp add: json_read_def)
  with Nil show ?case
    by (cases t) (auto dest!: arg_cong [where f = json_read] simp: json_read_escape)
next
  case (Cons c s)
  have q: "json_read (CHR 0x22 # y) = None" by (simp add: json_read_def)
  have r: "json_read (concat (map json_escape (c # s)) @ CHR 0x22 # x) =
      Some (c, concat (map json_escape s) @ CHR 0x22 # x)"
    by (simp add: json_read_escape)
  show ?case
  proof (cases t)
    case Nil
    with Cons.prems q r show ?thesis by simp
  next
    case (Cons d t')
    then have "json_read (concat (map json_escape t) @ CHR 0x22 # y) =
        Some (d, concat (map json_escape t') @ CHR 0x22 # y)"
      by (simp add: json_read_escape)
    with r Cons.prems have "c = d"
      "concat (map json_escape s) @ CHR 0x22 # x = concat (map json_escape t') @ CHR 0x22 # y"
      by simp_all
    with Cons.IH Cons show ?thesis by blast
  qed
qed

lemma json_quote_prefix_code: "json_quote s @ x = json_quote t @ y \<Longrightarrow> s = t \<and> x = y"
  using json_escape_prefix_code [of s x t y] by (simp add: json_quote_def)

end
