(* ===== verification/Canonical.thy ===== *)
theory Canonical
  imports Js_Text
begin

section \<open>Canonical JSON (packages/calendar-sync/src/canonical.ts)\<close>

text \<open>
  JSON values and their canonical text. Every fingerprint, basis hash and drift test of the
  program compares canonical texts, so the two facts that matter are that the text does not depend
  on the order in which an object's properties were written, and that two values with the same text
  are the same value up to that order and the normalisation of texts.
\<close>

datatype js_number = Whole int | Fraction | NonFinite

text \<open>
  A number that is finite but no integer is refused whatever its value, so \<open>Fraction\<close> carries none.
  An object is the list of its own properties in the order of \<open>Object.entries\<close>; a property whose
  value is \<open>undefined\<close> has the value \<open>None\<close>.
\<close>

datatype json =
    JNull
  | JBool bool
  | JNum js_number
  | JStr string
  | JArr "json list"
  | JObj "(string \<times> json option) list"

datatype canon_error = NonFiniteNumber | UnsafeInteger | DuplicateKey

text \<open>The value of a property: \<open>undefined\<close> when it is absent.\<close>

definition json_member :: "json \<Rightarrow> string \<Rightarrow> json option" where
  "json_member v k = (case v of JObj ms \<Rightarrow> Option.bind (map_of ms k) (\<lambda>x. x) | _ \<Rightarrow> None)"

definition is_record :: "json \<Rightarrow> bool" where
  "is_record v = (case v of JObj ms \<Rightarrow> True | _ \<Rightarrow> False)"

definition max_safe_integer :: int where
  "max_safe_integer = 9007199254740991"

fun canonicalNumber :: "js_number \<Rightarrow> canon_error + string" where
  "canonicalNumber NonFinite = Inl NonFiniteNumber"
| "canonicalNumber Fraction = Inl UnsafeInteger"
| "canonicalNumber (Whole i) =
     (if \<bar>i\<bar> \<le> max_safe_integer then Inr (dec_int i) else Inl UnsafeInteger)"

fun join_comma :: "string list \<Rightarrow> string" where
  "join_comma [] = []"
| "join_comma [x] = x"
| "join_comma (x # y # ys) = x @ CHR '','' # join_comma (y # ys)"

text \<open>
  Texts and keys are normalised with \<open>normalize("NFC")\<close>, which gives different texts (a composed and a
  decomposed one) the same form. The normalisation is a parameter \<open>nfc\<close> here, and the theorem at the
  end of this theory holds for every one. The strings of this development have characters below 256 only,
  among which there is nothing to compose, so the rest of it uses \<open>normalize_NFC\<close>, the identity.

  The members that are not \<open>undefined\<close>, keys normalised, in the order of the object:
\<close>

fun entries_with :: "(string \<Rightarrow> string) \<Rightarrow> (string \<times> json option) list \<Rightarrow> (string \<times> json) list" where
  "entries_with nfc [] = []"
| "entries_with nfc ((k, None) # ms) = entries_with nfc ms"
| "entries_with nfc ((k, Some v) # ms) = (nfc k, v) # entries_with nfc ms"

definition key_compare :: "string \<times> 'a \<Rightarrow> string \<times> 'a \<Rightarrow> int" where
  "key_compare l r = js_compare (fst l) (fst r)"

lemma size_entries_with:
  "(k, v) \<in> set (entries_with nfc ms) \<Longrightarrow> size v < Suc (size_list (size_prod (\<lambda>_. 0) (size_option size)) ms)"
  by (induction ms rule: entries_with.induct) auto

function (sequential) canonicalizeJson :: "(string \<Rightarrow> string) \<Rightarrow> json \<Rightarrow> canon_error + string" where
  "canonicalizeJson nfc JNull = Inr ''null''"
| "canonicalizeJson nfc (JBool b) = Inr (if b then ''true'' else ''false'')"
| "canonicalizeJson nfc (JNum n) = canonicalNumber n"
| "canonicalizeJson nfc (JStr s) = Inr (json_quote (nfc s))"
| "canonicalizeJson nfc (JArr vs) =
     bindE (mapE (canonicalizeJson nfc) vs) (\<lambda>ts. Inr (CHR ''['' # join_comma ts @ '']''))"
| "canonicalizeJson nfc (JObj ms) =
     (let entries = entries_with nfc ms in
      if length (uniq (map fst entries)) \<noteq> length entries then Inl DuplicateKey
      else bindE
        (mapE (\<lambda>(key, member). bindE (canonicalizeJson nfc member) (\<lambda>t. Inr (json_quote key @ CHR '':'' # t)))
           (js_sort key_compare entries))
        (\<lambda>ts. Inr (CHR ''{'' # join_comma ts @ ''}'')))"
  by pat_completeness auto
termination
proof (relation "measure (size \<circ> snd)", goal_cases)
  case 1
  show ?case by simp
next
  case (2 nfc vs v)
  then show ?case by (induction vs) auto
next
  case (3 nfc ms entries p key member)
  then have "(key, member) \<in> set (entries_with nfc ms)" by simp
  then show ?case using size_entries_with [of key member nfc ms] by simp
qed

text \<open>\<open>createHash("sha256")\<close> is the platform's; its hexadecimal digest is a parameter.\<close>

definition sha256Canonical :: "(string \<Rightarrow> string) \<Rightarrow> json \<Rightarrow> canon_error + string" where
  "sha256Canonical sha256 v = bindE (canonicalizeJson normalize_NFC v) (\<lambda>t. Inr (''sha256:'' @ sha256 t))"

subsection \<open>Normal forms\<close>

text \<open>
  The value that a canonical text stands for: texts and keys normalised, undefined properties dropped,
  the others sorted by key. \<open>render\<close> prints such a value with no further choice to make.
\<close>

datatype norm =
    NNull
  | NBool bool
  | NNum int
  | NStr string
  | NArr "norm list"
  | NObj "(string \<times> norm) list"

function (sequential) normal_form_with :: "(string \<Rightarrow> string) \<Rightarrow> json \<Rightarrow> norm option" where
  "normal_form_with nfc JNull = Some NNull"
| "normal_form_with nfc (JBool b) = Some (NBool b)"
| "normal_form_with nfc (JNum (Whole i)) = (if \<bar>i\<bar> \<le> max_safe_integer then Some (NNum i) else None)"
| "normal_form_with nfc (JNum n) = None"
| "normal_form_with nfc (JStr s) = Some (NStr (nfc s))"
| "normal_form_with nfc (JArr vs) = map_option NArr (those (map (normal_form_with nfc) vs))"
| "normal_form_with nfc (JObj ms) =
     (let entries = entries_with nfc ms in
      if distinct (map fst entries)
      then map_option NObj
        (those (map (\<lambda>(k, v). map_option (Pair k) (normal_form_with nfc v)) (js_sort key_compare entries)))
      else None)"
  by pat_completeness auto
termination
proof (relation "measure (size \<circ> snd)", goal_cases)
  case 1
  show ?case by simp
next
  case (2 nfc vs v)
  then show ?case by (induction vs) auto
next
  case (3 nfc ms entries p key member)
  then have "(key, member) \<in> set (entries_with nfc ms)" by simp
  then show ?case using size_entries_with [of key member nfc ms] by simp
qed

abbreviation normalizedEntries :: "(string \<times> json option) list \<Rightarrow> (string \<times> json) list" where
  "normalizedEntries \<equiv> entries_with normalize_NFC"

abbreviation normal_form :: "json \<Rightarrow> norm option" where
  "normal_form \<equiv> normal_form_with normalize_NFC"

fun render :: "norm \<Rightarrow> string" where
  "render NNull = ''null''"
| "render (NBool b) = (if b then ''true'' else ''false'')"
| "render (NNum i) = dec_int i"
| "render (NStr s) = json_quote s"
| "render (NArr vs) = CHR ''['' # join_comma (map render vs) @ '']''"
| "render (NObj ms) =
     CHR ''{'' # join_comma (map (\<lambda>(k, v). json_quote k @ CHR '':'' # render v) ms) @ ''}''"


interpretation key_order: comparator key_compare
  unfolding key_compare_def by (rule comparator_key)

subsection \<open>The canonical text is the rendering of the normal form\<close>

lemma those_None_iff: "those xs = None \<longleftrightarrow> None \<in> set xs"
  by (induction xs) (auto split: option.splits)

lemma those_Some_iff: "those xs = Some ys \<longleftrightarrow> xs = map Some ys"
  by (induction xs arbitrary: ys) (auto split: option.splits)

lemma mapE_those:
  assumes "\<And>x. x \<in> set xs \<Longrightarrow>
    (case g x of Some n \<Rightarrow> f x = Inr (h n) | None \<Rightarrow> \<exists>e. f x = Inl e)"
  shows "case those (map g xs) of Some ns \<Rightarrow> mapE f xs = Inr (map h ns) | None \<Rightarrow> \<exists>e. mapE f xs = Inl e"
  using assms
proof (induction xs)
  case Nil
  then show ?case by simp
next
  case (Cons x xs)
  from Cons.prems [of x] Cons.IH [OF Cons.prems] show ?case
    by (auto split: option.splits)
qed

lemma canonicalizeJson_normal_form:
  "case normal_form_with nfc v of Some n \<Rightarrow> canonicalizeJson nfc v = Inr (render n) | None \<Rightarrow> \<exists>e. canonicalizeJson nfc v = Inl e"
proof (induction nfc v rule: normal_form_with.induct)
  case (6 nfc vs)
  have "case those (map (normal_form_with nfc) vs) of Some ns \<Rightarrow> mapE (canonicalizeJson nfc) vs = Inr (map render ns)
      | None \<Rightarrow> \<exists>e. mapE (canonicalizeJson nfc) vs = Inl e"
    by (rule mapE_those) (rule 6)
  then show ?case by (auto split: option.splits)
next
  case (7 nfc ms)
  let ?es = "entries_with nfc ms"
  let ?g = "\<lambda>(k, v). map_option (Pair k) (normal_form_with nfc v)"
  let ?f = "\<lambda>(key, member). bindE (canonicalizeJson nfc member) (\<lambda>t. Inr (json_quote key @ CHR '':'' # t))"
  let ?h = "\<lambda>(k, n). json_quote k @ CHR '':'' # render n"
  show ?case
  proof (cases "distinct (map fst ?es)")
    case True
    have "case those (map ?g (js_sort key_compare ?es)) of
        Some ns \<Rightarrow> mapE ?f (js_sort key_compare ?es) = Inr (map ?h ns)
      | None \<Rightarrow> \<exists>e. mapE ?f (js_sort key_compare ?es) = Inl e"
    proof (rule mapE_those)
      fix p
      assume p: "p \<in> set (js_sort key_compare ?es)"
      obtain k v where kv: "p = (k, v)" by force
      have "case normal_form_with nfc v of Some n \<Rightarrow> canonicalizeJson nfc v = Inr (render n)
          | None \<Rightarrow> \<exists>e. canonicalizeJson nfc v = Inl e"
        by (rule 7 [OF refl True p kv [symmetric]])
      then show "case ?g p of Some n \<Rightarrow> ?f p = Inr (?h n) | None \<Rightarrow> \<exists>e. ?f p = Inl e"
        by (auto simp: kv split: option.splits)
    qed
    with True show ?thesis
      by (auto simp: Let_def length_uniq_iff [of "map fst ?es", simplified] split: option.splits)
  next
    case False
    then show ?thesis by (simp add: Let_def length_uniq_iff [of "map fst ?es", simplified])
  qed
qed auto

subsection \<open>Renderings are a prefix code\<close>

definition json_delim :: "string \<Rightarrow> bool" where
  "json_delim r \<longleftrightarrow> r = [] \<or> hd r \<in> {CHR '','', CHR '']'', CHR ''}''}"

lemma json_delim_no_digit: "json_delim r \<Longrightarrow> no_digit_front r"
  by (auto simp: json_delim_def no_digit_front_def is_digit_def)

text \<open>The first character of a rendering tells the kinds of values apart.\<close>

fun tag :: "norm \<Rightarrow> nat" where
  "tag NNull = 0" | "tag (NBool b) = (if b then 1 else 2)" | "tag (NNum i) = 3"
| "tag (NStr s) = 4" | "tag (NArr vs) = 5" | "tag (NObj ms) = 6"

definition tag_of_char :: "char \<Rightarrow> nat" where
  "tag_of_char c =
     (if c = CHR ''n'' then 0 else if c = CHR ''t'' then 1 else if c = CHR ''f'' then 2
      else if c = CHR 0x22 then 4 else if c = CHR ''['' then 5 else if c = CHR ''{'' then 6 else 3)"

lemma tag_dec_int: "tag_of_char (hd (dec_int i @ r)) = 3"
  using hd_dec_digit [of "nat i" r]
  by (auto simp: dec_int_def tag_of_char_def is_digit_def)

lemma tag_render: "tag_of_char (hd (render n @ r)) = tag n"
  by (cases n) (simp_all add: tag_dec_int [simplified] json_quote_def, simp_all add: tag_of_char_def)

lemma render_nonempty: "render n \<noteq> []"
  by (cases n) (auto simp: dec_int_def json_quote_def)

text \<open>Comma-separated lists of prefix codes, closed by a bracket, are a prefix code.\<close>

lemma join_comma_prefix_code:
  assumes pre: "\<And>a b x y. a \<in> set as \<Longrightarrow> f a @ x = f b @ y \<Longrightarrow> json_delim x \<Longrightarrow> json_delim y \<Longrightarrow> a = b \<and> x = y"
    and start: "\<And>a. f a \<noteq> [] \<and> hd (f a) \<notin> {CHR '','', CHR '']'', CHR ''}''}"
    and close: "c \<in> {CHR '']'', CHR ''}''}"
    and eq: "join_comma (map f as) @ c # x = join_comma (map f bs) @ c # y"
  shows "as = bs \<and> x = y"
  using pre eq
proof (induction as arbitrary: bs)
  case Nil
  have "hd (join_comma (map f bs) @ c # y) \<noteq> c" if "bs \<noteq> []"
    using that start close
    by (cases bs rule: remdups_adj.cases) (auto simp: hd_append)
  with Nil(2) have "bs = []" by (metis append_Nil join_comma.simps(1) list.sel(1) list.simps(8))
  with Nil(2) show ?case by simp
next
  case (Cons a as)
  show ?case
  proof (cases bs)
    case Nil
    have "hd (join_comma (map f (a # as)) @ c # x) \<noteq> c"
      using start [of a] close by (cases as) (auto simp: hd_append)
    with Cons.prems(2) Nil show ?thesis by simp
  next
    case bs: (Cons b bs')
    define u where "u = (if as = [] then c # x else CHR '','' # join_comma (map f as) @ c # x)"
    define v where "v = (if bs' = [] then c # y else CHR '','' # join_comma (map f bs') @ c # y)"
    have "f a @ u = f b @ v"
      using Cons.prems(2) bs unfolding u_def v_def by (cases as; cases bs') auto
    moreover have "json_delim u" "json_delim v"
      using close by (auto simp: u_def v_def json_delim_def)
    ultimately have ab: "a = b" "u = v" using Cons.prems(1) [of a u b v] by auto
    have comma: "c \<noteq> CHR '',''" using close by auto
    from \<open>u = v\<close> comma have "join_comma (map f as) @ c # x = join_comma (map f bs') @ c # y"
      by (auto simp: u_def v_def split: if_splits)
    then have "as = bs' \<and> x = y" using Cons.IH [of bs'] Cons.prems(1) by auto
    with ab bs show ?thesis by simp
  qed
qed

lemma start_render: "render n \<noteq> [] \<and> hd (render n) \<notin> {CHR '','', CHR '']'', CHR ''}''}"
proof -
  have *: "is_digit c \<Longrightarrow> c \<notin> {CHR '','', CHR '']'', CHR ''}''}" for c
    by (auto simp: is_digit_def)
  show ?thesis
    using * [OF hd_dec_digit [of _ "[]"]]
    by (cases n) (auto simp: render_nonempty json_quote_def dec_int_def)
qed

lemma render_prefix_code:
  "render m @ x = render n @ y \<Longrightarrow> json_delim x \<Longrightarrow> json_delim y \<Longrightarrow> m = n \<and> x = y"
proof (induction m arbitrary: n x y)
  case NNull
  then have "tag n = 0" using tag_render [of NNull x] tag_render [of n y] by simp
  then have "n = NNull" by (cases n) (auto split: if_splits)
  with NNull show ?case by simp
next
  case (NBool b)
  then have "tag n = tag (NBool b)" using tag_render [of "NBool b" x] tag_render [of n y] by simp
  then have "n = NBool b" by (cases n) (auto split: if_splits)
  with NBool show ?case by simp
next
  case (NNum i)
  then have "tag n = 3" using tag_render [of "NNum i" x] tag_render [of n y] by simp
  then obtain j where n: "n = NNum j" by (cases n) (auto split: if_splits)
  with NNum have "dec_int i @ x = dec_int j @ y" by simp
  then have "i = j \<and> x = y"
    by (rule dec_int_prefix_code) (use NNum json_delim_no_digit in auto)
  with n show ?case by simp
next
  case (NStr s)
  then have "tag n = 4" using tag_render [of "NStr s" x] tag_render [of n y] by simp
  then obtain t where n: "n = NStr t" by (cases n) (auto split: if_splits)
  with NStr show ?case using json_quote_prefix_code [of s x t y] by simp
next
  case (NArr vs)
  then have "tag n = 5" using tag_render [of "NArr vs" x] tag_render [of n y] by simp
  then obtain ws where n: "n = NArr ws" by (cases n) (auto split: if_splits)
  with NArr.prems(1) have "join_comma (map render vs) @ CHR '']'' # x = join_comma (map render ws) @ CHR '']'' # y"
    by simp
  then have "vs = ws \<and> x = y"
    by (rule join_comma_prefix_code [rotated -1]) (use NArr.IH start_render in auto)
  with n show ?case by simp
next
  case (NObj ms)
  let ?f = "\<lambda>(k, v). json_quote k @ CHR '':'' # render v"
  from NObj have "tag n = 6" using tag_render [of "NObj ms" x] tag_render [of n y] by simp
  then obtain ns where n: "n = NObj ns" by (cases n) (auto split: if_splits)
  with NObj.prems(1) have "join_comma (map ?f ms) @ CHR ''}'' # x = join_comma (map ?f ns) @ CHR ''}'' # y"
    by simp
  then have "ms = ns \<and> x = y"
  proof (rule join_comma_prefix_code [rotated -1])
    fix a b u v
    assume a: "a \<in> set ms" and eq: "?f a @ u = ?f b @ v" and d: "json_delim u" "json_delim v"
    obtain k w k' w' where [simp]: "a = (k, w)" "b = (k', w')" by force
    from eq have "json_quote k @ CHR '':'' # render w @ u = json_quote k' @ CHR '':'' # render w' @ v"
      by simp
    then have k: "k = k'" and r: "render w @ u = render w' @ v"
      using json_quote_prefix_code by blast+
    have "w = w' \<and> u = v"
      by (rule NObj.IH [of a w, OF a _ r d]) simp
    with k show "a = b \<and> u = v" by simp
  next
    fix a
    show "?f a \<noteq> [] \<and> hd (?f a) \<notin> {CHR '','', CHR '']'', CHR ''}''}"
      by (cases a) (simp add: json_quote_def)
  qed simp
  with n show ?case by simp
qed

lemma render_inject: "render m = render n \<longleftrightarrow> m = n"
  using render_prefix_code [of m "[]" n "[]"] by (auto simp: json_delim_def)

lemma canonicalizeJson_Inr_iff:
  "canonicalizeJson nfc v = Inr s \<longleftrightarrow> (\<exists>n. normal_form_with nfc v = Some n \<and> s = render n)"
  using canonicalizeJson_normal_form [of nfc v] by (auto split: option.splits)

subsection \<open>What the canonical text promises\<close>

lemma normalize_NFC_simp [simp]: "normalize_NFC s = s"
  by (simp add: normalize_NFC_def)

lemma mset_normalizedEntries:
  "mset (normalizedEntries ms) = mset (List.map_filter (\<lambda>(k, v). map_option (Pair k) v) ms)"
  by (induction normalize_NFC ms rule: entries_with.induct)
    (auto simp: normalize_NFC_def List.map_filter_simps)

lemma mset_map_filter: "mset xs = mset ys \<Longrightarrow> mset (List.map_filter f xs) = mset (List.map_filter f ys)"
  by (simp add: List.map_filter_def mset_filter)

lemma normalizedEntries_perm: "mset ms = mset ms' \<Longrightarrow> mset (normalizedEntries ms) = mset (normalizedEntries ms')"
  unfolding mset_normalizedEntries by (rule mset_map_filter)

lemma sort_entries_perm:
  assumes "mset es = mset es'" "distinct (map fst es)"
  shows "js_sort key_compare es = js_sort key_compare es'"
proof (rule key_order.sort_cong_on [OF assms(1)])
  fix p q
  assume "p \<in> set es" "q \<in> set es" "key_compare p q \<le> 0" "key_compare q p \<le> 0"
  then have "fst p = fst q" "p \<in> set es" "q \<in> set es" by (auto simp: key_compare_def)
  with assms(2) show "p = q" by (metis distinct_map inj_onD)
qed

lemma canonicalizeJson_object_order:
  assumes "mset ms = mset ms'"
  shows "canonicalizeJson normalize_NFC (JObj ms) = canonicalizeJson normalize_NFC (JObj ms')"
proof -
  let ?es = "normalizedEntries ms" and ?es' = "normalizedEntries ms'"
  have perm: "mset ?es = mset ?es'" using assms by (rule normalizedEntries_perm)
  then have "mset (map fst ?es) = mset (map fst ?es')" by (metis mset_map)
  then have dist: "distinct (map fst ?es) = distinct (map fst ?es')"
    by (rule mset_eq_imp_distinct_iff)
  have "js_sort key_compare ?es = js_sort key_compare ?es'" if "distinct (map fst ?es)"
    using perm that by (rule sort_entries_perm)
  with dist show ?thesis
    by (simp add: Let_def length_uniq_iff [of "map fst ?es", simplified]
        length_uniq_iff [of "map fst ?es'", simplified])
qed

lemma sha256Canonical_cong:
  "canonicalizeJson normalize_NFC v = canonicalizeJson normalize_NFC w \<Longrightarrow> sha256Canonical sha256 v = sha256Canonical sha256 w"
  by (simp add: sha256Canonical_def)

subsection \<open>Reading a property back\<close>

text \<open>
  The normal form of an object determines the normal form of each of its properties. This is how
  the equality of two canonical texts is turned into the equality of the records they encode.
\<close>

definition member_form :: "(string \<times> json option) list \<Rightarrow> string \<Rightarrow> norm option" where
  "member_form ms k = (case map_of ms k of Some (Some v) \<Rightarrow> normal_form v | _ \<Rightarrow> None)"

lemma map_of_normalizedEntries:
  "distinct (map fst ms) \<Longrightarrow>
   map_of (normalizedEntries ms) k = (case map_of ms k of Some (Some v) \<Rightarrow> Some v | _ \<Rightarrow> None)"
proof (induction normalize_NFC ms rule: entries_with.induct)
  case (2 k' ms)
  then have "map_of ms k' = None" by (simp add: map_of_eq_None_iff)
  with 2 show ?case by auto
qed (auto simp: normalize_NFC_def)

lemma map_of_js_sort: "distinct (map fst es) \<Longrightarrow> map_of (js_sort cmp es) = map_of es"
proof (rule ext)
  fix k
  assume d: "distinct (map fst es)"
  have "mset (map fst (js_sort cmp es)) = mset (map fst es)" by simp
  then have "distinct (map fst (js_sort cmp es))" using d by (metis mset_eq_imp_distinct_iff)
  then show "map_of (js_sort cmp es) k = map_of es k"
    using d by (metis map_of_eq_Some_iff not_Some_eq set_js_sort)
qed

lemma map_of_entry_forms:
  "map (\<lambda>(k, v). map_option (Pair k) (normal_form v)) es = map Some l \<Longrightarrow>
   map_of l k = Option.bind (map_of es k) normal_form"
  by (induction es arbitrary: l) (auto simp: map_eq_Cons_conv)

lemma normal_form_member:
  assumes "normal_form (JObj ms) = Some n" "distinct (map fst ms)"
  shows "\<exists>l. n = NObj l \<and> map_of l k = member_form ms k"
proof -
  let ?es = "normalizedEntries ms"
  from assms(1) obtain l where n: "n = NObj l" and d: "distinct (map fst ?es)" and
    l: "map (\<lambda>(k, v). map_option (Pair k) (normal_form v)) (js_sort key_compare ?es) = map Some l"
    by (auto simp: Let_def those_Some_iff split: if_splits)
  have "map_of l k = Option.bind (map_of ?es k) normal_form"
    using map_of_entry_forms [OF l, of k] map_of_js_sort [OF d] by simp
  then show ?thesis
    using n by (auto simp: map_of_normalizedEntries [OF assms(2)] member_form_def split: option.splits)
qed

lemma member_form_eq:
  assumes "normal_form (JObj ms) = normal_form (JObj ms')" "normal_form (JObj ms) \<noteq> None"
    and "distinct (map fst ms)" "distinct (map fst ms')"
  shows "member_form ms k = member_form ms' k"
  using assms normal_form_member [of ms _ k] normal_form_member [of ms' _ k] by fastforce

lemma member_form_simps [simp]:
  "member_form ((k, v) # ms) k' = (if k' = k then Option.bind v normal_form else member_form ms k')"
  "member_form [] k' = None"
  by (auto simp: member_form_def split: option.splits)

lemma normalizedEntries_mem: "(k, Some v) \<in> set ms \<Longrightarrow> (k, v) \<in> set (normalizedEntries ms)"
  by (induction normalize_NFC ms rule: entries_with.induct) (auto simp: normalize_NFC_def)

lemma normal_form_member_Some:
  assumes "normal_form (JObj ms) \<noteq> None" "(k, Some v) \<in> set ms"
  shows "normal_form v \<noteq> None"
proof -
  let ?g = "\<lambda>(k, v). map_option (Pair k) (normal_form v)"
  from assms(1) obtain l where "map ?g (js_sort key_compare (normalizedEntries ms)) = map Some l"
    by (auto simp: Let_def those_Some_iff split: if_splits)
  moreover have "?g (k, v) \<in> set (map ?g (js_sort key_compare (normalizedEntries ms)))"
    using normalizedEntries_mem [OF assms(2)] by (force simp only: set_map set_js_sort)
  ultimately show ?thesis by auto
qed

text \<open>
  C8: Whatever the normalisation of texts is, two JSON values have the same canonical text exactly when
  they denote the same document: equal after texts and keys are normalised, \<open>undefined\<close> properties are
  dropped and the properties of every object are put in key order. The text loses nothing but that.
\<close>

theorem canonical_text_is_faithful:
  assumes "canonicalizeJson nfc v = Inr s"
  shows "canonicalizeJson nfc w = Inr s \<longleftrightarrow> normal_form_with nfc w = normal_form_with nfc v"
  using assms by (auto simp: canonicalizeJson_Inr_iff render_inject)

text \<open>A normalisation that composes the letter e with an accent after it.\<close>

fun compose_acute :: "string \<Rightarrow> string" where
  "compose_acute (c # d # s) = (if c = CHR ''e'' \<and> d = CHR 0xB4 then CHR 0xE9 # compose_acute s else c # compose_acute (d # s))"
| "compose_acute s = s"

theorem canonical_text_is_faithful_witness:
  "canonicalizeJson compose_acute (JObj [(''b'', Some (JStr [CHR ''e'', CHR 0xB4])), (''c'', None), (''a'', Some JNull)])
     = Inr (''{'' @ json_quote ''a'' @ '':null,'' @ json_quote ''b'' @ '':'' @ json_quote [CHR 0xE9] @ ''}'')
   \<and> normal_form_with compose_acute (JObj [(''a'', Some JNull), (''b'', Some (JStr [CHR 0xE9]))])
     = normal_form_with compose_acute (JObj [(''b'', Some (JStr [CHR ''e'', CHR 0xB4])), (''c'', None), (''a'', Some JNull)])"
proof -
  have v: "canonicalizeJson compose_acute (JObj [(''b'', Some (JStr [CHR ''e'', CHR 0xB4])), (''c'', None), (''a'', Some JNull)])
     = Inr (''{'' @ json_quote ''a'' @ '':null,'' @ json_quote ''b'' @ '':'' @ json_quote [CHR 0xE9] @ ''}'')"
    by code_simp
  have w: "canonicalizeJson compose_acute (JObj [(''a'', Some JNull), (''b'', Some (JStr [CHR 0xE9]))])
     = Inr (''{'' @ json_quote ''a'' @ '':null,'' @ json_quote ''b'' @ '':'' @ json_quote [CHR 0xE9] @ ''}'')"
    by code_simp
  show ?thesis
    using v w canonical_text_is_faithful [OF v, of "JObj [(''a'', Some JNull), (''b'', Some (JStr [CHR 0xE9]))]"]
    by blast
qed

end
