(* ===== verification/Sync_Types.thy ===== *)
theory Sync_Types
  imports Canonical
begin

section \<open>The shared data model (packages/calendar-sync/src/types.ts)\<close>

text \<open>
  The interfaces of the Calendar Sync contract: a record per interface, a datatype per union of
  string literals. Instants, local dates and local times stay the strings they are in the code;
  the components parse them where the code does. An optional property is an \<open>option\<close>. A literal
  type with one value (\<open>version: 1\<close>, \<open>reminders: []\<close>, \<open>send_notifications: false\<close>) carries no
  information and has no field.
\<close>

record instant_interval =
  iv_start :: string
  iv_end :: string

record local_interval =
  li_start :: string
  li_end :: string
  end_day_offset :: int

record weekly_interval =
  weekday :: int
  w_start :: string
  w_end :: string
  w_end_day_offset :: int

datatype exception_kind = Replace | AddIntervals | Remove

datatype hours_exception =
    Closed (ex_date: string)
  | Adjust exception_kind (ex_date: string) (ex_intervals: "local_interval list")

datatype dst_ambiguous = EarlierOffset | LaterOffset
datatype dst_nonexistent = RejectGap | ShiftForwardByGap

record hours_profile =
  profile_ref :: string
  profile_revision :: int
  timezone :: string
  ambiguous :: dst_ambiguous
  nonexistent :: dst_nonexistent
  weekly :: "weekly_interval list"
  exceptions :: "hours_exception list"

datatype hours_mode = AllTimes | OverlapsProfile | ContainedInProfile

datatype reason_code =
    policy_disabled | policy_paused | policy_review_required
  | invalid_same_calendar | invalid_unwritable_destination | invalid_hours_profile
  | invalid_source_event | invalid_privacy_transform | unsupported_destination_capability
  | outside_horizon | source_deleted | source_cancelled | managed_copy | manual_exclusion
  | nosync | already_invited | timed_event_disabled | timed_event_included
  | all_day | all_day_free | all_day_busy_included | all_day_included
  | free | free_preserved | free_forced_busy
  | rsvp_declined | rsvp_accepted | rsvp_tentative_busy | rsvp_tentative_free
  | rsvp_unanswered_busy | rsvp_unanswered_free | organizer_assumed_accepted
  | rsvp_unanswered_omitted | rsvp_tentative_omitted
  | all_times | overlaps_hours | contained_in_hours | outside_hours | not_contained_in_hours
  | dst_ambiguous_earlier | dst_ambiguous_later | dst_nonexistent_shifted | dst_resolution_rejected
  | privacy_busy_only | privacy_commitment | privacy_private_details | privacy_shared_details
  | create_missing_copy | update_source_change | restore_destination_missing
  | restore_destination_drift | delete_source_removed | delete_policy_exclusion
  | no_change | detached_no_action | ambiguous_ownership

record hours_evaluation_input =
  he_mode :: hours_mode
  he_event :: instant_interval
  he_profile :: "hours_profile option"

record hours_evaluation_result =
  he_included :: bool
  he_reason :: reason_code
  he_concrete :: "instant_interval list"
  he_matched :: "instant_interval list"
  he_diagnostics :: "reason_code list"

record hours_materialization_input =
  hm_profile :: hours_profile
  hm_start_date :: string
  hm_end_date_exclusive :: string

record hours_materialization_result =
  hm_concrete :: "instant_interval list"
  hm_diagnostics :: "reason_code list"

subsection \<open>Events\<close>

datatype event_timing =
    Timed (start_instant: string) (end_instant: string) (start_tzid: string) (end_tzid: string)
  | AllDay (start_date: string) (end_date: string) (day_timezone: string)

fun is_timed :: "event_timing \<Rightarrow> bool" where
  "is_timed (Timed s e z z') = True"
| "is_timed (AllDay s e z) = False"

record event_content =
  c_summary :: "string option"
  c_description :: "string option"
  c_location :: "string option"
  c_conference :: "string option"

datatype lifecycle = Confirmed | Cancelled | Deleted
datatype origin = ProviderOriginal | PlanipusManaged
datatype availability = Busy | Free
datatype role = Organizer | Attendee | NoRole
datatype response = Accepted | Tentative | Declined | NeedsAction | NotApplicable

record relationship =
  r_role :: role
  r_response :: response
  r_note :: "string option"

record recurrence =
  series_ref :: string
  original_start :: string

record source_observation =
  source_event_ref :: string
  source_occurrence_ref :: string
  remote_revision :: string
  s_lifecycle :: lifecycle
  s_origin :: origin
  s_timing :: "event_timing option"
  s_recurrence :: "recurrence option"
  s_availability :: "availability option"
  s_relationship :: relationship
  destination_identity_invited :: bool
  s_content :: event_content
  s_attendees :: "string list option"
  s_organizer :: "string option"
  s_attachments :: "string list option"
  s_source_url :: "string option"
  s_provider_metadata :: "json option"

subsection \<open>Policies\<close>

datatype privacy_preset = BusyOnly | Commitment | PrivateDetails | SharedDetails

record privacy_policy =
  preset :: privacy_preset
  generic_summary :: string
  copy_summary :: bool
  copy_description :: bool
  copy_location :: bool
  copy_conference :: bool
  copy_attendees :: bool
  copy_organizer :: bool

datatype timed_selection = IncludeTimed | SkipTimed
datatype all_day_selection = SkipAllDay | BusyAllDay | EveryAllDay
datatype free_selection = SkipWhenRedacted | PreserveFree | ForceBusy
datatype rsvp_selection = AsBusy | AsFree | Omit

record selection_policy =
  sel_timed :: timed_selection
  sel_all_day :: all_day_selection
  sel_free_events :: free_selection
  sel_tentative :: rsvp_selection
  sel_unanswered :: rsvp_selection
  skip_when_invited :: bool
  source_exclusion_marker :: string
  manual_exclusions :: "string list"

datatype policy_state = Active | Paused | Disabled | ReviewRequired

datatype edit_mode = Restore | RestoreAndNotify | HoldForReview

record destination_edit_policy =
  on_edit :: edit_mode
  on_delete :: edit_mode

record sync_policy =
  policy_ref :: string
  policy_revision :: int
  state :: policy_state
  source_calendar_ref :: string
  destination_calendar_ref :: string
  hours_mode :: hours_mode
  hours_profile_ref :: "string option"
  privacy :: privacy_policy
  selection :: selection_policy
  destination_color :: "string option"
  destination_edits :: "destination_edit_policy option"

record destination_capabilities =
  writable :: bool
  private_visibility :: bool
  conference_copy :: bool
  color_capable :: bool

subsection \<open>Copies and results\<close>

datatype transparency = Opaque | Transparent
datatype visibility = PrivateVis | DefaultVis

record provenance =
  prov_policy_ref :: string
  prov_projection_ref :: string
  prov_generation :: int

record desired_copy =
  d_timing :: event_timing
  d_summary :: string
  d_description :: "string option"
  d_location :: "string option"
  d_conference :: "string option"
  d_transparency :: transparency
  d_visibility :: visibility
  d_color :: "string option"
  d_provenance :: provenance

record disclosure_manifest =
  dm_preset :: privacy_preset
  source_fields_read :: "string list"
  source_fields_disclosed :: "string list"
  destination_fields_written :: "string list"
  source_fields_omitted :: "string list"

datatype ownership = Unowned | Attached | Detached | Ambiguous

record projection_input =
  p_ownership :: ownership
  p_projection_ref :: "string option"
  p_generation :: "int option"
  p_destination_event_ref :: "string option"
  p_destination_exists :: "bool option"
  p_desired_fingerprint :: "string option"
  p_observed_copy :: "desired_copy option"

record policy_evaluation_input =
  now :: string
  horizon :: instant_interval
  candidate_projection_ref :: string
  policy :: sync_policy
  hours_profile :: "hours_profile option"
  source :: source_observation
  projection :: projection_input
  capabilities :: destination_capabilities

datatype evaluation_selection = Included | Excluded | Held | Invalid
datatype evaluation_operation = Create | Update | Delete | NoOperation

record policy_evaluation_result =
  res_selection :: evaluation_selection
  res_operation :: evaluation_operation
  primary_reason_code :: reason_code
  reason_codes :: "reason_code list"
  res_desired_copy :: "desired_copy option"
  res_desired_fingerprint :: "string option"
  res_disclosure :: "disclosure_manifest option"
  res_warnings :: "reason_code list"

end
