(* ===== verification/Js_Date.thy ===== *)
theory Js_Date
  imports Js_Text
begin

section \<open>JavaScript dates\<close>

text \<open>
  The part of \<open>Date\<close> the code uses, after ECMAScript: a time value is a number of milliseconds
  since the epoch, \<open>toISOString\<close> prints it in UTC, \<open>Date.parse\<close> reads it back. The planning engine
  compares printed instants as strings, so the order of the texts has to be the order of the times;
  this is proved here for the years 0 to 9999, where the year has four digits.
\<close>

definition day_from_year :: "int \<Rightarrow> int" where
  "day_from_year y =
     365 * (y - 1970) + (y - 1969) div 4 - (y - 1901) div 100 + (y - 1601) div 400"

definition leap :: "int \<Rightarrow> bool" where
  "leap y \<longleftrightarrow> y mod 4 = 0 \<and> (y mod 100 \<noteq> 0 \<or> y mod 400 = 0)"

definition year_from_day :: "int \<Rightarrow> int" where
  "year_from_day d =
     (let y = d * 400 div 146097 + 1970
      in if d < day_from_year y then y - 1 else if day_from_year (y + 1) \<le> d then y + 1 else y)"

text \<open>Days of the year before a month (1 to 12), and the month of a day of the year.\<close>

definition month_start :: "bool \<Rightarrow> int \<Rightarrow> int" where
  "month_start l m =
     (let e = (if l then 1 else 0) in
      if m \<le> 1 then 0 else if m = 2 then 31 else if m = 3 then 59 + e else if m = 4 then 90 + e
      else if m = 5 then 120 + e else if m = 6 then 151 + e else if m = 7 then 181 + e
      else if m = 8 then 212 + e else if m = 9 then 243 + e else if m = 10 then 273 + e
      else if m = 11 then 304 + e else if m = 12 then 334 + e else 365 + e)"

definition month_from_day :: "bool \<Rightarrow> int \<Rightarrow> int" where
  "month_from_day l n =
     (let e = (if l then 1 else 0) in
      if n < 31 then 1 else if n < 59 + e then 2 else if n < 90 + e then 3 else if n < 120 + e then 4
      else if n < 151 + e then 5 else if n < 181 + e then 6 else if n < 212 + e then 7
      else if n < 243 + e then 8 else if n < 273 + e then 9 else if n < 304 + e then 10
      else if n < 334 + e then 11 else 12)"

definition civil_from_day :: "int \<Rightarrow> int \<times> int \<times> int" where
  "civil_from_day d =
     (let y = year_from_day d; n = d - day_from_year y; m = month_from_day (leap y) n
      in (y, m, n - month_start (leap y) m + 1))"

definition day_from_civil :: "int \<Rightarrow> int \<Rightarrow> int \<Rightarrow> int" where
  "day_from_civil y m d = day_from_year y + month_start (leap y) m + d - 1"

definition ms_per_day :: int where
  "ms_per_day = 86400000"

text \<open>\<open>pad\<close> for the fields of a date, which are not negative.\<close>

definition padi :: "nat \<Rightarrow> int \<Rightarrow> string" where
  "padi k i = pad k (nat i)"

fun pad_of_int :: "nat \<Rightarrow> int \<Rightarrow> string" where
  "pad_of_int 0 i = []"
| "pad_of_int (Suc k) i = pad_of_int k (i div 10) @ [int_digit (i mod 10)]"

lemma pad_of_int: "0 \<le> i \<Longrightarrow> pad_of_int k i = pad k (nat i)"
  by (induction k arbitrary: i) (simp_all add: int_digit_def nat_div_distrib nat_mod_distrib)

lemma padi_code [code]: "padi k i = pad_of_int k (max 0 i)"
  by (cases "0 \<le> i") (simp_all add: padi_def pad_of_int max_def)

definition year_text :: "int \<Rightarrow> string" where
  "year_text y = (if 0 \<le> y \<and> y \<le> 9999 then padi 4 y
     else if y < 0 then CHR ''-'' # padi 6 (- y) else CHR ''+'' # padi 6 y)"

definition date_text :: "int \<Rightarrow> string" where
  "date_text d = (case civil_from_day d of (y, m, dd) \<Rightarrow> year_text y @ ''-'' @ padi 2 m @ ''-'' @ padi 2 dd)"

definition time_text :: "int \<Rightarrow> string" where
  "time_text n = padi 2 (n div 3600000) @ '':'' @ padi 2 (n div 60000 mod 60) @ '':''
     @ padi 2 (n div 1000 mod 60) @ ''.'' @ padi 3 (n mod 1000)"

definition toISOString :: "int \<Rightarrow> string" where
  "toISOString t = date_text (t div ms_per_day) @ ''T'' @ time_text (t mod ms_per_day) @ ''Z''"

subsection \<open>The calendar\<close>

lemma div_succ:
  assumes "0 < (n::int)"
  shows "(x + 1) div n = x div n + (if n dvd x + 1 then 1 else 0)"
proof -
  define q r where "q = x div n" and "r = x mod n"
  then have x: "x + 1 = n * q + (r + 1)" and r: "0 \<le> r" "r < n" using assms by auto
  show ?thesis
  proof (cases "r + 1 < n")
    case True
    then have "(x + 1) mod n = r + 1" "(x + 1) div n = q"
      using x r by (auto intro: int_mod_pos_eq int_div_pos_eq)
    with r show ?thesis by (simp add: q_def dvd_eq_mod_eq_0)
  next
    case False
    then have "x + 1 = n * (q + 1)" using x r by (simp add: algebra_simps)
    with assms show ?thesis by (simp add: q_def)
  qed
qed

lemma leap_count:
  "(R \<Longrightarrow> Q) \<Longrightarrow> (Q \<Longrightarrow> P) \<Longrightarrow>
   365 * (y + 1 - 1970) + (a + (if P then 1 else 0)) - (b + (if Q then 1 else 0)) + (c + (if R then 1 else 0))
   = 365 * (y - 1970) + a - b + c + (if P \<and> (\<not> Q \<or> R) then 366 else (365::int))"
  by (cases P; cases Q; cases R) simp_all

lemma day_from_year_step: "day_from_year (y + 1) = day_from_year y + (if leap y then 366 else 365)"
proof -
  define a b c where "a = (y - 1969) div 4" and "b = (y - 1901) div 100" and "c = (y - 1601) div 400"
  have d: "4 dvd y - 1969 + 1 \<longleftrightarrow> 4 dvd y" "100 dvd y - 1901 + 1 \<longleftrightarrow> 100 dvd y"
    "400 dvd y - 1601 + 1 \<longleftrightarrow> 400 dvd y"
    using dvd_add_left_iff [of 4 "- 1968" y] dvd_add_left_iff [of 100 "- 1900" y]
      dvd_add_left_iff [of 400 "- 1600" y] by simp_all
  have t: "400 dvd y \<Longrightarrow> 100 dvd y" "100 dvd y \<Longrightarrow> 4 dvd y"
    using dvd_trans [of 100 400 y] dvd_trans [of 4 100 y] by simp_all
  have e: "y + 1 - 1969 = y - 1969 + 1" "y + 1 - 1901 = y - 1901 + 1" "y + 1 - 1601 = y - 1601 + 1"
    by simp_all
  have a: "(y + 1 - 1969) div 4 = a + (if 4 dvd y then 1 else 0)"
    unfolding a_def e d(1) [symmetric] by (rule div_succ) simp
  have b: "(y + 1 - 1901) div 100 = b + (if 100 dvd y then 1 else 0)"
    unfolding b_def e d(2) [symmetric] by (rule div_succ) simp
  have c: "(y + 1 - 1601) div 400 = c + (if 400 dvd y then 1 else 0)"
    unfolding c_def e d(3) [symmetric] by (rule div_succ) simp
  have l: "leap y \<longleftrightarrow> 4 dvd y \<and> (\<not> 100 dvd y \<or> 400 dvd y)"
    by (simp only: leap_def dvd_eq_mod_eq_0)
  show ?thesis
    unfolding day_from_year_def a b c l a_def [symmetric] b_def [symmetric] c_def [symmetric]
    by (rule leap_count) (fact t)+
qed

lemma day_from_year_mono: "y \<le> z \<Longrightarrow> day_from_year y + 365 * (z - y) \<le> day_from_year z"
proof (induction z rule: int_ge_induct)
  case base
  then show ?case by simp
next
  case (step z)
  then show ?case by (simp add: day_from_year_step)
qed

lemma div_bounds: "0 < (n::int) \<Longrightarrow> n * (x div n) \<le> x \<and> x < n * (x div n) + n"
  using mult_div_mod_eq [of n x] pos_mod_bound [of n x] pos_mod_sign [of n x] by linarith

lemma day_from_year_bounds:
  "146097 * (y - 1970) - 800 \<le> 400 * day_from_year y \<and>
   400 * day_from_year y \<le> 146097 * (y - 1970) + 800"
proof -
  define a b c where "a = (y - 1969) div 4" and "b = (y - 1901) div 100" and "c = (y - 1601) div 400"
  have "4 * a \<le> y - 1969 \<and> y - 1969 < 4 * a + 4" unfolding a_def by (rule div_bounds) simp
  moreover have "100 * b \<le> y - 1901 \<and> y - 1901 < 100 * b + 100" unfolding b_def by (rule div_bounds) simp
  moreover have "400 * c \<le> y - 1601 \<and> y - 1601 < 400 * c + 400" unfolding c_def by (rule div_bounds) simp
  ultimately show ?thesis
    unfolding day_from_year_def a_def [symmetric] b_def [symmetric] c_def [symmetric] by simp
qed

lemma year_from_day_correct:
  "day_from_year (year_from_day d) \<le> d \<and> d < day_from_year (year_from_day d + 1)"
proof -
  define y where "y = d * 400 div 146097 + 1970"
  have "146097 * (y - 1970) \<le> d * 400 \<and> d * 400 < 146097 * (y - 1970) + 146097"
    using div_bounds [of 146097 "d * 400"] by (simp add: y_def)
  then have "day_from_year (y - 1) \<le> d \<and> d < day_from_year (y + 2)"
    using day_from_year_bounds [of "y - 1"] day_from_year_bounds [of "y + 2"] by simp
  then show ?thesis
    unfolding year_from_day_def y_def [symmetric] Let_def by (auto simp: add.commute)
qed

lemma year_from_day_eq:
  assumes "day_from_year y \<le> d" "d < day_from_year (y + 1)"
  shows "year_from_day d = y"
proof -
  have "y \<le> year_from_day d"
    using day_from_year_mono [of "year_from_day d + 1" y] year_from_day_correct [of d] assms
    by (cases "year_from_day d + 1 \<le> y") auto
  moreover have "year_from_day d \<le> y"
    using day_from_year_mono [of "y + 1" "year_from_day d"] year_from_day_correct [of d] assms
    by (cases "y + 1 \<le> year_from_day d") auto
  ultimately show ?thesis by simp
qed

lemma year_from_day_mono: "d \<le> e \<Longrightarrow> year_from_day d \<le> year_from_day e"
  using day_from_year_mono [of "year_from_day e + 1" "year_from_day d"]
    year_from_day_correct [of d] year_from_day_correct [of e]
  by (cases "year_from_day e + 1 \<le> year_from_day d") auto

definition year_length :: "bool \<Rightarrow> int" where
  "year_length l = (if l then 366 else 365)"

lemma month_cases:
  assumes "1 \<le> (m::int)" "m \<le> 12"
  shows "m = 1 \<or> m = 2 \<or> m = 3 \<or> m = 4 \<or> m = 5 \<or> m = 6 \<or> m = 7 \<or> m = 8 \<or> m = 9 \<or> m = 10 \<or> m = 11 \<or> m = 12"
  using assms by presburger

lemma month_lengths:
  assumes "1 \<le> m" "m \<le> 12"
  shows "28 \<le> month_start l (m + 1) - month_start l m \<and> month_start l (m + 1) - month_start l m \<le> 31"
  using month_cases [OF assms] by (elim disjE) (simp_all add: month_start_def)

lemma month_from_day_eq:
  assumes "1 \<le> m" "m \<le> 12" "month_start l m \<le> n" "n < month_start l (m + 1)"
  shows "month_from_day l n = m"
  using month_cases [OF assms(1,2)] assms(3,4)
  by (elim disjE; cases l; simp add: month_from_day_def month_start_def)

lemma month_exists:
  assumes "0 \<le> n" "1 \<le> k" "n < month_start l k"
  shows "\<exists>m. 1 \<le> m \<and> m < k \<and> month_start l m \<le> n \<and> n < month_start l (m + 1)"
  using assms(2,3)
proof (induction k rule: int_ge_induct)
  case base
  with assms(1) show ?case by (simp add: month_start_def)
next
  case (step k)
  show ?case
  proof (cases "n < month_start l k")
    case True
    with step.IH obtain m where "1 \<le> m" "m < k" "month_start l m \<le> n" "n < month_start l (m + 1)" by blast
    then show ?thesis by (intro exI [of _ m]) simp
  next
    case False
    with step show ?thesis by (intro exI [of _ k]) simp
  qed
qed

lemma month_from_day_correct:
  assumes "0 \<le> n" "n < year_length l"
  shows "month_start l (month_from_day l n) \<le> n" "n < month_start l (month_from_day l n + 1)"
    "1 \<le> month_from_day l n" "month_from_day l n \<le> 12"
proof -
  have "n < month_start l 13" using assms(2) by (simp add: month_start_def year_length_def split: if_splits)
  with assms(1) obtain m where "1 \<le> m" "m < 13" "month_start l m \<le> n" "n < month_start l (m + 1)"
    using month_exists [of n 13 l] by auto
  moreover from this have "month_from_day l n = m" by (intro month_from_day_eq) simp_all
  ultimately show "month_start l (month_from_day l n) \<le> n" "n < month_start l (month_from_day l n + 1)"
    "1 \<le> month_from_day l n" "month_from_day l n \<le> 12" by simp_all
qed

lemma step_mono: "n \<le> k \<Longrightarrow> x \<le> B \<Longrightarrow> A \<le> B \<Longrightarrow> (if n < a then x else A) \<le> (if k < (a::int) then x else (B::int))"
  by simp

lemma month_from_day_mono: "n \<le> k \<Longrightarrow> month_from_day l n \<le> month_from_day l k"
  unfolding month_from_day_def Let_def by (rule step_mono, assumption, simp)+ simp

lemma civil_from_day_bounds:
  assumes "civil_from_day d = (y, m, dd)"
  shows "y = year_from_day d" "1 \<le> m" "m \<le> 12" "1 \<le> dd"
    "dd \<le> month_start (leap y) (m + 1) - month_start (leap y) m" "day_from_civil y m dd = d"
proof -
  let ?y = "year_from_day d" and ?n = "d - day_from_year (year_from_day d)"
  have n: "0 \<le> ?n" "?n < year_length (leap ?y)"
    using year_from_day_correct [of d] day_from_year_step [of ?y] by (auto simp: year_length_def)
  note m = month_from_day_correct [OF n]
  from assms have "y = ?y" "m = month_from_day (leap ?y) ?n" "dd = ?n - month_start (leap ?y) m + 1"
    by (auto simp: civil_from_day_def Let_def)
  with m show "y = ?y" "1 \<le> m" "m \<le> 12" "1 \<le> dd"
    "dd \<le> month_start (leap y) (m + 1) - month_start (leap y) m" "day_from_civil y m dd = d"
    by (simp_all add: day_from_civil_def)
qed

lemma month_start_year: "1 \<le> m \<Longrightarrow> m \<le> 12 \<Longrightarrow> 0 \<le> month_start l m \<and> month_start l (m + 1) \<le> year_length l"
  by (drule (1) month_cases, elim disjE) (simp_all add: month_start_def year_length_def)

lemma civil_from_day_from_civil:
  assumes "1 \<le> m" "m \<le> 12" "1 \<le> dd" "dd \<le> month_start (leap y) (m + 1) - month_start (leap y) m"
  shows "civil_from_day (day_from_civil y m dd) = (y, m, dd)"
proof -
  let ?n = "month_start (leap y) m + dd - 1"
  have y: "year_from_day (day_from_civil y m dd) = y"
    using assms month_start_year [OF assms(1,2), of "leap y"] day_from_year_step [of y]
    by (intro year_from_day_eq) (auto simp: day_from_civil_def year_length_def)
  have "month_from_day (leap y) ?n = m"
    using assms by (intro month_from_day_eq) auto
  then show ?thesis
    unfolding civil_from_day_def Let_def y by (simp add: day_from_civil_def add_diff_eq)
qed

subsection \<open>The order of the texts\<close>

lemma append_less_append:
  fixes a b :: "'a::linorder list"
  assumes "length a = length b"
  shows "a @ x < b @ y \<longleftrightarrow> a < b \<or> a = b \<and> x < y"
  using assms by (induction a b rule: list_induct2) auto

lemma digit_less: "d < 10 \<Longrightarrow> e < 10 \<Longrightarrow> digit d < digit e \<longleftrightarrow> d < e"
  by (simp add: less_char_def)

lemma pad_inject: "m < 10 ^ k \<Longrightarrow> n < 10 ^ k \<Longrightarrow> pad k m = pad k n \<longleftrightarrow> m = n"
  using undec_pad by metis

lemma divmod_less: "(m::nat) div 10 < n div 10 \<or> m div 10 = n div 10 \<and> m mod 10 < n mod 10 \<longleftrightarrow> m < n"
proof -
  define q r q' r' where "q = m div 10" and "r = m mod 10" and "q' = n div 10" and "r' = n mod 10"
  then have "m = 10 * q + r" "n = 10 * q' + r'" "r < 10" "r' < 10" by simp_all
  then show ?thesis unfolding q_def [symmetric] r_def [symmetric] q'_def [symmetric] r'_def [symmetric]
    by auto
qed

lemma pad_less: "m < 10 ^ k \<Longrightarrow> n < 10 ^ k \<Longrightarrow> pad k m < pad k n \<longleftrightarrow> m < n"
proof (induction k arbitrary: m n)
  case 0
  then show ?case by simp
next
  case (Suc k)
  have s: "m div 10 < 10 ^ k" "n div 10 < 10 ^ k"
    using Suc.prems by (simp_all add: less_mult_imp_div_less mult.commute)
  have "pad (Suc k) m < pad (Suc k) n \<longleftrightarrow>
      m div 10 < n div 10 \<or> m div 10 = n div 10 \<and> m mod 10 < n mod 10"
    by (simp add: append_less_append Suc.IH [OF s] pad_inject [OF s] digit_less)
  also have "\<dots> \<longleftrightarrow> m < n" by (rule divmod_less)
  finally show ?case .
qed

lemma length_padi [simp]: "length (padi k i) = k"
  by (simp add: padi_def)

lemma padi_less:
  "0 \<le> i \<Longrightarrow> i < 10 ^ k \<Longrightarrow> 0 \<le> j \<Longrightarrow> j < 10 ^ k \<Longrightarrow> padi k i < padi k j \<longleftrightarrow> i < j"
  by (auto simp: padi_def pad_less nat_less_iff)

definition iso_year :: "int \<Rightarrow> bool" where
  "iso_year t \<longleftrightarrow> 0 \<le> year_from_day (t div ms_per_day) \<and> year_from_day (t div ms_per_day) \<le> 9999"

lemma date_text_mono:
  assumes "d < e" "0 \<le> year_from_day d" "year_from_day e \<le> 9999"
  shows "date_text d < date_text e"
proof -
  obtain y m dd where d: "civil_from_day d = (y, m, dd)" by (cases "civil_from_day d") auto
  obtain z k ee where e: "civil_from_day e = (z, k, ee)" by (cases "civil_from_day e") auto
  note bd = civil_from_day_bounds [OF d] and be = civil_from_day_bounds [OF e]
  have yz: "y \<le> z" using assms(1) bd(1) be(1) year_from_day_mono by simp
  have dd: "dd \<le> 31" "ee \<le> 31"
    using bd(5) be(5) month_lengths [OF bd(2,3), of "leap y"] month_lengths [OF be(2,3), of "leap z"]
    by simp_all
  have lex: "y < z \<or> y = z \<and> (m < k \<or> m = k \<and> dd < ee)"
  proof (cases "y = z")
    case True
    then have "m \<le> k"
      using d e assms(1) bd(1) be(1) by (auto simp: civil_from_day_def Let_def intro!: month_from_day_mono)
    moreover have "dd < ee" if "m = k"
      using that True bd(6) be(6) assms(1) by (simp add: day_from_civil_def)
    ultimately show ?thesis using True by auto
  qed (use yz in simp)
  have "year_text y = padi 4 y" "year_text z = padi 4 z" "0 \<le> y" "y < 10 ^ 4" "0 \<le> z" "z < 10 ^ 4"
    using assms bd(1) be(1) yz by (auto simp: year_text_def)
  then show ?thesis
    using lex bd(2-4) be(2-4) dd
    by (auto simp: date_text_def d e append_less_append padi_less)
qed

lemma length_date_text:
  assumes "0 \<le> year_from_day d" "year_from_day d \<le> 9999"
  shows "length (date_text d) = 10"
  using assms by (simp add: date_text_def civil_from_day_def Let_def year_text_def)

lemma length_time_text [simp]: "length (time_text n) = 12"
  by (simp add: time_text_def)

lemma time_split:
  "n = 3600000 * (n div 3600000) + 60000 * (n div 60000 mod 60) + 1000 * (n div 1000 mod 60) + n mod (1000::int)"
proof -
  define a b c where "a = n div 1000" and "b = a div 60" and "c = b div 60"
  define s k u where "s = a mod 60" and "k = b mod 60" and "u = n mod 1000"
  have b: "n div 60000 = b" and c: "n div 3600000 = c"
    by (simp_all add: a_def b_def c_def flip: zdiv_zmult2_eq)
  have "n = 1000 * a + u" "a = 60 * b + s" "b = 60 * c + k"
    by (simp_all add: a_def b_def c_def s_def k_def u_def)
  then have "n = 3600000 * c + 60000 * k + 1000 * s + u" by linarith
  then show ?thesis
    unfolding b c unfolding a_def [symmetric] s_def [symmetric] k_def [symmetric] u_def [symmetric] .
qed

lemma time_text_mono:
  assumes "0 \<le> m" "m < n" "n < ms_per_day"
  shows "time_text m < time_text n"
proof -
  define h k s u where d: "h = m div 3600000" "k = m div 60000 mod 60" "s = m div 1000 mod 60" "u = m mod 1000"
  define h' k' s' u' where
    d': "h' = n div 3600000" "k' = n div 60000 mod 60" "s' = n div 1000 mod 60" "u' = n mod 1000"
  have m: "m = 3600000 * h + 60000 * k + 1000 * s + u" "n = 3600000 * h' + 60000 * k' + 1000 * s' + u'"
    unfolding d d' by (rule time_split)+
  have b: "0 \<le> k" "k < 60" "0 \<le> s" "s < 60" "0 \<le> u" "u < 1000"
    "0 \<le> k'" "k' < 60" "0 \<le> s'" "s' < 60" "0 \<le> u'" "u' < 1000"
    unfolding d d' by simp_all
  have "0 \<le> h" "0 \<le> h'" unfolding d d' using assms by (simp_all add: pos_imp_zdiv_nonneg_iff)
  moreover have "h < 24" "h' < 24" using m b assms by (simp_all add: ms_per_day_def)
  moreover have "h < h' \<or> h = h' \<and> (k < k' \<or> k = k' \<and> (s < s' \<or> s = s' \<and> u < u'))"
    using assms(2) b unfolding m by arith
  ultimately show ?thesis
    using b by (auto simp: time_text_def d [symmetric] d' [symmetric] append_less_append padi_less)
qed

lemma toISOString_mono:
  assumes "t < u" "iso_year t" "iso_year u"
  shows "toISOString t < toISOString u"
proof -
  have len: "length (date_text (t div ms_per_day)) = length (date_text (u div ms_per_day))"
    using assms by (simp add: length_date_text iso_year_def)
  show ?thesis
  proof (cases "t div ms_per_day = u div ms_per_day")
    case True
    then have "t mod ms_per_day < u mod ms_per_day"
      using assms(1) by (metis add_less_cancel_left mult_div_mod_eq)
    then have "time_text (t mod ms_per_day) < time_text (u mod ms_per_day)"
      by (intro time_text_mono) (simp_all add: ms_per_day_def)
    with True show ?thesis by (simp add: toISOString_def append_less_append)
  next
    case False
    then have "t div ms_per_day < u div ms_per_day"
      using assms(1) zdiv_mono1 [of t u ms_per_day] by (simp add: ms_per_day_def)
    with assms have "date_text (t div ms_per_day) < date_text (u div ms_per_day)"
      by (intro date_text_mono) (auto simp: iso_year_def)
    with len show ?thesis by (simp add: toISOString_def append_less_append)
  qed
qed

text \<open>On printable years, comparing the texts of two instants is comparing the instants.\<close>

lemma toISOString_less:
  "iso_year t \<Longrightarrow> iso_year u \<Longrightarrow> toISOString t < toISOString u \<longleftrightarrow> t < u"
  using toISOString_mono [of t u] toISOString_mono [of u t] by (cases t u rule: linorder_cases) auto

lemma toISOString_inject:
  "iso_year t \<Longrightarrow> iso_year u \<Longrightarrow> toISOString t = toISOString u \<longleftrightarrow> t = u"
  using toISOString_less [of t u] toISOString_less [of u t] by (metis linorder_less_linear order_less_irrefl)

subsection \<open>\<open>Date.parse\<close>\<close>

text \<open>
  The date-only form, and the date-time forms with seconds, an optional three-digit fraction and
  \<open>Z\<close> or a numeric offset. Every other text is handed to \<open>platform\<close>, a parameter of the model: the
  language leaves the remaining forms to the implementation. \<open>None\<close> is \<open>NaN\<close>.
\<close>

definition field :: "string \<Rightarrow> nat \<Rightarrow> nat \<Rightarrow> int option" where
  "field s i k = (let x = take k (drop i s) in
     if length x = k \<and> list_all is_digit x then Some (int (undec x)) else None)"

lemma field_code [code]:
  "field s i k = (let x = take k (drop i s) in
     if length x = k \<and> list_all is_digit x then Some (int_undec x) else None)"
  by (simp add: field_def int_undec Let_def)

definition char_at :: "string \<Rightarrow> nat \<Rightarrow> char \<Rightarrow> bool" where
  "char_at s i c \<longleftrightarrow> take 1 (drop i s) = [c]"

definition days_in_month :: "int \<Rightarrow> int \<Rightarrow> int" where
  "days_in_month y m = month_start (leap y) (m + 1) - month_start (leap y) m"

definition iso_date :: "string \<Rightarrow> int option" where
  "iso_date s = (case (field s 0 4, field s 5 2, field s 8 2) of
      (Some y, Some m, Some d) \<Rightarrow>
        if char_at s 4 (CHR ''-'') \<and> char_at s 7 (CHR ''-'') \<and> 1 \<le> m \<and> m \<le> 12 \<and> 1 \<le> d \<and> d \<le> days_in_month y m
        then Some (day_from_civil y m d) else None
    | _ \<Rightarrow> None)"

definition iso_zone :: "string \<Rightarrow> int option" where
  "iso_zone z =
     (if z = ''Z'' then Some 0
      else case (field z 1 2, field z 4 2) of
        (Some h, Some m) \<Rightarrow>
          if length z = 6 \<and> char_at z 3 (CHR '':'') \<and> h < 24 \<and> m < 60
          then if char_at z 0 (CHR ''+'') then Some (60000 * (60 * h + m))
               else if char_at z 0 (CHR ''-'') then Some (- 60000 * (60 * h + m)) else None
          else None
      | _ \<Rightarrow> None)"

definition iso_time :: "string \<Rightarrow> int option" where
  "iso_time s = (case (field s 0 2, field s 3 2, field s 6 2) of
      (Some h, Some m, Some c) \<Rightarrow>
        if char_at s 2 (CHR '':'') \<and> char_at s 5 (CHR '':'') \<and> h < 24 \<and> m < 60 \<and> c < 60
        then (case (if char_at s 8 (CHR ''.'') then (field s 9 3, drop 12 s) else (Some 0, drop 8 s)) of
                (Some f, zone) \<Rightarrow>
                  map_option (\<lambda>off. 3600000 * h + 60000 * m + 1000 * c + f - off) (iso_zone zone)
              | _ \<Rightarrow> None)
        else None
    | _ \<Rightarrow> None)"

definition iso_parse :: "string \<Rightarrow> int option" where
  "iso_parse s = (case iso_date s of
      None \<Rightarrow> None
    | Some d \<Rightarrow>
        if length s = 10 then Some (d * ms_per_day)
        else if char_at s 10 (CHR ''T'') then map_option (\<lambda>n. d * ms_per_day + n) (iso_time (drop 11 s))
        else None)"

definition date_parse :: "(string \<Rightarrow> int option) \<Rightarrow> string \<Rightarrow> int option" where
  "date_parse platform s = (case iso_parse s of Some t \<Rightarrow> Some t | None \<Rightarrow> platform s)"

lemma field_prefix:
  "length a = i \<Longrightarrow> 0 \<le> n \<Longrightarrow> n < 10 ^ k \<Longrightarrow> field (a @ padi k n @ b) i k = Some n"
  by (simp add: field_def padi_def digits_pad)

lemma field_0: "0 \<le> n \<Longrightarrow> n < 10 ^ k \<Longrightarrow> field (padi k n @ b) 0 k = Some n"
  using field_prefix [of "[]" 0 n k b] by simp

lemma char_at_prefix: "length a = i \<Longrightarrow> char_at (a @ c # b) i c"
  by (simp add: char_at_def)

lemma iso_date_text:
  assumes "0 \<le> year_from_day d" "year_from_day d \<le> 9999"
  shows "iso_date (date_text d @ r) = Some d"
proof -
  obtain y m dd where c: "civil_from_day d = (y, m, dd)" by (cases "civil_from_day d") auto
  note b = civil_from_day_bounds [OF c]
  have dd: "dd \<le> 31" using b(5) month_lengths [OF b(2,3), of "leap y"] by simp
  have y: "0 \<le> y" "y < 10 ^ 4" "year_text y = padi 4 y"
    using assms b(1) by (auto simp: year_text_def)
  let ?s = "padi 4 y @ CHR ''-'' # padi 2 m @ CHR ''-'' # padi 2 dd @ r"
  have "field ?s 0 4 = Some y" using y by (intro field_0) auto
  moreover have "field ?s 5 2 = Some m"
    using field_prefix [of "padi 4 y @ ''-''" 5 m 2] b by simp
  moreover have "field ?s 8 2 = Some dd"
    using field_prefix [of "padi 4 y @ ''-'' @ padi 2 m @ ''-''" 8 dd 2] b dd by simp
  moreover have "char_at ?s 4 (CHR ''-'')" by (rule char_at_prefix) simp
  moreover have "char_at ?s 7 (CHR ''-'')"
    using char_at_prefix [of "padi 4 y @ ''-'' @ padi 2 m" 7] by simp
  ultimately show ?thesis
    using b(2-6) by (simp add: date_text_def c y iso_date_def days_in_month_def)
qed

lemma iso_time_text:
  assumes "0 \<le> n" "n < ms_per_day"
  shows "iso_time (time_text n @ ''Z'') = Some n"
proof -
  define h k s u where d: "h = n div 3600000" "k = n div 60000 mod 60" "s = n div 1000 mod 60" "u = n mod 1000"
  have n: "n = 3600000 * h + 60000 * k + 1000 * s + u" unfolding d by (rule time_split)
  have b: "0 \<le> k" "k < 60" "0 \<le> s" "s < 60" "0 \<le> u" "u < 1000" unfolding d by simp_all
  have h0: "0 \<le> h" unfolding d using assms(1) by (simp add: pos_imp_zdiv_nonneg_iff)
  have h: "h < 24" using assms(2) n b unfolding ms_per_day_def by linarith
  let ?t = "padi 2 h @ CHR '':'' # padi 2 k @ CHR '':'' # padi 2 s @ CHR ''.'' # padi 3 u @ ''Z''"
  have t: "time_text n @ ''Z'' = ?t" by (simp add: time_text_def d)
  have "field ?t 0 2 = Some h" using h h0 by (intro field_0) auto
  moreover have "field ?t 3 2 = Some k" using field_prefix [of "padi 2 h @ '':''" 3 k 2] b by simp
  moreover have "field ?t 6 2 = Some s"
    using field_prefix [of "padi 2 h @ '':'' @ padi 2 k @ '':''" 6 s 2] b by simp
  moreover have "field ?t 9 3 = Some u"
    using field_prefix [of "padi 2 h @ '':'' @ padi 2 k @ '':'' @ padi 2 s @ ''.''" 9 u 3] b by simp
  moreover have "char_at ?t 2 (CHR '':'')" by (rule char_at_prefix) simp
  moreover have "char_at ?t 5 (CHR '':'')" using char_at_prefix [of "padi 2 h @ '':'' @ padi 2 k" 5] by simp
  moreover have "char_at ?t 8 (CHR ''.'')"
    using char_at_prefix [of "padi 2 h @ '':'' @ padi 2 k @ '':'' @ padi 2 s" 8] by simp
  ultimately have "iso_time ?t = Some (3600000 * h + 60000 * k + 1000 * s + u)"
    using h b by (simp add: iso_time_def iso_zone_def)
  then show ?thesis unfolding t n [symmetric] .
qed

text \<open>Reading a printed instant gives the instant back.\<close>

lemma iso_parse_toISOString: "iso_year t \<Longrightarrow> iso_parse (toISOString t) = Some t"
proof -
  assume y: "iso_year t"
  then have "iso_date (toISOString t) = Some (t div ms_per_day)"
    by (simp add: toISOString_def iso_date_text iso_year_def)
  moreover have "length (date_text (t div ms_per_day)) = 10"
    using y by (simp add: length_date_text iso_year_def)
  moreover have "iso_time (time_text (t mod ms_per_day) @ ''Z'') = Some (t mod ms_per_day)"
    by (rule iso_time_text) (simp_all add: ms_per_day_def)
  ultimately show ?thesis
    using char_at_prefix [of "date_text (t div ms_per_day)" 10 "CHR ''T''"]
    by (simp add: iso_parse_def toISOString_def)
qed

lemma date_parse_toISOString [simp]: "iso_year t \<Longrightarrow> date_parse platform (toISOString t) = Some t"
  by (simp add: date_parse_def iso_parse_toISOString)

lemma iso_year_iff: "iso_year t \<longleftrightarrow> - 62167219200000 \<le> t \<and> t < 253402300800000"
proof -
  have d: "day_from_year 0 = - 719528" "day_from_year 10000 = 2932897"
    by (simp_all add: day_from_year_def)
  have "0 \<le> year_from_day e \<longleftrightarrow> - 719528 \<le> e" for e
    using year_from_day_mono [of "- 719528" e] year_from_day_mono [of e "- 719529"]
      year_from_day_eq [of 0 "- 719528"] year_from_day_eq [of "- 1" "- 719529"]
      d day_from_year_step [of 0] day_from_year_step [of "- 1"]
    by (cases "- 719528 \<le> e") (auto simp: leap_def)
  moreover have "year_from_day e \<le> 9999 \<longleftrightarrow> e < 2932897" for e
    using year_from_day_mono [of e "2932896"] year_from_day_mono [of "2932897" e]
      year_from_day_eq [of 9999 "2932896"] year_from_day_eq [of 10000 "2932897"]
      d day_from_year_step [of 9999] day_from_year_step [of 10000]
    by (cases "e < 2932897") (auto simp: leap_def)
  ultimately show ?thesis
    using div_bounds [of ms_per_day t] unfolding iso_year_def ms_per_day_def by auto
qed

end
