(* ===== verification/Temporal.thy ===== *)
theory Temporal
  imports Js_Date
begin

section \<open>The date library\<close>

text \<open>
  Time zones, local dates and instants come from the package \<open>temporal-polyfill\<close>, which is not
  part of the sources. \<open>temporal\<close> lists the operations the code calls; the definitions that need
  them take such a record as a parameter. An instant is its number of nanoseconds since the
  epoch, a plain date its number of days, a plain time its nanoseconds since midnight; \<open>None\<close> is a
  thrown \<open>RangeError\<close>.

  \<^item> \<open>instant_from\<close>: \<open>Instant.from(text)\<close>; \<open>instant_to_string\<close>: \<open>toString({ smallestUnit: "second" })\<close>
  \<^item> \<open>plain_date_from\<close>, \<open>plain_date_to_string\<close>, \<open>plain_date_add\<close>, \<open>day_of_week\<close>: the \<open>PlainDate\<close> operations
  \<^item> \<open>plain_time_from\<close>: \<open>PlainTime.from(text)\<close>
  \<^item> \<open>zoned_from\<close>: \<open>ZonedDateTime.from\<close> on a zone, a date, a time and a disambiguation
  \<^item> \<open>to_zoned\<close>: \<open>instant.toZonedDateTimeISO(zone)\<close>
\<close>

datatype disambiguation = RejectTime | EarlierTime | LaterTime | CompatibleTime

record zoned =
  z_instant :: int
  z_date :: int
  z_time :: int

record temporal =
  instant_from :: "string \<Rightarrow> int option"
  instant_to_string :: "int \<Rightarrow> string"
  plain_date_from :: "string \<Rightarrow> int option"
  plain_date_to_string :: "int \<Rightarrow> string"
  plain_date_add :: "int \<Rightarrow> int \<Rightarrow> int option"
  day_of_week :: "int \<Rightarrow> int"
  plain_time_from :: "string \<Rightarrow> int option"
  zoned_from :: "string \<Rightarrow> int \<Rightarrow> int \<Rightarrow> disambiguation \<Rightarrow> zoned option"
  to_zoned :: "string \<Rightarrow> int \<Rightarrow> zoned option"

subsection \<open>An instance\<close>

text \<open>
  One concrete library, for the zone \<open>UTC\<close> and a zone \<open>Test/Shift\<close> whose clock goes forward by an
  hour at 1970-01-10T02:00 and back by an hour at 1970-01-20T02:00 of its own time. It shows that the
  hypotheses the theorems place on the parameter can hold together, clock changes included.
\<close>

definition ns_per_day :: int where
  "ns_per_day = 86400000000000"

definition ns_per_hour :: int where
  "ns_per_hour = 3600000000000"

definition shift_on :: int where
  "shift_on = 9 * ns_per_day + 2 * ns_per_hour"

definition shift_off :: int where
  "shift_off = 19 * ns_per_day + ns_per_hour"

definition zone_offset :: "string \<Rightarrow> int \<Rightarrow> int option" where
  "zone_offset tz i =
     (if tz = ''UTC'' then Some 0
      else if tz = ''Test/Shift'' then Some (if shift_on \<le> i \<and> i < shift_off then ns_per_hour else 0)
      else None)"

definition zoned_at :: "string \<Rightarrow> int \<Rightarrow> zoned option" where
  "zoned_at tz i = map_option (\<lambda>off. \<lparr>z_instant = i, z_date = (i + off) div ns_per_day,
     z_time = (i + off) mod ns_per_day\<rparr>) (zone_offset tz i)"

definition zoned_local :: "string \<Rightarrow> int \<Rightarrow> int \<Rightarrow> disambiguation \<Rightarrow> zoned option" where
  "zoned_local tz d n dis =
     (let w = d * ns_per_day + n;
          ok = (\<lambda>i. zone_offset tz i = Some (w - i));
          late = w; early = w - ns_per_hour
      in if zone_offset tz w = None then None
         else if ok early \<and> ok late then
           (case dis of RejectTime \<Rightarrow> None | LaterTime \<Rightarrow> zoned_at tz late | _ \<Rightarrow> zoned_at tz early)
         else if ok late then zoned_at tz late
         else if ok early then zoned_at tz early
         else (case dis of RejectTime \<Rightarrow> None | EarlierTime \<Rightarrow> zoned_at tz early | _ \<Rightarrow> zoned_at tz late))"

definition seconds_text :: "int \<Rightarrow> string" where
  "seconds_text i = take 19 (toISOString (i div 1000000)) @ ''Z''"

definition clock_parse :: "string \<Rightarrow> int option" where
  "clock_parse s = (if length s = 8 then map_option (\<lambda>n. n * 1000000) (iso_time (s @ ''Z'')) else None)"

definition utc_library :: temporal where
  "utc_library =
     \<lparr>instant_from = (\<lambda>s. map_option (\<lambda>ms. ms * 1000000) (iso_parse s)),
      instant_to_string = seconds_text,
      plain_date_from = (\<lambda>s. if length s = 10 then iso_date s else None),
      plain_date_to_string = date_text,
      plain_date_add = (\<lambda>d n. Some (d + n)),
      day_of_week = (\<lambda>d. (d + 3) mod 7 + 1),
      plain_time_from = clock_parse,
      zoned_from = zoned_local,
      to_zoned = zoned_at\<rparr>"

lemma utc_date_add: "plain_date_add utc_library d n = Some (d + n)"
  by (simp add: utc_library_def)

end
