(* ===== verification/Hours.thy ===== *)
theory Hours
  imports Sync_Types Temporal "HOL-Library.AList"
begin

section \<open>Hours profiles (packages/calendar-sync/src/hours.ts)\<close>

text \<open>
  Which concrete intervals a named hours profile opens on a local date, and whether an event
  falls into them. The date library is the parameter \<open>t\<close> of every definition.
\<close>

record concrete_interval =
  ci_start :: int
  ci_end :: int

record resolved_instant =
  ri_instant :: int
  ri_diagnostic :: "reason_code option"

datatype hours_error = DstResolutionError | RangeError

definition instantString :: "temporal \<Rightarrow> int \<Rightarrow> string" where
  "instantString t value = instant_to_string t value"

definition compareInstant :: "int \<Rightarrow> int \<Rightarrow> int" where
  "compareInstant left right = js_compare left right"

text \<open>
  The first attempt rejects times a clock change repeats or skips. The second tells the two
  apart: a repeated time maps both ways to the requested wall-clock time, a skipped one does not.
\<close>

definition resolveLocal ::
  "temporal \<Rightarrow> int \<Rightarrow> string \<Rightarrow> hours_profile \<Rightarrow> hours_error + resolved_instant" where
  "resolveLocal t date timeText profile =
     bindE (orThrow RangeError (plain_time_from t timeText)) (\<lambda>time.
       (case zoned_from t (timezone profile) date time RejectTime of
          Some z \<Rightarrow> Inr \<lparr>ri_instant = z_instant z, ri_diagnostic = None\<rparr>
        | None \<Rightarrow>
            bindE (orThrow DstResolutionError (zoned_from t (timezone profile) date time EarlierTime))
              (\<lambda>earlier.
            bindE (orThrow DstResolutionError (zoned_from t (timezone profile) date time LaterTime))
              (\<lambda>later.
              if z_date earlier = date \<and> z_time earlier = time
                 \<and> z_date later = date \<and> z_time later = time then
                if ambiguous profile = EarlierOffset
                then Inr \<lparr>ri_instant = z_instant earlier, ri_diagnostic = Some dst_ambiguous_earlier\<rparr>
                else Inr \<lparr>ri_instant = z_instant later, ri_diagnostic = Some dst_ambiguous_later\<rparr>
              else if nonexistent profile = RejectGap then Inl DstResolutionError
              else Inr \<lparr>ri_instant = z_instant later, ri_diagnostic = Some dst_nonexistent_shifted\<rparr>))))"

definition diagnostic_list :: "resolved_instant \<Rightarrow> reason_code list" where
  "diagnostic_list r = (case ri_diagnostic r of None \<Rightarrow> [] | Some d \<Rightarrow> [d])"

text \<open>The \<open>diagnostics\<close> array is passed through: the result carries what was pushed.\<close>

definition materialize ::
  "temporal \<Rightarrow> hours_profile \<Rightarrow> int \<Rightarrow> local_interval \<Rightarrow>
   hours_error + reason_code list \<times> concrete_interval option" where
  "materialize t profile date local =
     bindE (resolveLocal t date (li_start local) profile) (\<lambda>start.
     bindE (orThrow RangeError (plain_date_add t date (end_day_offset local))) (\<lambda>endDate.
     bindE (resolveLocal t endDate (li_end local) profile) (\<lambda>fin.
       Inr (diagnostic_list start @ diagnostic_list fin,
            if compareInstant (ri_instant start) (ri_instant fin) \<ge> 0 then None
            else Some \<lparr>ci_start = ri_instant start, ci_end = ri_instant fin\<rparr>))))"

definition subtractInterval :: "concrete_interval \<Rightarrow> concrete_interval \<Rightarrow> concrete_interval list" where
  "subtractInterval base removal =
     (if compareInstant (ci_end removal) (ci_start base) \<le> 0
         \<or> compareInstant (ci_start removal) (ci_end base) \<ge> 0
      then [base]
      else
        (if compareInstant (ci_start removal) (ci_start base) > 0
         then [\<lparr>ci_start = ci_start base, ci_end = ci_start removal\<rparr>] else []) @
        (if compareInstant (ci_end removal) (ci_end base) < 0
         then [\<lparr>ci_start = ci_end removal, ci_end = ci_end base\<rparr>] else []))"

text \<open>\<open>map(materialize)\<close> followed by the filter that drops \<open>undefined\<close>.\<close>

definition materializeAll ::
  "temporal \<Rightarrow> hours_profile \<Rightarrow> int \<Rightarrow> local_interval list \<Rightarrow>
   hours_error + reason_code list \<times> concrete_interval list" where
  "materializeAll t profile date locals =
     bindE (mapE (materialize t profile date) locals) (\<lambda>rs.
       Inr (concat (map fst rs), List.map_filter snd rs))"

definition subtractAll :: "concrete_interval list \<Rightarrow> concrete_interval list \<Rightarrow> concrete_interval list" where
  "subtractAll bases removals =
     foldl (\<lambda>concrete removal. concat (map (\<lambda>base. subtractInterval base removal) concrete)) bases removals"

definition local_of_weekly :: "weekly_interval \<Rightarrow> local_interval" where
  "local_of_weekly w =
     \<lparr>li_start = w_start w, li_end = w_end w, end_day_offset = w_end_day_offset w\<rparr>"

definition weekly_locals :: "temporal \<Rightarrow> hours_profile \<Rightarrow> int \<Rightarrow> local_interval list" where
  "weekly_locals t profile date =
     map local_of_weekly (filter (\<lambda>item. weekday item = day_of_week t date) (weekly profile))"

definition intervalsForDate ::
  "temporal \<Rightarrow> hours_profile \<Rightarrow> int \<Rightarrow> hours_error + reason_code list \<times> concrete_interval list" where
  "intervalsForDate t profile date =
     (let dateText = plain_date_to_string t date;
          weekly' = weekly_locals t profile date
      in case find (\<lambda>item. ex_date item = dateText) (exceptions profile) of
           Some (Closed _) \<Rightarrow> Inr ([], [])
         | Some (Adjust Replace _ ivs) \<Rightarrow> materializeAll t profile date ivs
         | Some (Adjust AddIntervals _ ivs) \<Rightarrow> materializeAll t profile date (weekly' @ ivs)
         | Some (Adjust Remove _ ivs) \<Rightarrow>
             bindE (materializeAll t profile date weekly') (\<lambda>(ds, concrete).
             bindE (materializeAll t profile date ivs) (\<lambda>(ds', removals).
               Inr (ds @ ds', subtractAll concrete removals)))
         | None \<Rightarrow> materializeAll t profile date weekly')"

text \<open>
  The \<open>Map\<close> keyed by the printed end points keeps the position of the first interval with a key
  and the value of the last.
\<close>

definition interval_key :: "temporal \<Rightarrow> concrete_interval \<Rightarrow> string" where
  "interval_key t iv = instantString t (ci_start iv) @ CHR ''/'' # instantString t (ci_end iv)"

definition compareIntervals :: "concrete_interval \<Rightarrow> concrete_interval \<Rightarrow> int" where
  "compareIntervals left right =
     cmp_or (compareInstant (ci_start left) (ci_start right)) (compareInstant (ci_end left) (ci_end right))"

definition deduplicate :: "temporal \<Rightarrow> concrete_interval list \<Rightarrow> (string \<times> concrete_interval) list" where
  "deduplicate t intervals = foldl (\<lambda>byKey iv. AList.update (interval_key t iv) iv byKey) [] intervals"

definition deduplicateAndSort :: "temporal \<Rightarrow> concrete_interval list \<Rightarrow> concrete_interval list" where
  "deduplicateAndSort t intervals = js_sort compareIntervals (map snd (deduplicate t intervals))"

definition publicIntervals :: "temporal \<Rightarrow> concrete_interval list \<Rightarrow> instant_interval list" where
  "publicIntervals t intervals =
     map (\<lambda>iv. \<lparr>iv_start = instantString t (ci_start iv), iv_end = instantString t (ci_end iv)\<rparr>) intervals"

text \<open>
  The \<open>while\<close> loop of both exported functions: \<open>cont\<close> is its condition on the date, \<open>days\<close> counts
  the rounds and ends the loop with an exception after 371 of them.
\<close>

function dayLoop ::
  "temporal \<Rightarrow> hours_profile \<Rightarrow> (int \<Rightarrow> bool) \<Rightarrow> int \<Rightarrow> nat \<Rightarrow>
   hours_error + reason_code list \<times> concrete_interval list" where
  "dayLoop t profile cont date days =
     (if \<not> cont date then Inr ([], [])
      else if days > 370 then Inl DstResolutionError
      else
        bindE (intervalsForDate t profile date) (\<lambda>(ds, ivs).
        bindE (orThrow RangeError (plain_date_add t date 1)) (\<lambda>date'.
        bindE (dayLoop t profile cont date' (days + 1)) (\<lambda>(ds', ivs').
          Inr (ds @ ds', ivs @ ivs')))))"
  by pat_completeness auto
termination
  by (relation "measure (\<lambda>(t, profile, cont, date, days). 371 - days)") auto

declare dayLoop.simps [simp del]

definition hours_result ::
  "bool \<Rightarrow> reason_code \<Rightarrow> reason_code list \<Rightarrow> hours_evaluation_result" where
  "hours_result included reason diagnostics =
     \<lparr>he_included = included, he_reason = reason, he_concrete = [], he_matched = [],
      he_diagnostics = diagnostics\<rparr>"

text \<open>The body of the \<open>try\<close> block of \<open>evaluateHours\<close>.\<close>

definition hours_body ::
  "temporal \<Rightarrow> hours_mode \<Rightarrow> int \<Rightarrow> int \<Rightarrow> hours_profile \<Rightarrow> hours_error + hours_evaluation_result" where
  "hours_body t mode eventStart eventEnd profile =
     bindE (orThrow RangeError (to_zoned t (timezone profile) eventStart)) (\<lambda>zs.
     bindE (orThrow RangeError (plain_date_add t (z_date zs) (- 1))) (\<lambda>localStart.
     bindE (orThrow RangeError (to_zoned t (timezone profile) eventEnd)) (\<lambda>ze.
     bindE (dayLoop t profile (\<lambda>d. d \<le> z_date ze) localStart 0) (\<lambda>(diagnostics, concrete).
       let sorted = deduplicateAndSort t concrete;
           overlaps = filter (\<lambda>iv. compareInstant eventStart (ci_end iv) < 0
                                   \<and> compareInstant (ci_start iv) eventEnd < 0) sorted;
           contained = filter (\<lambda>iv. compareInstant (ci_start iv) eventStart \<le> 0
                                    \<and> compareInstant eventEnd (ci_end iv) \<le> 0) sorted;
           included = (if mode = OverlapsProfile then length overlaps > 0 else length contained > 0);
           matched = (if mode = OverlapsProfile then overlaps else contained)
       in Inr \<lparr>he_included = included,
               he_reason = (if included
                            then if mode = OverlapsProfile then overlaps_hours else contained_in_hours
                            else if mode = OverlapsProfile then outside_hours else not_contained_in_hours),
               he_concrete = publicIntervals t sorted,
               he_matched = publicIntervals t matched,
               he_diagnostics = uniq diagnostics\<rparr>))))"

text \<open>Only the parsing of the event's own instants can throw out of \<open>evaluateHours\<close>.\<close>

definition evaluateHours ::
  "temporal \<Rightarrow> hours_evaluation_input \<Rightarrow> hours_error + hours_evaluation_result" where
  "evaluateHours t input =
     bindE (orThrow RangeError (instant_from t (iv_start (he_event input)))) (\<lambda>eventStart.
     bindE (orThrow RangeError (instant_from t (iv_end (he_event input)))) (\<lambda>eventEnd.
       if compareInstant eventStart eventEnd \<ge> 0 then Inr (hours_result False invalid_hours_profile [])
       else if he_mode input = AllTimes then Inr (hours_result True all_times [])
       else (case he_profile input of
               None \<Rightarrow> Inr (hours_result False invalid_hours_profile [])
             | Some profile \<Rightarrow>
                 (case hours_body t (he_mode input) eventStart eventEnd profile of
                    Inr r \<Rightarrow> Inr r
                  | Inl RangeError \<Rightarrow> Inr (hours_result False invalid_hours_profile [])
                  | Inl DstResolutionError \<Rightarrow>
                      Inr (hours_result False dst_resolution_rejected [dst_resolution_rejected])))))"

definition materializeHours ::
  "temporal \<Rightarrow> hours_materialization_input \<Rightarrow> hours_materialization_result" where
  "materializeHours t input =
     (case
        bindE (orThrow RangeError (plain_date_from t (hm_start_date input))) (\<lambda>date.
        bindE (orThrow RangeError (plain_date_from t (hm_end_date_exclusive input))) (\<lambda>end'.
          if date \<ge> end' then Inr ([], [])
          else dayLoop t (hm_profile input) (\<lambda>d. d < end') date 0)) of
        Inr (diagnostics, concrete) \<Rightarrow>
          \<lparr>hm_concrete = publicIntervals t (deduplicateAndSort t concrete), hm_diagnostics = uniq diagnostics\<rparr>
      | Inl _ \<Rightarrow> \<lparr>hm_concrete = [], hm_diagnostics = [dst_resolution_rejected]\<rparr>)"

subsection \<open>Intervals and their instants\<close>

definition ci_valid :: "concrete_interval \<Rightarrow> bool" where
  "ci_valid iv \<longleftrightarrow> ci_start iv < ci_end iv"

definition covers :: "concrete_interval list \<Rightarrow> int \<Rightarrow> bool" where
  "covers ivs p \<longleftrightarrow> (\<exists>iv \<in> set ivs. ci_start iv \<le> p \<and> p < ci_end iv)"

definition ci_overlaps :: "concrete_interval \<Rightarrow> concrete_interval \<Rightarrow> bool" where
  "ci_overlaps event iv \<longleftrightarrow> compareInstant (ci_start event) (ci_end iv) < 0 \<and> compareInstant (ci_start iv) (ci_end event) < 0"

lemma compareInstant_simps [simp]:
  "compareInstant a b \<le> 0 \<longleftrightarrow> a \<le> b"
  "compareInstant a b < 0 \<longleftrightarrow> a < b"
  "0 \<le> compareInstant a b \<longleftrightarrow> b \<le> a"
  "0 < compareInstant a b \<longleftrightarrow> b < a"
  by (auto simp: compareInstant_def js_compare_def)

interpretation concrete: half_open ci_start ci_end ci_valid ci_overlaps
  by unfold_locales (auto simp: ci_valid_def ci_overlaps_def)

lemma compareIntervals_key:
  "compareIntervals l r = js_compare (ci_start l, ci_end l) (ci_start r, ci_end r)"
  by (simp add: compareIntervals_def compareInstant_def js_compare_pair)

interpretation interval_order: strict_comparator compareIntervals
  by unfold_locales (auto simp: compareIntervals_key)

lemma covers_simps [simp]:
  "\<not> covers [] p"
  "covers (iv # ivs) p \<longleftrightarrow> (ci_start iv \<le> p \<and> p < ci_end iv) \<or> covers ivs p"
  "covers (xs @ ys) p \<longleftrightarrow> covers xs p \<or> covers ys p"
  by (auto simp: covers_def)

lemma covers_concat_map: "covers (concat (map f xs)) p \<longleftrightarrow> (\<exists>x \<in> set xs. covers (f x) p)"
  by (auto simp: covers_def)

lemma covers_subtractInterval:
  "covers (subtractInterval b r) p \<longleftrightarrow> (ci_start b \<le> p \<and> p < ci_end b) \<and> \<not> (ci_start r \<le> p \<and> p < ci_end r)"
  by (auto simp: subtractInterval_def)

lemma covers_subtractAll: "covers (subtractAll bases removals) p \<longleftrightarrow> covers bases p \<and> \<not> covers removals p"
proof (induction removals arbitrary: bases)
  case Nil
  then show ?case by (simp add: subtractAll_def)
next
  case (Cons r rs)
  have "subtractAll bases (r # rs) = subtractAll (concat (map (\<lambda>b. subtractInterval b r) bases)) rs"
    by (simp add: subtractAll_def)
  then show ?case
    by (auto simp: Cons covers_concat_map covers_subtractInterval) (auto simp: covers_def)
qed

lemma subtractInterval_valid: "ci_valid b \<Longrightarrow> iv \<in> set (subtractInterval b r) \<Longrightarrow> ci_valid iv"
  by (auto simp: subtractInterval_def ci_valid_def split: if_splits)

lemma subtractAll_valid:
  "list_all ci_valid bases \<Longrightarrow> list_all ci_valid (subtractAll bases removals)"
proof (induction removals arbitrary: bases)
  case Nil
  then show ?case by (simp add: subtractAll_def)
next
  case (Cons r rs)
  then have "list_all ci_valid (concat (map (\<lambda>b. subtractInterval b r) bases))"
    by (auto simp: list_all_iff intro: subtractInterval_valid)
  then show ?case using Cons.IH by (simp add: subtractAll_def)
qed

lemma materialize_valid: "materialize t profile date local = Inr (ds, Some iv) \<Longrightarrow> ci_valid iv"
  by (auto simp: materialize_def bindE_Inr_iff ci_valid_def split: if_splits)

lemma materializeAll_valid: "materializeAll t profile date locals = Inr (ds, ivs) \<Longrightarrow> list_all ci_valid ivs"
  by (fastforce simp: materializeAll_def bindE_Inr_iff list_all_iff List.map_filter_def
      dest: mapE_Inr_set intro: materialize_valid)

lemma intervalsForDate_valid: "intervalsForDate t profile date = Inr (ds, ivs) \<Longrightarrow> list_all ci_valid ivs"
  by (auto simp: intervalsForDate_def Let_def bindE_Inr_iff subtractAll_valid
      dest: materializeAll_valid split: option.splits hours_exception.splits exception_kind.splits)

subsection \<open>Deduplication\<close>

lemma set_alist_update: "p \<in> set (AList.update k v al) \<Longrightarrow> p = (k, v) \<or> p \<in> set al"
  by (induction al) (auto split: if_splits)

lemma deduplicate_snoc: "deduplicate t (ivs @ [iv]) = AList.update (interval_key t iv) iv (deduplicate t ivs)"
  by (simp add: deduplicate_def)

lemma deduplicate_Nil [simp]: "deduplicate t [] = []"
  by (simp add: deduplicate_def)

lemma deduplicate_keyed: "(k, iv) \<in> set (deduplicate t ivs) \<Longrightarrow> k = interval_key t iv \<and> iv \<in> set ivs"
proof (induction ivs arbitrary: k iv rule: rev_induct)
  case (snoc x xs)
  then show ?case
    using set_alist_update [of "(k, iv)" "interval_key t x" x "deduplicate t xs"]
    by (auto simp: deduplicate_snoc)
qed simp

lemma deduplicate_keys: "fst ` set (deduplicate t ivs) = interval_key t ` set ivs"
  by (induction ivs rule: rev_induct) (auto simp: deduplicate_snoc dom_update)

lemma distinct_deduplicate: "distinct (map fst (deduplicate t ivs))"
  by (induction ivs rule: rev_induct) (auto simp: deduplicate_snoc distinct_update)

lemma set_deduplicateAndSort: "set (deduplicateAndSort t ivs) \<subseteq> set ivs"
  using deduplicate_keyed by (force simp: deduplicateAndSort_def)

text \<open>Every printed interval of the input is still there, each once.\<close>

lemma deduplicateAndSort_keys: "interval_key t ` set (deduplicateAndSort t ivs) = interval_key t ` set ivs"
proof -
  have "interval_key t ` snd ` set (deduplicate t ivs) = fst ` set (deduplicate t ivs)"
    using deduplicate_keyed by (force simp: image_image intro!: image_cong)
  then show ?thesis by (simp add: deduplicateAndSort_def deduplicate_keys image_image)
qed

lemma deduplicateAndSort_set:
  "inj_on (interval_key t) (set ivs) \<Longrightarrow> set (deduplicateAndSort t ivs) = set ivs"
  using deduplicateAndSort_keys [of t ivs] set_deduplicateAndSort [of t ivs]
  by (simp add: inj_on_image_eq_iff)

lemma distinct_deduplicateAndSort: "distinct (map (interval_key t) (deduplicateAndSort t ivs))"
proof -
  have "map fst (deduplicate t ivs) = map (interval_key t) (map snd (deduplicate t ivs))"
    using deduplicate_keyed by (auto intro!: map_cong)
  then have "distinct (map (interval_key t) (map snd (deduplicate t ivs)))"
    using distinct_deduplicate by metis
  moreover have "mset (map (interval_key t) (deduplicateAndSort t ivs))
      = mset (map (interval_key t) (map snd (deduplicate t ivs)))"
    by (simp only: deduplicateAndSort_def mset_map mset_js_sort)
  ultimately show ?thesis by (metis mset_eq_imp_distinct_iff)
qed

subsection \<open>The loop over the days\<close>

lemma dayLoop_stop: "\<not> cont date \<Longrightarrow> dayLoop t profile cont date days = Inr ([], [])"
  by (simp add: dayLoop.simps)

lemma dayLoop_step:
  assumes "cont date" "days \<le> 370" "intervalsForDate t profile date = Inr (ds, ivs)"
    "plain_date_add t date 1 = Some date'"
  shows "dayLoop t profile cont date days =
    bindE (dayLoop t profile cont date' (days + 1)) (\<lambda>(ds', ivs'). Inr (ds @ ds', ivs @ ivs'))"
  using assms by (subst dayLoop.simps) simp

lemma dayLoop_sound:
  assumes "dayLoop t profile cont date days = Inr (ds, ivs)" "iv \<in> set ivs"
  shows "\<exists>d ds' ivs'. cont d \<and> intervalsForDate t profile d = Inr (ds', ivs') \<and> iv \<in> set ivs'"
  using assms
proof (induction t profile cont date days arbitrary: ds ivs rule: dayLoop.induct)
  case (1 t profile cont date days)
  have cont: "cont date" and "days \<le> 370"
    using 1(2,3) by (auto simp: dayLoop.simps [of t profile cont date days] split: if_splits)
  with 1(2) obtain ds0 ivs0 date' ds1 ivs1 where
    here: "intervalsForDate t profile date = Inr (ds0, ivs0)" and
    nxt: "plain_date_add t date 1 = Some date'" and
    rest: "dayLoop t profile cont date' (days + 1) = Inr (ds1, ivs1)" and ivs: "ivs = ivs0 @ ivs1"
    by (auto simp: dayLoop.simps [of t profile cont date days] bindE_Inr_iff)
  show ?case
  proof (cases "iv \<in> set ivs0")
    case True
    with cont here show ?thesis by blast
  next
    case False
    with 1(3) ivs have "iv \<in> set ivs1" by simp
    with 1(1) cont \<open>days \<le> 370\<close> here nxt rest show ?thesis by fastforce
  qed
qed

lemma dayLoop_valid: "dayLoop t profile cont date days = Inr (ds, ivs) \<Longrightarrow> list_all ci_valid ivs"
  using dayLoop_sound intervalsForDate_valid by (fastforce simp: list_all_iff)

text \<open>
  The law of \<open>PlainDate.add\<close> the loop relies on: a day later is the next date. Under it the loop
  visits the dates one by one, and it either reaches the last one or refuses the range.
\<close>

lemma dayLoop_collect:
  assumes "\<And>d. date \<le> d \<Longrightarrow> d \<le> fin \<Longrightarrow> plain_date_add t d 1 = Some (d + 1)"
    and "\<And>d. date \<le> d \<Longrightarrow> d \<le> fin \<Longrightarrow> intervalsForDate t profile d = Inr (ds d, ivs d)"
    and "fin - date + int days \<le> 370"
  shows "dayLoop t profile (\<lambda>d. d \<le> fin) date days =
    Inr (concat (map ds [date..fin]), concat (map ivs [date..fin]))"
  using assms
proof (induction "nat (fin - date + 1)" arbitrary: date days)
  case 0
  then show ?case by (simp add: dayLoop_stop)
next
  case (Suc n)
  then have le: "date \<le> fin" by simp
  then have "dayLoop t profile (\<lambda>d. d \<le> fin) (date + 1) (days + 1) =
      Inr (concat (map ds [date + 1..fin]), concat (map ivs [date + 1..fin]))"
    using Suc by (intro Suc.hyps(1)) auto
  with le Suc.prems show ?case
    by (subst dayLoop_step [where date' = "date + 1" and ds = "ds date" and ivs = "ivs date"])
      (auto simp: upto_rec1)
qed

lemma dayLoop_too_long:
  assumes "\<And>d. date \<le> d \<Longrightarrow> d \<le> fin \<Longrightarrow> plain_date_add t d 1 = Some (d + 1)"
    and "\<And>d. date \<le> d \<Longrightarrow> d \<le> fin \<Longrightarrow> \<exists>r. intervalsForDate t profile d = Inr r"
    and "fin - date + int days > 370" "days \<le> 371"
  shows "dayLoop t profile (\<lambda>d. d \<le> fin) date days = Inl DstResolutionError"
  using assms
proof (induction "371 - days" arbitrary: date days)
  case 0
  then show ?case by (simp add: dayLoop.simps)
next
  case (Suc n)
  then obtain ds ivs where "intervalsForDate t profile date = Inr (ds, ivs)" by fastforce
  moreover have "dayLoop t profile (\<lambda>d. d \<le> fin) (date + 1) (days + 1) = Inl DstResolutionError"
    using Suc by (intro Suc.hyps(1)) auto
  ultimately show ?case using Suc by (subst dayLoop_step) auto
qed

subsection \<open>The exported functions\<close>

lemma evaluateHours_profile:
  assumes "instant_from t (iv_start (he_event input)) = Some a"
    and "instant_from t (iv_end (he_event input)) = Some b" "a < b"
    and "he_mode input \<noteq> AllTimes" "he_profile input = Some profile"
  shows "evaluateHours t input =
    (case hours_body t (he_mode input) a b profile of
       Inr r \<Rightarrow> Inr r
     | Inl RangeError \<Rightarrow> Inr (hours_result False invalid_hours_profile [])
     | Inl DstResolutionError \<Rightarrow> Inr (hours_result False dst_resolution_rejected [dst_resolution_rejected]))"
  using assms by (simp add: evaluateHours_def)

text \<open>What an interval of the profile has to do with the event, per mode.\<close>

definition hours_match :: "hours_mode \<Rightarrow> int \<Rightarrow> int \<Rightarrow> concrete_interval \<Rightarrow> bool" where
  "hours_match mode a b iv =
     (if mode = OverlapsProfile then ci_overlaps \<lparr>ci_start = a, ci_end = b\<rparr> iv
      else ci_start iv \<le> a \<and> b \<le> ci_end iv)"

lemma hours_match_simps:
  "hours_match OverlapsProfile a b = (\<lambda>iv. a < ci_end iv \<and> ci_start iv < b)"
  "mode \<noteq> OverlapsProfile \<Longrightarrow> hours_match mode a b = (\<lambda>iv. ci_start iv \<le> a \<and> b \<le> ci_end iv)"
  by (simp_all add: hours_match_def fun_eq_iff ci_overlaps_def)

lemma hours_body_collected:
  assumes "to_zoned t (timezone profile) a = Some za" "plain_date_add t (z_date za) (- 1) = Some d0"
    and "to_zoned t (timezone profile) b = Some zb"
    and "dayLoop t profile (\<lambda>d. d \<le> z_date zb) d0 0 = Inr (ds, ivs)"
  shows "\<exists>r. hours_body t mode a b profile = Inr r
    \<and> (he_included r \<longleftrightarrow> (\<exists>iv \<in> set (deduplicateAndSort t ivs). hours_match mode a b iv))
    \<and> he_matched r = publicIntervals t (filter (hours_match mode a b) (deduplicateAndSort t ivs))
    \<and> he_concrete r = publicIntervals t (deduplicateAndSort t ivs)
    \<and> he_diagnostics r = uniq ds"
  using assms
  by (cases "mode = OverlapsProfile")
    (auto simp: hours_body_def hours_match_simps Let_def filter_empty_conv)

lemma interval_in_days:
  "(\<exists>iv \<in> set (concat (map ivs [i..j])). P iv) \<longleftrightarrow> (\<exists>d \<in> {i..j}. \<exists>iv \<in> set (ivs d). P iv)"
  by auto

text \<open>
  C10: The verdict of \<open>evaluateHours\<close> on a timed event in the mode \<open>overlaps_profile\<close>: when every
  date from the day before the event's local start to its local end has a next date and can be
  materialised, at most 371 dates, and two different intervals of these dates are printed
  differently, the event is included exactly when it has an instant in common with an interval that
  one of these dates opens.
\<close>

theorem evaluateHours_overlaps_iff:
  assumes day_after: "\<And>d. d0 \<le> d \<Longrightarrow> d \<le> z_date zb \<Longrightarrow> plain_date_add t d 1 = Some (d + 1)"
    and event: "instant_from t (iv_start (he_event input)) = Some a"
      "instant_from t (iv_end (he_event input)) = Some b" "a < b"
    and mode: "he_mode input = OverlapsProfile" "he_profile input = Some profile"
    and range: "to_zoned t (timezone profile) a = Some za" "plain_date_add t (z_date za) (- 1) = Some d0"
      "to_zoned t (timezone profile) b = Some zb" "z_date zb - d0 \<le> 370"
    and dates: "\<And>d. d0 \<le> d \<Longrightarrow> d \<le> z_date zb \<Longrightarrow> intervalsForDate t profile d = Inr (ds d, ivs d)"
    and printed: "inj_on (interval_key t) (\<Union>d \<in> {d0..z_date zb}. set (ivs d))"
  shows "\<exists>r. evaluateHours t input = Inr r
    \<and> (he_included r \<longleftrightarrow>
        (\<exists>d \<in> {d0..z_date zb}. \<exists>iv \<in> set (ivs d). \<exists>p. a \<le> p \<and> p < b \<and> ci_start iv \<le> p \<and> p < ci_end iv))
    \<and> he_reason r = (if he_included r then overlaps_hours else outside_hours)"
proof -
  let ?all = "concat (map ivs [d0..z_date zb])"
  have loop: "dayLoop t profile (\<lambda>d. d \<le> z_date zb) d0 0 = Inr (concat (map ds [d0..z_date zb]), ?all)"
    using day_after dates range(4) by (intro dayLoop_collect) auto
  obtain r where r: "hours_body t OverlapsProfile a b profile = Inr r"
    "he_included r \<longleftrightarrow> (\<exists>iv \<in> set (deduplicateAndSort t ?all). hours_match OverlapsProfile a b iv)"
    using hours_body_collected [OF range(1-3) loop, of OverlapsProfile] by blast
  have "set ?all = (\<Union>d \<in> {d0..z_date zb}. set (ivs d))" by auto
  then have "set (deduplicateAndSort t ?all) = set ?all"
    using printed by (simp add: deduplicateAndSort_set)
  moreover have "ci_valid iv" if "d \<in> {d0..z_date zb}" "iv \<in> set (ivs d)" for d iv
    using that dates [of d] intervalsForDate_valid [of t profile d] by (simp add: list_all_iff)
  then have "hours_match OverlapsProfile a b iv \<longleftrightarrow>
      (\<exists>p. a \<le> p \<and> p < b \<and> ci_start iv \<le> p \<and> p < ci_end iv)"
    if "d \<in> {d0..z_date zb}" "iv \<in> set (ivs d)" for d iv
    using that event(3) concrete.ov_common_instant [of "\<lparr>ci_start = a, ci_end = b\<rparr>" iv]
    by (simp add: hours_match_def ci_valid_def)
  ultimately have "he_included r \<longleftrightarrow>
      (\<exists>d \<in> {d0..z_date zb}. \<exists>iv \<in> set (ivs d). \<exists>p. a \<le> p \<and> p < b \<and> ci_start iv \<le> p \<and> p < ci_end iv)"
    unfolding r(2) interval_in_days by simp
  moreover have "he_reason r = (if he_included r then overlaps_hours else outside_hours)"
    using r(1) by (auto simp: hours_body_def bindE_Inr_iff Let_def split: if_splits)
  moreover have "evaluateHours t input = Inr r"
    using evaluateHours_profile [OF event] mode r(1) by simp
  ultimately show ?thesis by blast
qed

text \<open>A profile open on weekdays from nine to five, with the lunch hour of one Tuesday removed.\<close>

definition sample_profile :: hours_profile where
  "sample_profile =
     \<lparr>profile_ref = ''work'', profile_revision = 1, timezone = ''UTC'', ambiguous = EarlierOffset,
      nonexistent = RejectGap,
      weekly = map (\<lambda>d. \<lparr>weekday = d, w_start = ''09:00:00'', w_end = ''17:00:00'', w_end_day_offset = 0\<rparr>)
        [1, 2, 3, 4, 5],
      exceptions = [Adjust Remove ''2026-07-21''
        [\<lparr>li_start = ''12:00:00'', li_end = ''13:00:00'', end_day_offset = 0\<rparr>]]\<rparr>"

definition sample_event :: hours_evaluation_input where
  "sample_event =
     \<lparr>he_mode = OverlapsProfile,
      he_event = \<lparr>iv_start = ''2026-07-21T12:30:00Z'', iv_end = ''2026-07-21T14:00:00Z''\<rparr>,
      he_profile = Some sample_profile\<rparr>"

definition sample_intervals :: "int \<Rightarrow> concrete_interval list" where
  "sample_intervals d =
     (if d = 20654 then [\<lparr>ci_start = 1784538000000000000, ci_end = 1784566800000000000\<rparr>]
      else [\<lparr>ci_start = 1784624400000000000, ci_end = 1784635200000000000\<rparr>,
            \<lparr>ci_start = 1784638800000000000, ci_end = 1784653200000000000\<rparr>])"

lemma sample_dates:
  "intervalsForDate utc_library sample_profile 20654 = Inr ([], sample_intervals 20654)"
  "intervalsForDate utc_library sample_profile 20655 = Inr ([], sample_intervals 20655)"
  by code_simp+

lemma sample_two_days: "(20654::int) \<le> d \<Longrightarrow> d \<le> 20655 \<Longrightarrow> d = 20654 \<or> d = 20655"
  by linarith

lemma sample_printed: "inj_on (interval_key utc_library) (\<Union>d \<in> {20654..20655}. set (sample_intervals d))"
proof -
  have days: "{20654..20655::int} = {20654, 20655}" by auto
  have "map (interval_key utc_library) (sample_intervals 20654 @ sample_intervals 20655) =
    [''2026-07-20T09:00:00Z/2026-07-20T17:00:00Z'', ''2026-07-21T09:00:00Z/2026-07-21T12:00:00Z'',
     ''2026-07-21T13:00:00Z/2026-07-21T17:00:00Z'']"
    by code_simp
  then have "distinct (map (interval_key utc_library) (sample_intervals 20654 @ sample_intervals 20655))"
    by simp
  then have "inj_on (interval_key utc_library) (set (sample_intervals 20654 @ sample_intervals 20655))"
    by (simp only: distinct_map)
  then show ?thesis by (simp add: days)
qed

theorem evaluateHours_overlaps_iff_witness:
  "\<exists>r. evaluateHours utc_library sample_event = Inr r \<and> he_included r \<and> he_reason r = overlaps_hours"
proof -
  let ?a = "1784637000000000000" and ?b = "1784642400000000000"
  let ?za = "\<lparr>z_instant = ?a, z_date = 20655, z_time = 45000000000000\<rparr>"
  let ?zb = "\<lparr>z_instant = ?b, z_date = 20655, z_time = 50400000000000\<rparr>"
  have e: "instant_from utc_library (iv_start (he_event sample_event)) = Some ?a"
    "instant_from utc_library (iv_end (he_event sample_event)) = Some ?b" "?a < (?b::int)"
    "he_mode sample_event = OverlapsProfile" "he_profile sample_event = Some sample_profile"
    "to_zoned utc_library (timezone sample_profile) ?a = Some ?za"
    "plain_date_add utc_library (z_date ?za) (- 1) = Some 20654"
    "to_zoned utc_library (timezone sample_profile) ?b = Some ?zb"
    by code_simp+
  have d: "intervalsForDate utc_library sample_profile d = Inr ((\<lambda>_. []) d, sample_intervals d)"
    if "20654 \<le> d" "d \<le> z_date ?zb" for d
    using sample_dates sample_two_days [of d] that by auto
  have p: "inj_on (interval_key utc_library) (\<Union>d \<in> {20654..z_date ?zb}. set (sample_intervals d))"
    using sample_printed by simp
  have "z_date ?zb - 20654 \<le> 370" by simp
  from evaluateHours_overlaps_iff [OF utc_date_add e this d p]
  have "\<exists>r. evaluateHours utc_library sample_event = Inr r
    \<and> (he_included r \<longleftrightarrow> (\<exists>d \<in> {20654..20655}. \<exists>iv \<in> set (sample_intervals d).
          \<exists>p. ?a \<le> p \<and> p < ?b \<and> ci_start iv \<le> p \<and> p < ci_end iv))
    \<and> he_reason r = (if he_included r then overlaps_hours else outside_hours)"
    by simp
  moreover have "\<exists>d \<in> {20654..20655}. \<exists>iv \<in> set (sample_intervals d).
      \<exists>p. ?a \<le> p \<and> p < ?b \<and> ci_start iv \<le> p \<and> p < ci_end iv"
    by (rule bexI [of _ 20655], rule bexI [of _ "\<lparr>ci_start = 1784638800000000000, ci_end = 1784653200000000000\<rparr>"],
        rule exI [of _ 1784638800000000000]) (simp_all add: sample_intervals_def)
  ultimately show ?thesis by auto
qed
text \<open>
  The number of dates is bounded: an event whose local dates (with the day before) span more
  than 371 days is refused with \<open>dst_resolution_rejected\<close>, whatever the profile opens, instead of
  being scanned without limit or silently included.
\<close>

theorem evaluateHours_range_bound:
  assumes day_after: "\<And>d. d0 \<le> d \<Longrightarrow> d \<le> z_date zb \<Longrightarrow> plain_date_add t d 1 = Some (d + 1)"
    and event: "instant_from t (iv_start (he_event input)) = Some a"
      "instant_from t (iv_end (he_event input)) = Some b" "a < b"
    and mode: "he_mode input \<noteq> AllTimes" "he_profile input = Some profile"
    and range: "to_zoned t (timezone profile) a = Some za" "plain_date_add t (z_date za) (- 1) = Some d0"
      "to_zoned t (timezone profile) b = Some zb" "z_date zb - d0 > 370"
    and dates: "\<And>d. d0 \<le> d \<Longrightarrow> d \<le> z_date zb \<Longrightarrow> \<exists>r. intervalsForDate t profile d = Inr r"
  shows "evaluateHours t input = Inr (hours_result False dst_resolution_rejected [dst_resolution_rejected])"
proof -
  have "dayLoop t profile (\<lambda>d. d \<le> z_date zb) d0 0 = Inl DstResolutionError"
    using day_after dates range(4) by (intro dayLoop_too_long) auto
  then have "hours_body t (he_mode input) a b profile = Inl DstResolutionError"
    using range by (simp add: hours_body_def)
  then show ?thesis using evaluateHours_profile [OF event mode] by simp
qed

definition closed_profile :: hours_profile where
  "closed_profile = sample_profile\<lparr>weekly := [], exceptions := []\<rparr>"

lemma closed_profile_dates: "intervalsForDate t closed_profile d = Inr ([], [])"
  by (simp add: intervalsForDate_def closed_profile_def weekly_locals_def materializeAll_def sample_profile_def
      List.map_filter_simps)

definition long_event :: hours_evaluation_input where
  "long_event =
     \<lparr>he_mode = ContainedInProfile,
      he_event = \<lparr>iv_start = ''2026-01-01T00:00:00Z'', iv_end = ''2027-01-07T00:00:00Z''\<rparr>,
      he_profile = Some closed_profile\<rparr>"

theorem evaluateHours_range_bound_witness:
  "evaluateHours utc_library long_event = Inr (hours_result False dst_resolution_rejected [dst_resolution_rejected])"
proof -
  let ?a = "1767225600000000000" and ?b = "1799280000000000000"
  let ?za = "\<lparr>z_instant = ?a, z_date = 20454, z_time = 0\<rparr>"
  let ?zb = "\<lparr>z_instant = ?b, z_date = 20825, z_time = 0\<rparr>"
  have e: "instant_from utc_library (iv_start (he_event long_event)) = Some ?a"
    "instant_from utc_library (iv_end (he_event long_event)) = Some ?b" "?a < (?b::int)"
    "he_mode long_event \<noteq> AllTimes" "he_profile long_event = Some closed_profile"
    "to_zoned utc_library (timezone closed_profile) ?a = Some ?za"
    "plain_date_add utc_library (z_date ?za) (- 1) = Some 20453"
    "to_zoned utc_library (timezone closed_profile) ?b = Some ?zb"
    by code_simp+
  have "z_date ?zb - 20453 > 370" by simp
  then show ?thesis
    using closed_profile_dates by (intro evaluateHours_range_bound [OF utc_date_add e]) blast+
qed

lemma concat_days: "set (concat (map ivs [a..b - 1])) = (\<Union>d \<in> {a..<b::int}. set (ivs d))"
  by auto

text \<open>
  \<open>materializeHours\<close> over the dates from a start date up to an exclusive end date, at most 371
  of them: the result lists the intervals of exactly these dates, each printed interval once,
  none of them empty, ordered by start and then by end; the diagnostics are those of the dates,
  without repetition.
\<close>

theorem materializeHours_collects_dates:
  assumes day_after: "\<And>d. a \<le> d \<Longrightarrow> d < b \<Longrightarrow> plain_date_add t d 1 = Some (d + 1)"
    and bounds: "plain_date_from t (hm_start_date input) = Some a"
      "plain_date_from t (hm_end_date_exclusive input) = Some b" "b - a \<le> 371"
    and dates: "\<And>d. a \<le> d \<Longrightarrow> d < b \<Longrightarrow> intervalsForDate t (hm_profile input) d = Inr (ds d, ivs d)"
  shows "\<exists>out. hm_concrete (materializeHours t input) = publicIntervals t out
    \<and> interval_key t ` set out = interval_key t ` (\<Union>d \<in> {a..<b}. set (ivs d))
    \<and> distinct (map (interval_key t) out) \<and> list_all ci_valid out
    \<and> sorted_wrt (\<lambda>x y. (ci_start x, ci_end x) \<le> (ci_start y, ci_end y)) out
    \<and> hm_diagnostics (materializeHours t input) = uniq (concat (map ds [a..b - 1]))"
proof (cases "a < b")
  case True
  let ?all = "concat (map ivs [a..b - 1])"
  have "dayLoop t (hm_profile input) (\<lambda>d. d \<le> b - 1) a 0 = Inr (concat (map ds [a..b - 1]), ?all)"
    using day_after dates bounds(3) by (intro dayLoop_collect) auto
  moreover have "(\<lambda>d. d \<le> b - 1) = (\<lambda>d. d < b)" by auto
  ultimately have loop: "dayLoop t (hm_profile input) (\<lambda>d. d < b) a 0 = Inr (concat (map ds [a..b - 1]), ?all)"
    by simp
  then have "list_all ci_valid (deduplicateAndSort t ?all)"
    using dayLoop_valid set_deduplicateAndSort by (fastforce simp: list_all_iff)
  moreover have "sorted_wrt (\<lambda>x y. (ci_start x, ci_end x) \<le> (ci_start y, ci_end y)) (deduplicateAndSort t ?all)"
    using interval_order.sorted_sort unfolding compareIntervals_key js_compare_le deduplicateAndSort_def .
  moreover have "interval_key t ` set (deduplicateAndSort t ?all) = interval_key t ` (\<Union>d \<in> {a..<b}. set (ivs d))"
    unfolding deduplicateAndSort_keys concat_days ..
  ultimately show ?thesis
    using True bounds loop distinct_deduplicateAndSort [of t ?all]
    by (intro exI [of _ "deduplicateAndSort t ?all"]) (simp add: materializeHours_def)
next
  case False
  with bounds show ?thesis
    by (auto simp: materializeHours_def publicIntervals_def deduplicateAndSort_def)
qed

definition sample_range :: hours_materialization_input where
  "sample_range = \<lparr>hm_profile = sample_profile, hm_start_date = ''2026-07-20'', hm_end_date_exclusive = ''2026-07-22''\<rparr>"

theorem materializeHours_collects_dates_witness:
  "\<exists>out. hm_concrete (materializeHours utc_library sample_range) = publicIntervals utc_library out
    \<and> interval_key utc_library ` set out
      = {''2026-07-20T09:00:00Z/2026-07-20T17:00:00Z'', ''2026-07-21T09:00:00Z/2026-07-21T12:00:00Z'',
         ''2026-07-21T13:00:00Z/2026-07-21T17:00:00Z''}"
proof -
  have b: "plain_date_from utc_library (hm_start_date sample_range) = Some 20654"
    "plain_date_from utc_library (hm_end_date_exclusive sample_range) = Some 20656" "20656 - 20654 \<le> (371::int)"
    "hm_profile sample_range = sample_profile"
    by code_simp+
  have d: "intervalsForDate utc_library (hm_profile sample_range) d = Inr ((\<lambda>_. []) d, sample_intervals d)"
    if "20654 \<le> d" "d < 20656" for d
    using sample_dates sample_two_days [of d] that b(4) by auto
  have k: "interval_key utc_library ` set (sample_intervals 20654 @ sample_intervals 20655)
      = {''2026-07-20T09:00:00Z/2026-07-20T17:00:00Z'', ''2026-07-21T09:00:00Z/2026-07-21T12:00:00Z'',
         ''2026-07-21T13:00:00Z/2026-07-21T17:00:00Z''}"
    by code_simp
  have "{20654..<20656::int} = {20654, 20655}" by auto
  then have "(\<Union>d \<in> {20654..<20656}. set (sample_intervals d)) = set (sample_intervals 20654 @ sample_intervals 20655)"
    by auto
  then show ?thesis
    using materializeHours_collects_dates [OF utc_date_add b(1-3) d] k by auto
qed

text \<open>
  On a date with a \<open>remove\<close> exception the profile opens exactly the instants that the weekly
  hours open and the exception does not name, however the removed intervals cut the weekly ones.
\<close>

theorem removed_hours_are_closed:
  assumes "find (\<lambda>item. ex_date item = plain_date_to_string t date) (exceptions profile)
      = Some (Adjust Remove dateText removed)"
    and "materializeAll t profile date (weekly_locals t profile date) = Inr (ds, open_hours)"
    and "materializeAll t profile date removed = Inr (ds', removals)"
  shows "\<exists>ivs. intervalsForDate t profile date = Inr (ds @ ds', ivs) \<and> list_all ci_valid ivs
    \<and> (\<forall>p. covers ivs p \<longleftrightarrow> covers open_hours p \<and> \<not> covers removals p)"
  using assms
  by (auto simp: intervalsForDate_def Let_def covers_subtractAll
      intro!: subtractAll_valid dest: materializeAll_valid)

theorem removed_hours_are_closed_witness:
  "\<exists>ivs. intervalsForDate utc_library sample_profile 20655 = Inr ([], ivs)
    \<and> covers ivs 1784635199000000000 \<and> \<not> covers ivs 1784635200000000000"
proof -
  have h: "find (\<lambda>item. ex_date item = plain_date_to_string utc_library 20655) (exceptions sample_profile)
      = Some (Adjust Remove ''2026-07-21'' [\<lparr>li_start = ''12:00:00'', li_end = ''13:00:00'', end_day_offset = 0\<rparr>])"
    "materializeAll utc_library sample_profile 20655 (weekly_locals utc_library sample_profile 20655)
      = Inr ([], [\<lparr>ci_start = 1784624400000000000, ci_end = 1784653200000000000\<rparr>])"
    "materializeAll utc_library sample_profile 20655
        [\<lparr>li_start = ''12:00:00'', li_end = ''13:00:00'', end_day_offset = 0\<rparr>]
      = Inr ([], [\<lparr>ci_start = 1784635200000000000, ci_end = 1784638800000000000\<rparr>])"
    by code_simp+
  from removed_hours_are_closed [OF h] show ?thesis by auto
qed

end
