(* ===== verification/Evaluate.thy ===== *)
theory Evaluate
  imports Hours
begin

section \<open>Policy evaluation (packages/calendar-sync/src/evaluate.ts)\<close>

text \<open>
  The decision the whole program turns on: for one source event, one policy and what is known
  of the copy on the destination calendar, is the event copied, with which content, and what has
  to be done now. The function is pure; what it throws is a value of \<open>eval_error\<close>. The parameters
  are the date library \<open>t\<close> and the digest \<open>sha\<close> of the platform.
\<close>

datatype eval_error = HoursThrew hours_error | CanonThrew canon_error | MissingTiming

definition liftE :: "('e \<Rightarrow> 'f) \<Rightarrow> 'e + 'a \<Rightarrow> 'f + 'a" where
  "liftE f m = (case m of Inl e \<Rightarrow> Inl (f e) | Inr a \<Rightarrow> Inr a)"

lemma liftE_simps [simp]: "liftE f (Inl e) = Inl (f e)" "liftE f (Inr a) = Inr a"
  by (simp_all add: liftE_def)

lemma liftE_Inr [simp]: "liftE f m = Inr a \<longleftrightarrow> m = Inr a"
  by (cases m) auto

definition OMITTED_SOURCE_FIELDS :: "string list" where
  "OMITTED_SOURCE_FIELDS =
     [''/attachments'', ''/attendees'', ''/content/description'', ''/content/summary'',
      ''/content/location'', ''/content/conference'', ''/organizer'', ''/provider_metadata'',
      ''/source_url'']"

definition sortedUnique :: "string list \<Rightarrow> string list" where
  "sortedUnique values = js_sort js_compare (uniq values)"

subsection \<open>Documents as JSON\<close>

fun timing_json :: "event_timing \<Rightarrow> json" where
  "timing_json (Timed s e z z') =
     JObj [(''kind'', Some (JStr ''timed'')), (''start_instant'', Some (JStr s)),
       (''end_instant'', Some (JStr e)), (''start_tzid'', Some (JStr z)), (''end_tzid'', Some (JStr z'))]"
| "timing_json (AllDay s e z) =
     JObj [(''kind'', Some (JStr ''all_day'')), (''start_date'', Some (JStr s)),
       (''end_date'', Some (JStr e)), (''timezone'', Some (JStr z))]"

definition transparency_text :: "transparency \<Rightarrow> string" where
  "transparency_text x = (case x of Opaque \<Rightarrow> ''opaque'' | Transparent \<Rightarrow> ''transparent'')"

definition visibility_text :: "visibility \<Rightarrow> string" where
  "visibility_text x = (case x of PrivateVis \<Rightarrow> ''private'' | DefaultVis \<Rightarrow> ''default'')"

definition provenance_json :: "provenance \<Rightarrow> json" where
  "provenance_json p =
     JObj [(''version'', Some (JNum (Whole 1))), (''policy_ref'', Some (JStr (prov_policy_ref p))),
       (''projection_ref'', Some (JStr (prov_projection_ref p))),
       (''generation'', Some (JNum (Whole (prov_generation p))))]"

text \<open>The properties of a copy in the order \<open>transform\<close> sets them; unset ones are absent.\<close>

definition copy_members :: "desired_copy \<Rightarrow> (string \<times> json option) list" where
  "copy_members d =
     [(''timing'', Some (timing_json (d_timing d))),
      (''summary'', Some (JStr (d_summary d))),
      (''transparency'', Some (JStr (transparency_text (d_transparency d)))),
      (''visibility'', Some (JStr (visibility_text (d_visibility d)))),
      (''reminders'', Some (JArr [])),
      (''write_controls'', Some (JObj [(''send_notifications'', Some (JBool False))])),
      (''provenance'', Some (provenance_json (d_provenance d))),
      (''description'', map_option JStr (d_description d)),
      (''location'', map_option JStr (d_location d)),
      (''conference'', map_option JStr (d_conference d)),
      (''color'', map_option JStr (d_color d))]"

definition copy_json :: "desired_copy \<Rightarrow> json" where
  "copy_json d = JObj (copy_members d)"

definition sameJson :: "json \<Rightarrow> json \<Rightarrow> canon_error + bool" where
  "sameJson left right =
     bindE (canonicalizeJson normalize_NFC left) (\<lambda>l. bindE (canonicalizeJson normalize_NFC right) (\<lambda>r. Inr (l = r)))"

subsection \<open>Results\<close>

fun privacyReason :: "privacy_preset \<Rightarrow> reason_code" where
  "privacyReason BusyOnly = privacy_busy_only"
| "privacyReason Commitment = privacy_commitment"
| "privacyReason PrivateDetails = privacy_private_details"
| "privacyReason SharedDetails = privacy_shared_details"

definition result ::
  "evaluation_selection \<Rightarrow> evaluation_operation \<Rightarrow> reason_code \<Rightarrow> reason_code list \<Rightarrow> reason_code list \<Rightarrow>
   policy_evaluation_result" where
  "result sel operation primary reasons warnings =
     \<lparr>res_selection = sel, res_operation = operation, primary_reason_code = primary,
      reason_codes = uniq reasons, res_desired_copy = None, res_desired_fingerprint = None,
      res_disclosure = None, res_warnings = uniq warnings\<rparr>"

definition excluded :: "policy_evaluation_input \<Rightarrow> reason_code \<Rightarrow> bool \<Rightarrow> policy_evaluation_result" where
  "excluded input reason sourceRemoved =
     (case p_ownership (projection input) of
        Detached \<Rightarrow> result Excluded NoOperation detached_no_action [reason, detached_no_action] []
      | Ambiguous \<Rightarrow> result Held NoOperation ambiguous_ownership [reason, ambiguous_ownership] []
      | Attached \<Rightarrow>
          (let effectReason = (if sourceRemoved then delete_source_removed else delete_policy_exclusion)
           in result Excluded Delete effectReason [reason, effectReason] [])
      | Unowned \<Rightarrow> result Excluded NoOperation reason [reason] [])"

subsection \<open>Selection\<close>

text \<open>
  The regular expression of the exclusion marker: the marker, taken literally, with no word
  character before and none after. \<open>bnd\<close> says that the position may start a match.
\<close>

fun marked :: "bool \<Rightarrow> string \<Rightarrow> string \<Rightarrow> bool" where
  "marked bnd m [] = (bnd \<and> m = [])"
| "marked bnd m (c # cs) =
     (bnd \<and> take (length m) (c # cs) = m
        \<and> (case drop (length m) (c # cs) of [] \<Rightarrow> True | d # _ \<Rightarrow> \<not> word_char d)
      \<or> marked (\<not> word_char c) m cs)"

definition containsNoSync :: "policy_evaluation_input \<Rightarrow> bool" where
  "containsNoSync input =
     (let marker = toLowerCase (normalize_NFC (source_exclusion_marker (selection (policy input))));
          fields = [c_summary (s_content (source input)), c_description (s_content (source input)),
                    r_note (s_relationship (source input))]
      in if length marker = 0 then False
         else list_ex (\<lambda>field. case field of None \<Rightarrow> False
                | Some f \<Rightarrow> marked True marker (toLowerCase (normalize_NFC f))) fields)"

fun timingInterval :: "temporal \<Rightarrow> event_timing \<Rightarrow> hours_error + instant_interval" where
  "timingInterval t (Timed s e z z') = Inr \<lparr>iv_start = s, iv_end = e\<rparr>"
| "timingInterval t (AllDay s e z) =
     bindE (orThrow RangeError (plain_date_from t s)) (\<lambda>startDate.
     bindE (orThrow RangeError (plain_date_from t e)) (\<lambda>endDate.
     bindE (orThrow RangeError (zoned_from t z startDate 0 CompatibleTime)) (\<lambda>start.
     bindE (orThrow RangeError (zoned_from t z endDate 0 CompatibleTime)) (\<lambda>fin.
       Inr \<lparr>iv_start = instant_to_string t (z_instant start), iv_end = instant_to_string t (z_instant fin)\<rparr>))))"

definition overlaps :: "temporal \<Rightarrow> instant_interval \<Rightarrow> instant_interval \<Rightarrow> hours_error + bool" where
  "overlaps t left right =
     bindE (orThrow RangeError (instant_from t (iv_start left))) (\<lambda>leftStart.
     bindE (orThrow RangeError (instant_from t (iv_end left))) (\<lambda>leftEnd.
     bindE (orThrow RangeError (instant_from t (iv_start right))) (\<lambda>rightStart.
     bindE (orThrow RangeError (instant_from t (iv_end right))) (\<lambda>rightEnd.
       Inr (compareInstant leftStart leftEnd < 0 \<and> compareInstant rightStart rightEnd < 0
            \<and> compareInstant leftStart rightEnd < 0 \<and> compareInstant rightStart leftEnd < 0)))))"

definition validate :: "policy_evaluation_input \<Rightarrow> reason_code option" where
  "validate input =
     (let pol = policy input; priv = privacy pol; caps = capabilities input in
      if source_calendar_ref pol = destination_calendar_ref pol then Some invalid_same_calendar
      else if \<not> writable caps then Some invalid_unwritable_destination
      else if copy_attendees priv \<or> copy_organizer priv then Some invalid_privacy_transform
      else if (preset priv = BusyOnly \<or> preset priv = Commitment)
              \<and> (copy_summary priv \<or> copy_description priv \<or> copy_location priv \<or> copy_conference priv)
      then Some invalid_privacy_transform
      else if length (trim (normalize_NFC (generic_summary priv))) = 0 then Some invalid_privacy_transform
      else if preset priv \<noteq> SharedDetails \<and> \<not> private_visibility caps
      then Some unsupported_destination_capability
      else if copy_conference priv \<and> \<not> conference_copy caps then Some unsupported_destination_capability
      else if destination_color pol \<noteq> None \<and> \<not> color_capable caps
      then Some unsupported_destination_capability
      else if s_lifecycle (source input) = Confirmed \<and> s_timing (source input) = None
      then Some invalid_source_event
      else if hours_mode pol \<noteq> AllTimes
              \<and> (case hours_profile input of None \<Rightarrow> True
                 | Some hp \<Rightarrow> hours_profile_ref pol \<noteq> Some (profile_ref hp))
      then Some invalid_hours_profile
      else None)"

record effective =
  ea_availability :: "availability option"
  ea_reason :: "reason_code option"
  ea_omitted :: "reason_code option"

definition ea_omit :: "reason_code \<Rightarrow> effective" where
  "ea_omit r = \<lparr>ea_availability = None, ea_reason = None, ea_omitted = Some r\<rparr>"

definition ea_as :: "availability \<Rightarrow> reason_code option \<Rightarrow> effective" where
  "ea_as a r = \<lparr>ea_availability = Some a, ea_reason = r, ea_omitted = None\<rparr>"

definition effectiveAvailability :: "policy_evaluation_input \<Rightarrow> effective" where
  "effectiveAvailability input =
     (let rel = s_relationship (source input); sel = selection (policy input);
          fallback = ea_as (case s_availability (source input) of None \<Rightarrow> Busy | Some a \<Rightarrow> a) None in
      case r_role rel of
        Organizer \<Rightarrow> ea_as Busy (Some organizer_assumed_accepted)
      | Attendee \<Rightarrow>
          (case r_response rel of
             Declined \<Rightarrow> ea_omit rsvp_declined
           | Accepted \<Rightarrow> ea_as Busy (Some rsvp_accepted)
           | Tentative \<Rightarrow>
               (case sel_tentative sel of
                  Omit \<Rightarrow> ea_omit rsvp_tentative_omitted
                | AsBusy \<Rightarrow> ea_as Busy (Some rsvp_tentative_busy)
                | AsFree \<Rightarrow> ea_as Free (Some rsvp_tentative_free))
           | NeedsAction \<Rightarrow>
               (case sel_unanswered sel of
                  Omit \<Rightarrow> ea_omit rsvp_unanswered_omitted
                | AsBusy \<Rightarrow> ea_as Busy (Some rsvp_unanswered_busy)
                | AsFree \<Rightarrow> ea_as Free (Some rsvp_unanswered_free))
           | NotApplicable \<Rightarrow> fallback)
      | NoRole \<Rightarrow> fallback)"

subsection \<open>The copy and what it discloses\<close>

definition shows_details :: "privacy_policy \<Rightarrow> bool" where
  "shows_details priv \<longleftrightarrow> preset priv = PrivateDetails \<or> preset priv = SharedDetails"

definition desired_of :: "policy_evaluation_input \<Rightarrow> availability \<Rightarrow> event_timing \<Rightarrow> desired_copy" where
  "desired_of input avail timing =
     (let priv = privacy (policy input); content = s_content (source input);
          details = shows_details priv; proj = projection input in
      \<lparr>d_timing = timing,
       d_summary = (if details \<and> copy_summary priv
         then (case c_summary content of None \<Rightarrow> [] | Some x \<Rightarrow> x) else generic_summary priv),
       d_description = (if details \<and> copy_description priv then c_description content else None),
       d_location = (if details \<and> copy_location priv then c_location content else None),
       d_conference = (if details \<and> copy_conference priv then c_conference content else None),
       d_transparency = (if avail = Free then Transparent else Opaque),
       d_visibility = (if preset priv = SharedDetails then DefaultVis else PrivateVis),
       d_color = destination_color (policy input),
       d_provenance = \<lparr>prov_policy_ref = policy_ref (policy input),
         prov_projection_ref =
           (case p_projection_ref proj of None \<Rightarrow> candidate_projection_ref input | Some r \<Rightarrow> r),
         prov_generation = (case p_generation proj of None \<Rightarrow> 1 | Some g \<Rightarrow> g)\<rparr>\<rparr>)"

definition disclosed_fields :: "privacy_policy \<Rightarrow> string list" where
  "disclosed_fields priv =
     (let details = shows_details priv in
      [''/timing'']
      @ (if details \<and> copy_summary priv then [''/content/summary''] else [])
      @ (if details \<and> copy_description priv then [''/content/description''] else [])
      @ (if details \<and> copy_location priv then [''/content/location''] else [])
      @ (if details \<and> copy_conference priv then [''/content/conference''] else []))"

definition read_fields :: "policy_evaluation_input \<Rightarrow> string list" where
  "read_fields input =
     (let priv = privacy (policy input); details = shows_details priv in
      [''/availability'', ''/content/description'', ''/content/summary'',
       ''/destination_identity_invited'', ''/origin'']
      @ (case s_recurrence (source input) of None \<Rightarrow> [] | Some _ \<Rightarrow> [''/recurrence''])
      @ [''/relationship'', ''/timing'']
      @ (if details \<and> copy_location priv then [''/content/location''] else [])
      @ (if details \<and> copy_conference priv then [''/content/conference''] else []))"

text \<open>\<open>Object.keys(desired)\<close>: the properties that were set.\<close>

definition copy_keys :: "desired_copy \<Rightarrow> string list" where
  "copy_keys d = map fst (filter (\<lambda>(k, v). v \<noteq> None) (copy_members d))"

definition transform ::
  "policy_evaluation_input \<Rightarrow> availability \<Rightarrow> eval_error + desired_copy \<times> disclosure_manifest" where
  "transform input avail =
     (case s_timing (source input) of
        None \<Rightarrow> Inl MissingTiming
      | Some timing \<Rightarrow>
          (let priv = privacy (policy input);
               desired = desired_of input avail timing;
               disclosed = disclosed_fields priv
           in Inr (desired,
             \<lparr>dm_preset = preset priv,
              source_fields_read = sortedUnique (read_fields input),
              source_fields_disclosed = sortedUnique disclosed,
              destination_fields_written = sortedUnique (map (\<lambda>k. CHR ''/'' # k) (copy_keys desired)),
              source_fields_omitted =
                js_sort js_compare (filter (\<lambda>field. field \<notin> set disclosed) OMITTED_SOURCE_FIELDS)\<rparr>)))"

subsection \<open>The evaluation\<close>

text \<open>
  The part of \<open>evaluatePolicy\<close> after the checks on the policy, the life cycle of the event and
  the explicit exclusions: timing, availability and hours. It answers with the final result for an
  excluded event, or with the availability, the selection reasons and the warnings of an included
  one.
\<close>

datatype selected =
    Rejected policy_evaluation_result
  | Chosen availability "reason_code list" "reason_code list"

definition kind_choice ::
  "policy_evaluation_input \<Rightarrow> event_timing \<Rightarrow> availability \<Rightarrow> policy_evaluation_result + reason_code" where
  "kind_choice input timing avail =
     (let sel = selection (policy input) in
      if is_timed timing then
        if sel_timed sel = SkipTimed then Inl (excluded input timed_event_disabled False)
        else Inr timed_event_included
      else if sel_all_day sel = SkipAllDay then Inl (excluded input all_day False)
      else if sel_all_day sel = BusyAllDay \<and> avail = Free then Inl (excluded input all_day_free False)
      else Inr (if sel_all_day sel = BusyAllDay then all_day_busy_included else all_day_included))"

text \<open>Free events: the availability to write, a reason and whether it is also a warning.\<close>

definition free_choice ::
  "policy_evaluation_input \<Rightarrow> availability \<Rightarrow>
   policy_evaluation_result + availability \<times> reason_code list \<times> reason_code list" where
  "free_choice input avail =
     (if avail = Free then
        (let redacted = (preset (privacy (policy input)) = BusyOnly \<or> preset (privacy (policy input)) = Commitment) in
         case sel_free_events (selection (policy input)) of
           SkipWhenRedacted \<Rightarrow>
             if redacted then Inl (excluded input free False) else Inr (Free, [free_preserved], [])
         | PreserveFree \<Rightarrow> Inr (Free, [free_preserved], [])
         | ForceBusy \<Rightarrow> Inr (Busy, [free_forced_busy], [free_forced_busy]))
      else Inr (avail, [], []))"

definition hours_choice ::
  "temporal \<Rightarrow> policy_evaluation_input \<Rightarrow> event_timing \<Rightarrow>
   eval_error + (policy_evaluation_result + reason_code list)" where
  "hours_choice t input timing =
     (if is_timed timing then
        bindE (liftE HoursThrew (evaluateHours t
            \<lparr>he_mode = hours_mode (policy input),
             he_event = \<lparr>iv_start = start_instant timing, iv_end = end_instant timing\<rparr>,
             he_profile = hours_profile input\<rparr>)) (\<lambda>hours.
          Inr (if \<not> he_included hours then Inl (excluded input (he_reason hours) False)
               else Inr (he_diagnostics hours @ [he_reason hours])))
      else Inr (Inr []))"

definition select_event ::
  "temporal \<Rightarrow> policy_evaluation_input \<Rightarrow> eval_error + selected" where
  "select_event t input =
     (let response = effectiveAvailability input in
      case ea_omitted response of
        Some r \<Rightarrow> Inr (Rejected (excluded input r False))
      | None \<Rightarrow>
          (let avail = (case ea_availability response of None \<Rightarrow> Busy | Some a \<Rightarrow> a) in
           case s_timing (source input) of
             None \<Rightarrow> Inr (Rejected (result Invalid NoOperation invalid_source_event [invalid_source_event] []))
           | Some timing \<Rightarrow>
               bindE (liftE HoursThrew (timingInterval t timing)) (\<lambda>interval.
               bindE (liftE HoursThrew (overlaps t interval (horizon input))) (\<lambda>inside.
               if \<not> inside then Inr (Rejected (excluded input outside_horizon False))
               else case kind_choice input timing avail of
                 Inl r \<Rightarrow> Inr (Rejected r)
               | Inr kind_reason \<Rightarrow>
                   (case free_choice input avail of
                      Inl r \<Rightarrow> Inr (Rejected r)
                    | Inr (avail', free_reasons, warnings) \<Rightarrow>
                        bindE (hours_choice t input timing) (\<lambda>h.
                          Inr (case h of
                                 Inl r \<Rightarrow> Rejected r
                               | Inr hours_reasons \<Rightarrow>
                                   Chosen avail'
                                     ((case ea_reason response of None \<Rightarrow> [] | Some r \<Rightarrow> [r])
                                      @ [kind_reason] @ free_reasons @ hours_reasons)
                                     warnings)))))))"

text \<open>The part of \<open>evaluatePolicy\<close> that compares the desired copy with what is known of the copy.\<close>

definition plan_operation ::
  "projection_input \<Rightarrow> desired_copy \<Rightarrow> string \<Rightarrow> canon_error + evaluation_operation \<times> reason_code" where
  "plan_operation proj desired desiredFingerprint =
     (if p_ownership proj = Unowned then Inr (Create, create_missing_copy)
      else if p_destination_exists proj = Some False then Inr (Create, restore_destination_missing)
      else
        bindE (case p_observed_copy proj of
                 None \<Rightarrow> Inr False
               | Some observed \<Rightarrow>
                   bindE (sameJson (copy_json observed) (copy_json desired)) (\<lambda>same. Inr (\<not> same)))
          (\<lambda>drifted.
            Inr (if drifted then (Update, restore_destination_drift)
                 else if p_desired_fingerprint proj \<noteq> None
                         \<and> p_desired_fingerprint proj \<noteq> Some desiredFingerprint
                 then (Update, update_source_change)
                 else (NoOperation, no_change))))"

definition evaluatePolicy ::
  "temporal \<Rightarrow> (string \<Rightarrow> string) \<Rightarrow> policy_evaluation_input \<Rightarrow> eval_error + policy_evaluation_result" where
  "evaluatePolicy t sha input =
     (case validate input of
        Some invalid \<Rightarrow> Inr (result Invalid NoOperation invalid [invalid] [])
      | None \<Rightarrow>
          if state (policy input) = Paused then Inr (result Held NoOperation policy_paused [policy_paused] [])
          else if state (policy input) = Disabled
          then Inr (result Excluded NoOperation policy_disabled [policy_disabled] [])
          else if state (policy input) = ReviewRequired
          then Inr (result Held NoOperation policy_review_required [policy_review_required] [])
          else if s_lifecycle (source input) = Deleted then Inr (excluded input source_deleted True)
          else if s_lifecycle (source input) = Cancelled then Inr (excluded input source_cancelled True)
          else if s_origin (source input) = PlanipusManaged then Inr (excluded input managed_copy False)
          else if source_event_ref (source input) \<in> set (manual_exclusions (selection (policy input)))
          then Inr (excluded input manual_exclusion False)
          else if containsNoSync input then Inr (excluded input nosync False)
          else if skip_when_invited (selection (policy input)) \<and> destination_identity_invited (source input)
          then Inr (excluded input already_invited False)
          else
            bindE (select_event t input) (\<lambda>choice.
              case choice of
                Rejected r \<Rightarrow> Inr r
              | Chosen avail selectionReasons warnings \<Rightarrow>
                  if p_ownership (projection input) = Detached
                  then Inr (result Included NoOperation detached_no_action
                         (selectionReasons @ [detached_no_action]) warnings)
                  else if p_ownership (projection input) = Ambiguous
                  then Inr (result Held NoOperation ambiguous_ownership
                         (selectionReasons @ [ambiguous_ownership]) warnings)
                  else
                    bindE (transform input avail) (\<lambda>(desired, disclosure).
                    bindE (liftE CanonThrew (sha256Canonical sha (copy_json desired))) (\<lambda>desiredFingerprint.
                    bindE (liftE CanonThrew (plan_operation (projection input) desired desiredFingerprint))
                      (\<lambda>(operation, operationReason).
                      Inr \<lparr>res_selection = Included, res_operation = operation,
                           primary_reason_code = operationReason,
                           reason_codes = uniq (selectionReasons
                             @ [privacyReason (preset (privacy (policy input))), operationReason]),
                           res_desired_copy = Some desired,
                           res_desired_fingerprint = Some desiredFingerprint,
                           res_disclosure = Some disclosure,
                           res_warnings = uniq warnings\<rparr>)))))"

subsection \<open>The shapes of a result\<close>

text \<open>
  Every result of the evaluation is one of three: a refusal that does nothing, an exclusion (which
  may delete), or a desired copy with its planned operation.
\<close>

definition copy_result ::
  "policy_evaluation_input \<Rightarrow> reason_code list \<Rightarrow> reason_code list \<Rightarrow> desired_copy \<Rightarrow> disclosure_manifest \<Rightarrow>
   string \<Rightarrow> evaluation_operation \<Rightarrow> reason_code \<Rightarrow> policy_evaluation_result" where
  "copy_result input reasons warnings desired disclosure fp op opr =
     \<lparr>res_selection = Included, res_operation = op, primary_reason_code = opr,
      reason_codes = uniq (reasons @ [privacyReason (preset (privacy (policy input))), opr]),
      res_desired_copy = Some desired, res_desired_fingerprint = Some fp,
      res_disclosure = Some disclosure, res_warnings = uniq warnings\<rparr>"

inductive inert :: "policy_evaluation_result \<Rightarrow> bool" where
  "primary \<in> set reasons \<Longrightarrow> inert (result sel NoOperation primary reasons warnings)"

lemma inert_simps:
  assumes "inert r"
  shows "res_operation r = NoOperation" "res_desired_copy r = None"
    "primary_reason_code r \<in> set (reason_codes r)" "distinct (reason_codes r)"
  using assms by (auto simp: result_def elim!: inert.cases)

lemma choice_Inl:
  "kind_choice input timing avail = Inl r \<Longrightarrow> \<exists>reason. r = excluded input reason False"
  "free_choice input avail = Inl r \<Longrightarrow> \<exists>reason. r = excluded input reason False"
  "hours_choice t input timing = Inr (Inl r) \<Longrightarrow> \<exists>reason. r = excluded input reason False"
  by (auto simp: kind_choice_def free_choice_def hours_choice_def Let_def bindE_Inr_iff
      split: if_splits free_selection.splits)

lemma case_sum_Rejected:
  "(case h of Inl r' \<Rightarrow> Rejected r' | Inr x \<Rightarrow> Chosen (f x) (g x) (w x)) = Rejected r \<longleftrightarrow> h = Inl r"
  by (cases h) auto

lemma select_event_Rejected:
  assumes "select_event t input = Inr (Rejected r)"
  shows "inert r \<or> (\<exists>reason. r = excluded input reason False)"
proof (cases "ea_omitted (effectiveAvailability input)")
  case (Some x)
  with assms show ?thesis by (auto simp: select_event_def)
next
  case None
  show ?thesis
  proof (cases "s_timing (source input)")
    case None
    with assms \<open>ea_omitted _ = None\<close> show ?thesis
      by (auto simp: select_event_def intro: inert.intros)
  next
    case (Some timing)
    let ?avail = "case ea_availability (effectiveAvailability input) of None \<Rightarrow> Busy | Some a \<Rightarrow> a"
    show ?thesis
      using assms None Some
      by (cases "kind_choice input timing ?avail"; cases "free_choice input ?avail")
        (auto simp: select_event_def Let_def bindE_Inr_iff case_sum_Rejected dest: choice_Inl(1,2)
          split: if_splits, metis choice_Inl(3))
  qed
qed

text \<open>The tests an event passes before its timing and availability are looked at.\<close>

definition admissible :: "policy_evaluation_input \<Rightarrow> bool" where
  "admissible input \<longleftrightarrow> validate input = None \<and> state (policy input) = Active
     \<and> s_lifecycle (source input) = Confirmed \<and> s_origin (source input) = ProviderOriginal
     \<and> source_event_ref (source input) \<notin> set (manual_exclusions (selection (policy input)))
     \<and> \<not> containsNoSync input
     \<and> \<not> (skip_when_invited (selection (policy input)) \<and> destination_identity_invited (source input))"

lemma admissible_states:
  "state (policy input) \<noteq> Paused \<Longrightarrow> state (policy input) \<noteq> Disabled \<Longrightarrow>
   state (policy input) \<noteq> ReviewRequired \<Longrightarrow> state (policy input) = Active"
  "s_lifecycle (source input) \<noteq> Deleted \<Longrightarrow> s_lifecycle (source input) \<noteq> Cancelled \<Longrightarrow>
   s_lifecycle (source input) = Confirmed"
  "s_origin (source input) \<noteq> PlanipusManaged \<Longrightarrow> s_origin (source input) = ProviderOriginal"
proof -
  show "s_lifecycle (source input) \<noteq> Deleted \<Longrightarrow> s_lifecycle (source input) \<noteq> Cancelled \<Longrightarrow>
   s_lifecycle (source input) = Confirmed" by (cases "s_lifecycle (source input)") simp_all
  show "s_origin (source input) \<noteq> PlanipusManaged \<Longrightarrow> s_origin (source input) = ProviderOriginal"
    by (cases "s_origin (source input)") simp_all
qed (cases "state (policy input)"; simp)

definition evaluate_admissible ::
  "temporal \<Rightarrow> (string \<Rightarrow> string) \<Rightarrow> policy_evaluation_input \<Rightarrow> eval_error + policy_evaluation_result" where
  "evaluate_admissible t sha input =
     bindE (select_event t input) (\<lambda>choice.
       case choice of
         Rejected r \<Rightarrow> Inr r
       | Chosen avail reasons warnings \<Rightarrow>
           if p_ownership (projection input) = Detached
           then Inr (result Included NoOperation detached_no_action (reasons @ [detached_no_action]) warnings)
           else if p_ownership (projection input) = Ambiguous
           then Inr (result Held NoOperation ambiguous_ownership (reasons @ [ambiguous_ownership]) warnings)
           else
             bindE (transform input avail) (\<lambda>(desired, disclosure).
             bindE (liftE CanonThrew (sha256Canonical sha (copy_json desired))) (\<lambda>fp.
             bindE (liftE CanonThrew (plan_operation (projection input) desired fp)) (\<lambda>(op, opr).
               Inr (copy_result input reasons warnings desired disclosure fp op opr)))))"

lemma evaluatePolicy_admissible: "admissible input \<Longrightarrow> evaluatePolicy t sha input = evaluate_admissible t sha input"
  unfolding evaluatePolicy_def evaluate_admissible_def copy_result_def admissible_def
  by (elim conjE, simp only: option.case if_False policy_state.distinct lifecycle.distinct origin.distinct simp_thms)

lemma evaluatePolicy_inadmissible:
  assumes "\<not> admissible input"
  shows "\<exists>r. evaluatePolicy t sha input = Inr r
    \<and> (inert r \<or> validate input = None \<and> state (policy input) = Active \<and> (\<exists>reason b. r = excluded input reason b))"
proof (cases "validate input")
  case (Some v)
  then show ?thesis by (auto simp: evaluatePolicy_def intro: inert.intros)
next
  case None
  then show ?thesis
  proof (cases "state (policy input) = Active")
    case True
    with None assms show ?thesis
      using admissible_states(2,3) [of input] unfolding admissible_def evaluatePolicy_def by auto
  next
    case False
    with None show ?thesis
      using admissible_states(1) [of input] unfolding evaluatePolicy_def by (auto intro: inert.intros)
  qed
qed

lemma evaluate_admissible_cases:
  assumes "evaluate_admissible t sha input = Inr r"
  obtains (inert) "inert r"
  | (excluded) reason where "r = excluded input reason False"
  | (copied) avail reasons warnings desired disclosure fp op opr where
      "select_event t input = Inr (Chosen avail reasons warnings)"
      "p_ownership (projection input) = Unowned \<or> p_ownership (projection input) = Attached"
      "transform input avail = Inr (desired, disclosure)"
      "sha256Canonical sha (copy_json desired) = Inr fp"
      "plan_operation (projection input) desired fp = Inr (op, opr)"
      "r = copy_result input reasons warnings desired disclosure fp op opr"
proof -
  from assms obtain choice where choice: "select_event t input = Inr choice"
    by (auto simp: evaluate_admissible_def bindE_Inr_iff)
  show thesis
  proof (cases choice)
    case (Rejected r')
    with assms choice have "r' = r" by (simp add: evaluate_admissible_def)
    with select_event_Rejected Rejected choice show thesis using inert excluded by blast
  next
    case (Chosen avail reasons warnings)
    show thesis
    proof (cases "p_ownership (projection input) = Unowned \<or> p_ownership (projection input) = Attached")
      case True
      with assms choice Chosen show thesis
        by (auto simp: evaluate_admissible_def bindE_Inr_iff intro: copied)
    next
      case False
      then have "p_ownership (projection input) = Detached \<or> p_ownership (projection input) = Ambiguous"
        by (cases "p_ownership (projection input)") auto
      with assms choice Chosen have "inert r"
        by (auto simp: evaluate_admissible_def intro!: inert.intros)
      then show thesis by (rule inert)
    qed
  qed
qed

subsection \<open>Safety of the planned operation\<close>

lemma excluded_facts:
  "res_operation (excluded input reason b) = (if p_ownership (projection input) = Attached then Delete else NoOperation)"
  "res_desired_copy (excluded input reason b) = None"
  "primary_reason_code (excluded input reason b) \<in> set (reason_codes (excluded input reason b))"
  "distinct (reason_codes (excluded input reason b))"
  by (auto simp: excluded_def result_def Let_def split: ownership.splits)

lemma plan_operation_facts:
  assumes "plan_operation proj desired fp = Inr (op, opr)"
  shows "op \<noteq> Delete" "op = Create \<Longrightarrow> p_ownership proj = Unowned \<or> p_destination_exists proj = Some False"
    "op = Update \<Longrightarrow> p_ownership proj \<noteq> Unowned"
  using assms by (auto simp: plan_operation_def bindE_Inr_iff split: if_splits)

lemma evaluatePolicy_cases:
  assumes "evaluatePolicy t sha input = Inr r"
  obtains (inert) "inert r"
  | (excluded) reason b where "validate input = None" "state (policy input) = Active" "r = excluded input reason b"
  | (copied) avail reasons warnings desired disclosure fp op opr where
      "admissible input"
      "select_event t input = Inr (Chosen avail reasons warnings)"
      "p_ownership (projection input) = Unowned \<or> p_ownership (projection input) = Attached"
      "transform input avail = Inr (desired, disclosure)"
      "sha256Canonical sha (copy_json desired) = Inr fp"
      "plan_operation (projection input) desired fp = Inr (op, opr)"
      "r = copy_result input reasons warnings desired disclosure fp op opr"
proof (cases "admissible input")
  case True
  with assms have "evaluate_admissible t sha input = Inr r" by (simp add: evaluatePolicy_admissible)
  moreover have "validate input = None" "state (policy input) = Active" using True by (auto simp: admissible_def)
  ultimately show thesis
    by (cases rule: evaluate_admissible_cases) (use True inert excluded copied in blast)+
next
  case False
  with evaluatePolicy_inadmissible [OF this, of t sha] assms show thesis using inert excluded by auto
qed

lemma validate_None:
  "validate input = None \<Longrightarrow>
   source_calendar_ref (policy input) \<noteq> destination_calendar_ref (policy input) \<and> writable (capabilities input)
   \<and> \<not> copy_attendees (privacy (policy input)) \<and> \<not> copy_organizer (privacy (policy input))
   \<and> (preset (privacy (policy input)) \<noteq> SharedDetails \<longrightarrow> private_visibility (capabilities input))"
  by (auto simp: validate_def Let_def split: if_splits)

text \<open>
  C5: What an evaluation may ask for. An operation on the destination calendar is planned only
  for an active, valid policy with two different calendars and a writable destination; a copy is
  deleted or rewritten only when the projection is attached, and created only when there is no
  projection yet or the attached copy is known to be missing. A detached or ambiguous projection
  is never touched.
\<close>

theorem planned_operation_is_authorized:
  assumes "evaluatePolicy t sha input = Inr r" "res_operation r \<noteq> NoOperation"
  shows "state (policy input) = Active \<and> writable (capabilities input)
    \<and> source_calendar_ref (policy input) \<noteq> destination_calendar_ref (policy input)
    \<and> (res_operation r = Delete \<or> res_operation r = Update \<longrightarrow> p_ownership (projection input) = Attached)
    \<and> (res_operation r = Create \<longrightarrow> p_ownership (projection input) = Unowned
         \<or> p_ownership (projection input) = Attached \<and> p_destination_exists (projection input) = Some False)"
  using assms(1)
proof (cases rule: evaluatePolicy_cases)
  case inert
  with assms(2) show ?thesis by (simp add: inert_simps)
next
  case (excluded reason b)
  with assms(2) validate_None show ?thesis by (auto simp: excluded_facts split: if_splits)
next
  case (copied avail reasons warnings desired disclosure fp op opr)
  then have v: "validate input = None" "state (policy input) = Active" by (auto simp: admissible_def)
  have "res_operation r = op" using copied by (simp add: copy_result_def)
  with copied(3) plan_operation_facts [OF copied(6)] v validate_None [OF v(1)] show ?thesis by auto
qed

text \<open>
  No copy of a copy. An event that Planipus itself manages never leads to a creation or an
  update on any destination and has no desired copy, so bridges in both directions between two
  calendars cannot feed each other.
\<close>

theorem managed_copy_is_never_copied:
  assumes "evaluatePolicy t sha input = Inr r" "s_origin (source input) = PlanipusManaged"
  shows "res_operation r \<in> {NoOperation, Delete} \<and> res_desired_copy r = None"
  using assms(1)
proof (cases rule: evaluatePolicy_cases)
  case inert
  then show ?thesis by (simp add: inert_simps)
next
  case excluded
  then show ?thesis by (simp add: excluded_facts)
next
  case copied
  with assms(2) show ?thesis by (simp add: admissible_def)
qed

subsection \<open>Privacy\<close>

text \<open>
  \<open>with_private_parts\<close> replaces everything of the source event that a policy may keep private: the
  content, the note of the response, the attendees, the organizer, attachments, links and provider data.
\<close>

definition with_private_parts ::
  "event_content \<Rightarrow> string option \<Rightarrow> string list option \<Rightarrow> string option \<Rightarrow> string list option \<Rightarrow>
   string option \<Rightarrow> json option \<Rightarrow> policy_evaluation_input \<Rightarrow> policy_evaluation_input" where
  "with_private_parts content note attendees organizer attachments url metadata input =
     input\<lparr>source := (source input)\<lparr>s_content := content,
       s_relationship := (s_relationship (source input))\<lparr>r_note := note\<rparr>,
       s_attendees := attendees, s_organizer := organizer, s_attachments := attachments,
       s_source_url := url, s_provider_metadata := metadata\<rparr>\<rparr>"

text \<open>Two contents agree on the fields that the disclosure manifest names.\<close>

definition same_disclosed :: "privacy_policy \<Rightarrow> event_content \<Rightarrow> event_content \<Rightarrow> bool" where
  "same_disclosed priv c c' \<longleftrightarrow>
     (''/content/summary'' \<in> set (disclosed_fields priv) \<longrightarrow> c_summary c' = c_summary c) \<and>
     (''/content/description'' \<in> set (disclosed_fields priv) \<longrightarrow> c_description c' = c_description c) \<and>
     (''/content/location'' \<in> set (disclosed_fields priv) \<longrightarrow> c_location c' = c_location c) \<and>
     (''/content/conference'' \<in> set (disclosed_fields priv) \<longrightarrow> c_conference c' = c_conference c)"

lemma with_private_parts_fields [simp]:
  "policy (with_private_parts c n a g x u m input) = policy input"
  "projection (with_private_parts c n a g x u m input) = projection input"
  "horizon (with_private_parts c n a g x u m input) = horizon input"
  "hours_profile (with_private_parts c n a g x u m input) = hours_profile input"
  "capabilities (with_private_parts c n a g x u m input) = capabilities input"
  "candidate_projection_ref (with_private_parts c n a g x u m input) = candidate_projection_ref input"
  "s_content (source (with_private_parts c n a g x u m input)) = c"
  "s_timing (source (with_private_parts c n a g x u m input)) = s_timing (source input)"
  "s_lifecycle (source (with_private_parts c n a g x u m input)) = s_lifecycle (source input)"
  "s_origin (source (with_private_parts c n a g x u m input)) = s_origin (source input)"
  "s_recurrence (source (with_private_parts c n a g x u m input)) = s_recurrence (source input)"
  "s_availability (source (with_private_parts c n a g x u m input)) = s_availability (source input)"
  "source_event_ref (source (with_private_parts c n a g x u m input)) = source_event_ref (source input)"
  "destination_identity_invited (source (with_private_parts c n a g x u m input))
     = destination_identity_invited (source input)"
  "r_role (s_relationship (source (with_private_parts c n a g x u m input))) = r_role (s_relationship (source input))"
  "r_response (s_relationship (source (with_private_parts c n a g x u m input)))
     = r_response (s_relationship (source input))"
  by (simp_all add: with_private_parts_def)

lemma private_parts_selection:
  "validate (with_private_parts c n a g x u m input) = validate input"
  "excluded (with_private_parts c n a g x u m input) = excluded input"
  "effectiveAvailability (with_private_parts c n a g x u m input) = effectiveAvailability input"
  "kind_choice (with_private_parts c n a g x u m input) = kind_choice input"
  "free_choice (with_private_parts c n a g x u m input) = free_choice input"
  "hours_choice t (with_private_parts c n a g x u m input) = hours_choice t input"
proof -
  let ?i = "with_private_parts c n a g x u m input"
  show "validate ?i = validate input" unfolding fun_eq_iff validate_def with_private_parts_fields by simp
  show e: "excluded ?i = excluded input" unfolding fun_eq_iff excluded_def with_private_parts_fields by simp
  show "effectiveAvailability ?i = effectiveAvailability input" 
    unfolding effectiveAvailability_def Let_def with_private_parts_fields by (rule refl)
  show "kind_choice ?i = kind_choice input" unfolding fun_eq_iff kind_choice_def with_private_parts_fields e by simp
  show "free_choice ?i = free_choice input" unfolding fun_eq_iff free_choice_def with_private_parts_fields e by simp
  show "hours_choice t ?i = hours_choice t input" unfolding fun_eq_iff hours_choice_def with_private_parts_fields e by simp
qed

lemma private_parts_select_event: "select_event t (with_private_parts c n a g x u m input) = select_event t input"
  unfolding select_event_def private_parts_selection with_private_parts_fields by (rule refl)

lemma private_parts_transform:
  assumes "same_disclosed (privacy (policy input)) (s_content (source input)) c"
  shows "transform (with_private_parts c n a g x u m input) avail = transform input avail"
proof -
  have "desired_of (with_private_parts c n a g x u m input) avail timing = desired_of input avail timing" for timing
    using assms unfolding desired_of_def Let_def with_private_parts_fields
    by (simp add: same_disclosed_def disclosed_fields_def Let_def)
  moreover have "read_fields (with_private_parts c n a g x u m input) = read_fields input"
    unfolding read_fields_def Let_def with_private_parts_fields by (rule refl)
  ultimately show ?thesis
    unfolding transform_def with_private_parts_fields by (simp only:)
qed

text \<open>
  C6: Undisclosed content cannot leak. Replace everything private about the source event by
  anything else, keeping only the content fields that the disclosure manifest of the policy names
  and the outcome of the exclusion marker: the result of the evaluation, the desired copy and its
  fingerprint included, is the same. With the presets \<open>busy_only\<close> and \<open>commitment\<close> the manifest
  names no content field at all.
\<close>

theorem undisclosed_content_has_no_influence:
  assumes "same_disclosed (privacy (policy input)) (s_content (source input)) content"
    and "containsNoSync (with_private_parts content note attendees organizer attachments url metadata input)
      = containsNoSync input"
  shows "evaluatePolicy t sha (with_private_parts content note attendees organizer attachments url metadata input)
      = evaluatePolicy t sha input"
  unfolding evaluatePolicy_def assms(2) private_parts_selection private_parts_select_event
    private_parts_transform [OF assms(1)] with_private_parts_fields by (rule refl)

subsection \<open>Convergence\<close>

text \<open>The projection as it is recorded once a copy has been written and observed.\<close>

definition applied_projection :: "desired_copy \<Rightarrow> string \<Rightarrow> string option \<Rightarrow> projection_input" where
  "applied_projection d fp event =
     \<lparr>p_ownership = Attached, p_projection_ref = Some (prov_projection_ref (d_provenance d)),
      p_generation = Some (prov_generation (d_provenance d)), p_destination_event_ref = event,
      p_destination_exists = Some True, p_desired_fingerprint = Some fp, p_observed_copy = Some d\<rparr>"

text \<open>The selection of an event does not look at the projection.\<close>

lemma projection_fields:
  "policy (input\<lparr>projection := p\<rparr>) = policy input"
  "source (input\<lparr>projection := p\<rparr>) = source input"
  "horizon (input\<lparr>projection := p\<rparr>) = horizon input"
  "hours_profile (input\<lparr>projection := p\<rparr>) = hours_profile input"
  "capabilities (input\<lparr>projection := p\<rparr>) = capabilities input"
  "candidate_projection_ref (input\<lparr>projection := p\<rparr>) = candidate_projection_ref input"
  by simp_all

lemma projection_selection:
  "effectiveAvailability (input\<lparr>projection := p\<rparr>) = effectiveAvailability input"
  "validate (input\<lparr>projection := p\<rparr>) = validate input"
  "containsNoSync (input\<lparr>projection := p\<rparr>) = containsNoSync input"
  "admissible (input\<lparr>projection := p\<rparr>) = admissible input"
proof -
  show "effectiveAvailability (input\<lparr>projection := p\<rparr>) = effectiveAvailability input"
    unfolding effectiveAvailability_def Let_def projection_fields by (rule refl)
  show v: "validate (input\<lparr>projection := p\<rparr>) = validate input"
    unfolding validate_def Let_def projection_fields by (rule refl)
  show c: "containsNoSync (input\<lparr>projection := p\<rparr>) = containsNoSync input"
    unfolding containsNoSync_def Let_def projection_fields by (rule refl)
  show "admissible (input\<lparr>projection := p\<rparr>) = admissible input" by (simp add: admissible_def v c)
qed

lemma projection_choices:
  "kind_choice input timing avail = Inr k \<Longrightarrow> kind_choice (input\<lparr>projection := p\<rparr>) timing avail = Inr k"
  "free_choice input avail = Inr f \<Longrightarrow> free_choice (input\<lparr>projection := p\<rparr>) avail = Inr f"
  "hours_choice t input timing = Inr (Inr h) \<Longrightarrow> hours_choice t (input\<lparr>projection := p\<rparr>) timing = Inr (Inr h)"
  by (auto simp: kind_choice_def free_choice_def hours_choice_def Let_def bindE_Inr_iff
      split: if_splits free_selection.splits)

lemma select_event_Chosen:
  assumes "select_event t input = Inr (Chosen avail reasons warnings)"
  obtains timing interval kind_reason free_reasons hours_reasons where
    "ea_omitted (effectiveAvailability input) = None" "s_timing (source input) = Some timing"
    "timingInterval t timing = Inr interval" "overlaps t interval (horizon input) = Inr True"
    "kind_choice input timing (case ea_availability (effectiveAvailability input) of None \<Rightarrow> Busy | Some a \<Rightarrow> a)
       = Inr kind_reason"
    "free_choice input (case ea_availability (effectiveAvailability input) of None \<Rightarrow> Busy | Some a \<Rightarrow> a)
       = Inr (avail, free_reasons, warnings)"
    "hours_choice t input timing = Inr (Inr hours_reasons)"
    "reasons = (case ea_reason (effectiveAvailability input) of None \<Rightarrow> [] | Some r \<Rightarrow> [r])
       @ [kind_reason] @ free_reasons @ hours_reasons"
proof -
  let ?avail = "case ea_availability (effectiveAvailability input) of None \<Rightarrow> Busy | Some a \<Rightarrow> a"
  have om: "ea_omitted (effectiveAvailability input) = None"
    using assms by (cases "ea_omitted (effectiveAvailability input)") (auto simp: select_event_def)
  obtain timing where timing: "s_timing (source input) = Some timing"
    using assms om by (cases "s_timing (source input)") (auto simp: select_event_def)
  obtain interval where interval: "timingInterval t timing = Inr interval" "overlaps t interval (horizon input) = Inr True"
    using assms om timing by (auto simp: select_event_def Let_def bindE_Inr_iff split: if_splits)
  obtain k where kind: "kind_choice input timing ?avail = Inr k"
    using assms om timing interval by (cases "kind_choice input timing ?avail") (auto simp: select_event_def)
  obtain av fr w where fr: "free_choice input ?avail = Inr (av, fr, w)"
    using assms om timing interval kind by (cases "free_choice input ?avail") (auto simp: select_event_def)
  obtain x where x: "hours_choice t input timing = Inr x"
    using assms om timing interval kind fr by (auto simp: select_event_def bindE_Inr_iff)
  obtain h where h: "hours_choice t input timing = Inr (Inr h)"
    using assms om timing interval kind fr x by (cases x) (auto simp: select_event_def)
  show thesis
    by (rule that [OF om timing interval kind, of fr h]) (use assms om timing interval kind fr h in \<open>auto simp: select_event_def\<close>)
qed

lemma select_event_projection:
  assumes "select_event t input = Inr (Chosen avail reasons warnings)"
  shows "select_event t (input\<lparr>projection := p\<rparr>) = Inr (Chosen avail reasons warnings)"
  using assms
proof (cases rule: select_event_Chosen)
  case (1 timing interval kind_reason free_reasons hours_reasons)
  then show ?thesis
    using projection_choices(1) [of input _ _ _ p] projection_choices(2) [of input _ _ p]
      projection_choices(3) [of t input _ _ p] unfolding select_event_def
    by (simp add: projection_selection)
qed

lemma sameJson_refl: "canonicalizeJson normalize_NFC v = Inr s \<Longrightarrow> sameJson v v = Inr True"
  by (simp add: sameJson_def)

lemma desired_of_applied:
  "d = desired_of input avail timing \<Longrightarrow>
   desired_of (input\<lparr>projection := applied_projection d fp event\<rparr>) avail timing = d"
  by (simp add: desired_of_def applied_projection_def Let_def)

lemma transform_applied:
  assumes "transform input avail = Inr (d, m)"
  shows "\<exists>m'. transform (input\<lparr>projection := applied_projection d fp event\<rparr>) avail = Inr (d, m')"
proof -
  from assms obtain timing where t: "s_timing (source input) = Some timing" "d = desired_of input avail timing"
    by (auto simp: transform_def Let_def split: option.splits)
  then show ?thesis
    unfolding transform_def Let_def using desired_of_applied [OF t(2), of fp event] by simp
qed

text \<open>
  C7: Evaluation converges. Once the copy an evaluation asked for has been written, recorded and
  observed unchanged, the next evaluation of the same event under the same policy selects the same
  copy with the same fingerprint and asks for no operation: reconciling twice writes once.
\<close>

theorem evaluation_converges:
  assumes "evaluatePolicy t sha input = Inr r"
    and "res_desired_copy r = Some d" "res_desired_fingerprint r = Some fp"
  shows "\<exists>r'. evaluatePolicy t sha (input\<lparr>projection := applied_projection d fp event\<rparr>) = Inr r'
    \<and> res_operation r' = NoOperation \<and> primary_reason_code r' = no_change
    \<and> res_desired_copy r' = Some d \<and> res_desired_fingerprint r' = Some fp"
  using assms(1)
proof (cases rule: evaluatePolicy_cases)
  case inert
  with assms(2) show ?thesis by (simp add: inert_simps)
next
  case excluded
  with assms(2) show ?thesis by (simp add: excluded_facts)
next
  case (copied avail reasons warnings desired disclosure fp' op opr)
  let ?input = "input\<lparr>projection := applied_projection d fp event\<rparr>"
  have d: "desired = d" "fp' = fp" using copied(7) assms(2,3) by (auto simp: copy_result_def)
  obtain m where m: "transform ?input avail = Inr (d, m)" using transform_applied copied(4) d by blast
  from copied(5) d obtain s where "canonicalizeJson normalize_NFC (copy_json d) = Inr s"
    by (auto simp: sha256Canonical_def bindE_Inr_iff)
  then have "plan_operation (applied_projection d fp event) d fp = Inr (NoOperation, no_change)"
    by (simp add: plan_operation_def applied_projection_def sameJson_refl)
  moreover have "admissible ?input" using copied(1) by (simp only: projection_selection)
  ultimately show ?thesis
    using select_event_projection [OF copied(2)] m copied(5) d
    by (simp add: evaluatePolicy_admissible evaluate_admissible_def copy_result_def applied_projection_def)
qed

subsection \<open>Drift\<close>

lemma timing_json_inject:
  assumes "normal_form (timing_json a) = normal_form (timing_json b)" "normal_form (timing_json a) \<noteq> None"
  shows "a = b"
proof -
  obtain ms ms' where ms: "timing_json a = JObj ms" "timing_json b = JObj ms'"
    "distinct (map fst ms)" "distinct (map fst ms')"
    by (cases a; cases b) auto
  have m: "member_form ms k = member_form ms' k" for k
    using assms ms by (intro member_form_eq) simp_all
  show ?thesis
    using ms m [of "''kind''"] m [of "''start_instant''"] m [of "''end_instant''"] m [of "''start_tzid''"]
      m [of "''end_tzid''"] m [of "''start_date''"] m [of "''end_date''"] m [of "''timezone''"]
    by (cases a; cases b) auto
qed

lemma provenance_json_inject:
  assumes "normal_form (provenance_json a) = normal_form (provenance_json b)" "normal_form (provenance_json a) \<noteq> None"
  shows "a = b"
proof -
  define ms where "ms p = [(''version'', Some (JNum (Whole 1))), (''policy_ref'', Some (JStr (prov_policy_ref p))),
       (''projection_ref'', Some (JStr (prov_projection_ref p))),
       (''generation'', Some (JNum (Whole (prov_generation p))))]" for p :: provenance
  have o: "provenance_json p = JObj (ms p)" for p by (simp add: provenance_json_def ms_def)
  have m: "member_form (ms a) k = member_form (ms b) k" for k
    using assms unfolding o by (intro member_form_eq) (simp_all add: ms_def)
  have "normal_form (JNum (Whole (prov_generation a))) \<noteq> None"
    by (rule normal_form_member_Some [of "ms a" "''generation''"]) (use assms o in \<open>simp_all add: ms_def\<close>)
  then show ?thesis
    using m [of "''policy_ref''"] m [of "''projection_ref''"] m [of "''generation''"]
    by (auto simp: ms_def split: if_splits)
qed

lemma copy_json_inject:
  assumes "normal_form (copy_json a) = normal_form (copy_json b)" "normal_form (copy_json a) \<noteq> None"
  shows "a = b"
proof -
  have m: "member_form (copy_members a) k = member_form (copy_members b) k" for k
    using assms unfolding copy_json_def by (intro member_form_eq) (simp_all add: copy_members_def)
  have s: "normal_form (timing_json (d_timing a)) \<noteq> None" "normal_form (provenance_json (d_provenance a)) \<noteq> None"
    using normal_form_member_Some [OF assms(2) [unfolded copy_json_def], of "''timing''" "timing_json (d_timing a)"]
      normal_form_member_Some [OF assms(2) [unfolded copy_json_def], of "''provenance''" "provenance_json (d_provenance a)"]
    by (simp_all add: copy_members_def)
  have "d_timing a = d_timing b" using m [of "''timing''"] s(1) timing_json_inject by (simp add: copy_members_def)
  moreover have "d_provenance a = d_provenance b"
    using m [of "''provenance''"] s(2) provenance_json_inject by (simp add: copy_members_def)
  moreover have "d_transparency a = d_transparency b" using m [of "''transparency''"]
    by (simp add: copy_members_def transparency_text_def split: transparency.splits)
  moreover have "d_visibility a = d_visibility b" using m [of "''visibility''"]
    by (simp add: copy_members_def visibility_text_def split: visibility.splits)
  moreover have "d_summary a = d_summary b" using m [of "''summary''"] by (simp add: copy_members_def)
  moreover have "d_description a = d_description b" using m [of "''description''"]
    by (cases "d_description a"; cases "d_description b"; simp add: copy_members_def)
  moreover have "d_location a = d_location b" using m [of "''location''"]
    by (cases "d_location a"; cases "d_location b"; simp add: copy_members_def)
  moreover have "d_conference a = d_conference b" using m [of "''conference''"]
    by (cases "d_conference a"; cases "d_conference b"; simp add: copy_members_def)
  moreover have "d_color a = d_color b" using m [of "''color''"]
    by (cases "d_color a"; cases "d_color b"; simp add: copy_members_def)
  ultimately show ?thesis by simp
qed

lemma sameJson_copies: "sameJson (copy_json a) (copy_json b) = Inr same \<Longrightarrow> same \<longleftrightarrow> a = b"
  by (auto simp: sameJson_def bindE_Inr_iff canonicalizeJson_Inr_iff render_inject intro: copy_json_inject)

text \<open>
  Drift is detected, exactly. For a copy that exists and was observed, an included event is
  answered with an update that restores it when the observed copy differs from the desired one in
  any property, and with no operation only when it is the desired copy.
\<close>

theorem drift_is_detected:
  assumes "evaluatePolicy t sha input = Inr r" "res_desired_copy r = Some d"
    and "p_ownership (projection input) = Attached" "p_destination_exists (projection input) \<noteq> Some False"
    and "p_observed_copy (projection input) = Some seen"
  shows "(primary_reason_code r = restore_destination_drift \<longleftrightarrow> seen \<noteq> d)
    \<and> (seen \<noteq> d \<longrightarrow> res_operation r = Update) \<and> (res_operation r = NoOperation \<longrightarrow> seen = d)"
  using assms(1)
proof (cases rule: evaluatePolicy_cases)
  case inert
  with assms(2) show ?thesis by (simp add: inert_simps)
next
  case excluded
  with assms(2) show ?thesis by (simp add: excluded_facts)
next
  case (copied avail reasons warnings desired disclosure fp op opr)
  have r: "primary_reason_code r = opr" "res_operation r = op" "desired = d"
    using copied(7) assms(2) by (auto simp: copy_result_def)
  show ?thesis
    using copied(6) assms(3-5) r
    by (auto simp: plan_operation_def bindE_Inr_iff dest!: sameJson_copies split: if_splits)
qed

subsection \<open>The exclusion marker\<close>

text \<open>The specification of the regular expression: an occurrence of the marker as a whole word.\<close>

definition whole_word :: "string \<Rightarrow> string \<Rightarrow> bool" where
  "whole_word m s \<longleftrightarrow> (\<exists>pre post. s = pre @ m @ post
     \<and> (pre = [] \<or> \<not> word_char (List.last pre)) \<and> (post = [] \<or> \<not> word_char (hd post)))"

lemma prefix_with_rest:
  "(\<exists>post. s = m @ post \<and> (post = [] \<or> \<not> word_char (hd post)))
   \<longleftrightarrow> take (length m) s = m \<and> (case drop (length m) s of [] \<Rightarrow> True | d # _ \<Rightarrow> \<not> word_char d)"
proof -
  have "(case post of [] \<Rightarrow> True | d # _ \<Rightarrow> \<not> word_char d) \<longleftrightarrow> post = [] \<or> \<not> word_char (hd post)" for post
    by (cases post) auto
  then show ?thesis by (metis append_eq_conv_conj)
qed

lemma marked_iff:
  "marked bnd m s \<longleftrightarrow> (\<exists>pre post. s = pre @ m @ post
     \<and> (if pre = [] then bnd else \<not> word_char (List.last pre)) \<and> (post = [] \<or> \<not> word_char (hd post)))"
  (is "_ \<longleftrightarrow> ?R bnd m s")
proof (induction bnd m s rule: marked.induct)
  case (1 bnd m)
  then show ?case by auto
next
  case (2 bnd m c cs)
  let ?here = "bnd \<and> (\<exists>post. c # cs = m @ post \<and> (post = [] \<or> \<not> word_char (hd post)))"
  have "?R bnd m (c # cs) \<longleftrightarrow> ?here \<or> (\<exists>pre post. cs = pre @ m @ post
      \<and> (if pre = [] then \<not> word_char c else \<not> word_char (List.last pre)) \<and> (post = [] \<or> \<not> word_char (hd post)))"
    (is "?L \<longleftrightarrow> _ \<or> ?there")
  proof
    assume ?L
    then obtain pre post where p: "c # cs = pre @ m @ post"
      "if pre = [] then bnd else \<not> word_char (List.last pre)" "post = [] \<or> \<not> word_char (hd post)"
      by (elim exE conjE) (rule that; assumption)
    show "?here \<or> ?there"
    proof (cases pre)
      case Nil
      with p show ?thesis by auto
    next
      case (Cons x xs)
      with p have "cs = xs @ m @ post" "if xs = [] then \<not> word_char c else \<not> word_char (List.last xs)" by auto
      with p(3) show ?thesis by blast
    qed
  next
    assume "?here \<or> ?there"
    then show ?L
    proof
      assume ?here
      then show ?L by (metis append_Nil)
    next
      assume ?there
      then obtain pre post where "cs = pre @ m @ post"
        "if pre = [] then \<not> word_char c else \<not> word_char (List.last pre)" "post = [] \<or> \<not> word_char (hd post)"
      by (elim exE conjE) (rule that; assumption)
      then show ?L by (intro exI [of _ "c # pre"] exI [of _ post]) auto
    qed
  qed
  with 2 show ?case by (simp only: marked.simps prefix_with_rest)
qed

lemma marked_whole_word: "marked True m s \<longleftrightarrow> whole_word m s"
  unfolding marked_iff whole_word_def by (intro arg_cong [where f = Ex] ext) auto

lemma containsNoSync_iff:
  "containsNoSync input \<longleftrightarrow>
     (let marker = toLowerCase (source_exclusion_marker (selection (policy input))) in
      marker \<noteq> [] \<and> (\<exists>txt. Some txt \<in> {c_summary (s_content (source input)),
        c_description (s_content (source input)), r_note (s_relationship (source input))}
        \<and> whole_word marker (toLowerCase txt)))"
proof -
  have "(case x of None \<Rightarrow> False | Some f \<Rightarrow> P f) \<longleftrightarrow> (\<exists>txt. Some txt = x \<and> P txt)" for x and P :: "string \<Rightarrow> bool"
    by (cases x) auto
  then show ?thesis
    by (auto simp: containsNoSync_def Let_def marked_whole_word normalize_NFC_def)
qed

text \<open>
  The exclusion marker. An active, valid policy excludes a confirmed event of its own
  calendar as soon as the marker, compared without case, stands as a whole word in the summary,
  the description or the response note; an existing copy of the event is then deleted.
\<close>

theorem marked_event_is_excluded:
  assumes "validate input = None" "state (policy input) = Active" "s_lifecycle (source input) = Confirmed"
    and "s_origin (source input) = ProviderOriginal"
    and "source_event_ref (source input) \<notin> set (manual_exclusions (selection (policy input)))"
    and "marker = toLowerCase (source_exclusion_marker (selection (policy input)))" "marker \<noteq> []"
    and "Some txt \<in> {c_summary (s_content (source input)), c_description (s_content (source input)),
      r_note (s_relationship (source input))}"
    and "whole_word marker (toLowerCase txt)"
  shows "evaluatePolicy t sha input = Inr (excluded input nosync False)
    \<and> res_desired_copy (excluded input nosync False) = None
    \<and> res_operation (excluded input nosync False)
      = (if p_ownership (projection input) = Attached then Delete else NoOperation)"
proof -
  have "containsNoSync input"
    using assms(6-9) unfolding containsNoSync_iff Let_def by blast
  then have "evaluatePolicy t sha input = Inr (excluded input nosync False)"
    using assms(1-5) by (simp add: evaluatePolicy_def)
  then show ?thesis by (simp add: excluded_facts)
qed

subsection \<open>The disclosure manifest\<close>

lemma set_sortedUnique [simp]: "set (sortedUnique xs) = set xs"
  by (simp add: sortedUnique_def)

lemma disclosed_subset_read: "set (disclosed_fields (privacy (policy input))) \<subseteq> set (read_fields input)"
  by (auto simp: disclosed_fields_def read_fields_def Let_def)

lemma set_copy_keys: "set (copy_keys d) = {k. \<exists>v. (k, Some v) \<in> set (copy_members d)}"
  unfolding copy_keys_def by (auto simp: image_iff) (metis fst_conv option.exhaust)+

lemma transform_manifest:
  assumes "transform input avail = Inr (d, m)"
  shows "set (source_fields_disclosed m) = set (disclosed_fields (privacy (policy input)))"
    "set (source_fields_read m) = set (read_fields input)"
    "set (source_fields_omitted m) = set OMITTED_SOURCE_FIELDS - set (disclosed_fields (privacy (policy input)))"
    "set (destination_fields_written m) = (\<lambda>k. CHR ''/'' # k) ` set (copy_keys d)"
    "dm_preset m = preset (privacy (policy input))"
    "\<exists>timing. d = desired_of input avail timing"
  using assms by (auto simp: transform_def Let_def split: option.splits)

text \<open>
  The disclosure manifest is truthful. Whatever is disclosed was read; attendees, organizer,
  attachments, provider data and source links are always listed as omitted; the fields listed as
  written are the properties the copy has; and a redacting preset discloses the timing alone: the
  copy then carries the generic summary, no description, no location, no conference link, and is
  private on the destination.
\<close>

theorem disclosure_manifest_is_truthful:
  assumes "evaluatePolicy t sha input = Inr r" "res_disclosure r = Some m" "res_desired_copy r = Some d"
  shows "set (source_fields_disclosed m) \<subseteq> set (source_fields_read m)
    \<and> {''/attendees'', ''/organizer'', ''/attachments'', ''/provider_metadata'', ''/source_url''}
        \<subseteq> set (source_fields_omitted m)
    \<and> set (source_fields_omitted m) \<inter> set (source_fields_disclosed m) = {}
    \<and> set (destination_fields_written m) = (\<lambda>k. CHR ''/'' # k) ` {k. \<exists>v. (k, Some v) \<in> set (copy_members d)}
    \<and> (preset (privacy (policy input)) \<in> {BusyOnly, Commitment} \<longrightarrow>
      set (source_fields_disclosed m) = {''/timing''} \<and> d_summary d = generic_summary (privacy (policy input))
      \<and> d_description d = None \<and> d_location d = None \<and> d_conference d = None \<and> d_visibility d = PrivateVis)"
proof -
  from assms(1) obtain avail where tr: "transform input avail = Inr (d, m)"
  proof (cases rule: evaluatePolicy_cases)
    case inert
    with assms(3) show ?thesis by (simp add: inert_simps)
  next
    case excluded
    with assms(3) show ?thesis by (simp add: excluded_facts)
  next
    case copied
    with assms(2,3) that show ?thesis by (auto simp: copy_result_def)
  qed
  note f = transform_manifest [OF tr]
  have "set (source_fields_disclosed m) \<subseteq> set (source_fields_read m)" using f(1,2) disclosed_subset_read by simp
  moreover have "{''/attendees'', ''/organizer'', ''/attachments'', ''/provider_metadata'', ''/source_url''}
      \<subseteq> set (source_fields_omitted m)"
    by (auto simp: f(3) disclosed_fields_def Let_def OMITTED_SOURCE_FIELDS_def)
  moreover have "set (source_fields_omitted m) \<inter> set (source_fields_disclosed m) = {}" by (auto simp: f(1,3))
  moreover have "set (destination_fields_written m) = (\<lambda>k. CHR ''/'' # k) ` {k. \<exists>v. (k, Some v) \<in> set (copy_members d)}"
    by (simp add: f(4) set_copy_keys)
  moreover have "set (source_fields_disclosed m) = {''/timing''} \<and> d_summary d = generic_summary (privacy (policy input))
      \<and> d_description d = None \<and> d_location d = None \<and> d_conference d = None \<and> d_visibility d = PrivateVis"
    if "preset (privacy (policy input)) \<in> {BusyOnly, Commitment}"
    using that f(6) by (auto simp: f(1) disclosed_fields_def shows_details_def desired_of_def Let_def)
  ultimately show ?thesis by blast
qed

subsection \<open>The properties on a concrete policy\<close>

definition sample_sha :: "string \<Rightarrow> string" where
  "sample_sha s = dec (length s)"

definition sample_policy :: sync_policy where
  "sample_policy =
     \<lparr>policy_ref = ''p1'', policy_revision = 1, state = Active, source_calendar_ref = ''home'',
      destination_calendar_ref = ''work'', hours_mode = AllTimes, hours_profile_ref = None,
      privacy = \<lparr>preset = BusyOnly, generic_summary = ''Busy'', copy_summary = False, copy_description = False,
        copy_location = False, copy_conference = False, copy_attendees = False, copy_organizer = False\<rparr>,
      selection = \<lparr>sel_timed = IncludeTimed, sel_all_day = BusyAllDay, sel_free_events = SkipWhenRedacted,
        sel_tentative = AsBusy, sel_unanswered = AsBusy, skip_when_invited = True,
        source_exclusion_marker = ''#NoSync'', manual_exclusions = []\<rparr>,
      destination_color = None, destination_edits = None\<rparr>"

definition sample_source :: source_observation where
  "sample_source =
     \<lparr>source_event_ref = ''e1'', source_occurrence_ref = ''o1'', remote_revision = ''r1'',
      s_lifecycle = Confirmed, s_origin = ProviderOriginal,
      s_timing = Some (Timed ''2026-07-21T12:30:00Z'' ''2026-07-21T14:00:00Z'' ''UTC'' ''UTC''),
      s_recurrence = None, s_availability = Some Busy,
      s_relationship = \<lparr>r_role = Organizer, r_response = NotApplicable, r_note = None\<rparr>,
      destination_identity_invited = False,
      s_content = \<lparr>c_summary = Some ''Dentist'', c_description = None, c_location = Some ''Main St'', c_conference = None\<rparr>,
      s_attendees = None, s_organizer = None, s_attachments = None, s_source_url = None, s_provider_metadata = None\<rparr>"

definition unowned :: projection_input where
  "unowned = \<lparr>p_ownership = Unowned, p_projection_ref = None, p_generation = None,
     p_destination_event_ref = None, p_destination_exists = None, p_desired_fingerprint = None,
     p_observed_copy = None\<rparr>"

definition sample_input :: policy_evaluation_input where
  "sample_input =
     \<lparr>now = ''2026-07-20T00:00:00Z'',
      horizon = \<lparr>iv_start = ''2026-07-20T00:00:00Z'', iv_end = ''2026-08-20T00:00:00Z''\<rparr>,
      candidate_projection_ref = ''x1'', policy = sample_policy, hours_profile = None,
      source = sample_source, projection = unowned,
      capabilities = \<lparr>writable = True, private_visibility = True, conference_copy = False, color_capable = False\<rparr>\<rparr>"

definition sample_copy :: desired_copy where
  "sample_copy =
     \<lparr>d_timing = Timed ''2026-07-21T12:30:00Z'' ''2026-07-21T14:00:00Z'' ''UTC'' ''UTC'',
      d_summary = ''Busy'', d_description = None, d_location = None, d_conference = None,
      d_transparency = Opaque, d_visibility = PrivateVis, d_color = None,
      d_provenance = \<lparr>prov_policy_ref = ''p1'', prov_projection_ref = ''x1'', prov_generation = 1\<rparr>\<rparr>"

definition edited_copy :: desired_copy where
  "edited_copy = sample_copy\<lparr>d_summary := ''Busy!''\<rparr>"

text \<open>What an evaluation answered, for stating facts about a concrete run.\<close>

definition answers :: "eval_error + policy_evaluation_result \<Rightarrow> evaluation_operation \<Rightarrow> desired_copy option \<Rightarrow> bool" where
  "answers x op d = (case x of Inl e \<Rightarrow> False | Inr r \<Rightarrow> res_operation r = op \<and> res_desired_copy r = d
     \<and> (d = None) = (res_desired_fingerprint r = None) \<and> (d = None) = (res_disclosure r = None))"

lemma answersE:
  assumes "answers x op d"
  obtains r where "x = Inr r" "res_operation r = op" "res_desired_copy r = d"
    "d = None \<or> res_desired_fingerprint r \<noteq> None \<and> res_disclosure r \<noteq> None"
proof (cases x)
  case (Inl e)
  with assms show thesis by (simp add: answers_def)
next
  case (Inr r)
  have "res_operation r = op \<and> res_desired_copy r = d
     \<and> (d = None) = (res_desired_fingerprint r = None) \<and> (d = None) = (res_disclosure r = None)"
    using assms unfolding Inr answers_def sum.case .
  with Inr show thesis using that [of r] by metis
qed

lemma sample_run: "answers (evaluatePolicy utc_library sample_sha sample_input) Create (Some sample_copy)"
  by code_simp

lemma sample_run_edited:
  "answers (evaluatePolicy utc_library sample_sha
     (sample_input\<lparr>projection := applied_projection edited_copy ''x'' (Some ''c1'')\<rparr>)) Update (Some sample_copy)"
  by code_simp

lemma sample_run_managed:
  "answers (evaluatePolicy utc_library sample_sha
     (sample_input\<lparr>source := sample_source\<lparr>s_origin := PlanipusManaged\<rparr>\<rparr>)) NoOperation None"
  by code_simp

theorem planned_operation_is_authorized_witness:
  "\<exists>r. evaluatePolicy utc_library sample_sha sample_input = Inr r \<and> res_operation r = Create
    \<and> writable (capabilities sample_input) \<and> p_ownership (projection sample_input) = Unowned"
proof -
  from sample_run obtain r where r: "evaluatePolicy utc_library sample_sha sample_input = Inr r"
    "res_operation r = Create" by (rule answersE)
  have "p_ownership (projection sample_input) = Unowned" by code_simp
  with planned_operation_is_authorized [OF r(1)] r show ?thesis by simp
qed

theorem managed_copy_is_never_copied_witness:
  "\<exists>r. evaluatePolicy utc_library sample_sha (sample_input\<lparr>source := sample_source\<lparr>s_origin := PlanipusManaged\<rparr>\<rparr>) = Inr r
    \<and> res_operation r \<in> {NoOperation, Delete} \<and> res_desired_copy r = None"
proof -
  let ?i = "sample_input\<lparr>source := sample_source\<lparr>s_origin := PlanipusManaged\<rparr>\<rparr>"
  from sample_run_managed obtain r where r: "evaluatePolicy utc_library sample_sha ?i = Inr r" by (rule answersE)
  have "s_origin (source ?i) = PlanipusManaged" by simp
  from managed_copy_is_never_copied [OF r this] r show ?thesis by blast
qed

theorem undisclosed_content_has_no_influence_witness:
  "evaluatePolicy utc_library sample_sha
     (with_private_parts \<lparr>c_summary = Some ''Surgery'', c_description = Some ''ward 3'', c_location = None,
        c_conference = None\<rparr> (Some ''note'') (Some [''bob'']) (Some ''ann'') None None None sample_input)
   = evaluatePolicy utc_library sample_sha sample_input"
  by (rule undisclosed_content_has_no_influence) code_simp+

theorem evaluation_converges_witness:
  "\<exists>r fp r'. evaluatePolicy utc_library sample_sha sample_input = Inr r \<and> res_operation r = Create
    \<and> evaluatePolicy utc_library sample_sha
        (sample_input\<lparr>projection := applied_projection sample_copy fp (Some ''c1'')\<rparr>) = Inr r'
    \<and> res_operation r' = NoOperation \<and> res_desired_copy r' = Some sample_copy"
proof -
  from sample_run obtain r where r: "evaluatePolicy utc_library sample_sha sample_input = Inr r"
    "res_operation r = Create" "res_desired_copy r = Some sample_copy"
    and fp: "Some sample_copy = None \<or> res_desired_fingerprint r \<noteq> None \<and> res_disclosure r \<noteq> None"
    by (rule answersE)
  from fp obtain fp where "res_desired_fingerprint r = Some fp" by auto
  from evaluation_converges [OF r(1,3) this, of "Some ''c1''"] r show ?thesis by blast
qed

theorem drift_is_detected_witness:
  "\<exists>r. evaluatePolicy utc_library sample_sha
     (sample_input\<lparr>projection := applied_projection edited_copy ''x'' (Some ''c1'')\<rparr>) = Inr r
   \<and> edited_copy \<noteq> sample_copy \<and> res_operation r = Update \<and> primary_reason_code r = restore_destination_drift"
proof -
  let ?i = "sample_input\<lparr>projection := applied_projection edited_copy ''x'' (Some ''c1'')\<rparr>"
  from sample_run_edited obtain r where r: "evaluatePolicy utc_library sample_sha ?i = Inr r"
    "res_desired_copy r = Some sample_copy" by (rule answersE)
  have "edited_copy \<noteq> sample_copy" by code_simp
  with drift_is_detected [OF r, of edited_copy] r show ?thesis by (simp add: applied_projection_def)
qed

theorem marked_event_is_excluded_witness:
  "evaluatePolicy utc_library sample_sha
     (sample_input\<lparr>source := sample_source\<lparr>s_content := (s_content sample_source)\<lparr>c_summary := Some ''Gym (#nosync)''\<rparr>\<rparr>\<rparr>)
   = Inr (excluded (sample_input\<lparr>source := sample_source\<lparr>s_content :=
       (s_content sample_source)\<lparr>c_summary := Some ''Gym (#nosync)''\<rparr>\<rparr>\<rparr>) nosync False)"
proof -
  let ?i = "sample_input\<lparr>source := sample_source\<lparr>s_content :=
    (s_content sample_source)\<lparr>c_summary := Some ''Gym (#nosync)''\<rparr>\<rparr>\<rparr>"
  have w: "whole_word ''#nosync'' (toLowerCase ''Gym (#nosync)'')"
    unfolding marked_whole_word [symmetric] by code_simp
  have i: "validate ?i = None" "state (policy ?i) = Active" "s_lifecycle (source ?i) = Confirmed"
    "s_origin (source ?i) = ProviderOriginal"
    "source_event_ref (source ?i) \<notin> set (manual_exclusions (selection (policy ?i)))"
    "''#nosync'' = toLowerCase (source_exclusion_marker (selection (policy ?i)))" "''#nosync'' \<noteq> []"
    "Some ''Gym (#nosync)'' \<in> {c_summary (s_content (source ?i)), c_description (s_content (source ?i)),
      r_note (s_relationship (source ?i))}"
    by code_simp+
  from marked_event_is_excluded [OF i w, of utc_library sample_sha] show ?thesis by (rule conjunct1)
qed

theorem disclosure_manifest_is_truthful_witness:
  "\<exists>r m. evaluatePolicy utc_library sample_sha sample_input = Inr r \<and> res_disclosure r = Some m
    \<and> set (source_fields_disclosed m) = {''/timing''} \<and> ''/attendees'' \<in> set (source_fields_omitted m)"
proof -
  from sample_run obtain r where r: "evaluatePolicy utc_library sample_sha sample_input = Inr r"
    "res_desired_copy r = Some sample_copy"
    and m: "Some sample_copy = None \<or> res_desired_fingerprint r \<noteq> None \<and> res_disclosure r \<noteq> None"
    by (rule answersE)
  from m obtain m where m: "res_disclosure r = Some m" by auto
  have "preset (privacy (policy sample_input)) \<in> {BusyOnly, Commitment}" by code_simp
  with disclosure_manifest_is_truthful [OF r(1) m r(2)]
  have "set (source_fields_disclosed m) = {''/timing''}" "''/attendees'' \<in> set (source_fields_omitted m)"
    by (simp_all only: simp_thms insert_subset)
  with r(1) m show ?thesis by blast
qed

end
