(* ===== verification/Destination_Edits.thy ===== *)
theory Destination_Edits
  imports Sync_Types
begin

section \<open>Direct edits of copies (packages/calendar-sync/src/destination-edits.ts)\<close>

text \<open>
  What happens when a person changes or deletes a managed copy on the destination calendar. The
  policy document is stored as JSON, so the effective policy is read from an arbitrary value; the
  response is either a repair, with or without a notice, or a hold.
\<close>

definition DEFAULT_DESTINATION_EDIT_POLICY :: destination_edit_policy where
  "DEFAULT_DESTINATION_EDIT_POLICY = \<lparr>on_edit = RestoreAndNotify, on_delete = RestoreAndNotify\<rparr>"

datatype edit_observation = Drifted | MissingCopy

datatype edit_notice = copy_edit_reverted | copy_delete_restored | copy_edit_held | copy_delete_held

datatype edit_error_code =
  destination_drift | destination_missing | destination_edit_held | destination_delete_held

datatype edit_response =
    Repair (edit_notice: "edit_notice option") (edit_error: edit_error_code)
  | Hold (held_notice: edit_notice) (edit_error: edit_error_code)

definition MODES :: "(string \<times> edit_mode) list" where
  "MODES = [(''restore'', Restore), (''restore_and_notify'', RestoreAndNotify), (''hold_for_review'', HoldForReview)]"

definition mode_of :: "json option \<Rightarrow> edit_mode option" where
  "mode_of v = (case v of Some (JStr s) \<Rightarrow> map_of MODES s | _ \<Rightarrow> None)"

definition isDestinationEditPolicy :: "json \<Rightarrow> bool" where
  "isDestinationEditPolicy v =
     (is_record v \<and> json_member v ''version'' = Some (JNum (Whole 1))
      \<and> mode_of (json_member v ''on_edit'') \<noteq> None \<and> mode_of (json_member v ''on_delete'') \<noteq> None)"

definition normalizeDestinationEditPolicy :: "json option \<Rightarrow> destination_edit_policy" where
  "normalizeDestinationEditPolicy v =
     (case v of
        Some w \<Rightarrow>
          if isDestinationEditPolicy w
          then \<lparr>on_edit = the (mode_of (json_member w ''on_edit'')),
                on_delete = the (mode_of (json_member w ''on_delete''))\<rparr>
          else DEFAULT_DESTINATION_EDIT_POLICY
      | None \<Rightarrow> DEFAULT_DESTINATION_EDIT_POLICY)"

definition planDestinationEditResponse :: "destination_edit_policy \<Rightarrow> edit_observation \<Rightarrow> edit_response" where
  "planDestinationEditResponse pol observed =
     (let mode = (if observed = Drifted then on_edit pol else on_delete pol) in
      if mode = HoldForReview then
        if observed = Drifted then Hold copy_edit_held destination_edit_held
        else Hold copy_delete_held destination_delete_held
      else
        Repair
          (if mode = Restore then None
           else Some (if observed = Drifted then copy_edit_reverted else copy_delete_restored))
          (if observed = Drifted then destination_drift else destination_missing))"

subsection \<open>Properties\<close>

text \<open>The stored form of an edit policy.\<close>

definition edit_mode_text :: "edit_mode \<Rightarrow> string" where
  "edit_mode_text m = (case m of Restore \<Rightarrow> ''restore'' | RestoreAndNotify \<Rightarrow> ''restore_and_notify''
     | HoldForReview \<Rightarrow> ''hold_for_review'')"

definition edit_policy_json :: "destination_edit_policy \<Rightarrow> json" where
  "edit_policy_json p = JObj [(''version'', Some (JNum (Whole 1))),
     (''on_edit'', Some (JStr (edit_mode_text (on_edit p)))),
     (''on_delete'', Some (JStr (edit_mode_text (on_delete p))))]"

lemma mode_of_text [simp]: "mode_of (Some (JStr (edit_mode_text m))) = Some m"
  by (cases m) (simp_all add: mode_of_def edit_mode_text_def MODES_def)

lemma edit_policy_again: "normalizeDestinationEditPolicy (Some (edit_policy_json p)) = p"
proof -
  have "isDestinationEditPolicy (edit_policy_json p)"
    by (simp add: isDestinationEditPolicy_def edit_policy_json_def is_record_def json_member_def)
  then show ?thesis
    by (simp add: normalizeDestinationEditPolicy_def) (simp add: edit_policy_json_def json_member_def)
qed

text \<open>
  A stored edit policy is read back as it was written, and every other stored value, an
  unknown mode or another version included, is read as notify by default: never as a silent repair.
\<close>

theorem edit_policy_reads_back:
  "normalizeDestinationEditPolicy (Some (edit_policy_json p)) = p
   \<and> (\<not> isDestinationEditPolicy v \<longrightarrow>
        (\<forall>seen. edit_notice (planDestinationEditResponse (normalizeDestinationEditPolicy (Some v)) seen) \<noteq> None))"
proof
  show "normalizeDestinationEditPolicy (Some (edit_policy_json p)) = p" by (rule edit_policy_again)
  show "\<not> isDestinationEditPolicy v \<longrightarrow>
        (\<forall>seen. edit_notice (planDestinationEditResponse (normalizeDestinationEditPolicy (Some v)) seen) \<noteq> None)"
    by (simp add: normalizeDestinationEditPolicy_def planDestinationEditResponse_def
        DEFAULT_DESTINATION_EDIT_POLICY_def Let_def)
qed

theorem edit_policy_reads_back_witness:
  "edit_notice (planDestinationEditResponse (normalizeDestinationEditPolicy
     (Some (JObj [(''version'', Some (JNum (Whole 2))), (''on_edit'', Some (JStr ''restore''))]))) Drifted) \<noteq> None"
proof -
  have "\<not> isDestinationEditPolicy (JObj [(''version'', Some (JNum (Whole 2))), (''on_edit'', Some (JStr ''restore''))])"
    by code_simp
  with edit_policy_reads_back [of _ "JObj [(''version'', Some (JNum (Whole 2))), (''on_edit'', Some (JStr ''restore''))]"]
  show ?thesis by blast
qed

end
