(* ===== verification/Planning_Types.thy ===== *)
theory Planning_Types
  imports Sync_Types
begin

section \<open>The planning data model (server/src/planning/types.ts)\<close>

text \<open>
  The drafts a person submits (a boundary that protects time outside working hours, a recurring
  meeting that looks for mutual time), the intervals that are taken, and the plan that is computed.
  Weekdays are the numbers 1 to 7, Monday first. The three step widths are a datatype, since the
  type of the code admits no other number.
\<close>

datatype planning_rule_kind = AvailabilityBoundary | SmartMeeting

record availability_boundary_draft =
  b_name :: string
  b_target_calendar_id :: string
  b_timezone :: string
  working_days :: "int list"
  workday_start :: string
  workday_end :: string
  protect_before_work :: bool
  protect_after_work :: bool
  protect_closed_days :: bool
  b_title :: string
  b_visibility :: visibility
  horizon_days :: int

record smart_meeting_attendee =
  a_email :: string
  a_required :: bool
  a_availability_calendar_id :: "string option"

datatype start_step = Step15 | Step30 | Step60

fun step_minutes :: "start_step \<Rightarrow> int" where
  "step_minutes Step15 = 15"
| "step_minutes Step30 = 30"
| "step_minutes Step60 = 60"

lemma step_minutes_pos [simp]: "0 < step_minutes s"
  by (cases s) auto

datatype conflict_policy = Suggest | AutoMove | KeepWithWarning

record smart_meeting_draft =
  m_name :: string
  m_target_calendar_id :: string
  m_timezone :: string
  m_start_date :: string
  m_weekdays :: "int list"
  window_start :: string
  window_end :: string
  preferred_time :: string
  cadence_weeks :: int
  occurrence_count :: int
  minimum_duration_minutes :: int
  maximum_duration_minutes :: int
  start_step_minutes :: start_step
  m_priority :: int
  m_attendees :: "smart_meeting_attendee list"
  availability_calendar_ids :: "string list"
  m_conflict_policy :: conflict_policy
  lock_before_minutes :: int
  m_description :: "string option"
  m_location :: "string option"
  m_visibility :: visibility

datatype planning_draft =
    BoundaryDraft availability_boundary_draft
  | MeetingDraft smart_meeting_draft

record busy_interval = instant_interval +
  busy_calendar_id :: string

record event_template =
  e_start_instant :: string
  e_end_instant :: string
  e_timezone :: string
  e_summary :: string
  e_description :: "string option"
  e_location :: "string option"
  e_transparency :: transparency
  e_visibility :: visibility
  e_attendees :: "(string \<times> bool) list"
  e_send_updates :: bool

record planning_provenance =
  pp_kind :: planning_rule_kind
  pp_rule_ref :: string
  pp_planned_event_ref :: string
  pp_occurrence_key :: string
  pp_generation :: int
  pp_intent_sequence :: int

record managed_planning_event = event_template +
  e_provenance :: planning_provenance

datatype decision = Schedule | Unmet

datatype occurrence_reason =
    outside_working_hours | no_mutual_time_inside_meeting_hours
  | closest_mutual_opening | preferred_time_available

text \<open>The number of rejected candidates is \<open>None\<close> when the code computes \<open>NaN\<close>.\<close>

record planned_occurrence =
  occurrence_key :: string
  occ_decision :: decision
  occ_reason :: occurrence_reason
  occ_event :: "event_template option"
  rejected_candidate_count :: "int option"

datatype planning_warning =
    availability_incomplete
  | required_attendee_availability_unknown
  | HoursDiagnostic reason_code

text \<open>
  The summary of the hours is a text made of the two clock times and the zone; the record keeps
  the three parts.
\<close>

record planning_result =
  pr_kind :: planning_rule_kind
  pr_occurrences :: "planned_occurrence list"
  scheduled_count :: int
  unmet_count :: int
  pr_warnings :: "planning_warning list"
  pr_hours_summary :: "string \<times> string \<times> string"

record planning_input =
  pi_draft :: planning_draft
  pi_now :: string
  pi_busy :: "busy_interval list"
  known_availability_calendar_ids :: "string list"

end
