(* ===== verification/Platform.thy ===== *)
theory Platform
  imports Prelude Js_Date
begin

section \<open>What the JavaScript platform decides\<close>

text \<open>
  Three things the code asks of the platform are not fixed by the language: how \<open>Date\<close> reads texts
  that are not in the ISO format, what the wall clock shows in a time zone (\<open>Intl.DateTimeFormat\<close>
  with the zone database), and how \<open>localeCompare\<close> orders two texts. They are the fields of
  \<open>platform\<close>, a parameter of the definitions that use them. \<open>local_clock\<close> answers with the number of
  the local day and the minute of that day; \<open>None\<close> is the \<open>RangeError\<close> for an unknown zone.
\<close>

record platform =
  legacy_date :: "string \<Rightarrow> int option"
  local_clock :: "string \<Rightarrow> int \<Rightarrow> (int \<times> int) option"
  locale_compare :: "string \<Rightarrow> string \<Rightarrow> int"

datatype date_error = InvalidTime | UnknownZone

text \<open>\<open>new Date(text).getTime()\<close>, with \<open>None\<close> for \<open>NaN\<close>.\<close>

definition getTime :: "platform \<Rightarrow> string \<Rightarrow> int option" where
  "getTime pf s = date_parse (legacy_date pf) s"

definition max_time :: int where
  "max_time = 8640000000000000"

text \<open>\<open>new Date(ms).toISOString()\<close>, which throws outside the range of dates.\<close>

definition isoString :: "int \<Rightarrow> date_error + string" where
  "isoString ms = (if \<bar>ms\<bar> \<le> max_time then Inr (toISOString ms) else Inl InvalidTime)"

lemma isoString_Inr [simp]: "isoString ms = Inr s \<longleftrightarrow> \<bar>ms\<bar> \<le> max_time \<and> s = toISOString ms"
  by (auto simp: isoString_def)

subsection \<open>An instance\<close>

text \<open>A platform that knows the zone \<open>UTC\<close> and orders texts by their code units.\<close>

definition utc_platform :: platform where
  "utc_platform =
     \<lparr>legacy_date = (\<lambda>s. None),
      local_clock = (\<lambda>tz ms. if tz = ''UTC'' then Some (ms div ms_per_day, ms mod ms_per_day div 60000) else None),
      locale_compare = js_compare\<rparr>"

end
