(* ===== verification/Planning_Engine.thy ===== *)
theory Planning_Engine
  imports Planning_Types Hours Platform
begin

section \<open>The planning engine (server/src/planning/engine.ts)\<close>

text \<open>
  From a draft and what is known to be busy, the engine computes the events to keep on the target
  calendar: the protected time outside working hours, or one meeting per cycle at the free slot
  that is closest to the preferred time. The parameters are the date library \<open>t\<close> and the platform
  \<open>pf\<close>; \<open>date_error\<close> is a thrown \<open>RangeError\<close>.
\<close>

subsection \<open>Dates and times\<close>

text \<open>
  \<open>formatToParts\<close> shows a year without leading zeros and counts the years before 1 backwards.
\<close>

definition intl_year :: "int \<Rightarrow> string" where
  "intl_year y = dec (nat (if 0 < y then y else 1 - y))"

definition localDateAt :: "platform \<Rightarrow> string \<Rightarrow> string \<Rightarrow> date_error + string" where
  "localDateAt pf instant tz =
     bindE (orThrow InvalidTime (getTime pf instant)) (\<lambda>ms.
     bindE (orThrow UnknownZone (local_clock pf tz ms)) (\<lambda>(day, minute).
       let (y, m, d) = civil_from_day day in
       Inr (intl_year y @ ''-'' @ padi 2 m @ ''-'' @ padi 2 d)))"

definition addLocalDays :: "platform \<Rightarrow> string \<Rightarrow> int \<Rightarrow> date_error + string" where
  "addLocalDays pf date days =
     bindE (orThrow InvalidTime (getTime pf (date @ ''T00:00:00Z''))) (\<lambda>ms.
     bindE (isoString (ms + days * ms_per_day)) (\<lambda>s. Inr (take 10 s)))"

definition hoursProfile :: "string \<Rightarrow> string \<Rightarrow> weekly_interval list \<Rightarrow> hours_profile" where
  "hoursProfile ident tz wk =
     \<lparr>profile_ref = ident, profile_revision = 1, timezone = tz, ambiguous = EarlierOffset,
      nonexistent = ShiftForwardByGap, weekly = wk, exceptions = []\<rparr>"

definition overlapsText :: "'a instant_interval_scheme \<Rightarrow> 'b instant_interval_scheme \<Rightarrow> bool" where
  "overlapsText left right \<longleftrightarrow> iv_start left < iv_end right \<and> iv_start right < iv_end left"

definition alignToStep :: "int \<Rightarrow> int \<Rightarrow> int" where
  "alignToStep milliseconds stepMinutes =
     (let step = stepMinutes * 60000 in - (- milliseconds div step) * step)"

text \<open>
  \<open>split(":")\<close> and \<open>Number\<close> on the parts: the times of a draft are digits and colons. \<open>None\<close> is
  \<open>NaN\<close>.
\<close>

fun split_colon :: "string \<Rightarrow> string list" where
  "split_colon [] = [[]]"
| "split_colon (c # cs) =
     (if c = CHR '':'' then [] # split_colon cs
      else case split_colon cs of [] \<Rightarrow> [[c]] | p # ps \<Rightarrow> (c # p) # ps)"

definition digits_number :: "string \<Rightarrow> int option" where
  "digits_number s = (if list_all is_digit s then Some (int (undec s)) else None)"

definition clockMinutes :: "string \<Rightarrow> int option" where
  "clockMinutes txt =
     (let parts = split_colon txt;
          hour = (case parts of h # _ \<Rightarrow> h | [] \<Rightarrow> ''0'');
          minute = (case parts of _ # m # _ \<Rightarrow> m | _ \<Rightarrow> ''0'')
      in case (digits_number hour, digits_number minute) of
           (Some h, Some m) \<Rightarrow> Some (h * 60 + m) | _ \<Rightarrow> None)"

definition localMinuteOfDay :: "platform \<Rightarrow> string \<Rightarrow> string \<Rightarrow> date_error + int" where
  "localMinuteOfDay pf instant tz =
     bindE (orThrow InvalidTime (getTime pf instant)) (\<lambda>ms.
     bindE (orThrow UnknownZone (local_clock pf tz ms)) (\<lambda>(day, minute). Inr minute))"

definition DAY_MILLISECONDS :: int where
  "DAY_MILLISECONDS = 86400000"

definition planningHorizonEnd :: "platform \<Rightarrow> string \<Rightarrow> int \<Rightarrow> date_error + string" where
  "planningHorizonEnd pf nowText days =
     bindE (orThrow InvalidTime (getTime pf nowText)) (\<lambda>ms. isoString (ms + days * DAY_MILLISECONDS))"

subsection \<open>Events\<close>

text \<open>\<open>description ? { description } : {}\<close>: an empty text is left out.\<close>

definition truthy :: "string option \<Rightarrow> string option" where
  "truthy x = (case x of Some [] \<Rightarrow> None | _ \<Rightarrow> x)"

definition eventTemplate ::
  "'a instant_interval_scheme \<Rightarrow> string \<Rightarrow> string \<Rightarrow> visibility \<Rightarrow> (string \<times> bool) list \<Rightarrow> bool \<Rightarrow>
   string option \<Rightarrow> string option \<Rightarrow> event_template" where
  "eventTemplate interval tz summary vis attendees sendUpdates descr loc =
     \<lparr>e_start_instant = iv_start interval, e_end_instant = iv_end interval, e_timezone = tz,
      e_summary = summary, e_description = truthy descr, e_location = truthy loc,
      e_transparency = Opaque, e_visibility = vis, e_attendees = attendees,
      e_send_updates = sendUpdates\<rparr>"

subsection \<open>Protected time\<close>

definition boundaryDay :: "availability_boundary_draft \<Rightarrow> int \<Rightarrow> weekly_interval list" where
  "boundaryDay draft wd =
     (if wd \<notin> set (working_days draft) then
        if protect_closed_days draft
        then [\<lparr>weekday = wd, w_start = ''00:00:00'', w_end = ''00:00:00'', w_end_day_offset = 1\<rparr>] else []
      else
        (if protect_before_work draft \<and> workday_start draft \<noteq> ''00:00:00''
         then [\<lparr>weekday = wd, w_start = ''00:00:00'', w_end = workday_start draft, w_end_day_offset = 0\<rparr>] else [])
        @ (if protect_after_work draft \<and> workday_end draft \<noteq> ''00:00:00''
           then [\<lparr>weekday = wd, w_start = workday_end draft, w_end = ''00:00:00'', w_end_day_offset = 1\<rparr>] else []))"

definition boundaryWeekly :: "availability_boundary_draft \<Rightarrow> weekly_interval list" where
  "boundaryWeekly draft = concat (map (boundaryDay draft) [1, 2, 3, 4, 5, 6, 7])"

definition planAvailabilityBoundary ::
  "temporal \<Rightarrow> platform \<Rightarrow> availability_boundary_draft \<Rightarrow> string \<Rightarrow> date_error + planning_result" where
  "planAvailabilityBoundary t pf draft nowText =
     bindE (localDateAt pf nowText (b_timezone draft)) (\<lambda>startDate.
     bindE (addLocalDays pf startDate (horizon_days draft)) (\<lambda>endDate.
       let profile = hoursProfile ''availability-boundary-preview'' (b_timezone draft) (boundaryWeekly draft);
           materialized = materializeHours t
             \<lparr>hm_profile = profile, hm_start_date = startDate, hm_end_date_exclusive = endDate\<rparr>;
           occurrences = map (\<lambda>interval.
             \<lparr>occurrence_key = ''boundary:'' @ iv_start interval, occ_decision = Schedule,
              occ_reason = outside_working_hours,
              occ_event = Some (eventTemplate interval (b_timezone draft) (b_title draft)
                (b_visibility draft) [] False None None),
              rejected_candidate_count = Some 0\<rparr>) (hm_concrete materialized)
       in Inr \<lparr>pr_kind = AvailabilityBoundary, pr_occurrences = occurrences,
            scheduled_count = int (length occurrences), unmet_count = 0,
            pr_warnings = map HoursDiagnostic (hm_diagnostics materialized),
            pr_hours_summary = (take 5 (workday_start draft), take 5 (workday_end draft), b_timezone draft)\<rparr>))"

subsection \<open>Meeting slots\<close>

function durationLoop :: "int \<Rightarrow> int \<Rightarrow> start_step \<Rightarrow> int list" where
  "durationLoop duration minimum step =
     (if duration < minimum then [] else duration # durationLoop (duration - step_minutes step) minimum step)"
  by auto
termination
  by (relation "measure (\<lambda>(d, m, s). nat (d + 1 - m))") auto

declare durationLoop.simps [simp del]

definition durations :: "smart_meeting_draft \<Rightarrow> int list" where
  "durations draft =
     (let ds = durationLoop (maximum_duration_minutes draft) (minimum_duration_minutes draft)
                 (start_step_minutes draft)
      in if minimum_duration_minutes draft \<in> set ds then ds else ds @ [minimum_duration_minutes draft])"

text \<open>The values of \<open>cursor\<close> in the innermost loop.\<close>

function cursorLoop :: "int \<Rightarrow> int \<Rightarrow> int \<Rightarrow> start_step \<Rightarrow> int list" where
  "cursorLoop cursor duration fin step =
     (if cursor + duration * 60000 \<le> fin
      then cursor # cursorLoop (cursor + step_minutes step * 60000) duration fin step else [])"
  by auto
termination
  by (relation "measure (\<lambda>(c, d, f, s). nat (f + 1 - (c + d * 60000)))") auto

declare cursorLoop.simps [simp del]

record slot_candidate =
  sc_interval :: instant_interval
  sc_score :: int
  sc_rejectedBefore :: int

definition conflict ::
  "string \<Rightarrow> busy_interval list \<Rightarrow> instant_interval list \<Rightarrow> instant_interval \<Rightarrow> bool" where
  "conflict earliestStart busy used candidate \<longleftrightarrow>
     iv_start candidate < earliestStart
     \<or> list_ex (\<lambda>interval. overlapsText candidate interval) busy
     \<or> list_ex (\<lambda>interval. overlapsText candidate interval) used"

text \<open>
  The score. When the preferred time is no number every score is \<open>NaN\<close> and the comparison of two
  scores says nothing, as it does for equal scores.
\<close>

definition slot_score :: "smart_meeting_draft \<Rightarrow> int \<Rightarrow> int \<Rightarrow> int" where
  "slot_score draft duration localMinutes =
     (case clockMinutes (preferred_time draft) of
        None \<Rightarrow> 0
      | Some preferredMinutes \<Rightarrow>
          \<bar>localMinutes - preferredMinutes\<bar> + (maximum_duration_minutes draft - duration) * 5)"

definition considerSlot ::
  "platform \<Rightarrow> smart_meeting_draft \<Rightarrow> string \<Rightarrow> busy_interval list \<Rightarrow> instant_interval list \<Rightarrow> int \<Rightarrow>
   slot_candidate list \<times> int \<Rightarrow> int \<Rightarrow> date_error + slot_candidate list \<times> int" where
  "considerSlot pf draft earliestStart busy used duration st cursor =
     (let (candidates, rejected) = st in
      bindE (isoString cursor) (\<lambda>s.
      bindE (isoString (cursor + duration * 60000)) (\<lambda>e.
        let candidate = \<lparr>iv_start = s, iv_end = e\<rparr> in
        if conflict earliestStart busy used candidate then Inr (candidates, rejected + 1)
        else
          bindE (localMinuteOfDay pf s (m_timezone draft)) (\<lambda>localMinutes.
            Inr (candidates @ [\<lparr>sc_interval = candidate, sc_score = slot_score draft duration localMinutes,
                                sc_rejectedBefore = rejected\<rparr>], rejected)))))"

text \<open>A window whose ends are no dates gives \<open>NaN\<close> bounds, and the loop does not run.\<close>

definition window_cursors :: "platform \<Rightarrow> smart_meeting_draft \<Rightarrow> int \<Rightarrow> instant_interval \<Rightarrow> int list" where
  "window_cursors pf draft duration w =
     (case (getTime pf (iv_start w), getTime pf (iv_end w)) of
        (Some s, Some e) \<Rightarrow>
          cursorLoop (alignToStep s (step_minutes (start_step_minutes draft))) duration e (start_step_minutes draft)
      | _ \<Rightarrow> [])"

fun tryDurations ::
  "(int \<Rightarrow> slot_candidate list \<times> int \<Rightarrow> date_error + slot_candidate list \<times> int) \<Rightarrow> int list \<Rightarrow>
   slot_candidate list \<times> int \<Rightarrow> date_error + slot_candidate list" where
  "tryDurations search [] (candidates, rejected) = Inr candidates"
| "tryDurations search (d # ds) (candidates, rejected) =
     bindE (search d (candidates, rejected)) (\<lambda>(candidates', rejected').
       if candidates' \<noteq> [] then Inr candidates' else tryDurations search ds (candidates', rejected'))"

definition slot_compare :: "platform \<Rightarrow> slot_candidate \<Rightarrow> slot_candidate \<Rightarrow> int" where
  "slot_compare pf left right =
     cmp_or (sc_score left - sc_score right)
       (cmp_or (locale_compare pf (iv_start (sc_interval left)) (iv_start (sc_interval right)))
         (locale_compare pf (iv_end (sc_interval left)) (iv_end (sc_interval right))))"

definition search_windows ::
  "platform \<Rightarrow> smart_meeting_draft \<Rightarrow> instant_interval list \<Rightarrow> string \<Rightarrow> busy_interval list \<Rightarrow>
   instant_interval list \<Rightarrow> int \<Rightarrow> slot_candidate list \<times> int \<Rightarrow> date_error + slot_candidate list \<times> int" where
  "search_windows pf draft windows earliestStart busy used duration st =
     foldE (\<lambda>st' w. foldE (considerSlot pf draft earliestStart busy used duration) st'
                (window_cursors pf draft duration w)) st windows"

definition chooseMeetingSlot ::
  "platform \<Rightarrow> smart_meeting_draft \<Rightarrow> instant_interval list \<Rightarrow> busy_interval list \<Rightarrow> instant_interval list \<Rightarrow>
   string \<Rightarrow> date_error + (instant_interval \<times> int) option" where
  "chooseMeetingSlot pf draft windows busy used nowText =
     bindE (orThrow InvalidTime (getTime pf nowText)) (\<lambda>nowMs.
     bindE (isoString (nowMs + lock_before_minutes draft * 60000)) (\<lambda>earliestStart.
     bindE (tryDurations (search_windows pf draft windows earliestStart busy used) (durations draft) ([], 0))
       (\<lambda>candidates.
         Inr (case js_sort (slot_compare pf) candidates of
                [] \<Rightarrow> None
              | first # _ \<Rightarrow> Some (sc_interval first, sc_rejectedBefore first)))))"

text \<open>\<open>Math.floor\<close> of the quotient; a window without dates makes the sum \<open>NaN\<close> (\<open>None\<close>).\<close>

definition candidateCount :: "platform \<Rightarrow> smart_meeting_draft \<Rightarrow> instant_interval list \<Rightarrow> int option" where
  "candidateCount pf draft windows =
     foldr (\<lambda>w total. case (getTime pf (iv_start w), getTime pf (iv_end w), total) of
              (Some s, Some e, Some n) \<Rightarrow>
                Some (n + max 0 ((e - s - minimum_duration_minutes draft * 60000)
                            div (step_minutes (start_step_minutes draft) * 60000) + 1))
            | _ \<Rightarrow> None) (rev windows) (Some 0)"

subsection \<open>Meetings\<close>

record meeting_state =
  ms_warnings :: "planning_warning list"
  ms_occurrences :: "planned_occurrence list"
  ms_used :: "instant_interval list"
  ms_windowStart :: string

definition add_warnings :: "planning_warning list \<Rightarrow> planning_warning list \<Rightarrow> planning_warning list" where
  "add_warnings ws ds = fold (\<lambda>d acc. if d \<in> set acc then acc else acc @ [d]) ds ws"

definition meetingWarnings :: "smart_meeting_draft \<Rightarrow> string list \<Rightarrow> planning_warning list" where
  "meetingWarnings draft known =
     (if filter (\<lambda>calendar. calendar \<notin> set known) (uniq (availability_calendar_ids draft)) \<noteq> []
      then [availability_incomplete] else [])
     @ (if list_ex (\<lambda>attendee. a_required attendee
            \<and> (case truthy (a_availability_calendar_id attendee) of
                 None \<Rightarrow> True | Some calendar \<Rightarrow> calendar \<notin> set known)) (m_attendees draft)
        then [required_attendee_availability_unknown] else [])"

definition meetingWeekly :: "smart_meeting_draft \<Rightarrow> weekly_interval list" where
  "meetingWeekly draft = map (\<lambda>wd.
     \<lparr>weekday = wd, w_start = window_start draft, w_end = window_end draft,
      w_end_day_offset = (if window_start draft < window_end draft then 0 else 1)\<rparr>) (m_weekdays draft)"

definition meetingCycle ::
  "temporal \<Rightarrow> platform \<Rightarrow> smart_meeting_draft \<Rightarrow> hours_profile \<Rightarrow> busy_interval list \<Rightarrow> string \<Rightarrow>
   meeting_state \<Rightarrow> nat \<Rightarrow> date_error + meeting_state" where
  "meetingCycle t pf draft profile busy nowText st index =
     bindE (addLocalDays pf (ms_windowStart st) (7 * cadence_weeks draft)) (\<lambda>windowEnd.
       let windows = materializeHours t
             \<lparr>hm_profile = profile, hm_start_date = ms_windowStart st, hm_end_date_exclusive = windowEnd\<rparr>;
           warnings = add_warnings (ms_warnings st) (map HoursDiagnostic (hm_diagnostics windows));
           occurrenceKey = ''week:'' @ ms_windowStart st
       in bindE (chooseMeetingSlot pf draft (hm_concrete windows) busy (ms_used st) nowText) (\<lambda>selected.
          Inr (case selected of
            None \<Rightarrow>
              \<lparr>ms_warnings = warnings,
               ms_occurrences = ms_occurrences st @
                 [\<lparr>occurrence_key = occurrenceKey, occ_decision = Unmet,
                   occ_reason = no_mutual_time_inside_meeting_hours, occ_event = None,
                   rejected_candidate_count = candidateCount pf draft (hm_concrete windows)\<rparr>],
               ms_used = ms_used st, ms_windowStart = windowEnd\<rparr>
          | Some (interval, rejected) \<Rightarrow>
              \<lparr>ms_warnings = warnings,
               ms_occurrences = ms_occurrences st @
                 [\<lparr>occurrence_key = occurrenceKey, occ_decision = Schedule,
                   occ_reason = (if 0 < rejected then closest_mutual_opening else preferred_time_available),
                   occ_event = Some (eventTemplate interval (m_timezone draft) (m_name draft) (m_visibility draft)
                     (map (\<lambda>attendee. (a_email attendee, \<not> a_required attendee)) (m_attendees draft))
                     (m_attendees draft \<noteq> []) (m_description draft) (m_location draft)),
                   rejected_candidate_count = Some rejected\<rparr>],
               ms_used = ms_used st @ [interval], ms_windowStart = windowEnd\<rparr>)))"

definition planSmartMeeting ::
  "temporal \<Rightarrow> platform \<Rightarrow> smart_meeting_draft \<Rightarrow> planning_input \<Rightarrow> date_error + planning_result" where
  "planSmartMeeting t pf draft input =
     (let profile = hoursProfile ''smart-meeting-preview'' (m_timezone draft) (meetingWeekly draft);
          initial = \<lparr>ms_warnings = meetingWarnings draft (known_availability_calendar_ids input),
            ms_occurrences = [], ms_used = [], ms_windowStart = m_start_date draft\<rparr>
      in bindE (foldE (meetingCycle t pf draft profile (pi_busy input) (pi_now input)) initial
                  [0..<nat (occurrence_count draft)]) (\<lambda>st.
         Inr \<lparr>pr_kind = SmartMeeting, pr_occurrences = ms_occurrences st,
              scheduled_count = int (length (filter (\<lambda>o'. occ_decision o' = Schedule) (ms_occurrences st))),
              unmet_count = int (length (filter (\<lambda>o'. occ_decision o' = Unmet) (ms_occurrences st))),
              pr_warnings = ms_warnings st,
              pr_hours_summary = (take 5 (window_start draft), take 5 (window_end draft), m_timezone draft)\<rparr>))"

definition planScheduling :: "temporal \<Rightarrow> platform \<Rightarrow> planning_input \<Rightarrow> date_error + planning_result" where
  "planScheduling t pf input =
     (case pi_draft input of
        BoundaryDraft draft \<Rightarrow> planAvailabilityBoundary t pf draft (pi_now input)
      | MeetingDraft draft \<Rightarrow> planSmartMeeting t pf draft input)"

subsection \<open>The specification of a slot\<close>

text \<open>
  The slots of a duration: every aligned start inside a window from which the duration still
  fits, and of these the ones that neither start too early nor touch taken time.
\<close>

definition slot_at :: "int \<Rightarrow> int \<Rightarrow> instant_interval" where
  "slot_at duration cursor = \<lparr>iv_start = toISOString cursor, iv_end = toISOString (cursor + duration * 60000)\<rparr>"

definition free_slots ::
  "platform \<Rightarrow> smart_meeting_draft \<Rightarrow> instant_interval list \<Rightarrow> string \<Rightarrow> busy_interval list \<Rightarrow>
   instant_interval list \<Rightarrow> int \<Rightarrow> instant_interval list" where
  "free_slots pf draft windows earliestStart busy used duration =
     filter (\<lambda>i. \<not> conflict earliestStart busy used i)
       (map (slot_at duration) (concat (map (window_cursors pf draft duration) windows)))"

definition slot_distance :: "platform \<Rightarrow> smart_meeting_draft \<Rightarrow> int \<Rightarrow> instant_interval \<Rightarrow> int" where
  "slot_distance pf draft duration i =
     (case localMinuteOfDay pf (iv_start i) (m_timezone draft) of
        Inr m \<Rightarrow> slot_score draft duration m | Inl e \<Rightarrow> 0)"

definition found :: "platform \<Rightarrow> smart_meeting_draft \<Rightarrow> int \<Rightarrow> slot_candidate list \<Rightarrow> instant_interval list \<Rightarrow> bool" where
  "found pf draft duration new is \<longleftrightarrow>
     map sc_interval new = is \<and> (\<forall>n \<in> set new. sc_score n = slot_distance pf draft duration (sc_interval n))"

lemma found_append: "found pf draft d xs is \<Longrightarrow> found pf draft d ys js \<Longrightarrow> found pf draft d (xs @ ys) (is @ js)"
  by (auto simp: found_def)

lemma found_Nil [simp]: "found pf draft d [] is \<longleftrightarrow> is = []"
  by (auto simp: found_def)

lemma considerSlot_found:
  assumes "considerSlot pf draft earliest busy used d (cs, r) c = Inr (cs', r')"
  shows "\<exists>new. cs' = cs @ new
    \<and> found pf draft d new (filter (\<lambda>i. \<not> conflict earliest busy used i) [slot_at d c])"
proof (cases "conflict earliest busy used (slot_at d c)")
  case True
  with assms show ?thesis by (auto simp: considerSlot_def Let_def bindE_Inr_iff slot_at_def)
next
  case False
  with assms obtain m where m: "localMinuteOfDay pf (iv_start (slot_at d c)) (m_timezone draft) = Inr m"
    and cs': "cs' = cs @ [\<lparr>sc_interval = slot_at d c, sc_score = slot_score draft d m, sc_rejectedBefore = r\<rparr>]"
    by (auto simp: considerSlot_def Let_def bindE_Inr_iff slot_at_def)
  with False show ?thesis by (simp add: found_def slot_distance_def)
qed

lemma consider_all:
  assumes "foldE (considerSlot pf draft earliest busy used d) st xs = Inr st'"
  shows "\<exists>new. fst st' = fst st @ new
    \<and> found pf draft d new (filter (\<lambda>i. \<not> conflict earliest busy used i) (map (slot_at d) xs))"
  using assms
proof (induction xs arbitrary: st)
  case (Cons c xs)
  then obtain mid where mid: "considerSlot pf draft earliest busy used d (fst st, snd st) c = Inr (fst mid, snd mid)"
    "foldE (considerSlot pf draft earliest busy used d) mid xs = Inr st'"
    by (auto simp: bindE_Inr_iff)
  from considerSlot_found [OF mid(1)] Cons.IH [OF mid(2)] obtain new new' where
    new: "fst mid = fst st @ new" "found pf draft d new (filter (\<lambda>i. \<not> conflict earliest busy used i) [slot_at d c])"
    "fst st' = fst mid @ new'"
    "found pf draft d new' (filter (\<lambda>i. \<not> conflict earliest busy used i) (map (slot_at d) xs))" by blast
  show ?case
    using new(1,3) found_append [OF new(2,4)] by (intro exI [of _ "new @ new'"]) auto
qed auto

lemma search_windows_found:
  assumes "search_windows pf draft windows earliest busy used d st = Inr st'"
  shows "\<exists>new. fst st' = fst st @ new \<and> found pf draft d new (free_slots pf draft windows earliest busy used d)"
  using assms
proof (induction windows arbitrary: st)
  case Nil
  then show ?case by (simp add: search_windows_def free_slots_def)
next
  case (Cons w windows)
  then obtain mid where mid:
    "foldE (considerSlot pf draft earliest busy used d) st (window_cursors pf draft d w) = Inr mid"
    "search_windows pf draft windows earliest busy used d mid = Inr st'"
    by (auto simp: bindE_Inr_iff search_windows_def)
  from consider_all [OF mid(1)] Cons.IH [OF mid(2)] obtain new new' where
    "fst mid = fst st @ new" "fst st' = fst mid @ new'"
    and f: "found pf draft d new (filter (\<lambda>i. \<not> conflict earliest busy used i)
      (map (slot_at d) (window_cursors pf draft d w)))"
    "found pf draft d new' (free_slots pf draft windows earliest busy used d)" by blast
  then show ?case
    using found_append [OF f] by (intro exI [of _ "new @ new'"]) (auto simp: free_slots_def)
qed

lemma tryDurations_found:
  assumes "tryDurations (search_windows pf draft windows earliest busy used) ds ([], r) = Inr cs"
  shows "(cs = [] \<and> (\<forall>d \<in> set ds. free_slots pf draft windows earliest busy used d = []))
    \<or> (\<exists>pre d post. ds = pre @ d # post \<and> (\<forall>d' \<in> set pre. free_slots pf draft windows earliest busy used d' = [])
        \<and> cs \<noteq> [] \<and> found pf draft d cs (free_slots pf draft windows earliest busy used d))"
  using assms
proof (induction ds arbitrary: r)
  case (Cons d ds)
  then obtain cs1 r1 where s: "search_windows pf draft windows earliest busy used d ([], r) = Inr (cs1, r1)"
    and rest: "(if cs1 \<noteq> [] then Inr cs1 else tryDurations (search_windows pf draft windows earliest busy used) ds (cs1, r1))
      = Inr cs"
    by (auto simp: bindE_Inr_iff)
  from search_windows_found [OF s] have f: "found pf draft d cs1 (free_slots pf draft windows earliest busy used d)"
    by auto
  show ?case
  proof (cases "cs1 = []")
    case True
    with rest f have "tryDurations (search_windows pf draft windows earliest busy used) ds ([], r1) = Inr cs"
      "free_slots pf draft windows earliest busy used d = []" by auto
    note d = this(2) and ih = Cons.IH [OF this(1)]
    from ih show ?thesis
    proof (elim disjE exE conjE)
      fix pre d' post
      assume "ds = pre @ d' # post" "\<forall>d' \<in> set pre. free_slots pf draft windows earliest busy used d' = []"
        "cs \<noteq> []" "found pf draft d' cs (free_slots pf draft windows earliest busy used d')"
      with d show ?thesis by (intro disjI2 exI [of _ "d # pre"] exI [of _ d'] exI [of _ post]) auto
    qed (use d in auto)
  next
    case False
    with rest f show ?thesis by (intro disjI2 exI [of _ "[]"] exI [of _ d] exI [of _ ds]) auto
  qed
qed auto

subsection \<open>The order in which slots are tried\<close>

lemma consistent_slot: "consistent_comparator (locale_compare pf) \<Longrightarrow> consistent_comparator (slot_compare pf)"
  unfolding slot_compare_def [abs_def]
  by (intro consistent_or consistent_key [OF consistent_diff, of sc_score]
      consistent_key [where k = "\<lambda>x. iv_start (sc_interval x)"] consistent_key [where k = "\<lambda>x. iv_end (sc_interval x)"])

lemma durationLoop_range: "d \<in> set (durationLoop mx mn st) \<Longrightarrow> mn \<le> d \<and> d \<le> mx"
proof (induction mx mn st rule: durationLoop.induct)
  case (1 mx mn st)
  show ?case
  proof (cases "mx < mn")
    case True
    with "1.prems" show ?thesis by (simp add: durationLoop.simps)
  next
    case False
    with "1.prems" have "d = mx \<or> d \<in> set (durationLoop (mx - step_minutes st) mn st)"
      by (subst (asm) durationLoop.simps) auto
    with "1.IH" [OF False] False step_minutes_pos [of st] show ?thesis by linarith
  qed
qed

lemma durationLoop_sorted: "sorted_wrt (>) (durationLoop mx mn st)"
proof (induction mx mn st rule: durationLoop.induct)
  case (1 mx mn st)
  have "d < mx" if "d \<in> set (durationLoop (mx - step_minutes st) mn st)" for d
    using durationLoop_range [OF that] step_minutes_pos [of st] by linarith
  with 1 show ?case by (subst durationLoop.simps) auto
qed

lemma durations_range:
  assumes "minimum_duration_minutes draft \<le> maximum_duration_minutes draft" "d \<in> set (durations draft)"
  shows "minimum_duration_minutes draft \<le> d" "d \<le> maximum_duration_minutes draft"
  using assms durationLoop_range [of d "maximum_duration_minutes draft" "minimum_duration_minutes draft"]
  by (auto simp: durations_def Let_def split: if_splits)

lemma durations_sorted: "sorted_wrt (>) (durations draft)"
proof -
  have "minimum_duration_minutes draft < d"
    if "minimum_duration_minutes draft \<notin> set ds" "d \<in> set ds"
      "ds = durationLoop (maximum_duration_minutes draft) (minimum_duration_minutes draft) (start_step_minutes draft)" for d ds
    using durationLoop_range [of d] that by (metis order_le_less)
  then show ?thesis
    using durationLoop_sorted by (auto simp: durations_def Let_def sorted_wrt_append)
qed







subsection \<open>The chosen slot\<close>

lemma set_found: "found pf draft d cs is \<Longrightarrow> set is = sc_interval ` set cs"
  unfolding found_def by (metis set_map)

lemma hd_sort_mem: "js_sort cmp xs = y # ys \<Longrightarrow> y \<in> set xs"
  using set_js_sort [of cmp xs] by auto

text \<open>
  C11: The choice of a meeting slot. The search returns a slot exactly when some allowed duration
  has a free one. It takes the longest duration that has a free slot, and among the free slots of
  that duration one whose start is closest to the preferred time of day. Durations are tried in
  strictly decreasing order, from the maximum down to the minimum.
\<close>

theorem chosen_slot_is_best:
  assumes "consistent_comparator (locale_compare pf)"
    and "minimum_duration_minutes draft \<le> maximum_duration_minutes draft"
    and "getTime pf nowText = Some n" "earliest = toISOString (n + lock_before_minutes draft * 60000)"
    and "chooseMeetingSlot pf draft windows busy used nowText = Inr choice"
  shows "(case choice of
      None \<Rightarrow> \<forall>d \<in> set (durations draft). free_slots pf draft windows earliest busy used d = []
    | Some (iv, rejected) \<Rightarrow>
        \<exists>d \<in> set (durations draft).
          iv \<in> set (free_slots pf draft windows earliest busy used d)
          \<and> minimum_duration_minutes draft \<le> d \<and> d \<le> maximum_duration_minutes draft
          \<and> (\<forall>d' \<in> set (durations draft). d < d' \<longrightarrow> free_slots pf draft windows earliest busy used d' = [])
          \<and> (\<forall>iv' \<in> set (free_slots pf draft windows earliest busy used d).
               slot_distance pf draft d iv \<le> slot_distance pf draft d iv'))"
proof -
  let ?F = "free_slots pf draft windows earliest busy used"
  from assms(3-5) obtain cs where
    cs: "tryDurations (search_windows pf draft windows earliest busy used) (durations draft) ([], 0) = Inr cs"
    and choice: "choice = (case js_sort (slot_compare pf) cs of [] \<Rightarrow> None
      | first # _ \<Rightarrow> Some (sc_interval first, sc_rejectedBefore first))"
    by (auto simp: chooseMeetingSlot_def bindE_Inr_iff)
  from tryDurations_found [OF cs] show ?thesis
  proof (elim disjE exE conjE)
    assume "cs = []" "\<forall>d \<in> set (durations draft). ?F d = []"
    then show ?thesis using choice by simp
  next
    fix pre d post
    assume ds: "durations draft = pre @ d # post" and pre: "\<forall>d' \<in> set pre. ?F d' = []"
      and ne: "cs \<noteq> []" and f: "found pf draft d cs (?F d)"
    obtain first rest where first: "js_sort (slot_compare pf) cs = first # rest"
      using ne by (cases "js_sort (slot_compare pf) cs") auto
    have "first \<in> set cs" using first by (rule hd_sort_mem)
    then have mem: "sc_interval first \<in> set (?F d)"
      and sc: "sc_score first = slot_distance pf draft d (sc_interval first)" using f set_found [OF f] by (auto simp: found_def)
    have least: "slot_distance pf draft d (sc_interval first) \<le> slot_distance pf draft d iv'" if "iv' \<in> set (?F d)" for iv'
    proof -
      from that f obtain c where c: "c \<in> set cs" "iv' = sc_interval c" "sc_score c = slot_distance pf draft d iv'"
        using set_found [OF f] by (auto simp: found_def)
      have "slot_compare pf first c \<le> 0"
        using comparator.hd_sort_least [OF consistent_comparator.axioms(1) [OF consistent_slot [OF assms(1)]] c(1)] first
        by simp
      then show ?thesis using sc c(3) by (auto simp: slot_compare_def cmp_or_def split: if_splits)
    qed
    have longer: "d' \<in> set pre" if "d' \<in> set (durations draft)" "d < d'" for d'
      using that durations_sorted [of draft] ds by (auto simp: sorted_wrt_append)
    have "minimum_duration_minutes draft \<le> d" "d \<le> maximum_duration_minutes draft" "d \<in> set (durations draft)"
      using durations_range [OF assms(2), of d] ds by auto
    with mem least longer pre show ?thesis using choice first by auto
  qed
qed

subsection \<open>The plan of a meeting\<close>


definition event_interval :: "event_template \<Rightarrow> instant_interval" where
  "event_interval ev = \<lparr>iv_start = e_start_instant ev, iv_end = e_end_instant ev\<rparr>"

definition scheduled_intervals :: "planned_occurrence list \<Rightarrow> instant_interval list" where
  "scheduled_intervals occs = map event_interval (List.map_filter occ_event occs)"

lemma scheduled_intervals_snoc [simp]:
  "scheduled_intervals (occs @ [p]) =
     scheduled_intervals occs @ (case occ_event p of None \<Rightarrow> [] | Some ev \<Rightarrow> [event_interval ev])"
  by (simp add: scheduled_intervals_def List.map_filter_def split: option.splits)

lemma event_interval_template [simp]: "event_interval (eventTemplate i tz s v as u d l) = i"
  for i :: instant_interval
  by (simp add: event_interval_def eventTemplate_def)










subsection \<open>The properties on a concrete meeting\<close>

interpretation utc_slots: consistent_comparator "slot_compare utc_platform"
  by (rule consistent_slot) (simp add: utc_platform_def consistent_js_compare)

definition sample_meeting :: smart_meeting_draft where
  "sample_meeting =
     \<lparr>m_name = ''Sync'', m_target_calendar_id = ''work'', m_timezone = ''UTC'', m_start_date = ''2026-07-20'',
      m_weekdays = [1], window_start = ''09:00:00'', window_end = ''10:30:00'', preferred_time = ''09:30:00'',
      cadence_weeks = 1, occurrence_count = 1, minimum_duration_minutes = 60, maximum_duration_minutes = 60,
      start_step_minutes = Step30, m_priority = 1, m_attendees = [], availability_calendar_ids = [''home''],
      m_conflict_policy = Suggest, lock_before_minutes = 0, m_description = None, m_location = None,
      m_visibility = PrivateVis\<rparr>"

definition sample_busy :: "busy_interval list" where
  "sample_busy = [\<lparr>iv_start = ''2026-07-20T08:00:00.000Z'', iv_end = ''2026-07-20T09:30:00.000Z'',
     busy_calendar_id = ''home''\<rparr>]"

definition sample_windows :: "instant_interval list" where
  "sample_windows = [\<lparr>iv_start = ''2026-07-20T09:00:00Z'', iv_end = ''2026-07-20T10:30:00Z''\<rparr>]"

lemma sample_choice:
  "chooseMeetingSlot utc_platform sample_meeting sample_windows sample_busy [] ''2026-07-19T00:00:00.000Z''
   = Inr (Some (\<lparr>iv_start = ''2026-07-20T09:30:00.000Z'', iv_end = ''2026-07-20T10:30:00.000Z''\<rparr>, 1))"
  by code_simp

theorem chosen_slot_is_best_witness:
  "\<exists>d \<in> set (durations sample_meeting).
     \<lparr>iv_start = ''2026-07-20T09:30:00.000Z'', iv_end = ''2026-07-20T10:30:00.000Z''\<rparr>
       \<in> set (free_slots utc_platform sample_meeting sample_windows (toISOString 1784419200000) sample_busy [] d)"
proof -
  have p: "consistent_comparator (locale_compare utc_platform)"
    by (simp add: utc_platform_def consistent_js_compare)
  have "minimum_duration_minutes sample_meeting \<le> maximum_duration_minutes sample_meeting"
    "getTime utc_platform ''2026-07-19T00:00:00.000Z'' = Some 1784419200000"
    "toISOString 1784419200000 = toISOString (1784419200000 + lock_before_minutes sample_meeting * 60000)"
    by code_simp+
  from chosen_slot_is_best [OF p this sample_choice] show ?thesis by auto
qed










text \<open>
  The reason reported with a slot counts the candidates rejected before it and not whether the
  slot is at the preferred time: here 09:30 is taken, the slot at 09:00 is chosen, and the count that
  selects the reason \<open>preferred_time_available\<close> is zero.
\<close>

lemma preferred_time_reason_misreported:
  "chooseMeetingSlot utc_platform (sample_meeting\<lparr>minimum_duration_minutes := 30, maximum_duration_minutes := 30\<rparr>)
     [\<lparr>iv_start = ''2026-07-20T09:00:00Z'', iv_end = ''2026-07-20T10:00:00Z''\<rparr>]
     [\<lparr>iv_start = ''2026-07-20T09:30:00.000Z'', iv_end = ''2026-07-20T10:00:00.000Z'', busy_calendar_id = ''home''\<rparr>]
     [] ''2026-07-19T00:00:00.000Z''
   = Inr (Some (\<lparr>iv_start = ''2026-07-20T09:00:00.000Z'', iv_end = ''2026-07-20T09:30:00.000Z''\<rparr>, 0))"
  by code_simp

subsection \<open>Protected time\<close>

text \<open>A weekly interval covers a time of day; one that ends at midnight of the next day has no end on its own day.\<close>

definition covers_time :: "weekly_interval \<Rightarrow> string \<Rightarrow> bool" where
  "covers_time w x \<longleftrightarrow> w_start w \<le> x \<and> (w_end_day_offset w = 1 \<or> x < w_end w)"

text \<open>
  The boundary protects exactly the time outside work. On a working day a time of day is
  protected when it is before the start or not before the end of work, each only if the draft asks
  for it; on a closed day the whole day is protected or nothing is. Working time is never blocked.
\<close>

theorem boundary_protects_outside_work:
  assumes "1 \<le> wd" "wd \<le> 7" "''00:00:00'' \<le> x"
    and "''00:00:00'' \<le> workday_start draft" "workday_start draft < workday_end draft"
  shows "(\<exists>w \<in> set (boundaryWeekly draft). weekday w = wd \<and> covers_time w x) \<longleftrightarrow>
    (if wd \<in> set (working_days draft)
     then protect_before_work draft \<and> x < workday_start draft \<or> protect_after_work draft \<and> workday_end draft \<le> x
     else protect_closed_days draft)"
proof -
  have "wd \<in> set [1, 2, 3, 4, 5, 6, 7]" using assms(1,2) by auto
  moreover have "weekday w = wd'" if "w \<in> set (boundaryDay draft wd')" for w wd'
    using that by (auto simp: boundaryDay_def split: if_splits)
  ultimately have "(\<exists>w \<in> set (boundaryWeekly draft). weekday w = wd \<and> covers_time w x) \<longleftrightarrow>
    (\<exists>w \<in> set (boundaryDay draft wd). covers_time w x)"
    unfolding boundaryWeekly_def by fastforce
  also have "\<dots> \<longleftrightarrow> (if wd \<in> set (working_days draft)
     then protect_before_work draft \<and> x < workday_start draft \<or> protect_after_work draft \<and> workday_end draft \<le> x
     else protect_closed_days draft)"
  proof -
    have "workday_end draft \<noteq> ''00:00:00''" "\<not> (x < ''00:00:00'')" using assms(3-5) by auto
    with assms(3-5) show ?thesis
      by (cases "wd \<in> set (working_days draft)"; cases "protect_before_work draft"; cases "protect_after_work draft")
        (simp_all add: boundaryDay_def covers_time_def, auto)
  qed
  finally show ?thesis .
qed

definition sample_boundary :: availability_boundary_draft where
  "sample_boundary =
     \<lparr>b_name = ''Evenings'', b_target_calendar_id = ''work'', b_timezone = ''UTC'', working_days = [1, 2, 3, 4, 5],
      workday_start = ''09:00:00'', workday_end = ''17:00:00'', protect_before_work = False,
      protect_after_work = True, protect_closed_days = False, b_title = ''Personal time'',
      b_visibility = PrivateVis, horizon_days = 14\<rparr>"

theorem boundary_protects_outside_work_witness:
  "(\<exists>w \<in> set (boundaryWeekly sample_boundary). weekday w = 2 \<and> covers_time w ''18:00:00'')
   \<and> \<not> (\<exists>w \<in> set (boundaryWeekly sample_boundary). weekday w = 2 \<and> covers_time w ''12:00:00'')"
proof -
  have h: "1 \<le> (2::int)" "(2::int) \<le> 7" "''00:00:00'' \<le> workday_start sample_boundary"
    "workday_start sample_boundary < workday_end sample_boundary"
    "''00:00:00'' \<le> ''18:00:00''" "''00:00:00'' \<le> ''12:00:00''"
    "2 \<in> set (working_days sample_boundary)" "protect_after_work sample_boundary"
    "\<not> protect_before_work sample_boundary"
    "workday_end sample_boundary \<le> ''18:00:00''" "\<not> workday_end sample_boundary \<le> ''12:00:00''"
    by code_simp+
  show ?thesis
    using boundary_protects_outside_work [OF h(1,2,5,3,4)] boundary_protects_outside_work [OF h(1,2,6,3,4)] h(7-11)
    by simp
qed

end
