(* ===== verification/Draft_Fields.thy ===== *)
theory Draft_Fields
  imports Canonical Platform
begin

section \<open>The fields of a submitted rule\<close>

text \<open>
  The field validators that the two rule parsers use (server/src/planning/validation.ts and
  server/src/conflict-response/validation.ts each have their own copy of most of them). A submitted
  value is the JSON of a request body; a missing property is \<open>None\<close>. A refusal is the message of the
  thrown input error.
\<close>

type_synonym 'a parsed = "string + 'a"

definition reject_if :: "bool \<Rightarrow> string \<Rightarrow> unit parsed" where
  "reject_if b message = (if b then Inl message else Inr ())"

lemma reject_if_Inr [simp]: "reject_if b m = Inr u \<longleftrightarrow> \<not> b"
  by (simp add: reject_if_def)

text \<open>\<open>value ?? fallback\<close>\<close>

definition or_default :: "json option \<Rightarrow> json \<Rightarrow> json option" where
  "or_default v d = (case v of None \<Rightarrow> Some d | Some JNull \<Rightarrow> Some d | _ \<Rightarrow> v)"

subsection \<open>Texts, numbers and flags\<close>

definition field_text :: "json option \<Rightarrow> string \<Rightarrow> nat \<Rightarrow> string parsed" where
  "field_text v name maxLength =
     (case v of
        Some (JStr s) \<Rightarrow>
          (let r = trim (normalize_NFC s) in
           if length r < 1 \<or> maxLength < length r \<or> list_ex is_control r then Inl (name @ '' is invalid'') else Inr r)
      | _ \<Rightarrow> Inl (name @ '' is required''))"

definition field_optionalText :: "json option \<Rightarrow> string \<Rightarrow> nat \<Rightarrow> string option parsed" where
  "field_optionalText v name maxLength =
     (case v of
        None \<Rightarrow> Inr None
      | Some JNull \<Rightarrow> Inr None
      | Some (JStr []) \<Rightarrow> Inr None
      | _ \<Rightarrow> bindE (field_text v name maxLength) (\<lambda>s. Inr (Some s)))"

definition field_integer :: "json option \<Rightarrow> string \<Rightarrow> int \<Rightarrow> int \<Rightarrow> int parsed" where
  "field_integer v name lo hi =
     (case v of
        Some (JNum (Whole i)) \<Rightarrow>
          if max_safe_integer < \<bar>i\<bar> \<or> i < lo \<or> hi < i then Inl (name @ '' is invalid'') else Inr i
      | _ \<Rightarrow> Inl (name @ '' is invalid''))"

definition field_bool :: "json option \<Rightarrow> bool \<Rightarrow> bool parsed" where
  "field_bool v fallback =
     (case v of None \<Rightarrow> Inr fallback | Some (JBool b) \<Rightarrow> Inr b | _ \<Rightarrow> Inl ''boolean setting is invalid'')"

definition field_id :: "json option \<Rightarrow> string \<Rightarrow> string parsed" where
  "field_id v name =
     (case v of
        Some (JStr s) \<Rightarrow>
          if length s < 1 \<or> 200 < length s \<or> list_ex is_control s then Inl (name @ '' is invalid'') else Inr s
      | _ \<Rightarrow> Inl (name @ '' is invalid''))"

text \<open>A list of distinct values, each accepted by a parser for one of them.\<close>

definition field_list ::
  "(json option \<Rightarrow> 'a parsed) \<Rightarrow> json option \<Rightarrow> string \<Rightarrow> nat \<Rightarrow> nat \<Rightarrow> 'a list parsed" where
  "field_list item v name minLength maxLength =
     (case v of
        Some (JArr vs) \<Rightarrow>
          if length vs < minLength \<or> maxLength < length vs then Inl (name @ '' are invalid'')
          else bindE (mapE (\<lambda>x. item (Some x)) vs) (\<lambda>r.
            if length (uniq r) \<noteq> length r then Inl (name @ '' must be unique'') else Inr r)
      | _ \<Rightarrow> Inl (name @ '' are invalid''))"

definition field_ids :: "json option \<Rightarrow> string \<Rightarrow> nat \<Rightarrow> string list parsed" where
  "field_ids v name limit = field_list (\<lambda>x. field_id x name) v name 0 limit"

definition field_weekdays :: "json option \<Rightarrow> string \<Rightarrow> int list parsed" where
  "field_weekdays v name =
     bindE (field_list (\<lambda>x. field_integer x name 1 7) v name 1 7) (\<lambda>r. Inr (js_sort (\<lambda>a b. a - b) r))"

subsection \<open>Clock times, dates and zones\<close>

text \<open>The regular expression of a clock time: hours and minutes, and seconds if given.\<close>

definition is_clock :: "string \<Rightarrow> bool" where
  "is_clock s =
     (case (field s 0 2, field s 3 2) of
        (Some h, Some m) \<Rightarrow> h \<le> 23 \<and> m \<le> 59 \<and> char_at s 2 (CHR '':'')
          \<and> (length s = 5 \<or> length s = 8 \<and> char_at s 5 (CHR '':'')
               \<and> (case field s 6 2 of Some x \<Rightarrow> x \<le> 59 | None \<Rightarrow> False))
      | _ \<Rightarrow> False)"

definition field_clock :: "json option \<Rightarrow> string \<Rightarrow> string parsed" where
  "field_clock v name =
     (case v of
        Some (JStr s) \<Rightarrow>
          if \<not> is_clock s then Inl (name @ '' is invalid'')
          else Inr (if length s = 5 then s @ '':00'' else s)
      | _ \<Rightarrow> Inl (name @ '' is invalid''))"

definition date_shaped :: "string \<Rightarrow> bool" where
  "date_shaped s \<longleftrightarrow> length s = 10 \<and> field s 0 4 \<noteq> None \<and> field s 5 2 \<noteq> None \<and> field s 8 2 \<noteq> None
     \<and> char_at s 4 (CHR ''-'') \<and> char_at s 7 (CHR ''-'')"

definition field_localDate :: "platform \<Rightarrow> json option \<Rightarrow> string parsed" where
  "field_localDate pf v =
     (case v of
        Some (JStr s) \<Rightarrow>
          if \<not> date_shaped s then Inl ''start date is invalid''
          else (case getTime pf (s @ ''T00:00:00Z'') of
                  None \<Rightarrow> Inl ''start date is invalid''
                | Some ms \<Rightarrow> if take 10 (toISOString ms) \<noteq> s then Inl ''start date is invalid'' else Inr s)
      | _ \<Rightarrow> Inl ''start date is invalid'')"

definition field_timeZone :: "platform \<Rightarrow> json option \<Rightarrow> string parsed" where
  "field_timeZone pf v =
     (case v of
        Some (JStr s) \<Rightarrow>
          if 100 < length s \<or> local_clock pf s 0 = None then Inl ''timezone is invalid'' else Inr s
      | _ \<Rightarrow> Inl ''timezone is invalid'')"

subsection \<open>What an accepted field satisfies\<close>

lemma trim_trim [simp]: "trim (trim s) = trim s"
proof -
  have "dropWhile is_white (dropWhile is_white xs) = dropWhile is_white xs" for xs
    by (induction xs) auto
  moreover have "dropWhile is_white (rev (dropWhile is_white (rev (dropWhile is_white s))))
      = rev (dropWhile is_white (rev (dropWhile is_white s)))"
  proof -
    let ?a = "dropWhile is_white s"
    let ?b = "dropWhile is_white (rev ?a)"
    show ?thesis
    proof (cases "?b")
      case Nil
      then show ?thesis by (simp only: rev.simps dropWhile.simps)
    next
      case (Cons x xs)
      obtain ys where ys: "rev ?a = ys @ ?b" by (metis takeWhile_dropWhile_id)
      then have "?a = rev ?b @ rev ys" by (metis rev_append rev_rev_ident)
      moreover have "rev ?b \<noteq> []" using Cons by simp
      ultimately have "hd (rev ?b) = hd ?a" "?a \<noteq> []" by (metis hd_append2, metis append_is_Nil_conv)
      then have "\<not> is_white (hd (rev ?b))" by (metis hd_dropWhile)
      then show ?thesis using \<open>rev ?b \<noteq> []\<close> by (cases "rev ?b") auto
    qed
  qed
  ultimately show ?thesis by (simp add: trim_def)
qed

lemma field_text_Inr:
  "field_text v name n = Inr r \<Longrightarrow> r \<noteq> [] \<and> length r \<le> n \<and> field_text (Some (JStr r)) name' n = Inr r"
  by (auto simp: field_text_def Let_def normalize_NFC_def split: option.splits json.splits if_splits)

lemma field_integer_Inr:
  "field_integer v name lo hi = Inr i \<Longrightarrow> lo \<le> i \<and> i \<le> hi \<and> field_integer (Some (JNum (Whole i))) name' lo hi = Inr i"
  by (auto simp: field_integer_def split: option.splits json.splits js_number.splits if_splits)

lemma field_id_Inr: "field_id v name = Inr s \<Longrightarrow> field_id (Some (JStr s)) name' = Inr s"
  by (auto simp: field_id_def split: option.splits json.splits if_splits)

lemma field_timeZone_Inr:
  "field_timeZone pf v = Inr s \<Longrightarrow> local_clock pf s 0 \<noteq> None \<and> field_timeZone pf (Some (JStr s)) = Inr s"
  by (auto simp: field_timeZone_def split: option.splits json.splits if_splits)

lemma field_localDate_Inr:
  "field_localDate pf v = Inr s \<Longrightarrow> date_shaped s \<and> field_localDate pf (Some (JStr s)) = Inr s"
  by (auto simp: field_localDate_def split: option.splits json.splits if_splits)

lemma field_bool_Inr: "field_bool v b = Inr c \<Longrightarrow> field_bool (Some (JBool c)) b' = Inr c"
  by (simp add: field_bool_def)

lemma field_list_Inr:
  assumes "field_list item v name lo hi = Inr r"
  shows "distinct r" "lo \<le> length r" "length r \<le> hi" "\<And>x. x \<in> set r \<Longrightarrow> \<exists>j. item (Some j) = Inr x"
proof -
  from assms obtain vs where vs: "v = Some (JArr vs)" "lo \<le> length vs" "length vs \<le> hi"
    "mapE (\<lambda>x. item (Some x)) vs = Inr r" "distinct r"
    by (auto simp: field_list_def bindE_Inr_iff length_uniq_iff split: option.splits json.splits if_splits)
  then show "distinct r" "lo \<le> length r" "length r \<le> hi" by (auto dest: mapE_Inr_length)
  show "\<And>x. x \<in> set r \<Longrightarrow> \<exists>j. item (Some j) = Inr x" using mapE_Inr_set [OF vs(4)] by blast
qed

lemma field_list_again:
  assumes "distinct r" "lo \<le> length r" "length r \<le> hi" "\<And>x. x \<in> set r \<Longrightarrow> item (Some (enc x)) = Inr x"
  shows "field_list item (Some (JArr (map enc r))) name lo hi = Inr r"
proof -
  have "mapE (\<lambda>x. item (Some x)) (map enc r) = Inr r"
    using assms(4) by (induction r) auto
  with assms(1-3) show ?thesis by (simp add: field_list_def)
qed

definition clock_chars :: "string \<Rightarrow> bool" where
  "clock_chars s \<longleftrightarrow> (\<exists>a b c d e f. s = [a, b, CHR '':'', c, d, CHR '':'', e, f]
     \<and> list_all is_digit [a, b, c, d, e, f])"

lemma length_5: "length s = 5 \<Longrightarrow> \<exists>a b c d e. s = [a, b, c, d, e]"
  by (auto simp: numeral_eq_Suc length_Suc_conv)

lemma length_8: "length s = 8 \<Longrightarrow> \<exists>a b c d e f g h. s = [a, b, c, d, e, f, g, h]"
  by (auto simp: numeral_eq_Suc length_Suc_conv)

lemma field_Some: "field s i k = Some n \<Longrightarrow> list_all is_digit (take k (drop i s)) \<and> length (take k (drop i s)) = k"
  by (auto simp: field_def Let_def split: if_splits)

lemma field_clock_Inr:
  assumes "field_clock v name = Inr s"
  shows "clock_chars s \<and> field_clock (Some (JStr s)) name' = Inr s"
proof -
  from assms obtain r where r: "is_clock r" "s = (if length r = 5 then r @ '':00'' else r)"
    by (auto simp: field_clock_def split: option.splits json.splits if_splits)
  from r(1) have len: "length r = 5 \<or> length r = 8" by (auto simp: is_clock_def split: option.splits)
  then show ?thesis
  proof
    assume "length r = 5"
    then obtain a b c d e where "r = [a, b, c, d, e]" using length_5 by blast
    with r show ?thesis
      by (auto simp: is_clock_def clock_chars_def field_clock_def char_at_def field_def Let_def is_digit_def
          undec_def digit_val_def split: option.splits if_splits)
  next
    assume "length r = 8"
    then obtain a b c d e f g h where "r = [a, b, c, d, e, f, g, h]" using length_8 by blast
    with r show ?thesis
      by (auto simp: is_clock_def clock_chars_def field_clock_def char_at_def field_def Let_def
          split: option.splits if_splits)
  qed
qed

lemma zero_le_digit: "is_digit c \<Longrightarrow> CHR ''0'' \<le> c"
  by (simp add: is_digit_def less_eq_char_def)

lemma midnight_le_clock: "clock_chars s \<Longrightarrow> ''00:00:00'' \<le> s"
  by (auto simp: clock_chars_def dest!: zero_le_digit)

end
