(* ===== verification/Planning_Validation.thy ===== *)
theory Planning_Validation
  imports Planning_Types Draft_Fields
begin

section \<open>Parsing planning rules (server/src/planning/validation.ts)\<close>

text \<open>
  A submitted planning rule becomes a draft or is refused with a message; the checks run in the
  order of the code, so the message is that of the first one that fails. \<open>parse_error\<close> of the code
  always carries the code \<open>invalid_planning_rule\<close>, so only the message is kept.
\<close>

definition field_priority :: "json option \<Rightarrow> int parsed" where
  "field_priority v = field_integer v ''priority'' 1 4"

definition field_visibility :: "json option \<Rightarrow> visibility parsed" where
  "field_visibility v =
     (if v = None \<or> v = Some (JStr ''private'') then Inr PrivateVis
      else if v = Some (JStr ''default'') then Inr DefaultVis else Inl ''visibility is invalid'')"

definition field_conflictPolicy :: "json option \<Rightarrow> conflict_policy parsed" where
  "field_conflictPolicy v =
     (if v = None \<or> v = Some (JStr ''suggest'') then Inr Suggest
      else if v = Some (JStr ''auto_move'') then Inr AutoMove
      else if v = Some (JStr ''keep_with_warning'') then Inr KeepWithWarning
      else Inl ''conflict policy is invalid'')"

text \<open>
  \<open>/^[^\s@]+@[^\s@]+\.[^\s@]+$/u\<close>: two parts around one at sign, without white space, and a dot inside
  the second.
\<close>

definition mail_char :: "char \<Rightarrow> bool" where
  "mail_char c \<longleftrightarrow> \<not> is_white c \<and> c \<noteq> CHR ''@''"

definition is_email :: "string \<Rightarrow> bool" where
  "is_email s =
     (let user = takeWhile mail_char s; rest = dropWhile mail_char s; domain = tl rest in
      user \<noteq> [] \<and> rest \<noteq> [] \<and> hd rest = CHR ''@'' \<and> list_all mail_char domain
      \<and> list_ex (\<lambda>i. domain ! i = CHR ''.'') [1..<length domain - 1])"

definition parseAttendee :: "json option \<Rightarrow> smart_meeting_attendee parsed" where
  "parseAttendee v =
     (case v of
        Some (JObj ms) \<Rightarrow>
          (let value = JObj ms in
           bindE (field_text (json_member value ''email'') ''attendee email'' 254) (\<lambda>t.
           let raw = toLowerCase t in
           bindE (reject_if (\<not> is_email raw) ''attendee email is invalid'') (\<lambda>_.
           bindE (case json_member value ''availability_calendar_id'' of
                    None \<Rightarrow> Inr None
                  | Some c \<Rightarrow> bindE (field_id (Some c) ''attendee availability calendar'') (\<lambda>i. Inr (Some i)))
             (\<lambda>calendar.
           bindE (field_bool (json_member value ''required'') True) (\<lambda>required.
             Inr \<lparr>a_email = raw, a_required = required, a_availability_calendar_id = calendar\<rparr>)))))
      | _ \<Rightarrow> Inl ''attendee must be an object'')"

definition parseBoundary :: "platform \<Rightarrow> json \<Rightarrow> availability_boundary_draft parsed" where
  "parseBoundary pf value =
     bindE (field_text (json_member value ''name'') ''name'' 160) (\<lambda>name.
     bindE (field_id (json_member value ''target_calendar_id'') ''target calendar'') (\<lambda>target.
     bindE (field_timeZone pf (json_member value ''timezone'')) (\<lambda>tz.
     bindE (field_weekdays (json_member value ''working_days'') ''working days'') (\<lambda>workingDays.
     bindE (field_clock (json_member value ''workday_start'') ''workday start'') (\<lambda>workdayStart.
     bindE (field_clock (json_member value ''workday_end'') ''workday end'') (\<lambda>workdayEnd.
     bindE (reject_if (workdayEnd \<le> workdayStart) ''workday end must be after workday start'') (\<lambda>_.
     bindE (field_integer (json_member value ''horizon_days'') ''horizon days'' 1 60) (\<lambda>horizon.
     bindE (field_bool (json_member value ''protect_before_work'') False) (\<lambda>before.
     bindE (field_bool (json_member value ''protect_after_work'') True) (\<lambda>after.
     bindE (field_bool (json_member value ''protect_closed_days'') False) (\<lambda>closed.
     bindE (field_text (or_default (json_member value ''title'') (JStr ''Personal time'')) ''title'' 160) (\<lambda>title.
     bindE (field_visibility (json_member value ''visibility'')) (\<lambda>vis.
       Inr \<lparr>b_name = name, b_target_calendar_id = target, b_timezone = tz, working_days = workingDays,
            workday_start = workdayStart, workday_end = workdayEnd, protect_before_work = before,
            protect_after_work = after, protect_closed_days = closed, b_title = title,
            b_visibility = vis, horizon_days = horizon\<rparr>)))))))))))))"

definition step_of :: "int \<Rightarrow> start_step parsed" where
  "step_of n = (if n = 15 then Inr Step15 else if n = 30 then Inr Step30 else if n = 60 then Inr Step60
     else Inl ''start step must be 15, 30, or 60 minutes'')"

definition parseAttendees :: "json option \<Rightarrow> smart_meeting_attendee list parsed" where
  "parseAttendees v =
     (case or_default v (JArr []) of
        Some (JArr vs) \<Rightarrow>
          if 25 < length vs then Inl ''attendees are invalid''
          else bindE (mapE (\<lambda>x. parseAttendee (Some x)) vs) (\<lambda>attendees.
            if length (uniq (map a_email attendees)) \<noteq> length (map a_email attendees)
            then Inl ''attendees must be unique'' else Inr attendees)
      | _ \<Rightarrow> Inl ''attendees are invalid'')"

text \<open>The scheduling fields of a meeting, checked first, and the others.\<close>

record meeting_times =
  mt_minimum :: int
  mt_maximum :: int
  mt_step :: start_step
  mt_start :: string
  mt_end :: string
  mt_preferred :: string

definition parseMeetingTimes :: "json \<Rightarrow> meeting_times parsed" where
  "parseMeetingTimes value =
     bindE (field_integer (json_member value ''minimum_duration_minutes'') ''minimum duration'' 15 480) (\<lambda>minimum.
     bindE (field_integer (json_member value ''maximum_duration_minutes'') ''maximum duration'' minimum 480) (\<lambda>maximum.
     bindE (field_integer (json_member value ''start_step_minutes'') ''start step'' 15 60) (\<lambda>n.
     bindE (step_of n) (\<lambda>step.
     bindE (field_clock (json_member value ''window_start'') ''meeting window start'') (\<lambda>windowStart.
     bindE (field_clock (json_member value ''window_end'') ''meeting window end'') (\<lambda>windowEnd.
     bindE (reject_if (windowEnd \<le> windowStart) ''meeting window end must be after its start'') (\<lambda>_.
     bindE (field_clock (json_member value ''preferred_time'') ''preferred time'') (\<lambda>preferred.
     bindE (reject_if (preferred < windowStart \<or> windowEnd \<le> preferred)
              ''preferred time must be inside the meeting window'') (\<lambda>_.
       Inr \<lparr>mt_minimum = minimum, mt_maximum = maximum, mt_step = step, mt_start = windowStart,
            mt_end = windowEnd, mt_preferred = preferred\<rparr>)))))))))"

definition outside_selection :: "string list \<Rightarrow> smart_meeting_attendee \<Rightarrow> bool" where
  "outside_selection ids a =
     (case a_availability_calendar_id a of None \<Rightarrow> False | Some c \<Rightarrow> c \<noteq> [] \<and> c \<notin> set ids)"

definition parseSmartMeeting :: "platform \<Rightarrow> json \<Rightarrow> smart_meeting_draft parsed" where
  "parseSmartMeeting pf value =
     bindE (parseMeetingTimes value) (\<lambda>times.
     bindE (parseAttendees (json_member value ''attendees'')) (\<lambda>attendees.
     bindE (field_ids (json_member value ''availability_calendar_ids'') ''availability calendars'' 32)
       (\<lambda>availabilityCalendars.
     bindE (reject_if (availabilityCalendars = []) ''at least one availability calendar is required'') (\<lambda>_.
     bindE (reject_if (list_ex (outside_selection availabilityCalendars) attendees)
              ''attendee availability calendars must also be selected for availability'') (\<lambda>_.
     bindE (field_text (json_member value ''name'') ''name'' 160) (\<lambda>name.
     bindE (field_id (json_member value ''target_calendar_id'') ''target calendar'') (\<lambda>target.
     bindE (field_timeZone pf (json_member value ''timezone'')) (\<lambda>tz.
     bindE (field_localDate pf (json_member value ''start_date'')) (\<lambda>startDate.
     bindE (field_weekdays (json_member value ''weekdays'') ''meeting days'') (\<lambda>days.
     bindE (field_integer (json_member value ''cadence_weeks'') ''cadence'' 1 12) (\<lambda>cadence.
     bindE (field_integer (json_member value ''occurrence_count'') ''occurrence count'' 1 16) (\<lambda>occurrences.
     bindE (field_priority (json_member value ''priority'')) (\<lambda>prio.
     bindE (field_conflictPolicy (json_member value ''conflict_policy'')) (\<lambda>conflicts.
     bindE (field_integer (json_member value ''lock_before_minutes'') ''lock window'' 0 10080) (\<lambda>lock.
     bindE (field_optionalText (json_member value ''description'') ''description'' 4000) (\<lambda>descr.
     bindE (field_optionalText (json_member value ''location'') ''location'' 500) (\<lambda>loc.
     bindE (field_visibility (json_member value ''visibility'')) (\<lambda>vis.
       Inr \<lparr>m_name = name, m_target_calendar_id = target, m_timezone = tz, m_start_date = startDate,
            m_weekdays = days, window_start = mt_start times, window_end = mt_end times,
            preferred_time = mt_preferred times, cadence_weeks = cadence, occurrence_count = occurrences,
            minimum_duration_minutes = mt_minimum times, maximum_duration_minutes = mt_maximum times,
            start_step_minutes = mt_step times, m_priority = prio, m_attendees = attendees,
            availability_calendar_ids = availabilityCalendars, m_conflict_policy = conflicts,
            lock_before_minutes = lock, m_description = descr, m_location = loc,
            m_visibility = vis\<rparr>))))))))))))))))))"

definition parsePlanningDraft :: "platform \<Rightarrow> json \<Rightarrow> planning_draft parsed" where
  "parsePlanningDraft pf value =
     (if \<not> is_record value then Inl ''planning rule must be an object''
      else if json_member value ''kind'' = Some (JStr ''availability_boundary'')
      then bindE (parseBoundary pf value) (\<lambda>d. Inr (BoundaryDraft d))
      else if json_member value ''kind'' = Some (JStr ''smart_meeting'')
      then bindE (parseSmartMeeting pf value) (\<lambda>d. Inr (MeetingDraft d))
      else Inl ''planning rule kind is unsupported'')"

subsection \<open>What an accepted rule satisfies\<close>

lemma sorted_weekdays:
  assumes "field_weekdays v name = Inr r"
  shows "sorted_wrt (<) r" "r \<noteq> []" "\<And>d. d \<in> set r \<Longrightarrow> 1 \<le> d \<and> d \<le> 7"
proof -
  from assms obtain q where q: "field_list (\<lambda>x. field_integer x name 1 7) v name 1 7 = Inr q"
    "r = js_sort (\<lambda>a b. a - b) q" by (auto simp: field_weekdays_def bindE_Inr_iff)
  have "sorted_wrt (\<lambda>a b. a - b \<le> 0) r"
    unfolding q(2) by (rule comparator.sorted_sort [OF consistent_comparator.axioms(1) [OF consistent_diff]])
  moreover have "distinct r" using field_list_Inr(1) [OF q(1)] q(2) by simp
  ultimately show "sorted_wrt (<) r" by (simp add: strict_sorted_iff)
  show "r \<noteq> []" using field_list_Inr(2) [OF q(1)] q(2) by auto
  show "\<And>d. d \<in> set r \<Longrightarrow> 1 \<le> d \<and> d \<le> 7"
    using field_list_Inr(4) [OF q(1)] q(2) field_integer_Inr by fastforce
qed

lemma weekdays_again:
  assumes "field_weekdays v name = Inr r"
  shows "field_weekdays (Some (JArr (map (\<lambda>d. JNum (Whole d)) r))) name = Inr r"
proof -
  note s = sorted_weekdays [OF assms]
  have "distinct r" using s(1) by (simp add: strict_sorted_iff)
  from assms obtain q where q: "field_list (\<lambda>x. field_integer x name 1 7) v name 1 7 = Inr q"
    "r = js_sort (\<lambda>a b. a - b) q" by (auto simp: field_weekdays_def bindE_Inr_iff)
  have len: "1 \<le> length r" "length r \<le> 7" using field_list_Inr(2,3) [OF q(1)] q(2) by simp_all
  have "field_list (\<lambda>x. field_integer x name 1 7) (Some (JArr (map (\<lambda>d. JNum (Whole d)) r))) name 1 7 = Inr r"
    by (rule field_list_again [OF \<open>distinct r\<close> len]) (use s(3) in \<open>fastforce simp: field_integer_def max_safe_integer_def\<close>)
  moreover have "js_sort (\<lambda>a b. a - b) r = r"
    by (rule comparator.sorted_unique_on [OF consistent_comparator.axioms(1) [OF consistent_diff]
          comparator.sorted_sort [OF consistent_comparator.axioms(1) [OF consistent_diff]]])
      (use s(1) in \<open>auto elim: sorted_wrt_mono_rel [rotated]\<close>)
  ultimately show ?thesis by (simp add: field_weekdays_def)
qed

definition well_formed_boundary :: "platform \<Rightarrow> availability_boundary_draft \<Rightarrow> bool" where
  "well_formed_boundary pf d \<longleftrightarrow>
     b_name d \<noteq> [] \<and> b_title d \<noteq> [] \<and> local_clock pf (b_timezone d) 0 \<noteq> None
     \<and> working_days d \<noteq> [] \<and> sorted_wrt (<) (working_days d) \<and> (\<forall>w \<in> set (working_days d). 1 \<le> w \<and> w \<le> 7)
     \<and> clock_chars (workday_start d) \<and> clock_chars (workday_end d) \<and> workday_start d < workday_end d
     \<and> 1 \<le> horizon_days d \<and> horizon_days d \<le> 60"

definition well_formed_meeting :: "platform \<Rightarrow> smart_meeting_draft \<Rightarrow> bool" where
  "well_formed_meeting pf d \<longleftrightarrow>
     m_name d \<noteq> [] \<and> local_clock pf (m_timezone d) 0 \<noteq> None \<and> date_shaped (m_start_date d)
     \<and> m_weekdays d \<noteq> [] \<and> sorted_wrt (<) (m_weekdays d) \<and> (\<forall>w \<in> set (m_weekdays d). 1 \<le> w \<and> w \<le> 7)
     \<and> clock_chars (window_start d) \<and> clock_chars (window_end d) \<and> clock_chars (preferred_time d)
     \<and> window_start d \<le> preferred_time d \<and> preferred_time d < window_end d
     \<and> 15 \<le> minimum_duration_minutes d \<and> minimum_duration_minutes d \<le> maximum_duration_minutes d
     \<and> maximum_duration_minutes d \<le> 480
     \<and> 1 \<le> cadence_weeks d \<and> cadence_weeks d \<le> 12 \<and> 1 \<le> occurrence_count d \<and> occurrence_count d \<le> 16
     \<and> 1 \<le> m_priority d \<and> m_priority d \<le> 4 \<and> 0 \<le> lock_before_minutes d \<and> lock_before_minutes d \<le> 10080
     \<and> length (m_attendees d) \<le> 25 \<and> distinct (map a_email (m_attendees d))
     \<and> (\<forall>a \<in> set (m_attendees d). is_email (a_email a))
     \<and> availability_calendar_ids d \<noteq> [] \<and> distinct (availability_calendar_ids d)
     \<and> (\<forall>a \<in> set (m_attendees d). \<not> outside_selection (availability_calendar_ids d) a)"

lemma parseBoundary_well_formed: "parseBoundary pf v = Inr d \<Longrightarrow> well_formed_boundary pf d"
  unfolding parseBoundary_def bindE_Inr_iff
  by (elim exE conjE)
    (auto simp: well_formed_boundary_def not_le dest: field_text_Inr field_timeZone_Inr sorted_weekdays field_clock_Inr
      field_integer_Inr)

lemma parseMeetingTimes_facts:
  "parseMeetingTimes v = Inr t \<Longrightarrow>
   15 \<le> mt_minimum t \<and> mt_minimum t \<le> mt_maximum t \<and> mt_maximum t \<le> 480 \<and> clock_chars (mt_start t)
   \<and> clock_chars (mt_end t) \<and> clock_chars (mt_preferred t) \<and> mt_start t \<le> mt_preferred t \<and> mt_preferred t < mt_end t"
  unfolding parseMeetingTimes_def bindE_Inr_iff
  by (elim exE conjE) (auto simp: not_le not_less dest: field_clock_Inr field_integer_Inr)

lemma parseAttendee_email: "parseAttendee v = Inr a \<Longrightarrow> is_email (a_email a)"
  by (auto simp: parseAttendee_def Let_def bindE_Inr_iff split: option.splits json.splits)

lemma parseAttendees_facts:
  "parseAttendees v = Inr as \<Longrightarrow> length as \<le> 25 \<and> distinct (map a_email as) \<and> (\<forall>a \<in> set as. is_email (a_email a))"
  by (auto simp: parseAttendees_def bindE_Inr_iff length_uniq_iff [of "map a_email as", simplified]
      split: option.splits json.splits if_splits dest: mapE_Inr_length mapE_Inr_set parseAttendee_email)

lemma field_ids_distinct: "field_ids v name n = Inr r \<Longrightarrow> distinct r"
  unfolding field_ids_def by (rule field_list_Inr(1))

lemma parseSmartMeeting_well_formed: "parseSmartMeeting pf v = Inr d \<Longrightarrow> well_formed_meeting pf d"
  unfolding parseSmartMeeting_def bindE_Inr_iff
  by (elim exE conjE)
    (auto simp: well_formed_meeting_def field_priority_def list_ex_iff
      dest: parseMeetingTimes_facts parseAttendees_facts field_ids_distinct field_text_Inr field_timeZone_Inr
        field_localDate_Inr sorted_weekdays field_integer_Inr)

text \<open>
  A parsed planning rule is well formed. Whatever is submitted, an accepted rule has a known
  zone, distinct weekdays in order, clock times in the right order with the preferred time inside
  the window, durations and counts within their bounds, at most 25 distinct valid attendees whose
  calendars are among the selected ones, and at least one availability calendar.
\<close>

theorem parsed_rule_is_well_formed:
  assumes "parsePlanningDraft pf v = Inr draft"
  shows "case draft of BoundaryDraft d \<Rightarrow> well_formed_boundary pf d | MeetingDraft d \<Rightarrow> well_formed_meeting pf d"
  using assms
  by (auto simp: parsePlanningDraft_def bindE_Inr_iff split: if_splits
      dest: parseBoundary_well_formed parseSmartMeeting_well_formed)

subsection \<open>The stored form of a rule\<close>

definition visibility_json :: "visibility \<Rightarrow> json" where
  "visibility_json v = JStr (case v of PrivateVis \<Rightarrow> ''private'' | DefaultVis \<Rightarrow> ''default'')"

definition conflict_policy_json :: "conflict_policy \<Rightarrow> json" where
  "conflict_policy_json c = JStr (case c of Suggest \<Rightarrow> ''suggest'' | AutoMove \<Rightarrow> ''auto_move''
     | KeepWithWarning \<Rightarrow> ''keep_with_warning'')"

definition boundary_json :: "availability_boundary_draft \<Rightarrow> json" where
  "boundary_json d = JObj
     [(''kind'', Some (JStr ''availability_boundary'')), (''name'', Some (JStr (b_name d))),
      (''target_calendar_id'', Some (JStr (b_target_calendar_id d))), (''timezone'', Some (JStr (b_timezone d))),
      (''working_days'', Some (JArr (map (\<lambda>w. JNum (Whole w)) (working_days d)))),
      (''workday_start'', Some (JStr (workday_start d))), (''workday_end'', Some (JStr (workday_end d))),
      (''protect_before_work'', Some (JBool (protect_before_work d))),
      (''protect_after_work'', Some (JBool (protect_after_work d))),
      (''protect_closed_days'', Some (JBool (protect_closed_days d))),
      (''title'', Some (JStr (b_title d))), (''visibility'', Some (visibility_json (b_visibility d))),
      (''horizon_days'', Some (JNum (Whole (horizon_days d))))]"

definition attendee_json :: "smart_meeting_attendee \<Rightarrow> json" where
  "attendee_json a = JObj
     [(''email'', Some (JStr (a_email a))), (''required'', Some (JBool (a_required a))),
      (''availability_calendar_id'', map_option JStr (a_availability_calendar_id a))]"

definition meeting_json :: "smart_meeting_draft \<Rightarrow> json" where
  "meeting_json d = JObj
     [(''kind'', Some (JStr ''smart_meeting'')), (''name'', Some (JStr (m_name d))),
      (''target_calendar_id'', Some (JStr (m_target_calendar_id d))), (''timezone'', Some (JStr (m_timezone d))),
      (''start_date'', Some (JStr (m_start_date d))),
      (''weekdays'', Some (JArr (map (\<lambda>w. JNum (Whole w)) (m_weekdays d)))),
      (''window_start'', Some (JStr (window_start d))), (''window_end'', Some (JStr (window_end d))),
      (''preferred_time'', Some (JStr (preferred_time d))),
      (''cadence_weeks'', Some (JNum (Whole (cadence_weeks d)))),
      (''occurrence_count'', Some (JNum (Whole (occurrence_count d)))),
      (''minimum_duration_minutes'', Some (JNum (Whole (minimum_duration_minutes d)))),
      (''maximum_duration_minutes'', Some (JNum (Whole (maximum_duration_minutes d)))),
      (''start_step_minutes'', Some (JNum (Whole (step_minutes (start_step_minutes d))))),
      (''priority'', Some (JNum (Whole (m_priority d)))),
      (''attendees'', Some (JArr (map attendee_json (m_attendees d)))),
      (''availability_calendar_ids'', Some (JArr (map JStr (availability_calendar_ids d)))),
      (''conflict_policy'', Some (conflict_policy_json (m_conflict_policy d))),
      (''lock_before_minutes'', Some (JNum (Whole (lock_before_minutes d)))),
      (''description'', map_option JStr (m_description d)), (''location'', map_option JStr (m_location d)),
      (''visibility'', Some (visibility_json (m_visibility d)))]"

definition planning_json :: "planning_draft \<Rightarrow> json" where
  "planning_json draft = (case draft of BoundaryDraft d \<Rightarrow> boundary_json d | MeetingDraft d \<Rightarrow> meeting_json d)"

text \<open>Each field parser accepts its own result.\<close>

lemma text_again: "field_text v name n = Inr r \<Longrightarrow> field_text (Some (JStr r)) name n = Inr r"
  by (drule field_text_Inr) blast

lemma optionalText_again:
  "field_optionalText v name n = Inr r \<Longrightarrow> field_optionalText (map_option JStr r) name n = Inr r"
  by (auto simp: field_optionalText_def bindE_Inr_iff split: option.splits json.splits list.splits
      dest: field_text_Inr)

lemma integer_again: "field_integer v name lo hi = Inr i \<Longrightarrow> field_integer (Some (JNum (Whole i))) name lo hi = Inr i"
  by (drule field_integer_Inr) blast

lemma clock_again: "field_clock v name = Inr s \<Longrightarrow> field_clock (Some (JStr s)) name = Inr s"
  by (drule field_clock_Inr) blast

lemma timeZone_again: "field_timeZone pf v = Inr s \<Longrightarrow> field_timeZone pf (Some (JStr s)) = Inr s"
  by (drule field_timeZone_Inr) blast

lemma localDate_again: "field_localDate pf v = Inr s \<Longrightarrow> field_localDate pf (Some (JStr s)) = Inr s"
  by (drule field_localDate_Inr) blast

lemma priority_again: "field_priority v = Inr i \<Longrightarrow> field_priority (Some (JNum (Whole i))) = Inr i"
  unfolding field_priority_def by (rule integer_again)

lemma visibility_again: "field_visibility (Some (visibility_json v)) = Inr v"
  by (cases v) (simp_all add: field_visibility_def visibility_json_def)

lemma conflictPolicy_again: "field_conflictPolicy (Some (conflict_policy_json c)) = Inr c"
  by (cases c) (simp_all add: field_conflictPolicy_def conflict_policy_json_def)

lemma bool_again: "field_bool (Some (JBool b)) d = Inr b"
  by (simp add: field_bool_def)

lemma ids_again: "field_ids v name n = Inr r \<Longrightarrow> field_ids (Some (JArr (map JStr r))) name n = Inr r"
  unfolding field_ids_def
  by (rule field_list_again) (auto dest: field_list_Inr(1,3,4) field_id_Inr)

lemma step_again: "step_of n = Inr s \<Longrightarrow> n = step_minutes s"
  by (auto simp: step_of_def split: if_splits)

lemma or_default_Some [simp]: "or_default (Some (JStr s)) d = Some (JStr s)" "or_default (Some (JArr vs)) d = Some (JArr vs)"
  by (simp_all add: or_default_def)

lemmas fields_again = text_again optionalText_again integer_again clock_again timeZone_again localDate_again
  priority_again field_id_Inr weekdays_again ids_again

lemma parseBoundary_iff:
  "parseBoundary pf v = Inr d \<longleftrightarrow>
     field_text (json_member v ''name'') ''name'' 160 = Inr (b_name d)
     \<and> field_id (json_member v ''target_calendar_id'') ''target calendar'' = Inr (b_target_calendar_id d)
     \<and> field_timeZone pf (json_member v ''timezone'') = Inr (b_timezone d)
     \<and> field_weekdays (json_member v ''working_days'') ''working days'' = Inr (working_days d)
     \<and> field_clock (json_member v ''workday_start'') ''workday start'' = Inr (workday_start d)
     \<and> field_clock (json_member v ''workday_end'') ''workday end'' = Inr (workday_end d)
     \<and> workday_start d < workday_end d
     \<and> field_integer (json_member v ''horizon_days'') ''horizon days'' 1 60 = Inr (horizon_days d)
     \<and> field_bool (json_member v ''protect_before_work'') False = Inr (protect_before_work d)
     \<and> field_bool (json_member v ''protect_after_work'') True = Inr (protect_after_work d)
     \<and> field_bool (json_member v ''protect_closed_days'') False = Inr (protect_closed_days d)
     \<and> field_text (or_default (json_member v ''title'') (JStr ''Personal time'')) ''title'' 160 = Inr (b_title d)
     \<and> field_visibility (json_member v ''visibility'') = Inr (b_visibility d)"
  (is "?L \<longleftrightarrow> ?R")
proof
  assume ?L then show ?R
    unfolding parseBoundary_def bindE_Inr_iff by (elim exE conjE) (auto simp: not_le)
next
  assume ?R then show ?L
    unfolding parseBoundary_def by (elim conjE) (simp add: reject_if_def)
qed

lemma boundary_members:
  "json_member (boundary_json d) ''kind'' = Some (JStr ''availability_boundary'')"
  "json_member (boundary_json d) ''name'' = Some (JStr (b_name d))"
  "json_member (boundary_json d) ''target_calendar_id'' = Some (JStr (b_target_calendar_id d))"
  "json_member (boundary_json d) ''timezone'' = Some (JStr (b_timezone d))"
  "json_member (boundary_json d) ''working_days'' = Some (JArr (map (\<lambda>w. JNum (Whole w)) (working_days d)))"
  "json_member (boundary_json d) ''workday_start'' = Some (JStr (workday_start d))"
  "json_member (boundary_json d) ''workday_end'' = Some (JStr (workday_end d))"
  "json_member (boundary_json d) ''protect_before_work'' = Some (JBool (protect_before_work d))"
  "json_member (boundary_json d) ''protect_after_work'' = Some (JBool (protect_after_work d))"
  "json_member (boundary_json d) ''protect_closed_days'' = Some (JBool (protect_closed_days d))"
  "json_member (boundary_json d) ''title'' = Some (JStr (b_title d))"
  "json_member (boundary_json d) ''visibility'' = Some (visibility_json (b_visibility d))"
  "json_member (boundary_json d) ''horizon_days'' = Some (JNum (Whole (horizon_days d)))"
  "is_record (boundary_json d)"
  by (simp_all add: boundary_json_def json_member_def is_record_def)

lemma parseBoundary_again:
  assumes "parseBoundary pf v = Inr d"
  shows "parseBoundary pf (boundary_json d) = Inr d"
  using assms unfolding parseBoundary_iff boundary_members or_default_Some
  by (elim conjE, intro conjI) (erule fields_again | rule bool_again visibility_again | assumption)+

subsubsection \<open>Attendees\<close>

lemma code_lower: "code (lower_char c) = (if 65 \<le> code c \<and> code c \<le> 90 \<or> 192 \<le> code c \<and> code c \<le> 222 \<and> code c \<noteq> 215
    then code c + 32 else code c)" for c
  by (auto simp: lower_char_def of_char_of take_bit_eq_mod)

lemma lower_char_classes [simp]:
  "is_white (lower_char c) = is_white c" "is_control (lower_char c) = is_control c" "lower_char (lower_char c) = lower_char c"
proof -
  show "is_white (lower_char c) = is_white c" by (auto simp: is_white_def code_lower)
  show "is_control (lower_char c) = is_control c" by (auto simp: is_control_def code_lower)
  have "code (lower_char (lower_char c)) = code (lower_char c)" by (subst code_lower) (simp add: code_lower)
  then show "lower_char (lower_char c) = lower_char c" by simp
qed

lemma toLowerCase_idem [simp]: "toLowerCase (toLowerCase s) = toLowerCase s"
  by (simp add: toLowerCase_def)

lemma trim_toLowerCase: "trim (toLowerCase s) = toLowerCase (trim s)"
  by (simp add: trim_def toLowerCase_def rev_map dropWhile_map o_def)

lemma lower_text_again:
  "field_text v name n = Inr r \<Longrightarrow> field_text (Some (JStr (toLowerCase r))) name n = Inr (toLowerCase r)"
  by (auto simp: field_text_def Let_def normalize_NFC_def trim_toLowerCase split: option.splits json.splits if_splits)
    (auto simp: toLowerCase_def list_ex_iff)

lemma parseAttendee_again:
  assumes "parseAttendee v = Inr a"
  shows "parseAttendee (Some (attendee_json a)) = Inr a"
proof -
  from assms obtain w t cal req where t: "field_text (json_member w ''email'') ''attendee email'' 254 = Inr t"
    "is_email (toLowerCase t)"
    and cal: "(case json_member w ''availability_calendar_id'' of None \<Rightarrow> Inr None
      | Some c \<Rightarrow> bindE (field_id (Some c) ''attendee availability calendar'') (\<lambda>i. Inr (Some i))) = Inr cal"
    and a: "a = \<lparr>a_email = toLowerCase t, a_required = req, a_availability_calendar_id = cal\<rparr>"
    by (auto simp: parseAttendee_def Let_def bindE_Inr_iff split: option.splits json.splits)
  have "(case map_option JStr cal of None \<Rightarrow> Inr None
      | Some c \<Rightarrow> bindE (field_id (Some c) ''attendee availability calendar'') (\<lambda>i. Inr (Some i))) = Inr cal"
    using cal by (auto simp: bindE_Inr_iff split: option.splits dest: field_id_Inr)
  moreover note lower_text_again [OF t(1)]
  ultimately show ?thesis
    using t(2) unfolding a attendee_json_def parseAttendee_def
    by (simp add: Let_def json_member_def reject_if_def bool_again)
qed

lemma parseAttendees_again:
  assumes "parseAttendees v = Inr as"
  shows "parseAttendees (Some (JArr (map attendee_json as))) = Inr as"
proof -
  from assms obtain vs where vs: "mapE (\<lambda>x. parseAttendee (Some x)) vs = Inr as" "length vs \<le> 25"
    "distinct (map a_email as)"
    by (auto simp: parseAttendees_def bindE_Inr_iff length_uniq_iff [of "map a_email as", simplified]
        split: option.splits json.splits if_splits)
  have "mapE (\<lambda>x. parseAttendee (Some x)) (map attendee_json as) = Inr as"
    using mapE_Inr_set [OF vs(1)] parseAttendee_again by (induction as) fastforce+
  then show ?thesis
    using vs mapE_Inr_length [OF vs(1)] by (simp add: parseAttendees_def)
qed

subsubsection \<open>Meetings\<close>

lemma step_of_minutes [simp]: "step_of (step_minutes s) = Inr s"
  by (cases s) (simp_all add: step_of_def)

lemma parseMeetingTimes_iff:
  "parseMeetingTimes v = Inr t \<longleftrightarrow>
     field_integer (json_member v ''minimum_duration_minutes'') ''minimum duration'' 15 480 = Inr (mt_minimum t)
     \<and> field_integer (json_member v ''maximum_duration_minutes'') ''maximum duration'' (mt_minimum t) 480 = Inr (mt_maximum t)
     \<and> field_integer (json_member v ''start_step_minutes'') ''start step'' 15 60 = Inr (step_minutes (mt_step t))
     \<and> field_clock (json_member v ''window_start'') ''meeting window start'' = Inr (mt_start t)
     \<and> field_clock (json_member v ''window_end'') ''meeting window end'' = Inr (mt_end t)
     \<and> field_clock (json_member v ''preferred_time'') ''preferred time'' = Inr (mt_preferred t)
     \<and> mt_start t < mt_end t \<and> mt_start t \<le> mt_preferred t \<and> mt_preferred t < mt_end t"
  (is "?L \<longleftrightarrow> ?R")
proof
  assume ?L then show ?R
    unfolding parseMeetingTimes_def bindE_Inr_iff by (elim exE conjE) (auto simp: not_le not_less dest: step_again)
next
  assume ?R then show ?L
    unfolding parseMeetingTimes_def by (elim conjE) (simp add: reject_if_def not_le not_less)
qed

definition times_of :: "smart_meeting_draft \<Rightarrow> meeting_times" where
  "times_of d = \<lparr>mt_minimum = minimum_duration_minutes d, mt_maximum = maximum_duration_minutes d,
     mt_step = start_step_minutes d, mt_start = window_start d, mt_end = window_end d,
     mt_preferred = preferred_time d\<rparr>"

lemma times_of_fields [simp]:
  "mt_minimum (times_of d) = minimum_duration_minutes d" "mt_maximum (times_of d) = maximum_duration_minutes d"
  "mt_step (times_of d) = start_step_minutes d" "mt_start (times_of d) = window_start d"
  "mt_end (times_of d) = window_end d" "mt_preferred (times_of d) = preferred_time d"
  by (simp_all add: times_of_def)

lemma parseSmartMeeting_iff:
  "parseSmartMeeting pf v = Inr d \<longleftrightarrow>
     parseMeetingTimes v = Inr (times_of d)
     \<and> parseAttendees (json_member v ''attendees'') = Inr (m_attendees d)
     \<and> field_ids (json_member v ''availability_calendar_ids'') ''availability calendars'' 32 = Inr (availability_calendar_ids d)
     \<and> availability_calendar_ids d \<noteq> []
     \<and> \<not> list_ex (outside_selection (availability_calendar_ids d)) (m_attendees d)
     \<and> field_text (json_member v ''name'') ''name'' 160 = Inr (m_name d)
     \<and> field_id (json_member v ''target_calendar_id'') ''target calendar'' = Inr (m_target_calendar_id d)
     \<and> field_timeZone pf (json_member v ''timezone'') = Inr (m_timezone d)
     \<and> field_localDate pf (json_member v ''start_date'') = Inr (m_start_date d)
     \<and> field_weekdays (json_member v ''weekdays'') ''meeting days'' = Inr (m_weekdays d)
     \<and> field_integer (json_member v ''cadence_weeks'') ''cadence'' 1 12 = Inr (cadence_weeks d)
     \<and> field_integer (json_member v ''occurrence_count'') ''occurrence count'' 1 16 = Inr (occurrence_count d)
     \<and> field_priority (json_member v ''priority'') = Inr (m_priority d)
     \<and> field_conflictPolicy (json_member v ''conflict_policy'') = Inr (m_conflict_policy d)
     \<and> field_integer (json_member v ''lock_before_minutes'') ''lock window'' 0 10080 = Inr (lock_before_minutes d)
     \<and> field_optionalText (json_member v ''description'') ''description'' 4000 = Inr (m_description d)
     \<and> field_optionalText (json_member v ''location'') ''location'' 500 = Inr (m_location d)
     \<and> field_visibility (json_member v ''visibility'') = Inr (m_visibility d)"
  (is "?L \<longleftrightarrow> ?R")
proof
  assume ?L then show ?R
    unfolding parseSmartMeeting_def bindE_Inr_iff by (elim exE conjE) (auto simp: times_of_def)
next
  assume ?R then show ?L
    unfolding parseSmartMeeting_def by (elim conjE) (simp add: reject_if_def)
qed

lemma meeting_members:
  "json_member (meeting_json d) ''kind'' = Some (JStr ''smart_meeting'')"
  "json_member (meeting_json d) ''name'' = Some (JStr (m_name d))"
  "json_member (meeting_json d) ''target_calendar_id'' = Some (JStr (m_target_calendar_id d))"
  "json_member (meeting_json d) ''timezone'' = Some (JStr (m_timezone d))"
  "json_member (meeting_json d) ''start_date'' = Some (JStr (m_start_date d))"
  "json_member (meeting_json d) ''weekdays'' = Some (JArr (map (\<lambda>w. JNum (Whole w)) (m_weekdays d)))"
  "json_member (meeting_json d) ''window_start'' = Some (JStr (window_start d))"
  "json_member (meeting_json d) ''window_end'' = Some (JStr (window_end d))"
  "json_member (meeting_json d) ''preferred_time'' = Some (JStr (preferred_time d))"
  "json_member (meeting_json d) ''cadence_weeks'' = Some (JNum (Whole (cadence_weeks d)))"
  "json_member (meeting_json d) ''occurrence_count'' = Some (JNum (Whole (occurrence_count d)))"
  "json_member (meeting_json d) ''minimum_duration_minutes'' = Some (JNum (Whole (minimum_duration_minutes d)))"
  "json_member (meeting_json d) ''maximum_duration_minutes'' = Some (JNum (Whole (maximum_duration_minutes d)))"
  "json_member (meeting_json d) ''start_step_minutes'' = Some (JNum (Whole (step_minutes (start_step_minutes d))))"
  "json_member (meeting_json d) ''priority'' = Some (JNum (Whole (m_priority d)))"
  "json_member (meeting_json d) ''attendees'' = Some (JArr (map attendee_json (m_attendees d)))"
  "json_member (meeting_json d) ''availability_calendar_ids'' = Some (JArr (map JStr (availability_calendar_ids d)))"
  "json_member (meeting_json d) ''conflict_policy'' = Some (conflict_policy_json (m_conflict_policy d))"
  "json_member (meeting_json d) ''lock_before_minutes'' = Some (JNum (Whole (lock_before_minutes d)))"
  "json_member (meeting_json d) ''description'' = map_option JStr (m_description d)"
  "json_member (meeting_json d) ''location'' = map_option JStr (m_location d)"
  "json_member (meeting_json d) ''visibility'' = Some (visibility_json (m_visibility d))"
  "is_record (meeting_json d)"
  by (simp_all add: meeting_json_def json_member_def is_record_def)

lemma parseMeetingTimes_again:
  "parseMeetingTimes v = Inr (times_of d) \<Longrightarrow> parseMeetingTimes (meeting_json d) = Inr (times_of d)"
  unfolding parseMeetingTimes_iff meeting_members times_of_fields
  by (elim conjE, intro conjI) (erule fields_again | assumption)+

lemma parseSmartMeeting_again:
  assumes "parseSmartMeeting pf v = Inr d"
  shows "parseSmartMeeting pf (meeting_json d) = Inr d"
  using assms unfolding parseSmartMeeting_iff meeting_members
  by (elim conjE, intro conjI)
    (erule parseMeetingTimes_again parseAttendees_again fields_again | rule conflictPolicy_again visibility_again | assumption)+

text \<open>
  Parsing is idempotent. The stored form of an accepted planning rule is accepted again and
  is read back as the same rule: trimming, lower-casing, sorting and defaults change nothing the
  second time.
\<close>

theorem planning_rule_reads_back:
  assumes "parsePlanningDraft pf v = Inr draft"
  shows "parsePlanningDraft pf (planning_json draft) = Inr draft"
proof (cases draft)
  case (BoundaryDraft d)
  with assms have "parseBoundary pf v = Inr d" by (auto simp: parsePlanningDraft_def bindE_Inr_iff split: if_splits)
  then show ?thesis
    using BoundaryDraft by (simp add: planning_json_def parsePlanningDraft_def boundary_members parseBoundary_again)
next
  case (MeetingDraft d)
  with assms have "parseSmartMeeting pf v = Inr d" by (auto simp: parsePlanningDraft_def bindE_Inr_iff split: if_splits)
  then show ?thesis
    using MeetingDraft by (simp add: planning_json_def parsePlanningDraft_def meeting_members parseSmartMeeting_again)
qed

definition sample_submission :: json where
  "sample_submission = JObj
     [(''kind'', Some (JStr ''smart_meeting'')), (''name'', Some (JStr '' Sync '')),
      (''target_calendar_id'', Some (JStr ''work'')), (''timezone'', Some (JStr ''UTC'')),
      (''start_date'', Some (JStr ''2026-07-20'')),
      (''weekdays'', Some (JArr [JNum (Whole 3), JNum (Whole 1)])),
      (''window_start'', Some (JStr ''09:00'')), (''window_end'', Some (JStr ''11:00'')),
      (''preferred_time'', Some (JStr ''09:30'')),
      (''cadence_weeks'', Some (JNum (Whole 1))), (''occurrence_count'', Some (JNum (Whole 2))),
      (''minimum_duration_minutes'', Some (JNum (Whole 30))), (''maximum_duration_minutes'', Some (JNum (Whole 60))),
      (''start_step_minutes'', Some (JNum (Whole 30))), (''priority'', Some (JNum (Whole 2))),
      (''attendees'', Some (JArr [JObj [(''email'', Some (JStr ''Ann@Example.org''))]])),
      (''availability_calendar_ids'', Some (JArr [JStr ''home''])),
      (''lock_before_minutes'', Some (JNum (Whole 60)))]"

definition sample_draft :: smart_meeting_draft where
  "sample_draft =
     \<lparr>m_name = ''Sync'', m_target_calendar_id = ''work'', m_timezone = ''UTC'', m_start_date = ''2026-07-20'',
      m_weekdays = [1, 3], window_start = ''09:00:00'', window_end = ''11:00:00'', preferred_time = ''09:30:00'',
      cadence_weeks = 1, occurrence_count = 2, minimum_duration_minutes = 30, maximum_duration_minutes = 60,
      start_step_minutes = Step30, m_priority = 2,
      m_attendees = [\<lparr>a_email = ''ann@example.org'', a_required = True, a_availability_calendar_id = None\<rparr>],
      availability_calendar_ids = [''home''], m_conflict_policy = Suggest, lock_before_minutes = 60,
      m_description = None, m_location = None, m_visibility = PrivateVis\<rparr>"

lemma sample_parsed: "parsePlanningDraft utc_platform sample_submission = Inr (MeetingDraft sample_draft)"
  by code_simp

theorem parsed_rule_is_well_formed_witness: "well_formed_meeting utc_platform sample_draft"
  using parsed_rule_is_well_formed [OF sample_parsed] by simp

theorem planning_rule_reads_back_witness:
  "parsePlanningDraft utc_platform (planning_json (MeetingDraft sample_draft)) = Inr (MeetingDraft sample_draft)"
  by (rule planning_rule_reads_back [OF sample_parsed])

end
