(* ===== verification/Conflict_Engine.thy ===== *)
theory Conflict_Engine
  imports Sync_Types Platform
begin

section \<open>Private replies: the decision engine (server/src/conflict-response)\<close>

text \<open>
  The pure part of the private-reply feature, from types.ts, engine.ts and privacy-hash.ts: which
  invitations on the response calendar may be declined, which of them overlap a busy interval of the
  availability calendars, how many of these the rolling budget still allows, and the documents whose
  hashes bind a preview and an action to what they were computed from. A \<open>Date\<close> argument is its
  number of milliseconds; the database row of an event carries the decoded document, \<open>None\<close> when it is
  no object. The keyed hash of the platform is the parameter \<open>hmac\<close>.
\<close>

subsection \<open>Data\<close>

definition DEFAULT_DECLINE_MESSAGE :: string where
  "DEFAULT_DECLINE_MESSAGE = ''I have a private conflict at that time. Please choose another time.''"

definition DEFAULT_CONFLICT_HORIZON_DAYS :: int where
  "DEFAULT_CONFLICT_HORIZON_DAYS = 60"

definition MAX_AVAILABILITY_CALENDARS :: nat where
  "MAX_AVAILABILITY_CALENDARS = 32"

definition MAX_AUTOMATIC_DECLINES_PER_24_HOURS :: int where
  "MAX_AUTOMATIC_DECLINES_PER_24_HOURS = 20"

record conflict_response_draft =
  cr_name :: string
  response_calendar_id :: string
  cr_availability_calendar_ids :: "string list"
  decline_message :: string
  cr_horizon_days :: int

record conflict_time_example =
  ex_start_at :: string
  ex_end_at :: string

record conflict_preview_result =
  invitation_count :: int
  conflict_count :: int
  held_count :: int
  budget_held_count :: int
  cp_examples :: "conflict_time_example list"
  cp_warnings :: "string list"

record work_invitation =
  wi_observation_id :: string
  wi_remote_event_id :: string
  wi_recurrence_identity :: string
  wi_observation_hash :: string
  wi_remote_revision :: "string option"
  wi_start_at :: string
  wi_end_at :: string

record work_observation_row =
  wo_id :: string
  wo_remote_event_id :: string
  wo_recurrence_identity :: string
  wo_remote_etag :: "string option"
  wo_observation_hash :: string
  wo_event :: "source_observation option"

record conflict_busy =
  cb_calendar_id :: string
  cb_start :: string
  cb_end :: string

datatype provider_kind = GoogleProvider | FakeProvider

definition provider_text :: "provider_kind \<Rightarrow> string" where
  "provider_text p = (case p of GoogleProvider \<Rightarrow> ''google'' | FakeProvider \<Rightarrow> ''fake'')"

record calendar_binding =
  cal_id :: string
  cal_connection_id :: string
  cal_remote_id :: string
  cal_name :: string
  cal_readable :: bool
  cal_writable :: bool
  cal_provider :: provider_kind
  cal_connection_status :: string
  cal_intended_role :: string

subsection \<open>Invitations\<close>

definition PREVIEW_EXAMPLE_LIMIT :: nat where
  "PREVIEW_EXAMPLE_LIMIT = 3"

definition MAX_DECLINABLE_INVITATION_MILLISECONDS :: int where
  "MAX_DECLINABLE_INVITATION_MILLISECONDS = 7 * 24 * 60 * 60000"

definition canonicalInstant :: "platform \<Rightarrow> string \<Rightarrow> date_error + string" where
  "canonicalInstant pf txt = bindE (orThrow InvalidTime (getTime pf txt)) isoString"

definition isEligibleWorkInvitation :: "platform \<Rightarrow> source_observation \<Rightarrow> int \<Rightarrow> int \<Rightarrow> bool" where
  "isEligibleWorkInvitation pf event nowMs horizonEnd =
     (if s_lifecycle event \<noteq> Confirmed \<or> s_origin event \<noteq> ProviderOriginal then False
      else if s_availability event \<noteq> Some Busy then False
      else if r_role (s_relationship event) \<noteq> Attendee \<or> r_response (s_relationship event) \<noteq> NeedsAction
      then False
      else case s_timing event of
        Some (Timed s e z z') \<Rightarrow>
          (case (getTime pf s, getTime pf e) of
             (Some start, Some fin) \<Rightarrow>
               start < fin \<and> nowMs < start \<and> start < horizonEnd \<and> fin \<le> horizonEnd
               \<and> fin - start \<le> MAX_DECLINABLE_INVITATION_MILLISECONDS
           | _ \<Rightarrow> False)
      | _ \<Rightarrow> False)"

definition workInvitationCandidate ::
  "platform \<Rightarrow> work_observation_row \<Rightarrow> int \<Rightarrow> int \<Rightarrow> date_error + work_invitation option" where
  "workInvitationCandidate pf row nowMs horizonEnd =
     (case wo_event row of
        None \<Rightarrow> Inr None
      | Some event \<Rightarrow>
          if \<not> isEligibleWorkInvitation pf event nowMs horizonEnd then Inr None
          else if source_event_ref event \<noteq> wo_remote_event_id row then Inr None
          else case s_timing event of
            Some (Timed s e z z') \<Rightarrow>
              bindE (canonicalInstant pf s) (\<lambda>start_at.
              bindE (canonicalInstant pf e) (\<lambda>end_at.
                Inr (Some \<lparr>wi_observation_id = wo_id row, wi_remote_event_id = wo_remote_event_id row,
                  wi_recurrence_identity = wo_recurrence_identity row,
                  wi_observation_hash = wo_observation_hash row, wi_remote_revision = wo_remote_etag row,
                  wi_start_at = start_at, wi_end_at = end_at\<rparr>)))
          | _ \<Rightarrow> Inr None)"

subsection \<open>Overlaps and the preview\<close>

definition intervalsOverlap :: "platform \<Rightarrow> string \<Rightarrow> string \<Rightarrow> string \<Rightarrow> string \<Rightarrow> bool" where
  "intervalsOverlap pf leftStart leftEnd rightStart rightEnd =
     (case (getTime pf leftStart, getTime pf leftEnd, getTime pf rightStart, getTime pf rightEnd) of
        (Some ls, Some le, Some rs, Some re) \<Rightarrow>
          if le \<le> ls \<or> re \<le> rs then False else ls < re \<and> rs < le
      | _ \<Rightarrow> False)"

definition overlappingBusyIntervals :: "platform \<Rightarrow> work_invitation \<Rightarrow> conflict_busy list \<Rightarrow> conflict_busy list" where
  "overlappingBusyIntervals pf invitation busy =
     filter (\<lambda>interval. intervalsOverlap pf (wi_start_at invitation) (wi_end_at invitation)
               (cb_start interval) (cb_end interval)) busy"

definition conflicts_of ::
  "platform \<Rightarrow> work_invitation list \<Rightarrow> conflict_busy list \<Rightarrow> (work_invitation \<times> conflict_busy list) list" where
  "conflicts_of pf invitations busy =
     concat (map (\<lambda>invitation.
       let overlap = overlappingBusyIntervals pf invitation busy in
       if overlap \<noteq> [] then [(invitation, overlap)] else []) invitations)"

text \<open>\<open>!invitation.remote_revision\<close>: no revision, or an empty one.\<close>

definition lacks_revision :: "work_invitation \<Rightarrow> bool" where
  "lacks_revision invitation = (case wi_remote_revision invitation of None \<Rightarrow> True | Some r \<Rightarrow> r = [])"

definition conflictPreviewResult ::
  "platform \<Rightarrow> work_invitation list \<Rightarrow> conflict_busy list \<Rightarrow> int \<Rightarrow> conflict_preview_result" where
  "conflictPreviewResult pf invitations busy applied =
     (let conflicts = conflicts_of pf invitations busy;
          revisionGuardHeldCount = int (length (filter (\<lambda>(invitation, overlap). lacks_revision invitation) conflicts));
          guardedConflictCount = int (length conflicts) - revisionGuardHeldCount;
          remainingBudget = max 0 (MAX_AUTOMATIC_DECLINES_PER_24_HOURS - applied);
          budgetHeldCount = max 0 (guardedConflictCount - remainingBudget)
      in \<lparr>invitation_count = int (length invitations), conflict_count = int (length conflicts),
          held_count = revisionGuardHeldCount + budgetHeldCount, budget_held_count = budgetHeldCount,
          cp_examples = map (\<lambda>(invitation, overlap). \<lparr>ex_start_at = wi_start_at invitation,
            ex_end_at = wi_end_at invitation\<rparr>) (take PREVIEW_EXAMPLE_LIMIT conflicts),
          cp_warnings =
            [''This private-reply rule creates no event copies or event-detail copies; existing paused-bridge copies may remain.'',
             ''Only future invitations that are still awaiting your response can be declined.'']
            @ (if 0 < budgetHeldCount then [''automatic_decline_budget_will_hold_excess''] else [])\<rparr>)"

subsection \<open>Hashed documents\<close>

definition capabilityDocument :: "calendar_binding \<Rightarrow> json" where
  "capabilityDocument calendar =
     JObj [(''id'', Some (JStr (cal_id calendar))), (''readable'', Some (JBool (cal_readable calendar))),
       (''writable'', Some (JBool (cal_writable calendar))),
       (''provider'', Some (JStr (provider_text (cal_provider calendar)))),
       (''connection_status'', Some (JStr (cal_connection_status calendar))),
       (''intended_role'', Some (JStr (cal_intended_role calendar)))]"

definition draft_document :: "conflict_response_draft \<Rightarrow> json" where
  "draft_document d =
     JObj [(''name'', Some (JStr (cr_name d))), (''response_calendar_id'', Some (JStr (response_calendar_id d))),
       (''availability_calendar_ids'', Some (JArr (map JStr (cr_availability_calendar_ids d)))),
       (''decline_message'', Some (JStr (decline_message d))),
       (''horizon_days'', Some (JNum (Whole (cr_horizon_days d))))]"

definition busy_compare :: "conflict_busy \<Rightarrow> conflict_busy \<Rightarrow> int" where
  "busy_compare left right =
     cmp_or (js_compare (cb_calendar_id left) (cb_calendar_id right))
       (cmp_or (js_compare (cb_start left) (cb_start right)) (js_compare (cb_end left) (cb_end right)))"

definition busy_document :: "conflict_busy \<Rightarrow> json" where
  "busy_document b = JObj [(''calendar_id'', Some (JStr (cb_calendar_id b))), (''start'', Some (JStr (cb_start b))),
     (''end'', Some (JStr (cb_end b)))]"

text \<open>The projected invitation: its hash, whether it has a revision, and its times.\<close>

definition invitation_basis :: "work_invitation \<Rightarrow> string \<times> bool \<times> string \<times> string" where
  "invitation_basis i = (wi_observation_hash i, wi_remote_revision i \<noteq> None, wi_start_at i, wi_end_at i)"

fun invitation_compare :: "string \<times> bool \<times> string \<times> string \<Rightarrow> string \<times> bool \<times> string \<times> string \<Rightarrow> int" where
  "invitation_compare (h, p, s, e) (h', p', s', e') =
     cmp_or (js_compare s s') (cmp_or (js_compare e e') (js_compare h h'))"

fun invitation_document :: "string \<times> bool \<times> string \<times> string \<Rightarrow> json" where
  "invitation_document (h, p, s, e) =
     JObj [(''observation_hash'', Some (JStr h)), (''remote_revision_present'', Some (JBool p)),
       (''start_at'', Some (JStr s)), (''end_at'', Some (JStr e))]"

record snapshot_input =
  sn_draft :: conflict_response_draft
  sn_reference_at :: string
  sn_horizon_end :: string
  sn_availability_end :: string
  sn_response_calendar :: calendar_binding
  sn_availability_calendars :: "calendar_binding list"
  sn_invitations :: "work_invitation list"
  sn_busy :: "conflict_busy list"
  sn_applied :: int

definition calendar_compare :: "calendar_binding \<Rightarrow> calendar_binding \<Rightarrow> int" where
  "calendar_compare left right = js_compare (cal_id left) (cal_id right)"

definition conflictSnapshotDocument :: "snapshot_input \<Rightarrow> json" where
  "conflictSnapshotDocument input =
     JObj [(''version'', Some (JNum (Whole 1))), (''draft'', Some (draft_document (sn_draft input))),
       (''reference_at'', Some (JStr (sn_reference_at input))),
       (''horizon_end'', Some (JStr (sn_horizon_end input))),
       (''availability_end'', Some (JStr (sn_availability_end input))),
       (''automatic_declines_applied_last_24_hours'', Some (JNum (Whole (sn_applied input)))),
       (''response_calendar'', Some (capabilityDocument (sn_response_calendar input))),
       (''availability_calendars'',
         Some (JArr (map capabilityDocument (js_sort calendar_compare (sn_availability_calendars input))))),
       (''work_invitations'',
         Some (JArr (map invitation_document
           (js_sort invitation_compare (map invitation_basis (sn_invitations input)))))),
       (''busy'', Some (JArr (map busy_document (js_sort busy_compare (sn_busy input)))))]"

definition conflictActionBasisDocument ::
  "string \<Rightarrow> int \<Rightarrow> work_invitation \<Rightarrow> conflict_busy list \<Rightarrow> json" where
  "conflictActionBasisDocument rule_id rule_revision invitation overlapping =
     JObj [(''version'', Some (JNum (Whole 1))), (''rule_id'', Some (JStr rule_id)),
       (''rule_revision'', Some (JNum (Whole rule_revision))),
       (''work_observation_hash'', Some (JStr (wi_observation_hash invitation))),
       (''work_start_at'', Some (JStr (wi_start_at invitation))),
       (''work_end_at'', Some (JStr (wi_end_at invitation))),
       (''busy'', Some (JArr (map busy_document (js_sort busy_compare overlapping))))]"

definition privacy_key :: "(string \<Rightarrow> string \<Rightarrow> string) \<Rightarrow> string \<Rightarrow> string" where
  "privacy_key hmac masterKey = hmac masterKey ''planipus:private-availability-hash:v1''"

definition privacy_hash :: "(string \<Rightarrow> string \<Rightarrow> string) \<Rightarrow> string \<Rightarrow> json \<Rightarrow> canon_error + string" where
  "privacy_hash hmac key v = bindE (canonicalizeJson normalize_NFC v) (\<lambda>s. Inr (''hmac-sha256:'' @ hmac key s))"

subsection \<open>Eligible invitations\<close>

text \<open>
  Only answerable invitations become candidates. A candidate comes from a confirmed,
  unanswered, busy invitation of another person with a fixed time that starts in the future, ends
  within the horizon and lasts at most seven days; it names the same event as its row, keeps the
  revision of the row, and its times are the canonical texts of the event's own times.
\<close>

theorem candidate_is_answerable:
  assumes "workInvitationCandidate pf row nowMs horizonEnd = Inr (Some c)"
  shows "\<exists>event s e z z' start fin. wo_event row = Some event \<and> s_timing event = Some (Timed s e z z')
    \<and> s_lifecycle event = Confirmed \<and> s_origin event = ProviderOriginal \<and> s_availability event = Some Busy
    \<and> r_role (s_relationship event) = Attendee \<and> r_response (s_relationship event) = NeedsAction
    \<and> getTime pf s = Some start \<and> getTime pf e = Some fin
    \<and> nowMs < start \<and> start < fin \<and> fin \<le> horizonEnd \<and> fin - start \<le> 604800000
    \<and> wi_start_at c = toISOString start \<and> wi_end_at c = toISOString fin
    \<and> wi_remote_event_id c = source_event_ref event \<and> wi_remote_revision c = wo_remote_etag row"
proof -
  from assms obtain event where event: "wo_event row = Some event" by (auto simp: workInvitationCandidate_def split: option.splits)
  with assms have elig: "isEligibleWorkInvitation pf event nowMs horizonEnd" and
    ref: "source_event_ref event = wo_remote_event_id row"
    by (auto simp: workInvitationCandidate_def split: if_splits)
  from elig obtain s e z z' where t: "s_timing event = Some (Timed s e z z')"
    by (auto simp: isEligibleWorkInvitation_def split: if_splits option.splits event_timing.splits)
  from elig t obtain start fin where times: "getTime pf s = Some start" "getTime pf e = Some fin"
    by (auto simp: isEligibleWorkInvitation_def split: if_splits option.splits)
  from elig t times have facts: "s_lifecycle event = Confirmed" "s_origin event = ProviderOriginal"
    "s_availability event = Some Busy" "r_role (s_relationship event) = Attendee"
    "r_response (s_relationship event) = NeedsAction" "nowMs < start" "start < fin" "fin \<le> horizonEnd"
    "fin - start \<le> 604800000"
    by (auto simp: isEligibleWorkInvitation_def MAX_DECLINABLE_INVITATION_MILLISECONDS_def split: if_splits)
  have "wi_start_at c = toISOString start" "wi_end_at c = toISOString fin"
    "wi_remote_event_id c = source_event_ref event" "wi_remote_revision c = wo_remote_etag row"
    using assms event elig ref t times
    by (auto simp: workInvitationCandidate_def canonicalInstant_def bindE_Inr_iff)
  with event t times facts show ?thesis by blast
qed

subsection \<open>Overlaps\<close>

definition proper :: "platform \<Rightarrow> string \<times> string \<Rightarrow> bool" where
  "proper pf i \<longleftrightarrow> (\<exists>s e. getTime pf (fst i) = Some s \<and> getTime pf (snd i) = Some e \<and> s < e)"

interpretation conflict_intervals: half_open
  "\<lambda>i. the (getTime pf (fst i))" "\<lambda>i. the (getTime pf (snd i))" "proper pf"
  "\<lambda>a b. intervalsOverlap pf (fst a) (snd a) (fst b) (snd b)" for pf
  by unfold_locales (auto simp: proper_def intervalsOverlap_def)

lemma intervalsOverlap_proper:
  "intervalsOverlap pf s e s' e' \<Longrightarrow> proper pf (s, e) \<and> proper pf (s', e')"
  by (auto simp: intervalsOverlap_def proper_def split: option.splits if_splits)

definition clashes :: "platform \<Rightarrow> work_invitation \<Rightarrow> conflict_busy \<Rightarrow> bool" where
  "clashes pf i b \<longleftrightarrow> (\<exists>s e s' e' p. getTime pf (wi_start_at i) = Some s \<and> getTime pf (wi_end_at i) = Some e
     \<and> getTime pf (cb_start b) = Some s' \<and> getTime pf (cb_end b) = Some e'
     \<and> s \<le> p \<and> p < e \<and> s' \<le> p \<and> p < e')"

lemma intervalsOverlap_clashes:
  "intervalsOverlap pf (wi_start_at i) (wi_end_at i) (cb_start b) (cb_end b) \<longleftrightarrow> clashes pf i b"
proof
  assume ov: "intervalsOverlap pf (wi_start_at i) (wi_end_at i) (cb_start b) (cb_end b)"
  from intervalsOverlap_proper [OF ov] have p: "proper pf (wi_start_at i, wi_end_at i)" "proper pf (cb_start b, cb_end b)"
    by auto
  from conflict_intervals.ov_common_instant [OF p] ov p show "clashes pf i b"
    by (fastforce simp: clashes_def proper_def)
next
  assume c: "clashes pf i b"
  then have p: "proper pf (wi_start_at i, wi_end_at i)" "proper pf (cb_start b, cb_end b)"
    by (force simp: clashes_def proper_def)+
  from conflict_intervals.ov_common_instant [OF p] c
  show "intervalsOverlap pf (wi_start_at i) (wi_end_at i) (cb_start b) (cb_end b)"
    by (auto simp: clashes_def)
qed

lemma conflicts_of_filter:
  "map fst (conflicts_of pf invitations busy) = filter (\<lambda>i. \<exists>b \<in> set busy. clashes pf i b) invitations"
proof (induction invitations)
  case (Cons i invitations)
  have "overlappingBusyIntervals pf i busy = [] \<longleftrightarrow> \<not> (\<exists>b \<in> set busy. clashes pf i b)"
    by (auto simp: overlappingBusyIntervals_def filter_empty_conv intervalsOverlap_clashes)
  with Cons show ?case by (auto simp: conflicts_of_def Let_def)
qed (simp add: conflicts_of_def)

text \<open>
  C36: The numbers of a preview. The conflicts are the invitations that share an instant with a
  busy interval; the held ones are those without a revision to guard the reply and those beyond the
  rolling budget, so that never more than the remaining budget is left to be declined, and nothing
  is held for the budget while the budget lasts.
\<close>

theorem preview_respects_budget:
  assumes r_def: "r = conflictPreviewResult pf invitations busy applied"
    and clash_def: "clash = filter (\<lambda>i. \<exists>b \<in> set busy. clashes pf i b) invitations"
  shows "conflict_count r = int (length clash)
    \<and> 0 \<le> budget_held_count r \<and> budget_held_count r \<le> held_count r \<and> held_count r \<le> conflict_count r
    \<and> int (length (filter lacks_revision clash)) \<le> held_count r
    \<and> conflict_count r - held_count r \<le> max 0 (20 - applied)
    \<and> (0 < budget_held_count r \<longrightarrow> conflict_count r - held_count r = max 0 (20 - applied))
    \<and> cp_examples r = map (\<lambda>i. \<lparr>ex_start_at = wi_start_at i, ex_end_at = wi_end_at i\<rparr>) (take 3 clash)"
proof -
  let ?cs = "conflicts_of pf invitations busy"
  have fst: "map fst ?cs = clash" unfolding clash_def by (rule conflicts_of_filter)
  then have len: "length ?cs = length clash" by (metis length_map)
  have "filter lacks_revision clash = map fst (filter (\<lambda>(i, o'). lacks_revision i) ?cs)"
    unfolding fst [symmetric] by (simp add: filter_map o_def case_prod_unfold)
  then have rev: "length (filter (\<lambda>(i, o'). lacks_revision i) ?cs) = length (filter lacks_revision clash)" by simp
  have le: "length (filter lacks_revision clash) \<le> length clash" by simp
  have "map (\<lambda>(i, o'). \<lparr>ex_start_at = wi_start_at i, ex_end_at = wi_end_at i\<rparr>) (take 3 ?cs)
      = map (\<lambda>i. \<lparr>ex_start_at = wi_start_at i, ex_end_at = wi_end_at i\<rparr>) (take 3 clash)"
    unfolding fst [symmetric] take_map by (simp add: case_prod_unfold)
  then have ex: "cp_examples r = map (\<lambda>i. \<lparr>ex_start_at = wi_start_at i, ex_end_at = wi_end_at i\<rparr>) (take 3 clash)"
    by (simp add: r_def conflictPreviewResult_def Let_def PREVIEW_EXAMPLE_LIMIT_def)
  define n g where "n = int (length clash)" and "g = int (length (filter lacks_revision clash))"
  have counts: "conflict_count r = n" "budget_held_count r = max 0 (n - g - max 0 (20 - applied))"
    "held_count r = g + max 0 (n - g - max 0 (20 - applied))"
    by (simp_all add: r_def conflictPreviewResult_def Let_def len rev MAX_AUTOMATIC_DECLINES_PER_24_HOURS_def n_def g_def)
  have "0 \<le> g" "g \<le> n" using le by (simp_all add: n_def g_def)
  with counts ex show ?thesis by (auto simp: n_def [symmetric] g_def [symmetric])
qed

subsection \<open>Documents do not depend on the order of rows\<close>

lemma busy_compare_key:
  "busy_compare = (\<lambda>x y. js_compare (cb_calendar_id x, cb_start x, cb_end x) (cb_calendar_id y, cb_start y, cb_end y))"
  by (intro ext) (simp add: busy_compare_def js_compare_pair)

interpretation busy_order: strict_comparator busy_compare
  unfolding busy_compare_key by (rule strict_comparator_key) (simp add: inj_def)

lemma calendar_compare_key: "calendar_compare = (\<lambda>x y. js_compare (cal_id x) (cal_id y))"
  by (intro ext) (simp add: calendar_compare_def)

interpretation calendar_order: comparator calendar_compare
  unfolding calendar_compare_key by (rule comparator_key)

lemma invitation_compare_key:
  "invitation_compare = (\<lambda>(h, p, s, e) (h', p', s', e'). js_compare (s, e, h) (s', e', h'))"
  by (intro ext) (auto simp: js_compare_pair split: prod.splits)

interpretation invitation_order: comparator invitation_compare
  using comparator_key [of "\<lambda>(h, p, s, e). (s, e, h)"]
  unfolding invitation_compare_key by (simp add: case_prod_unfold)

text \<open>
  The basis of a preview does not depend on the order in which rows were read. Reordering
  the availability calendars, the invitations or the busy intervals leaves the snapshot document as
  it is, provided the calendars are told apart by their identities and the invitations by their times
  and hash; busy intervals need no proviso.
\<close>

theorem snapshot_is_order_independent:
  assumes "mset cals' = mset (sn_availability_calendars input)" "mset invs' = mset (sn_invitations input)"
    and "mset busy' = mset (sn_busy input)"
    and "inj_on cal_id (set (sn_availability_calendars input))"
    and "inj_on (\<lambda>i. (wi_start_at i, wi_end_at i, wi_observation_hash i)) (set (sn_invitations input))"
  shows "conflictSnapshotDocument (input\<lparr>sn_availability_calendars := cals', sn_invitations := invs', sn_busy := busy'\<rparr>)
    = conflictSnapshotDocument input"
proof -
  have "js_sort calendar_compare cals' = js_sort calendar_compare (sn_availability_calendars input)"
    by (rule calendar_order.sort_cong_on [OF assms(1)])
      (use assms(4) mset_eq_setD [OF assms(1)] in \<open>auto simp: calendar_compare_def dest: inj_onD\<close>)
  moreover have "js_sort busy_compare busy' = js_sort busy_compare (sn_busy input)"
    by (rule busy_order.sort_cong [OF assms(3)])
  moreover have "js_sort invitation_compare (map invitation_basis invs')
      = js_sort invitation_compare (map invitation_basis (sn_invitations input))"
  proof (rule invitation_order.sort_cong_on)
    show "mset (map invitation_basis invs') = mset (map invitation_basis (sn_invitations input))"
      using assms(2) by simp
    fix x y
    assume "x \<in> set (map invitation_basis invs')" "y \<in> set (map invitation_basis invs')"
    then obtain i j where ij: "i \<in> set (sn_invitations input)" "j \<in> set (sn_invitations input)"
      "x = invitation_basis i" "y = invitation_basis j" using mset_eq_setD [OF assms(2)] by auto
    assume "invitation_compare x y \<le> 0" "invitation_compare y x \<le> 0"
    then have "(wi_start_at i, wi_end_at i, wi_observation_hash i) = (wi_start_at j, wi_end_at j, wi_observation_hash j)"
      unfolding ij invitation_compare_key invitation_basis_def by auto
    with assms(5) ij show "x = y" by (auto dest: inj_onD)
  qed
  ultimately show ?thesis by (simp add: conflictSnapshotDocument_def)
qed

subsection \<open>The properties on concrete invitations\<close>

definition sample_invitation_event :: source_observation where
  "sample_invitation_event =
     \<lparr>source_event_ref = ''e7'', source_occurrence_ref = ''e7'', remote_revision = ''r1'',
      s_lifecycle = Confirmed, s_origin = ProviderOriginal,
      s_timing = Some (Timed ''2026-07-21T12:00:00Z'' ''2026-07-21T13:00:00Z'' ''UTC'' ''UTC''),
      s_recurrence = None, s_availability = Some Busy,
      s_relationship = \<lparr>r_role = Attendee, r_response = NeedsAction, r_note = None\<rparr>,
      destination_identity_invited = False,
      s_content = \<lparr>c_summary = None, c_description = None, c_location = None, c_conference = None\<rparr>,
      s_attendees = None, s_organizer = None, s_attachments = None, s_source_url = None, s_provider_metadata = None\<rparr>"

definition sample_row :: work_observation_row where
  "sample_row = \<lparr>wo_id = ''o7'', wo_remote_event_id = ''e7'', wo_recurrence_identity = ''single'',
     wo_remote_etag = Some ''tag'', wo_observation_hash = ''h7'', wo_event = Some sample_invitation_event\<rparr>"

definition sample_candidate :: work_invitation where
  "sample_candidate = \<lparr>wi_observation_id = ''o7'', wi_remote_event_id = ''e7'', wi_recurrence_identity = ''single'',
     wi_observation_hash = ''h7'', wi_remote_revision = Some ''tag'', wi_start_at = ''2026-07-21T12:00:00.000Z'',
     wi_end_at = ''2026-07-21T13:00:00.000Z''\<rparr>"

theorem candidate_is_answerable_witness:
  "\<exists>start fin. getTime utc_platform ''2026-07-21T12:00:00Z'' = Some start \<and> wi_start_at sample_candidate = toISOString start
     \<and> 1784419200000 < start \<and> start < fin \<and> fin \<le> 1789000000000"
proof -
  have "workInvitationCandidate utc_platform sample_row 1784419200000 1789000000000 = Inr (Some sample_candidate)"
    by code_simp
  from candidate_is_answerable [OF this] obtain event s e z z' start fin where
    f: "wo_event sample_row = Some event" "s_timing event = Some (Timed s e z z')" "getTime utc_platform s = Some start"
    "1784419200000 < start" "start < fin" "fin \<le> 1789000000000" "wi_start_at sample_candidate = toISOString start"
    by blast
  then have "s = ''2026-07-21T12:00:00Z''" by (auto simp: sample_row_def sample_invitation_event_def)
  with f show ?thesis by blast
qed

theorem preview_respects_budget_witness:
  "conflict_count (conflictPreviewResult utc_platform [sample_candidate]
     [\<lparr>cb_calendar_id = ''c'', cb_start = ''2026-07-21T12:30:00Z'', cb_end = ''2026-07-21T12:45:00Z''\<rparr>] 20) = 1
   \<and> conflict_count (conflictPreviewResult utc_platform [sample_candidate]
     [\<lparr>cb_calendar_id = ''c'', cb_start = ''2026-07-21T12:30:00Z'', cb_end = ''2026-07-21T12:45:00Z''\<rparr>] 20)
     - held_count (conflictPreviewResult utc_platform [sample_candidate]
     [\<lparr>cb_calendar_id = ''c'', cb_start = ''2026-07-21T12:30:00Z'', cb_end = ''2026-07-21T12:45:00Z''\<rparr>] 20) = 0"
proof -
  let ?b = "\<lparr>cb_calendar_id = ''c'', cb_start = ''2026-07-21T12:30:00Z'', cb_end = ''2026-07-21T12:45:00Z''\<rparr>"
  have "intervalsOverlap utc_platform (wi_start_at sample_candidate) (wi_end_at sample_candidate) (cb_start ?b) (cb_end ?b)"
    by code_simp
  then have "clashes utc_platform sample_candidate ?b" unfolding intervalsOverlap_clashes .
  then have "filter (\<lambda>i. \<exists>b \<in> set [?b]. clashes utc_platform i b) [sample_candidate] = [sample_candidate]"
    by simp
  with preview_respects_budget [OF refl refl, of utc_platform "[sample_candidate]" "[?b]" 20] show ?thesis by simp
qed

definition sample_snapshot :: snapshot_input where
  "sample_snapshot =
     \<lparr>sn_draft = \<lparr>cr_name = ''n'', response_calendar_id = ''w'', cr_availability_calendar_ids = [''h''],
        decline_message = ''no'', cr_horizon_days = 60\<rparr>,
      sn_reference_at = ''a'', sn_horizon_end = ''b'', sn_availability_end = ''c'',
      sn_response_calendar = \<lparr>cal_id = ''w'', cal_connection_id = ''k'', cal_remote_id = ''r'', cal_name = ''Work'',
        cal_readable = True, cal_writable = True, cal_provider = FakeProvider, cal_connection_status = ''active'',
        cal_intended_role = ''both''\<rparr>,
      sn_availability_calendars = [], sn_invitations = [sample_candidate, sample_candidate\<lparr>wi_observation_hash := ''h8''\<rparr>],
      sn_busy = [\<lparr>cb_calendar_id = ''h'', cb_start = ''a'', cb_end = ''b''\<rparr>, \<lparr>cb_calendar_id = ''g'', cb_start = ''a'', cb_end = ''b''\<rparr>],
      sn_applied = 0\<rparr>"

theorem snapshot_is_order_independent_witness:
  "conflictSnapshotDocument (sample_snapshot\<lparr>sn_availability_calendars := [],
     sn_invitations := [sample_candidate\<lparr>wi_observation_hash := ''h8''\<rparr>, sample_candidate],
     sn_busy := [\<lparr>cb_calendar_id = ''g'', cb_start = ''a'', cb_end = ''b''\<rparr>, \<lparr>cb_calendar_id = ''h'', cb_start = ''a'', cb_end = ''b''\<rparr>]\<rparr>)
   = conflictSnapshotDocument sample_snapshot"
  by (rule snapshot_is_order_independent)
    (auto simp: sample_snapshot_def sample_candidate_def inj_on_def add_mset_commute)

end
