(* ===== verification/Conflict_Validation.thy ===== *)
theory Conflict_Validation
  imports Conflict_Engine Draft_Fields
begin

section \<open>Parsing private-reply rules (server/src/conflict-response/validation.ts)\<close>

text \<open>
  The parser of a private-reply rule. The check of an identifier is the one of the \<open>uuid\<close> package,
  the parameter \<open>valid_uuid\<close>. Every refusal carries the code \<open>invalid_conflict_response_rule\<close>; the
  message is kept.
\<close>

definition ALLOWED_DRAFT_FIELDS :: "string list" where
  "ALLOWED_DRAFT_FIELDS =
     [''name'', ''response_calendar_id'', ''availability_calendar_ids'', ''decline_message'', ''horizon_days'']"

definition uuid_field :: "(string \<Rightarrow> bool) \<Rightarrow> json option \<Rightarrow> string \<Rightarrow> string parsed" where
  "uuid_field valid_uuid v name =
     (case v of Some (JStr s) \<Rightarrow> if valid_uuid s then Inr s else Inl (name @ '' is invalid'')
      | _ \<Rightarrow> Inl (name @ '' is invalid''))"

definition uuid_fields :: "(string \<Rightarrow> bool) \<Rightarrow> json option \<Rightarrow> string \<Rightarrow> nat \<Rightarrow> string list parsed" where
  "uuid_fields valid_uuid v name limit = field_list (\<lambda>x. uuid_field valid_uuid x name) v name 0 limit"

definition unsupported_key :: "json \<Rightarrow> string option" where
  "unsupported_key v = (case v of JObj ms \<Rightarrow> find (\<lambda>k. k \<notin> set ALLOWED_DRAFT_FIELDS) (map fst ms) | _ \<Rightarrow> None)"

definition parseConflictResponseDraft :: "(string \<Rightarrow> bool) \<Rightarrow> json \<Rightarrow> conflict_response_draft parsed" where
  "parseConflictResponseDraft valid_uuid v =
     (if \<not> is_record v then Inl ''conflict-response rule must be an object''
      else case unsupported_key v of
        Some k \<Rightarrow> Inl (''unsupported conflict-response field: '' @ k)
      | None \<Rightarrow>
          bindE (uuid_field valid_uuid (json_member v ''response_calendar_id'') ''response calendar'') (\<lambda>response.
          bindE (uuid_fields valid_uuid (json_member v ''availability_calendar_ids'') ''availability calendars''
                   MAX_AVAILABILITY_CALENDARS) (\<lambda>calendars.
          bindE (reject_if (calendars = []) ''at least one availability calendar is required'') (\<lambda>_.
          bindE (reject_if (response \<in> set calendars)
                   ''the response calendar cannot also be an availability calendar'') (\<lambda>_.
          bindE (field_text (json_member v ''name'') ''name'' 160) (\<lambda>name.
          bindE (field_text (or_default (json_member v ''decline_message'') (JStr DEFAULT_DECLINE_MESSAGE))
                   ''decline message'' 500) (\<lambda>message.
          bindE (field_integer (or_default (json_member v ''horizon_days'')
                   (JNum (Whole DEFAULT_CONFLICT_HORIZON_DAYS))) ''horizon days'' 1 90) (\<lambda>horizon.
            Inr \<lparr>cr_name = name, response_calendar_id = response,
                 cr_availability_calendar_ids = js_sort js_compare calendars,
                 decline_message = message, cr_horizon_days = horizon\<rparr>))))))))"

subsection \<open>Properties\<close>

text \<open>
  C35: An accepted private-reply rule never watches its own response calendar: it has between one
  and 32 distinct, valid availability calendars in text order, none of which is the response
  calendar, a nonempty message of at most 500 characters and a horizon of 1 to 90 days.
\<close>

theorem accepted_reply_rule_is_safe:
  assumes "parseConflictResponseDraft valid_uuid v = Inr d"
  shows "cr_availability_calendar_ids d \<noteq> [] \<and> length (cr_availability_calendar_ids d) \<le> 32
    \<and> sorted_wrt (<) (cr_availability_calendar_ids d)
    \<and> response_calendar_id d \<notin> set (cr_availability_calendar_ids d)
    \<and> valid_uuid (response_calendar_id d) \<and> (\<forall>c \<in> set (cr_availability_calendar_ids d). valid_uuid c)
    \<and> decline_message d \<noteq> [] \<and> length (decline_message d) \<le> 500
    \<and> 1 \<le> cr_horizon_days d \<and> cr_horizon_days d \<le> 90"
proof -
  from assms obtain calendars message horizon where
    c: "uuid_fields valid_uuid (json_member v ''availability_calendar_ids'') ''availability calendars'' 32 = Inr calendars"
    "calendars \<noteq> []" "response_calendar_id d \<notin> set calendars"
    and ids: "cr_availability_calendar_ids d = js_sort js_compare calendars"
    and r: "uuid_field valid_uuid (json_member v ''response_calendar_id'') ''response calendar'' = Inr (response_calendar_id d)"
    and m: "field_text message ''decline message'' 500 = Inr (decline_message d)"
    and h: "field_integer horizon ''horizon days'' 1 90 = Inr (cr_horizon_days d)"
    by (auto simp: parseConflictResponseDraft_def bindE_Inr_iff MAX_AVAILABILITY_CALENDARS_def split: if_splits option.splits)
  note f = field_list_Inr [OF c(1) [unfolded uuid_fields_def]]
  have valid: "valid_uuid x" if "uuid_field valid_uuid w name = Inr x" for w name x
    using that by (auto simp: uuid_field_def split: option.splits json.splits if_splits)
  have "sorted_wrt (\<lambda>a b. js_compare a b \<le> 0) (js_sort js_compare calendars)"
    by (rule comparator.sorted_sort [OF consistent_comparator.axioms(1) [OF consistent_js_compare]])
  with f(1) have "sorted_wrt (<) (cr_availability_calendar_ids d)"
    unfolding ids by (simp add: strict_sorted_iff)
  moreover have "valid_uuid c" if "c \<in> set (cr_availability_calendar_ids d)" for c
    using that f(4) valid unfolding ids by fastforce
  ultimately show ?thesis
    using f(3) c(2,3) valid [OF r] field_text_Inr [OF m] field_integer_Inr [OF h] by (auto simp: ids)
qed

definition sample_reply_rule :: json where
  "sample_reply_rule = JObj [(''name'', Some (JStr ''Private'')), (''response_calendar_id'', Some (JStr ''w'')),
     (''availability_calendar_ids'', Some (JArr [JStr ''h'', JStr ''g'']))]"

theorem accepted_reply_rule_is_safe_witness:
  "\<exists>d. parseConflictResponseDraft (\<lambda>s. length s = 1) sample_reply_rule = Inr d
     \<and> cr_availability_calendar_ids d = [''g'', ''h''] \<and> response_calendar_id d \<notin> set (cr_availability_calendar_ids d)
     \<and> cr_horizon_days d \<le> 90"
proof -
  let ?d = "\<lparr>cr_name = ''Private'', response_calendar_id = ''w'', cr_availability_calendar_ids = [''g'', ''h''],
    decline_message = DEFAULT_DECLINE_MESSAGE, cr_horizon_days = 60\<rparr>"
  have "parseConflictResponseDraft (\<lambda>s. length s = 1) sample_reply_rule = Inr ?d" by code_simp
  from accepted_reply_rule_is_safe [OF this] this show ?thesis by auto
qed

end
