(* ===== verification/Foundation.thy ===== *)
theory Foundation
  imports Js_Text
begin

section \<open>Shared helpers of the server (server/src/foundation.ts)\<close>

text \<open>
  A thrown value as far as the code looks at it: an \<open>Error\<close> with its name and its \<open>code\<close> property when
  that is a string, or something else; and the \<open>retryable\<close> property, when the value has one.
\<close>

datatype thrown =
    ThrownError (err_name: string) (err_code: "string option") (retryable: "bool option")
  | ThrownOther (retryable: "bool option")

definition safe_char :: "char \<Rightarrow> bool" where
  "safe_char c \<longleftrightarrow> 97 \<le> code c \<and> code c \<le> 122 \<or> is_digit c \<or> c = CHR ''_'' \<or> c = CHR '':'' \<or> c = CHR ''-''"

definition safeErrorCode :: "thrown \<Rightarrow> string" where
  "safeErrorCode e =
     (case e of
        ThrownError name (Some c) r \<Rightarrow>
          take 80 (map (\<lambda>x. if safe_char x then x else CHR ''_'') (toLowerCase c))
      | ThrownError name None r \<Rightarrow> take 80 (toLowerCase name)
      | ThrownOther r \<Rightarrow> ''unknown_error'')"

text \<open>What is recorded of an error with a code is short and free of anything but safe characters.\<close>

lemma safeErrorCode_safe:
  "length (safeErrorCode e) \<le> 80"
  "err_code e = Some c \<Longrightarrow> e = ThrownError n (Some c) r \<Longrightarrow> list_all safe_char (safeErrorCode e)"
proof -
  show "length (safeErrorCode e) \<le> 80"
    by (auto simp: safeErrorCode_def split: thrown.splits option.splits)
  show "err_code e = Some c \<Longrightarrow> e = ThrownError n (Some c) r \<Longrightarrow> list_all safe_char (safeErrorCode e)"
    by (auto simp: safeErrorCode_def list_all_iff safe_char_def dest: in_set_takeD)
qed

end
