(* ===== verification/Job_Queue.thy ===== *)
theory Job_Queue
  imports Canonical Foundation
begin

section \<open>The job queue (server/src/jobs/queue.ts)\<close>

text \<open>
  The table of scheduled jobs and the operations of \<open>PostgresJobQueue\<close> on it, each one transaction.
  The table is the list of its rows. The clock, the new row identity and the random part of the back-off
  are arguments. \<open>insert ... on conflict do nothing\<close> refers to the unique indexes of the table: the
  primary key, and the partial index on organization, kind and key over the active states
  (migrations/0001_initial.sql). \<open>locked\<close> are the rows that concurrent transactions hold, which
  \<open>skip locked\<close> leaves out.
\<close>

datatype job_state = Pending | Leased | Retry | Succeeded | Dead

definition active_state :: "job_state \<Rightarrow> bool" where
  "active_state s \<longleftrightarrow> s = Pending \<or> s = Leased \<or> s = Retry"

record job =
  j_id :: string
  j_organization :: string
  j_kind :: string
  j_dedupe :: string
  j_payload :: json
  j_state :: job_state
  j_attempts :: int
  j_run_after :: int
  j_owner :: "string option"
  j_expires :: "int option"
  j_error :: "string option"
  j_updated :: int

type_synonym jobs = "job list"

definition job_key :: "job \<Rightarrow> string \<times> string \<times> string" where
  "job_key j = (j_organization j, j_kind j, j_dedupe j)"

record leased_job =
  l_id :: string
  l_organizationId :: string
  l_kind :: string
  l_payload :: json
  l_attemptCount :: int

datatype queue_error = PayloadTypeError | JobLeaseLost string

definition assertJobPayload :: "json \<Rightarrow> queue_error + unit" where
  "assertJobPayload p = (case p of JArr _ \<Rightarrow> Inr () | JObj _ \<Rightarrow> Inr () | _ \<Rightarrow> Inl PayloadTypeError)"

subsection \<open>Enqueueing\<close>

definition conflicts_with :: "jobs \<Rightarrow> job \<Rightarrow> bool" where
  "conflicts_with q row \<longleftrightarrow> list_ex (\<lambda>j. j_id j = j_id row \<or> active_state (j_state j) \<and> job_key j = job_key row) q"

definition enqueue ::
  "int \<Rightarrow> string \<Rightarrow> string \<Rightarrow> string \<Rightarrow> string \<Rightarrow> json \<Rightarrow> int \<Rightarrow> jobs \<Rightarrow> queue_error + string option \<times> jobs" where
  "enqueue nowMs newId org kind dedupeKey payload runAfter q =
     bindE (assertJobPayload payload) (\<lambda>_.
       let row = \<lparr>j_id = newId, j_organization = org, j_kind = kind, j_dedupe = dedupeKey, j_payload = payload,
             j_state = Pending, j_attempts = 0, j_run_after = runAfter, j_owner = None, j_expires = None,
             j_error = None, j_updated = nowMs\<rparr>
       in if conflicts_with q row then Inr (None, q) else Inr (Some newId, q @ [row]))"

definition enqueueOnce ::
  "int \<Rightarrow> string \<Rightarrow> string \<Rightarrow> string \<Rightarrow> string \<Rightarrow> json \<Rightarrow> int \<Rightarrow> jobs \<Rightarrow> queue_error + string option \<times> jobs" where
  "enqueueOnce nowMs newId org kind dedupeKey payload runAfter q =
     bindE (assertJobPayload payload) (\<lambda>_.
       if list_ex (\<lambda>j. job_key j = (org, kind, dedupeKey)) q then Inr (None, q)
       else enqueue nowMs newId org kind dedupeKey payload runAfter q)"

subsection \<open>Leasing\<close>

definition expireLeases :: "int \<Rightarrow> jobs \<Rightarrow> jobs" where
  "expireLeases nowMs q =
     map (\<lambda>j. if j_state j = Leased \<and> (case j_expires j of None \<Rightarrow> False | Some e \<Rightarrow> e < nowMs)
              then j\<lparr>j_state := Retry, j_owner := None, j_expires := None\<rparr> else j) q"

definition due :: "int \<Rightarrow> job \<Rightarrow> bool" where
  "due nowMs j \<longleftrightarrow> (j_state j = Pending \<or> j_state j = Retry) \<and> j_run_after j \<le> nowMs"

definition selectDue :: "string list \<Rightarrow> int \<Rightarrow> nat \<Rightarrow> jobs \<Rightarrow> jobs" where
  "selectDue locked nowMs limit q =
     take limit (filter (\<lambda>j. j_id j \<notin> set locked) (sort_key (\<lambda>j. (j_run_after j, j_id j)) (filter (due nowMs) q)))"

definition lease ::
  "string list \<Rightarrow> int \<Rightarrow> string \<Rightarrow> nat \<Rightarrow> int \<Rightarrow> jobs \<Rightarrow> leased_job list \<times> jobs" where
  "lease locked nowMs owner limit leaseSeconds q =
     (let q' = expireLeases nowMs q;
          rows = selectDue locked nowMs limit q';
          ids = map j_id rows
      in if rows = [] then ([], q')
         else (map (\<lambda>row. \<lparr>l_id = j_id row, l_organizationId = j_organization row, l_kind = j_kind row,
                 l_payload = j_payload row, l_attemptCount = j_attempts row + 1\<rparr>) rows,
               map (\<lambda>j. if j_id j \<in> set ids
                        then j\<lparr>j_state := Leased, j_owner := Some owner,
                               j_expires := Some (nowMs + leaseSeconds * 1000),
                               j_attempts := j_attempts j + 1, j_updated := nowMs\<rparr>
                        else j) q'))"

subsection \<open>Transitions of an owner\<close>

definition owned :: "string \<Rightarrow> string \<Rightarrow> job \<Rightarrow> bool" where
  "owned ident owner j \<longleftrightarrow> j_id j = ident \<and> j_state j = Leased \<and> j_owner j = Some owner"

definition update_owned :: "string \<Rightarrow> string \<Rightarrow> (job \<Rightarrow> job) \<Rightarrow> jobs \<Rightarrow> nat \<times> jobs" where
  "update_owned ident owner f q =
     (length (filter (owned ident owner) q), map (\<lambda>j. if owned ident owner j then f j else j) q)"

definition transition :: "string \<Rightarrow> string \<Rightarrow> (job \<Rightarrow> job) \<Rightarrow> jobs \<Rightarrow> queue_error + jobs" where
  "transition ident owner f q =
     (let (n, q') = update_owned ident owner f q in if n \<noteq> 1 then Inl (JobLeaseLost ident) else Inr q')"

definition succeed :: "int \<Rightarrow> string \<Rightarrow> string \<Rightarrow> jobs \<Rightarrow> queue_error + jobs" where
  "succeed nowMs ident owner q =
     transition ident owner (\<lambda>j. j\<lparr>j_state := Succeeded, j_owner := None, j_expires := None, j_error := None,
       j_updated := nowMs\<rparr>) q"

definition renew :: "int \<Rightarrow> string \<Rightarrow> string \<Rightarrow> int \<Rightarrow> jobs \<Rightarrow> bool \<times> jobs" where
  "renew nowMs ident owner leaseSeconds q =
     (let (n, q') = update_owned ident owner
            (\<lambda>j. j\<lparr>j_expires := Some (nowMs + leaseSeconds * 1000), j_updated := nowMs\<rparr>) q
      in (n = 1, q'))"

text \<open>
  The back-off in milliseconds: two to the power of the attempts, plus a random part of less than
  a second, and an hour at most.
\<close>

definition retryDelay :: "nat \<Rightarrow> int \<Rightarrow> int" where
  "retryDelay attemptCount jitter = min 3600000 (2 ^ min attemptCount 10 * 1000 + jitter)"

definition gives_up :: "thrown \<Rightarrow> nat \<Rightarrow> bool" where
  "gives_up error attemptCount \<longleftrightarrow> retryable error = Some False \<or> 10 \<le> attemptCount"

definition fail :: "int \<Rightarrow> int \<Rightarrow> string \<Rightarrow> string \<Rightarrow> thrown \<Rightarrow> nat \<Rightarrow> jobs \<Rightarrow> queue_error + jobs" where
  "fail nowMs jitter ident owner error attemptCount q =
     transition ident owner (\<lambda>j. j\<lparr>j_state := (if gives_up error attemptCount then Dead else Retry),
       j_owner := None, j_expires := None, j_run_after := nowMs + retryDelay attemptCount jitter,
       j_error := Some (safeErrorCode error), j_updated := nowMs\<rparr>) q"

subsection \<open>Retiring synchronizations\<close>

text \<open>
  When a connection loses the role that lets it read event content (server/src/providers/google/oauth.ts),
  the waiting synchronizations of its calendars are finished with that reason.
\<close>

definition retire_sync_jobs :: "int \<Rightarrow> string \<Rightarrow> string \<Rightarrow> jobs \<Rightarrow> jobs" where
  "retire_sync_jobs nowMs organizationId endpointId q =
     map (\<lambda>j. if j_organization j = organizationId \<and> j_kind j = ''sync_calendar'' \<and> (j_state j = Pending \<or> j_state j = Retry)
                \<and> json_member (j_payload j) ''calendar_id'' = Some (JStr endpointId)
              then j\<lparr>j_state := Succeeded, j_owner := None, j_expires := None, j_error := Some ''connection_role_changed'', j_updated := nowMs\<rparr>
              else j) q"

subsection \<open>The invariant of the table\<close>

definition row_ok :: "job \<Rightarrow> bool" where
  "row_ok j \<longleftrightarrow> (j_state j = Leased \<longleftrightarrow> j_owner j \<noteq> None) \<and> (j_owner j = None \<longleftrightarrow> j_expires j = None)"

definition queue_ok :: "jobs \<Rightarrow> bool" where
  "queue_ok q \<longleftrightarrow> distinct (map j_id q) \<and> inj_on job_key {j \<in> set q. active_state (j_state j)} \<and> (\<forall>j \<in> set q. row_ok j)"

text \<open>An update of rows that keeps identities and keys and makes no row active again.\<close>

definition keeps_keys :: "(job \<Rightarrow> job) \<Rightarrow> job \<Rightarrow> bool" where
  "keeps_keys f j \<longleftrightarrow> j_id (f j) = j_id j \<and> job_key (f j) = job_key j
     \<and> (active_state (j_state (f j)) \<longrightarrow> active_state (j_state j))"

lemma queue_ok_map:
  assumes "queue_ok q" "\<And>j. j \<in> set q \<Longrightarrow> keeps_keys f j \<and> row_ok (f j)"
  shows "queue_ok (map f q)"
proof -
  have ids: "map j_id (map f q) = map j_id q" using assms(2) by (simp add: keeps_keys_def)
  have "inj_on job_key {j \<in> set (map f q). active_state (j_state j)}"
  proof (rule inj_onI, clarsimp)
    fix a b
    assume ab: "a \<in> set q" "b \<in> set q" "active_state (j_state (f a))" "active_state (j_state (f b))"
      "job_key (f a) = job_key (f b)"
    with assms(2) have "job_key a = job_key b" "active_state (j_state a)" "active_state (j_state b)"
      by (auto simp: keeps_keys_def)
    with ab(1,2) assms(1) have "a = b" by (auto simp: queue_ok_def dest: inj_onD)
    then show "f a = f b" by simp
  qed
  moreover have "distinct (map j_id (map f q))" using assms(1) unfolding ids by (simp add: queue_ok_def)
  ultimately show ?thesis using assms(2) by (auto simp: queue_ok_def)
qed

lemma queue_ok_filter: "queue_ok q \<Longrightarrow> queue_ok (filter P q)"
  by (auto simp: queue_ok_def distinct_map_filter intro: inj_on_subset)

lemma enqueue_cases:
  assumes "enqueue nowMs newId org kind key payload runAfter q = Inr (r, q')"
  obtains "r = None" "q' = q"
  | row where "r = Some newId" "q' = q @ [row]" "\<not> conflicts_with q row" "j_state row = Pending" "row_ok row"
      "job_key row = (org, kind, key)" "j_id row = newId"
  using assms by (auto simp: enqueue_def bindE_Inr_iff Let_def row_ok_def job_key_def split: if_splits)

lemma queue_ok_append:
  assumes "queue_ok q" "\<not> conflicts_with q row" "row_ok row"
  shows "queue_ok (q @ [row])"
proof -
  have free: "j_id j \<noteq> j_id row" "active_state (j_state j) \<Longrightarrow> job_key j \<noteq> job_key row" if "j \<in> set q" for j
    using assms(2) that by (auto simp: conflicts_with_def list_ex_iff)
  have "inj_on job_key {j \<in> set (q @ [row]). active_state (j_state j)}"
    using assms(1) free by (auto simp: queue_ok_def inj_on_def) metis+
  moreover have "j_id row \<notin> j_id ` set q" using free(1) by (metis imageE)
  ultimately show ?thesis using assms by (auto simp: queue_ok_def)
qed

lemma enqueue_ok: "enqueue n i og k d p ra q = Inr (r, q') \<Longrightarrow> queue_ok q \<Longrightarrow> queue_ok q'"
  by (erule enqueue_cases) (auto intro: queue_ok_append)

lemma enqueueOnce_ok: "enqueueOnce n i og k d p ra q = Inr (r, q') \<Longrightarrow> queue_ok q \<Longrightarrow> queue_ok q'"
  by (auto simp: enqueueOnce_def bindE_Inr_iff split: if_splits intro: enqueue_ok)

lemma expireLeases_ok: "queue_ok q \<Longrightarrow> queue_ok (expireLeases nowMs q)"
  unfolding expireLeases_def
  by (rule queue_ok_map) (auto simp: queue_ok_def keeps_keys_def row_ok_def job_key_def active_state_def)

lemma set_selectDue: "j \<in> set (selectDue locked nowMs limit q) \<Longrightarrow> j \<in> set q \<and> due nowMs j \<and> j_id j \<notin> set locked"
  by (auto simp: selectDue_def dest: in_set_takeD)

lemma same_id: "queue_ok q \<Longrightarrow> i \<in> set q \<Longrightarrow> j \<in> set q \<Longrightarrow> j_id i = j_id j \<Longrightarrow> i = j"
  by (auto simp: queue_ok_def distinct_map dest: inj_onD)

lemma lease_ok:
  assumes "lease locked nowMs owner limit secs q = (out, q')" "queue_ok q"
  shows "queue_ok q'"
proof -
  let ?q = "expireLeases nowMs q" and ?rows = "selectDue locked nowMs limit (expireLeases nowMs q)"
  have ok: "queue_ok ?q" using assms(2) by (rule expireLeases_ok)
  have act: "active_state (j_state j)" if j: "j \<in> set ?q" "j_id j \<in> j_id ` set ?rows" for j
  proof -
    from j(2) obtain i where i: "i \<in> set ?rows" "j_id j = j_id i" by blast
    from set_selectDue [OF i(1)] same_id [OF ok j(1)] i(2) have "due nowMs j" by blast
    then show ?thesis by (auto simp: due_def active_state_def)
  qed
  have "queue_ok (map (\<lambda>j. if j_id j \<in> set (map j_id ?rows)
        then j\<lparr>j_state := Leased, j_owner := Some owner, j_expires := Some (nowMs + secs * 1000),
          j_attempts := j_attempts j + 1, j_updated := nowMs\<rparr> else j) ?q)"
    by (rule queue_ok_map [OF ok]) (use ok act in \<open>auto simp: keeps_keys_def row_ok_def job_key_def queue_ok_def\<close>)
  with assms(1) ok show ?thesis by (auto simp: lease_def Let_def split: if_splits)
qed

lemma update_owned_ok:
  assumes "queue_ok q" "\<And>j. owned ident owner j \<Longrightarrow> row_ok j \<Longrightarrow> keeps_keys f j \<and> row_ok (f j)"
  shows "queue_ok (snd (update_owned ident owner f q))"
  unfolding update_owned_def snd_conv
  by (rule queue_ok_map) (use assms in \<open>auto simp: queue_ok_def keeps_keys_def\<close>)

lemma transition_Inr: "transition ident owner f q = Inr q' \<Longrightarrow> q' = snd (update_owned ident owner f q)"
  by (auto simp: transition_def split: prod.splits if_splits)

lemma succeed_ok: "succeed nowMs ident owner q = Inr q' \<Longrightarrow> queue_ok q \<Longrightarrow> queue_ok q'"
  unfolding succeed_def
  by (drule transition_Inr, hypsubst, erule update_owned_ok) (auto simp: keeps_keys_def row_ok_def job_key_def active_state_def)

lemma fail_ok: "fail nowMs jitter ident owner e n q = Inr q' \<Longrightarrow> queue_ok q \<Longrightarrow> queue_ok q'"
  unfolding fail_def
  by (drule transition_Inr, hypsubst, erule update_owned_ok)
    (auto simp: keeps_keys_def row_ok_def job_key_def active_state_def owned_def)

lemma renew_ok: "queue_ok q \<Longrightarrow> queue_ok (snd (renew nowMs ident owner secs q))"
proof -
  assume q: "queue_ok q"
  let ?f = "\<lambda>j. j\<lparr>j_expires := Some (nowMs + secs * 1000), j_updated := nowMs\<rparr>"
  have "snd (renew nowMs ident owner secs q) = snd (update_owned ident owner ?f q)"
    by (simp add: renew_def split: prod.splits)
  moreover have "queue_ok (snd (update_owned ident owner ?f q))"
    by (rule update_owned_ok [OF q]) (auto simp: keeps_keys_def row_ok_def job_key_def owned_def)
  ultimately show ?thesis by simp
qed

subsection \<open>Reachable tables\<close>

text \<open>
  Every way in which the table changes: the operations of the queue, the clean-up of the
  scheduler, which removes terminal rows, and the retirement of waiting synchronizations.
\<close>

inductive queue_step :: "jobs \<Rightarrow> jobs \<Rightarrow> bool" where
  step_enqueue: "enqueue n i og k d p ra q = Inr (r, q') \<Longrightarrow> queue_step q q'"
| step_once: "enqueueOnce n i og k d p ra q = Inr (r, q') \<Longrightarrow> queue_step q q'"
| step_lease: "lease locked n owner limit secs q = (out, q') \<Longrightarrow> queue_step q q'"
| step_renew: "renew n i owner secs q = (b, q') \<Longrightarrow> queue_step q q'"
| step_succeed: "succeed n i owner q = Inr q' \<Longrightarrow> queue_step q q'"
| step_fail: "fail n jitter i owner e a q = Inr q' \<Longrightarrow> queue_step q q'"
| step_clean: "(\<And>j. \<not> keep j \<Longrightarrow> \<not> active_state (j_state j)) \<Longrightarrow> queue_step q (filter keep q)"
| step_retire: "queue_step q (retire_sync_jobs n og cal q)"

lemma retire_ok: "queue_ok q \<Longrightarrow> queue_ok (retire_sync_jobs n og cal q)"
  unfolding retire_sync_jobs_def
  by (rule queue_ok_map) (auto simp: keeps_keys_def job_key_def row_ok_def active_state_def queue_ok_def)

lemma queue_step_ok: "queue_step q q' \<Longrightarrow> queue_ok q \<Longrightarrow> queue_ok q'"
proof (induction rule: queue_step.induct)
  case (step_renew n i owner secs q b q')
  then show ?case using renew_ok [of q n i owner secs] by simp
qed (auto intro: enqueue_ok enqueueOnce_ok lease_ok succeed_ok fail_ok queue_ok_filter retire_ok)

lemma reachable_ok: "queue_step\<^sup>*\<^sup>* [] q \<Longrightarrow> queue_ok q"
  by (induction rule: rtranclp_induct) (simp add: queue_ok_def, blast intro: queue_step_ok)

text \<open>
  C32: In every table that the operations can produce, starting from the empty one and in any
  interleaving, identities are unique, at most one active job exists per organization, kind and
  deduplication key, and exactly the leased jobs have an owner and an expiry.
\<close>

theorem reachable_queue_is_consistent:
  assumes "queue_step\<^sup>*\<^sup>* [] q"
  shows "distinct (map j_id q)
    \<and> (\<forall>i \<in> set q. \<forall>j \<in> set q. active_state (j_state i) \<and> active_state (j_state j)
         \<and> (j_organization i, j_kind i, j_dedupe i) = (j_organization j, j_kind j, j_dedupe j) \<longrightarrow> i = j)
    \<and> (\<forall>j \<in> set q. (j_state j = Leased \<longleftrightarrow> j_owner j \<noteq> None) \<and> (j_state j = Leased \<longleftrightarrow> j_expires j \<noteq> None))"
proof -
  from assms have "queue_ok q" by (rule reachable_ok)
  then show ?thesis by (auto simp: queue_ok_def row_ok_def inj_on_def job_key_def)
qed

subsection \<open>Ownership while a lease is live\<close>

text \<open>
  What everybody else can do to the table while a worker holds the lease of one job until a given
  time: any operation on other jobs or under other owners, and leasing until the lease ends.
\<close>

inductive foreign_step :: "string \<Rightarrow> string \<Rightarrow> int \<Rightarrow> jobs \<Rightarrow> jobs \<Rightarrow> bool" for ident owner until where
  foreign_enqueue: "enqueue n i og k d p ra q = Inr (r, q') \<Longrightarrow> foreign_step ident owner until q q'"
| foreign_once: "enqueueOnce n i og k d p ra q = Inr (r, q') \<Longrightarrow> foreign_step ident owner until q q'"
| foreign_lease: "lease locked n w limit secs q = (out, q') \<Longrightarrow> n \<le> until \<Longrightarrow> foreign_step ident owner until q q'"
| foreign_renew: "renew n i w secs q = (b, q') \<Longrightarrow> (i, w) \<noteq> (ident, owner) \<Longrightarrow> foreign_step ident owner until q q'"
| foreign_succeed: "succeed n i w q = Inr q' \<Longrightarrow> (i, w) \<noteq> (ident, owner) \<Longrightarrow> foreign_step ident owner until q q'"
| foreign_fail: "fail n jitter i w e a q = Inr q' \<Longrightarrow> (i, w) \<noteq> (ident, owner) \<Longrightarrow> foreign_step ident owner until q q'"
| foreign_clean: "(\<And>j. \<not> keep j \<Longrightarrow> \<not> active_state (j_state j)) \<Longrightarrow> foreign_step ident owner until q (filter keep q)"
| foreign_retire: "foreign_step ident owner until q (retire_sync_jobs n og cal q)"

lemma foreign_is_step: "foreign_step ident owner until q q' \<Longrightarrow> queue_step q q'"
  by (induction rule: foreign_step.induct) (blast intro: queue_step.intros)+

definition holds_lease :: "string \<Rightarrow> string \<Rightarrow> int \<Rightarrow> job \<Rightarrow> bool" where
  "holds_lease ident owner until j \<longleftrightarrow> owned ident owner j \<and> j_expires j = Some until"

lemma enqueue_keeps: "enqueue n i og k d p ra q = Inr (r, q') \<Longrightarrow> j \<in> set q \<Longrightarrow> j \<in> set q'"
  by (erule enqueue_cases) auto

lemma update_owned_keeps: "\<not> owned i w j \<Longrightarrow> j \<in> set q \<Longrightarrow> j \<in> set (snd (update_owned i w f q))"
  by (force simp: update_owned_def)

lemma expireLeases_keeps: "holds_lease ident owner until j \<Longrightarrow> n \<le> until \<Longrightarrow> j \<in> set q \<Longrightarrow> j \<in> set (expireLeases n q)"
  by (force simp: expireLeases_def holds_lease_def)

lemma not_selected:
  assumes "queue_ok q" "j \<in> set q" "\<not> due n j"
  shows "j_id j \<notin> j_id ` set (selectDue locked n limit q)"
proof
  assume "j_id j \<in> j_id ` set (selectDue locked n limit q)"
  then obtain k where k: "k \<in> set (selectDue locked n limit q)" "j_id j = j_id k" by auto
  then have "k \<in> set q" "due n k" using set_selectDue by blast+
  with assms k(2) same_id show False by metis
qed

lemma lease_keeps:
  assumes "lease locked n w limit secs q = (out, q')" "queue_ok q" "j \<in> set (expireLeases n q)" "\<not> due n j"
  shows "j \<in> set q'" "j_id j \<notin> l_id ` set out"
proof -
  have "j_id j \<notin> j_id ` set (selectDue locked n limit (expireLeases n q))"
    using not_selected [OF expireLeases_ok] assms(2-4) by blast
  with assms(1,3) show "j \<in> set q'" "j_id j \<notin> l_id ` set out"
    by (force simp: lease_def Let_def split: if_splits)+
qed

lemma holds_not_due [simp]: "holds_lease ident owner until j \<Longrightarrow> \<not> due n j"
  by (simp add: holds_lease_def owned_def due_def)

lemma renew_snd: "renew n i w secs q = (b, q') \<Longrightarrow> \<exists>f. q' = snd (update_owned i w f q)"
  by (auto simp: renew_def split: prod.splits) (metis snd_conv)+

lemma foreign_step_keeps:
  assumes "foreign_step ident owner until q q'" "queue_ok q" "j \<in> set q" "holds_lease ident owner until j"
  shows "j \<in> set q'"
  using assms
proof (induction rule: foreign_step.induct)
  case (foreign_lease locked n w limit secs q out q')
  then show ?case using lease_keeps(1) expireLeases_keeps holds_not_due by blast
next
  case (foreign_renew n i w secs q b q')
  then show ?case using renew_snd update_owned_keeps by (metis holds_lease_def option.inject owned_def)
next
  case (foreign_clean keep q)
  then show ?case by (auto simp: holds_lease_def owned_def active_state_def)
next
  case (foreign_retire q n og cal)
  then show ?case by (force simp: retire_sync_jobs_def holds_lease_def owned_def)
qed (auto simp: enqueueOnce_def bindE_Inr_iff succeed_def fail_def holds_lease_def owned_def
     intro: enqueue_keeps update_owned_keeps dest!: transition_Inr split: if_splits)

lemma foreign_steps_keep:
  assumes "(foreign_step ident owner until)\<^sup>*\<^sup>* q q'" "queue_ok q" "j \<in> set q" "holds_lease ident owner until j"
  shows "j \<in> set q'" "queue_ok q'"
proof -
  from assms have "j \<in> set q' \<and> queue_ok q'"
    by (induction rule: rtranclp_induct) (use foreign_step_keeps queue_step_ok foreign_is_step in blast)+
  then show "j \<in> set q'" "queue_ok q'" by auto
qed

lemma lease_out:
  assumes "lease locked n owner limit secs q = (out, q')" "l \<in> set out" "queue_ok q"
  obtains j where "j \<in> set q'" "holds_lease (l_id l) owner (n + secs * 1000) j" "j_attempts j = l_attemptCount l"
    "job_key j = (l_organizationId l, l_kind l, j_dedupe j)" "j_payload j = l_payload l"
proof -
  let ?rows = "selectDue locked n limit (expireLeases n q)"
  from assms(1,2) obtain row where row: "row \<in> set ?rows" "l_id l = j_id row" "l_attemptCount l = j_attempts row + 1"
      "l_organizationId l = j_organization row" "l_kind l = j_kind row" "l_payload l = j_payload row"
    by (auto simp: lease_def Let_def split: if_splits)
  let ?f = "\<lambda>j. j\<lparr>j_state := Leased, j_owner := Some owner, j_expires := Some (n + secs * 1000),
      j_attempts := j_attempts j + 1, j_updated := n\<rparr>"
  from row(1) assms(1) set_selectDue [OF row(1)] have "?f row \<in> set q'"
    by (force simp: lease_def Let_def split: if_splits)
  with row show thesis by (intro that [of "?f row"]) (auto simp: holds_lease_def owned_def job_key_def)
qed

subsection \<open>Transitions by the owner and by anybody else\<close>

lemma filter_eq_single: "distinct xs \<Longrightarrow> x \<in> set xs \<Longrightarrow> filter ((=) x) xs = [x]"
  by (induction xs) (auto simp: filter_empty_conv)

lemma owned_unique:
  assumes "queue_ok q" "j \<in> set q" "owned ident owner j"
  shows "filter (owned ident owner) q = [j]"
proof -
  have "owned ident owner i \<longleftrightarrow> i = j" if "i \<in> set q" for i
    using same_id [OF assms(1) that assms(2)] assms(3) by (auto simp: owned_def)
  then have "filter (owned ident owner) q = filter ((=) j) q" by (auto intro: filter_cong)
  also have "distinct q" using assms(1) by (auto simp: queue_ok_def distinct_map)
  with assms(2) have "filter ((=) j) q = [j]" by (simp add: filter_eq_single)
  finally show ?thesis .
qed

lemma update_owned_other:
  assumes "queue_ok q" "j \<in> set q" "holds_lease ident owner until j" "w \<noteq> owner"
  shows "update_owned ident w f q = (0, q)"
proof -
  have "\<not> owned ident w i" if "i \<in> set q" for i
    using same_id [OF assms(1) that assms(2)] assms(3,4) by (auto simp: owned_def holds_lease_def)
  then show ?thesis by (simp add: update_owned_def map_idI)
qed

lemma transition_stores: "transition ident owner f q = Inr q' \<Longrightarrow> j \<in> set q \<Longrightarrow> owned ident owner j \<Longrightarrow> f j \<in> set q'"
  by (auto dest!: transition_Inr simp: update_owned_def)

lemma transition_own:
  assumes "queue_ok q" "j \<in> set q" "owned ident owner j"
  obtains q' where "transition ident owner f q = Inr q'" "f j \<in> set q'"
  using owned_unique [OF assms] assms(2,3) by (auto simp: transition_def update_owned_def)

lemma succeed_own:
  assumes "queue_ok q" "j \<in> set q" "owned ident owner j"
  obtains q' i where "succeed t ident owner q = Inr q'" "i \<in> set q'" "j_id i = ident" "j_state i = Succeeded"
proof -
  define f :: "job \<Rightarrow> job" where
    "f j = j\<lparr>j_state := Succeeded, j_owner := None, j_expires := None, j_error := None, j_updated := t\<rparr>" for j
  obtain q' where q': "transition ident owner f q = Inr q'" "f j \<in> set q'" by (rule transition_own [OF assms])
  show thesis
  proof (rule that [of q' "f j"])
    show "succeed t ident owner q = Inr q'" using q'(1) by (simp add: succeed_def f_def [abs_def])
  qed (use q'(2) assms(3) in \<open>simp_all add: f_def owned_def\<close>)
qed

text \<open>
  C31: A job is in the hands of one worker at a time. After a worker leased a job, whatever all the
  others do (their own leases, renewals and results, new jobs, clean-up) until the lease ends, no
  lease hands the job out again, the worker can still record its success, and a renewal or a result
  under any other owner is refused and changes nothing.
\<close>

theorem live_lease_is_exclusive:
  assumes "queue_step\<^sup>*\<^sup>* [] q" "lease locked n owner limit secs q = (out, q1)" "l \<in> set out"
    "(foreign_step (l_id l) owner (n + secs * 1000))\<^sup>*\<^sup>* q1 q2"
  shows "(n' \<le> n + secs * 1000 \<longrightarrow> l_id l \<notin> l_id ` set (fst (lease locked' n' w' limit' secs' q2)))
    \<and> (\<exists>q3. succeed t (l_id l) owner q2 = Inr q3 \<and> (\<exists>j \<in> set q3. j_id j = l_id l \<and> j_state j = Succeeded))
    \<and> (w \<noteq> owner \<longrightarrow> renew t (l_id l) w secs' q2 = (False, q2)
         \<and> succeed t (l_id l) w q2 = Inl (JobLeaseLost (l_id l))
         \<and> fail t jitter (l_id l) w e a q2 = Inl (JobLeaseLost (l_id l)))"
proof (intro conjI impI)
  from assms(1) have ok: "queue_ok q" by (rule reachable_ok)
  from lease_out [OF assms(2,3) ok] obtain j where
    j1: "j \<in> set q1" and h: "holds_lease (l_id l) owner (n + secs * 1000) j" by blast
  note j2 = foreign_steps_keep [OF assms(4) lease_ok [OF assms(2) ok] j1 h]
  have ident: "j_id j = l_id l" and own: "owned (l_id l) owner j" using h by (auto simp: holds_lease_def owned_def)
  show "l_id l \<notin> l_id ` set (fst (lease locked' n' w' limit' secs' q2))" if "n' \<le> n + secs * 1000"
    using lease_keeps(2) [OF prod.collapse [symmetric] j2(2) expireLeases_keeps [OF h that j2(1)]] h ident by simp
  show "\<exists>q3. succeed t (l_id l) owner q2 = Inr q3 \<and> (\<exists>j \<in> set q3. j_id j = l_id l \<and> j_state j = Succeeded)"
    by (rule succeed_own [OF j2(2,1) own]) blast
  show "w \<noteq> owner \<Longrightarrow> renew t (l_id l) w secs' q2 = (False, q2)"
    "w \<noteq> owner \<Longrightarrow> succeed t (l_id l) w q2 = Inl (JobLeaseLost (l_id l))"
    "w \<noteq> owner \<Longrightarrow> fail t jitter (l_id l) w e a q2 = Inl (JobLeaseLost (l_id l))"
    by (simp_all add: renew_def succeed_def fail_def transition_def update_owned_other [OF j2(2,1) h])
qed

lemma fst_lease:
  "fst (lease locked n owner limit secs q) =
     map (\<lambda>row. \<lparr>l_id = j_id row, l_organizationId = j_organization row, l_kind = j_kind row,
       l_payload = j_payload row, l_attemptCount = j_attempts row + 1\<rparr>) (selectDue locked n limit (expireLeases n q))"
  by (simp add: lease_def Let_def)

lemma lease_hands_out:
  "row \<in> set (selectDue locked n limit (expireLeases n q)) \<Longrightarrow>
   \<exists>l \<in> set (fst (lease locked n owner limit secs q)). l_id l = j_id row \<and> l_kind l = j_kind row
     \<and> l_payload l = j_payload row \<and> l_attemptCount l = j_attempts row + 1"
  unfolding fst_lease by (fastforce simp del: leased_job.ext_inject)

lemma transition_owner:
  assumes "transition ident owner f q = Inr q'"
  obtains i where "i \<in> set q" "owned ident owner i"
proof -
  from assms have "filter (owned ident owner) q \<noteq> []" by (auto simp: transition_def update_owned_def split: if_splits)
  then show thesis using that by (auto simp: filter_empty_conv)
qed

subsection \<open>Recovery and back-off\<close>

lemma selectDue_all: "length q \<le> limit \<Longrightarrow>
  set (selectDue locked n limit q) = {j \<in> set q. due n j \<and> j_id j \<notin> set locked}"
  unfolding selectDue_def
  by (subst take_all) (auto intro: order_trans [OF length_filter_le] simp: le_trans [OF length_filter_le])

text \<open>
  A job whose worker died is not lost. When its lease has expired, its time has come and nobody
  holds its row, the next lease that takes enough rows hands it to the new worker with one more
  attempt.
\<close>

theorem expired_lease_is_recovered:
  assumes "queue_step\<^sup>*\<^sup>* [] q" "j \<in> set q" "j_state j = Leased" "j_expires j = Some e" "e < n"
    "j_run_after j \<le> n" "j_id j \<notin> set locked" "length q \<le> limit"
  shows "\<exists>l \<in> set (fst (lease locked n owner limit secs q)).
    l_id l = j_id j \<and> l_kind l = j_kind j \<and> l_payload l = j_payload j \<and> l_attemptCount l = j_attempts j + 1"
proof -
  let ?j = "j\<lparr>j_state := Retry, j_owner := None, j_expires := None\<rparr>"
  have "?j \<in> set (expireLeases n q)" using assms(2-5) by (force simp: expireLeases_def)
  moreover have "length (expireLeases n q) \<le> limit" using assms(8) by (simp add: expireLeases_def)
  ultimately have "?j \<in> set (selectDue locked n limit (expireLeases n q))"
    using assms(6,7) by (simp add: selectDue_all due_def)
  then have "\<exists>l \<in> set (fst (lease locked n owner limit secs q)).
      l_id l = j_id ?j \<and> l_kind l = j_kind ?j \<and> l_payload l = j_payload ?j \<and> l_attemptCount l = j_attempts ?j + 1"
    by (rule lease_hands_out)
  then show ?thesis by simp
qed

text \<open>
  A failed attempt is recorded and waited out. The job is given up exactly when the error says
  that it cannot be retried or when it was the tenth attempt; otherwise it becomes due again after
  the doubled pause. No lease hands it out before that, and none ever when it was given up.
\<close>

theorem failed_job_waits:
  assumes "queue_step\<^sup>*\<^sup>* [] q" "fail n jitter ident owner e a q = Inr q'" "0 \<le> jitter" "jitter < 1000"
  shows "(\<exists>j \<in> set q'. j_id j = ident \<and> j_error j = Some (safeErrorCode e)
        \<and> (if retryable e = Some False \<or> 10 \<le> a then j_state j = Dead
           else j_state j = Retry \<and> j_run_after j = n + 2 ^ a * 1000 + jitter))
    \<and> (n' < n + 2 ^ min a 10 * 1000 \<or> retryable e = Some False \<or> 10 \<le> a
        \<longrightarrow> ident \<notin> l_id ` set (fst (lease locked n' w limit secs q')))"
proof (intro conjI impI)
  have ok: "queue_ok q" "queue_ok q'" using reachable_ok [OF assms(1)] fail_ok [OF assms(2)] by blast+
  from assms(2) obtain i where i: "i \<in> set q" "owned ident owner i" unfolding fail_def by (rule transition_owner)
  define j where "j = i\<lparr>j_state := (if gives_up e a then Dead else Retry),
       j_owner := None, j_expires := None, j_run_after := n + retryDelay a jitter,
       j_error := Some (safeErrorCode e), j_updated := n\<rparr>"
  have j: "j \<in> set q'" using transition_stores [OF assms(2) [unfolded fail_def] i] by (simp only: j_def)
  have "(2::int) ^ min a 10 \<le> 2 ^ 10" by (rule power_increasing) simp_all
  then have delay: "retryDelay a jitter = 2 ^ min a 10 * 1000 + jitter" using assms(4) by (simp add: retryDelay_def)
  show "\<exists>j \<in> set q'. j_id j = ident \<and> j_error j = Some (safeErrorCode e)
      \<and> (if retryable e = Some False \<or> 10 \<le> a then j_state j = Dead
         else j_state j = Retry \<and> j_run_after j = n + 2 ^ a * 1000 + jitter)"
    by (rule bexI [OF _ j]) (use i(2) delay in \<open>simp add: j_def owned_def gives_up_def min_def\<close>)
  assume "n' < n + 2 ^ min a 10 * 1000 \<or> retryable e = Some False \<or> 10 \<le> a"
  then have "\<not> due n' j" using delay assms(3) by (auto simp: j_def due_def gives_up_def)
  moreover have "j_state j \<noteq> Leased" "j_id j = ident" using i(2) by (simp_all add: j_def owned_def)
  moreover from this(1) j have "j \<in> set (expireLeases n' q')" by (force simp: expireLeases_def)
  ultimately show "ident \<notin> l_id ` set (fst (lease locked n' w limit secs q'))"
    using lease_keeps(2) [OF prod.collapse [symmetric] ok(2)] by metis
qed

subsection \<open>A concrete run\<close>

definition sample_job :: job where
  "sample_job = \<lparr>j_id = ''j'', j_organization = ''o'', j_kind = ''sync'', j_dedupe = ''k'', j_payload = JObj [],
     j_state = Pending, j_attempts = 0, j_run_after = 500, j_owner = None, j_expires = None, j_error = None,
     j_updated = 500\<rparr>"

definition sample_leased :: jobs where
  "sample_leased = [sample_job\<lparr>j_state := Leased, j_owner := Some ''w1'', j_expires := Some 61000,
     j_attempts := 1, j_updated := 1000\<rparr>]"

definition sample_handout :: leased_job where
  "sample_handout = \<lparr>l_id = ''j'', l_organizationId = ''o'', l_kind = ''sync'', l_payload = JObj [], l_attemptCount = 1\<rparr>"

lemma sample_enqueue: "enqueue 500 ''j'' ''o'' ''sync'' ''k'' (JObj []) 500 [] = Inr (Some ''j'', [sample_job])"
  by (simp add: enqueue_def assertJobPayload_def conflicts_with_def sample_job_def)

lemma sample_lease: "lease [] 1000 ''w1'' 5 60 [sample_job] = ([sample_handout], sample_leased)"
  by (simp add: lease_def expireLeases_def selectDue_def due_def sample_job_def sample_leased_def sample_handout_def)

lemma sample_renew: "renew 2000 ''j'' ''w2'' 60 sample_leased = (False, sample_leased)"
  by (simp add: renew_def update_owned_def owned_def sample_leased_def)

lemma sample_reach: "queue_step\<^sup>*\<^sup>* [] [sample_job]" "queue_step\<^sup>*\<^sup>* [] sample_leased"
proof -
  show 1: "queue_step\<^sup>*\<^sup>* [] [sample_job]" using step_enqueue [OF sample_enqueue] by (rule r_into_rtranclp)
  show "queue_step\<^sup>*\<^sup>* [] sample_leased" using 1 step_lease [OF sample_lease] by (rule rtranclp.rtrancl_into_rtrancl)
qed

theorem reachable_queue_is_consistent_witness:
  "queue_step\<^sup>*\<^sup>* [] sample_leased \<and> distinct (map j_id sample_leased)"
  using reachable_queue_is_consistent [OF sample_reach(2)] sample_reach(2) by blast

theorem live_lease_is_exclusive_witness:
  "(foreign_step ''j'' ''w1'' 61000)\<^sup>*\<^sup>* sample_leased sample_leased
   \<and> ''j'' \<notin> l_id ` set (fst (lease [] 3000 ''w2'' 5 60 sample_leased))
   \<and> fail 3000 7 ''j'' ''w2'' (ThrownOther None) 1 sample_leased = Inl (JobLeaseLost ''j'')"
proof -
  have f: "(foreign_step ''j'' ''w1'' 61000)\<^sup>*\<^sup>* sample_leased sample_leased"
    using foreign_renew [OF sample_renew] by (rule r_into_rtranclp) simp
  then have f': "(foreign_step (l_id sample_handout) ''w1'' (1000 + 60 * 1000))\<^sup>*\<^sup>* sample_leased sample_leased"
    by (simp add: sample_handout_def)
  show ?thesis
    using live_lease_is_exclusive [OF sample_reach(1) sample_lease _ f', of 3000 "[]" "''w2''" 5 60 3000 "''w2''" 7
        "ThrownOther None" 1] f
    by (simp add: sample_handout_def)
qed

theorem expired_lease_is_recovered_witness:
  "\<exists>l \<in> set (fst (lease [] 70000 ''w2'' 5 60 sample_leased)). l_id l = ''j'' \<and> l_attemptCount l = 2"
  using expired_lease_is_recovered [OF sample_reach(2), of "hd sample_leased" 61000 70000 "[]" 5 "''w2''" 60]
  by (simp add: sample_leased_def sample_job_def) blast

theorem failed_job_waits_witness:
  "''j'' \<notin> l_id ` set (fst (lease [] 6000 ''w1'' 5 60
     (projr (fail 5000 7 ''j'' ''w1'' (ThrownOther None) 1 sample_leased))))"
proof -
  have "\<exists>q'. fail 5000 7 ''j'' ''w1'' (ThrownOther None) 1 sample_leased = Inr q'"
    by (simp add: fail_def transition_def update_owned_def owned_def sample_leased_def sample_job_def)
  then obtain q' where q': "fail 5000 7 ''j'' ''w1'' (ThrownOther None) 1 sample_leased = Inr q'" by blast
  show ?thesis using failed_job_waits [OF sample_reach(2) q', of 6000 "[]" "''w1''" 5 60] q' by simp
qed

end
