(* ===== verification/Leased_Job.thy ===== *)
theory Leased_Job
  imports Job_Queue
begin

section \<open>Running one leased job (server/src/jobs/leased-job.ts)\<close>

text \<open>
  A worker dispatches a job and renews its lease in the background. The run of one job is an explicit
  sequence of events: heartbeats of this worker and steps of everybody else on the shared queue. Every
  call to the queue can be answered, or fail before or after the database applied it. The queue itself
  is a parameter (\<open>LeaseQueue\<close> in the source), with its contract as a locale.
\<close>

datatype call = Answered | LostBefore | LostAfter

text \<open>The outcome of a call: what it answers, or an error that says nothing about its effect.\<close>

definition via :: "call \<Rightarrow> ('q \<Rightarrow> 'a \<times> 'q) \<Rightarrow> 'q \<Rightarrow> 'a option \<times> 'q" where
  "via c f q = (case c of Answered \<Rightarrow> map_prod Some id (f q) | LostBefore \<Rightarrow> (None, q) | LostAfter \<Rightarrow> (None, snd (f q)))"

definition heartbeat_interval :: "int \<Rightarrow> int" where
  "heartbeat_interval leaseSeconds = max 1000 (leaseSeconds * 1000 div 3)"

record heartbeat =
  hb_stopped :: bool
  hb_lost :: bool

datatype 'q event = Beat int call | Others "'q \<Rightarrow> 'q"

type_synonym 'q renewal = "int \<Rightarrow> string \<Rightarrow> string \<Rightarrow> int \<Rightarrow> 'q \<Rightarrow> bool \<times> 'q"

text \<open>The callback of the timer. An error of the call is swallowed: it is no proof of a lost lease.\<close>

definition beat :: "'q renewal \<Rightarrow> string \<Rightarrow> string \<Rightarrow> int \<Rightarrow> int \<Rightarrow> call \<Rightarrow> heartbeat \<times> 'q \<Rightarrow> heartbeat \<times> 'q" where
  "beat renewOp jobId owner leaseSeconds t c hq =
     (let (hb, q) = hq
      in if hb_stopped hb \<or> hb_lost hb then (hb, q)
         else case via c (renewOp t jobId owner leaseSeconds) q of
                (Some ok, q') \<Rightarrow> (hb\<lparr>hb_lost := \<not> ok\<rparr>, q')
              | (None, q') \<Rightarrow> (hb, q'))"

fun during_dispatch ::
  "'q renewal \<Rightarrow> string \<Rightarrow> string \<Rightarrow> int \<Rightarrow> 'q event list \<Rightarrow> heartbeat \<times> 'q \<Rightarrow> heartbeat \<times> 'q" where
  "during_dispatch renewOp jobId owner secs [] hq = hq"
| "during_dispatch renewOp jobId owner secs (Beat t c # es) hq =
     during_dispatch renewOp jobId owner secs es (beat renewOp jobId owner secs t c hq)"
| "during_dispatch renewOp jobId owner secs (Others g # es) hq =
     during_dispatch renewOp jobId owner secs es (fst hq, g (snd hq))"

text \<open>The final renewal: \<open>None\<close> when the call throws.\<close>

definition stopAndConfirmOwnership ::
  "'q renewal \<Rightarrow> string \<Rightarrow> string \<Rightarrow> int \<Rightarrow> int \<Rightarrow> call \<Rightarrow> heartbeat \<times> 'q \<Rightarrow> bool option \<times> 'q" where
  "stopAndConfirmOwnership renewOp jobId owner leaseSeconds t c hq =
     (let (hb, q) = hq; hb' = hb\<lparr>hb_stopped := True\<rparr>
      in if hb_lost hb' then (Some False, q) else via c (renewOp t jobId owner leaseSeconds) q)"

datatype job_result = JobSucceeded | JobFailed | LeaseLost | Threw

text \<open>A terminal transition: its success, a lost lease as an answer, or another error.\<close>

definition terminal :: "job_result \<Rightarrow> call \<Rightarrow> ('q \<Rightarrow> queue_error + 'q) \<Rightarrow> 'q \<Rightarrow> job_result \<times> 'q" where
  "terminal done c f q =
     (case via c (\<lambda>q. case f q of Inl err \<Rightarrow> (Some err, q) | Inr q' \<Rightarrow> (None, q')) q of
        (None, q') \<Rightarrow> (Threw, q')
      | (Some None, q') \<Rightarrow> (done, q')
      | (Some (Some (JobLeaseLost _)), q') \<Rightarrow> (LeaseLost, q')
      | (Some (Some _), q') \<Rightarrow> (Threw, q'))"

record 'q job_run =
  r_events :: "'q event list"
  r_outcome :: "thrown option"
  r_confirm_at :: int
  r_confirm :: call
  r_between :: "'q \<Rightarrow> 'q"
  r_finish_at :: int
  r_finish :: call
  r_jitter :: int

definition processLeasedJob ::
  "'q renewal \<Rightarrow> (int \<Rightarrow> string \<Rightarrow> string \<Rightarrow> 'q \<Rightarrow> queue_error + 'q)
   \<Rightarrow> (int \<Rightarrow> int \<Rightarrow> string \<Rightarrow> string \<Rightarrow> thrown \<Rightarrow> nat \<Rightarrow> 'q \<Rightarrow> queue_error + 'q)
   \<Rightarrow> leased_job \<Rightarrow> string \<Rightarrow> int \<Rightarrow> 'q job_run \<Rightarrow> 'q \<Rightarrow> job_result \<times> 'q" where
  "processLeasedJob renewOp succeedOp failOp j owner leaseSeconds run q =
     (let hq = during_dispatch renewOp (l_id j) owner leaseSeconds (r_events run)
                 (\<lparr>hb_stopped = False, hb_lost = False\<rparr>, q)
      in case stopAndConfirmOwnership renewOp (l_id j) owner leaseSeconds (r_confirm_at run) (r_confirm run) hq of
           (None, q1) \<Rightarrow> (Threw, q1)
         | (Some False, q1) \<Rightarrow> (LeaseLost, q1)
         | (Some True, q1) \<Rightarrow>
             (case r_outcome run of
                Some error \<Rightarrow> terminal JobFailed (r_finish run)
                  (failOp (r_finish_at run) (r_jitter run) (l_id j) owner error (nat (l_attemptCount j)))
                  (r_between run q1)
              | None \<Rightarrow> terminal JobSucceeded (r_finish run) (succeedOp (r_finish_at run) (l_id j) owner)
                  (r_between run q1)))"

subsection \<open>What the steps of the others may do\<close>

text \<open>
  The end of the lease after some events, and that every step of the others is one that is allowed
  while the lease runs to its end at that moment.
\<close>

fun lease_end :: "int \<Rightarrow> int \<Rightarrow> 'q event list \<Rightarrow> int" where
  "lease_end secs until [] = until"
| "lease_end secs until (Beat t c # es) = lease_end secs (if c = LostBefore then until else t + secs * 1000) es"
| "lease_end secs until (Others g # es) = lease_end secs until es"

fun respected :: "(int \<Rightarrow> ('q \<Rightarrow> 'q) \<Rightarrow> bool) \<Rightarrow> int \<Rightarrow> int \<Rightarrow> 'q event list \<Rightarrow> bool" where
  "respected ok secs until [] \<longleftrightarrow> True"
| "respected ok secs until (Beat t c # es) \<longleftrightarrow> respected ok secs (if c = LostBefore then until else t + secs * 1000) es"
| "respected ok secs until (Others g # es) \<longleftrightarrow> ok until g \<and> respected ok secs until es"

fun others_only :: "'q event list \<Rightarrow> 'q \<Rightarrow> 'q" where
  "others_only [] q = q"
| "others_only (Beat t c # es) q = others_only es q"
| "others_only (Others g # es) q = others_only es (g q)"

definition foreign_steps :: "'q event list \<Rightarrow> ('q \<Rightarrow> 'q) set" where
  "foreign_steps es = {g. Others g \<in> set es}"

lemma foreign_steps_simps [simp]:
  "foreign_steps [] = {}" "foreign_steps (Beat t c # es) = foreign_steps es"
  "foreign_steps (Others g # es) = insert g (foreign_steps es)"
  by (auto simp: foreign_steps_def)

lemma via_simps [simp]:
  "via Answered f q = (Some (fst (f q)), snd (f q))" "via LostBefore f q = (None, q)" "via LostAfter f q = (None, snd (f q))"
  by (auto simp: via_def map_prod_def split: prod.splits)

lemma during_dispatch_append:
  "during_dispatch renewOp i w secs (es @ es') hq = during_dispatch renewOp i w secs es' (during_dispatch renewOp i w secs es hq)"
proof (induction es arbitrary: hq)
  case (Cons e es)
  then show ?case by (cases e) simp_all
qed simp

lemma foreign_steps_append [simp]: "foreign_steps (es @ es') = foreign_steps es \<union> foreign_steps es'"
  by (auto simp: foreign_steps_def)

lemma terminal_Inr: "f q = Inr q' \<Longrightarrow> terminal done Answered f q = (done, q')"
  by (simp add: terminal_def)

subsection \<open>The contract of the queue\<close>

locale lease_queue =
  fixes renewOp :: "'q renewal"
    and succeedOp :: "int \<Rightarrow> string \<Rightarrow> string \<Rightarrow> 'q \<Rightarrow> queue_error + 'q"
    and failOp :: "int \<Rightarrow> int \<Rightarrow> string \<Rightarrow> string \<Rightarrow> thrown \<Rightarrow> nat \<Rightarrow> 'q \<Rightarrow> queue_error + 'q"
    and invar :: "'q \<Rightarrow> bool"
    and holds :: "string \<Rightarrow> string \<Rightarrow> int \<Rightarrow> 'q \<Rightarrow> bool"
    and ended :: "string \<Rightarrow> job_state \<Rightarrow> 'q \<Rightarrow> bool"
  assumes renew_held: "invar q \<Longrightarrow> holds i w u q
      \<Longrightarrow> fst (renewOp t i w secs q) \<and> invar (snd (renewOp t i w secs q)) \<and> holds i w (t + secs * 1000) (snd (renewOp t i w secs q))"
    and renew_lost: "invar q \<Longrightarrow> \<forall>u. \<not> holds i w u q \<Longrightarrow> renewOp t i w secs q = (False, q)"
    and succeed_held: "invar q \<Longrightarrow> holds i w u q \<Longrightarrow> \<exists>q'. succeedOp t i w q = Inr q' \<and> ended i Succeeded q'"
    and fail_held: "invar q \<Longrightarrow> holds i w u q
      \<Longrightarrow> \<exists>q'. failOp t jitter i w e n q = Inr q' \<and> ended i (if gives_up e n then Dead else Retry) q'"
    and succeed_lost: "invar q \<Longrightarrow> \<forall>u. \<not> holds i w u q \<Longrightarrow> succeedOp t i w q = Inl (JobLeaseLost i)"
    and fail_lost: "invar q \<Longrightarrow> \<forall>u. \<not> holds i w u q \<Longrightarrow> failOp t jitter i w e n q = Inl (JobLeaseLost i)"
begin

lemma renew_invar: "invar q \<Longrightarrow> invar (snd (renewOp t i w secs q))"
  using renew_held renew_lost by (cases "\<exists>u. holds i w u q") auto

lemma beat_invar: "invar q \<Longrightarrow> invar (snd (beat renewOp i w secs t c (hb, q)))"
  using renew_invar [of q t i w secs] by (cases c) (auto simp: beat_def)

lemma dispatch_invar:
  assumes "\<forall>g \<in> foreign_steps es. \<forall>q. invar q \<longrightarrow> invar (g q)"
  shows "invar (snd hq) \<Longrightarrow> invar (snd (during_dispatch renewOp i w secs es hq))"
  using assms
proof (induction es arbitrary: hq)
  case (Cons e es)
  then show ?case by (cases e; cases hq) (simp_all add: beat_invar)
qed simp

lemma beat_lost:
  assumes "invar q" "\<forall>u. \<not> holds i w u q"
  shows "snd (beat renewOp i w secs t c (hb, q)) = q"
  using renew_lost [OF assms] by (cases c) (auto simp: beat_def)

lemma dispatch_lost:
  assumes "invar q" "\<forall>u. \<not> holds i w u q"
    and "\<forall>g \<in> foreign_steps es. \<forall>q. invar q \<and> (\<forall>u. \<not> holds i w u q) \<longrightarrow> invar (g q) \<and> (\<forall>u. \<not> holds i w u (g q))"
  shows "\<exists>hb'. during_dispatch renewOp i w secs es (hb, q) = (hb', others_only es q)
    \<and> invar (others_only es q) \<and> (\<forall>u. \<not> holds i w u (others_only es q))"
  using assms
proof (induction es arbitrary: hb q)
  case (Cons e es)
  show ?case
  proof (cases e)
    case (Beat t c)
    have "beat renewOp i w secs t c (hb, q) = (fst (beat renewOp i w secs t c (hb, q)), q)"
      using beat_lost [OF Cons.prems(1,2)] by (metis prod.collapse)
    with Beat Cons show ?thesis by (metis during_dispatch.simps(2) foreign_steps_simps(2) others_only.simps(2))
  qed (use Cons in simp)
qed simp

text \<open>
  A worker that loses its lease at some moment of the dispatch and does not get it back records nothing
  from then on; when the final renewal is answered, it reports the loss.
\<close>

lemma lost_worker_is_silent:
  assumes "r_events run = es @ es'" "during_dispatch renewOp (l_id j) w secs es (\<lparr>hb_stopped = False, hb_lost = False\<rparr>, q) = (hb, q1)"
    "invar q1" "\<forall>u. \<not> holds (l_id j) w u q1"
    and "\<forall>g \<in> foreign_steps es'. \<forall>q. invar q \<and> (\<forall>u. \<not> holds (l_id j) w u q)
      \<longrightarrow> invar (g q) \<and> (\<forall>u. \<not> holds (l_id j) w u (g q))"
  shows "\<exists>r. processLeasedJob renewOp succeedOp failOp j w secs run q = (r, others_only es' q1)
    \<and> (r = LeaseLost \<or> r_confirm run \<noteq> Answered \<and> r = Threw)"
proof -
  from dispatch_lost [OF assms(3-5)] obtain hb' where
    d: "during_dispatch renewOp (l_id j) w secs (r_events run) (\<lparr>hb_stopped = False, hb_lost = False\<rparr>, q)
      = (hb', others_only es' q1)"
    and h: "invar (others_only es' q1)" "\<forall>u. \<not> holds (l_id j) w u (others_only es' q1)"
    by (metis assms(1,2) during_dispatch_append)
  show ?thesis unfolding processLeasedJob_def Let_def d stopAndConfirmOwnership_def
    by (cases "r_confirm run") (auto simp: renew_lost [OF h])
qed

text \<open>When the lease is lost after the final renewal, the terminal transition changes nothing and reports it.\<close>

lemma late_loss_is_reported:
  assumes "stopAndConfirmOwnership renewOp (l_id j) w secs (r_confirm_at run) (r_confirm run)
      (during_dispatch renewOp (l_id j) w secs (r_events run) (\<lparr>hb_stopped = False, hb_lost = False\<rparr>, q)) = (Some True, q2)"
    "invar (r_between run q2)" "\<forall>u. \<not> holds (l_id j) w u (r_between run q2)"
  shows "processLeasedJob renewOp succeedOp failOp j w secs run q = (if r_finish run = Answered then LeaseLost else Threw, r_between run q2)"
  unfolding processLeasedJob_def Let_def assms(1)
  by (cases "r_finish run"; cases "r_outcome run") (simp_all add: terminal_def succeed_lost [OF assms(2,3)] fail_lost [OF assms(2,3)])

lemma beat_held:
  assumes "invar q" "holds i w u q" "\<not> hb_lost hb" "\<not> hb_stopped hb"
  obtains q' where "beat renewOp i w secs t c (hb, q) = (hb, q')" "invar q'"
    "holds i w (if c = LostBefore then u else t + secs * 1000) q'"
proof (cases c)
  case Answered
  then show thesis using that [of "snd (renewOp t i w secs q)"] renew_held [OF assms(1,2), of t secs] assms(3,4)
    by (cases hb) (simp add: beat_def)
next
  case LostBefore
  then show thesis using that [of q] assms by (simp add: beat_def)
next
  case LostAfter
  then show thesis using that [of "snd (renewOp t i w secs q)"] renew_held [OF assms(1,2), of t secs] assms(3,4)
    by (simp add: beat_def)
qed

lemma dispatch_held:
  assumes "invar q" "holds i w u q" "\<not> hb_lost hb" "\<not> hb_stopped hb" "respected ok secs u es"
    and "\<forall>g q u. ok u g \<and> invar q \<and> holds i w u q \<longrightarrow> invar (g q) \<and> holds i w u (g q)"
  shows "\<exists>q'. during_dispatch renewOp i w secs es (hb, q) = (hb, q') \<and> invar q' \<and> holds i w (lease_end secs u es) q'"
  using assms(1,2,5)
proof (induction es arbitrary: q u)
  case (Cons e es)
  show ?case
  proof (cases e)
    case (Beat t c)
    from beat_held [OF Cons.prems(1,2) assms(3,4)] obtain q' where
      "beat renewOp i w secs t c (hb, q) = (hb, q')" "invar q'" "holds i w (if c = LostBefore then u else t + secs * 1000) q'" .
    with Beat Cons.IH [of q'] Cons.prems(3) show ?thesis by simp
  next
    case (Others g)
    with Cons.prems assms(6) have "invar (g q)" "holds i w u (g q)" "respected ok secs u es" by auto
    with Others Cons.IH [of "g q" u] show ?thesis by simp
  qed
qed simp

text \<open>A worker whose lease the others respect throughout records the outcome of its job.\<close>

lemma held_job_is_recorded:
  assumes "invar q" "holds (l_id j) w u q" "respected ok secs u (r_events run)" "ok (r_confirm_at run + secs * 1000) (r_between run)"
    "r_confirm run = Answered" "r_finish run = Answered"
    and "\<forall>g q u. ok u g \<and> invar q \<and> holds (l_id j) w u q \<longrightarrow> invar (g q) \<and> holds (l_id j) w u (g q)"
  shows "\<exists>q'. processLeasedJob renewOp succeedOp failOp j w secs run q =
      (case r_outcome run of None \<Rightarrow> (JobSucceeded, q') | Some e \<Rightarrow> (JobFailed, q'))
    \<and> ended (l_id j) (case r_outcome run of None \<Rightarrow> Succeeded
        | Some e \<Rightarrow> if gives_up e (nat (l_attemptCount j)) then Dead else Retry) q'"
proof -
  let ?hb = "\<lparr>hb_stopped = False, hb_lost = False\<rparr>"
  from dispatch_held [OF assms(1,2) _ _ assms(3,7), of ?hb] obtain q1 u1 where
    d: "during_dispatch renewOp (l_id j) w secs (r_events run) (?hb, q) = (?hb, q1)"
    and q1: "invar q1" "holds (l_id j) w u1 q1" by auto
  let ?q2 = "snd (renewOp (r_confirm_at run) (l_id j) w secs q1)"
  from renew_held [OF q1, of "r_confirm_at run" secs] assms(4,7)
  have fin: "fst (renewOp (r_confirm_at run) (l_id j) w secs q1)"
    "invar (r_between run ?q2)" "holds (l_id j) w (r_confirm_at run + secs * 1000) (r_between run ?q2)" by blast+
  have "processLeasedJob renewOp succeedOp failOp j w secs run q =
      (case r_outcome run of None \<Rightarrow> terminal JobSucceeded Answered (succeedOp (r_finish_at run) (l_id j) w) (r_between run ?q2)
       | Some e \<Rightarrow> terminal JobFailed Answered
           (failOp (r_finish_at run) (r_jitter run) (l_id j) w e (nat (l_attemptCount j))) (r_between run ?q2))"
    using fin(1) by (simp add: processLeasedJob_def d stopAndConfirmOwnership_def assms(5,6) split: option.splits)
  then show ?thesis
    using succeed_held [OF fin(2,3), of "r_finish_at run"]
      fail_held [OF fin(2,3), of "r_finish_at run" "r_jitter run" "the (r_outcome run)" "nat (l_attemptCount j)"]
    by (cases "r_outcome run") (auto simp: terminal_Inr)
qed

end

subsection \<open>The queue in the database fulfils the contract\<close>

definition lease_held :: "string \<Rightarrow> string \<Rightarrow> int \<Rightarrow> jobs \<Rightarrow> bool" where
  "lease_held ident owner until q \<longleftrightarrow> list_ex (holds_lease ident owner until) q"

definition job_ended :: "string \<Rightarrow> job_state \<Rightarrow> jobs \<Rightarrow> bool" where
  "job_ended ident s q \<longleftrightarrow> list_ex (\<lambda>j. j_id j = ident \<and> j_state j = s) q"

lemma renew_own:
  assumes "queue_ok q" "j \<in> set q" "owned i w j"
  shows "fst (renew t i w secs q)" "lease_held i w (t + secs * 1000) (snd (renew t i w secs q))"
proof -
  let ?f = "\<lambda>j. j\<lparr>j_expires := Some (t + secs * 1000), j_updated := t\<rparr>"
  have r: "renew t i w secs q = (True, map (\<lambda>j. if owned i w j then ?f j else j) q)"
    using owned_unique [OF assms] by (simp add: renew_def update_owned_def)
  have "?f j \<in> set (map (\<lambda>j. if owned i w j then ?f j else j) q)" using assms(2,3) by force
  moreover have "holds_lease i w (t + secs * 1000) (?f j)" using assms(3) by (simp add: holds_lease_def owned_def)
  ultimately show "fst (renew t i w secs q)" "lease_held i w (t + secs * 1000) (snd (renew t i w secs q))"
    unfolding r lease_held_def list_ex_iff by (simp, auto)
qed

lemma fail_own:
  assumes "queue_ok q" "j \<in> set q" "owned i w j"
  shows "\<exists>q'. fail t jitter i w e n q = Inr q' \<and> job_ended i (if gives_up e n then Dead else Retry) q'"
proof -
  obtain q' where q': "fail t jitter i w e n q = Inr q'"
    unfolding fail_def by (rule transition_own [OF assms])
  have "job_ended i (if gives_up e n then Dead else Retry) q'"
    unfolding job_ended_def list_ex_iff
    by (rule bexI [OF _ transition_stores [OF q' [unfolded fail_def] assms(2,3)]]) (use assms(3) in \<open>simp add: owned_def\<close>)
  with q' show ?thesis by blast
qed

lemma no_lease_no_row:
  assumes "queue_ok q" "\<forall>u. \<not> lease_held i w u q"
  shows "update_owned i w f q = (0, q)"
proof -
  have "\<not> owned i w j" if "j \<in> set q" for j
    using assms that by (fastforce simp: lease_held_def list_ex_iff holds_lease_def queue_ok_def row_ok_def owned_def)
  then show ?thesis by (simp add: update_owned_def map_idI)
qed

interpretation postgres: lease_queue renew succeed fail queue_ok lease_held job_ended
proof (unfold_locales, goal_cases)
  case (1 q i w u t secs)
  then obtain j where j: "j \<in> set q" "owned i w j" by (auto simp: lease_held_def list_ex_iff holds_lease_def)
  from renew_own [OF 1(1) j] renew_ok [OF 1(1)] show ?case by blast
next
  case (2 q i w t secs)
  then show ?case by (simp add: renew_def no_lease_no_row)
next
  case (3 q i w u t)
  then obtain j where j: "j \<in> set q" "owned i w j" by (auto simp: lease_held_def list_ex_iff holds_lease_def)
  show ?case by (rule succeed_own [OF 3(1) j, of t]) (auto simp: job_ended_def list_ex_iff)
next
  case (4 q i w u t jitter e n)
  then obtain j where "j \<in> set q" "owned i w j" by (auto simp: lease_held_def list_ex_iff holds_lease_def)
  with 4(1) show ?case by (rule fail_own)
next
  case (5 q i w t)
  then show ?case by (simp add: succeed_def transition_def no_lease_no_row)
next
  case (6 q i w t jitter e n)
  then show ?case by (simp add: fail_def transition_def no_lease_no_row)
qed

text \<open>
  C33: The result of a job is recorded. When a worker leased a job, every heartbeat that gets through
  extends the lease, everybody else leaves a running lease alone, and the last two calls to the
  database are answered, then the run ends with the outcome of the job, in the row of that job:
  succeeded, to be retried, or given up.
\<close>

theorem held_lease_result_is_recorded:
  assumes "queue_step\<^sup>*\<^sup>* [] q" "lease locked n owner limit secs q = (out, q1)" "l \<in> set out"
    "respected (\<lambda>until g. \<forall>q. (foreign_step (l_id l) owner until)\<^sup>*\<^sup>* q (g q)) secs (n + secs * 1000) (r_events run)"
    "\<forall>q. (foreign_step (l_id l) owner (r_confirm_at run + secs * 1000))\<^sup>*\<^sup>* q (r_between run q)"
    "r_confirm run = Answered" "r_finish run = Answered"
  shows "\<exists>q'. processLeasedJob renew succeed fail l owner secs run q1 =
      (case r_outcome run of None \<Rightarrow> (JobSucceeded, q') | Some e \<Rightarrow> (JobFailed, q'))
    \<and> (\<exists>j \<in> set q'. j_id j = l_id l \<and> j_state j = (case r_outcome run of None \<Rightarrow> Succeeded
        | Some e \<Rightarrow> if gives_up e (nat (l_attemptCount l)) then Dead else Retry))"
proof -
  from assms(1) have ok: "queue_ok q" by (rule reachable_ok)
  from lease_out [OF assms(2,3) ok] have held: "lease_held (l_id l) owner (n + secs * 1000) q1"
    by (metis lease_held_def list_ex_iff)
  have ok1: "queue_ok q1" using assms(2) ok by (rule lease_ok)
  have keep: "\<forall>g q u. (\<forall>q. (foreign_step (l_id l) owner u)\<^sup>*\<^sup>* q (g q)) \<and> queue_ok q \<and> lease_held (l_id l) owner u q
      \<longrightarrow> queue_ok (g q) \<and> lease_held (l_id l) owner u (g q)"
    unfolding lease_held_def list_ex_iff by (blast dest: foreign_steps_keep)
  show ?thesis
    using postgres.held_job_is_recorded [OF ok1 held assms(4,5,6,7) keep]
    by (simp add: job_ended_def list_ex_iff)
qed

text \<open>No row of the job is leased to the worker.\<close>

definition disowned :: "string \<Rightarrow> string \<Rightarrow> jobs \<Rightarrow> bool" where
  "disowned ident owner q \<longleftrightarrow> list_all (\<lambda>j. \<not> owned ident owner j) q"

lemma disowned_iff: "queue_ok q \<Longrightarrow> disowned i w q \<longleftrightarrow> (\<forall>u. \<not> lease_held i w u q)"
  by (fastforce simp: disowned_def list_all_iff lease_held_def list_ex_iff holds_lease_def queue_ok_def row_ok_def owned_def)

lemma queue_steps_ok: "queue_step\<^sup>*\<^sup>* q q' \<Longrightarrow> queue_ok q \<Longrightarrow> queue_ok q'"
  by (induction rule: rtranclp_induct) (blast intro: queue_step_ok)+

text \<open>
  C34: A worker that lost its lease leaves no trace. Whenever, before the dispatch, during it or after it, the
  worker finds the job no longer leased to it, and the steps of the others do not lease the job to it again,
  the rest of its run, heartbeats and result included, changes nothing: the table ends as the others alone
  make it. The run reports a lost lease, or the error of the last renewal when that call is not answered. When
  the lease is lost only after the final renewal has confirmed it, the terminal transition changes nothing,
  and the run reports a lost lease, or the error of that call.
\<close>

theorem lost_lease_leaves_no_trace:
  assumes "queue_step\<^sup>*\<^sup>* [] q" "r_events run = es @ es'"
    "during_dispatch renew (l_id l) owner secs es (\<lparr>hb_stopped = False, hb_lost = False\<rparr>, q) = (hb, q1)"
    "\<forall>g \<in> insert (r_between run) (foreign_steps (r_events run)). \<forall>q. queue_step\<^sup>*\<^sup>* q (g q)"
    "\<forall>g \<in> foreign_steps es'. \<forall>q. disowned (l_id l) owner q \<longrightarrow> disowned (l_id l) owner (g q)"
  shows "(disowned (l_id l) owner q1 \<longrightarrow>
      (\<exists>r. processLeasedJob renew succeed fail l owner secs run q = (r, others_only es' q1)
        \<and> (r = LeaseLost \<or> r_confirm run \<noteq> Answered \<and> r = Threw)))
    \<and> (\<forall>q2. stopAndConfirmOwnership renew (l_id l) owner secs (r_confirm_at run) (r_confirm run)
          (during_dispatch renew (l_id l) owner secs (r_events run) (\<lparr>hb_stopped = False, hb_lost = False\<rparr>, q)) = (Some True, q2)
        \<and> disowned (l_id l) owner (r_between run q2) \<longrightarrow>
      processLeasedJob renew succeed fail l owner secs run q = (if r_finish run = Answered then LeaseLost else Threw, r_between run q2))"
proof (intro conjI impI allI)
  have ok: "queue_ok q" using assms(1) by (rule reachable_ok)
  have keep: "\<forall>g \<in> foreign_steps (r_events run). \<forall>q. queue_ok q \<longrightarrow> queue_ok (g q)" using assms(4) queue_steps_ok by blast
  then have ok1: "queue_ok q1"
    using postgres.dispatch_invar [of es "(\<lparr>hb_stopped = False, hb_lost = False\<rparr>, q)" "l_id l" owner secs] ok assms(2,3) by simp
  {
    assume lost: "disowned (l_id l) owner q1"
    have "\<forall>g \<in> foreign_steps es'. \<forall>q. queue_ok q \<and> (\<forall>u. \<not> lease_held (l_id l) owner u q)
        \<longrightarrow> queue_ok (g q) \<and> (\<forall>u. \<not> lease_held (l_id l) owner u (g q))"
      using keep assms(2,5) by (metis UnCI disowned_iff foreign_steps_append)
    from postgres.lost_worker_is_silent [OF assms(2,3) ok1 _ this] lost ok1
    show "\<exists>r. processLeasedJob renew succeed fail l owner secs run q = (r, others_only es' q1)
        \<and> (r = LeaseLost \<or> r_confirm run \<noteq> Answered \<and> r = Threw)" by (simp add: disowned_iff)
  }
  fix q2
  let ?hq = "during_dispatch renew (l_id l) owner secs (r_events run) (\<lparr>hb_stopped = False, hb_lost = False\<rparr>, q)"
  assume late: "stopAndConfirmOwnership renew (l_id l) owner secs (r_confirm_at run) (r_confirm run) ?hq = (Some True, q2)
      \<and> disowned (l_id l) owner (r_between run q2)"
  have "queue_ok (snd ?hq)" using postgres.dispatch_invar [OF keep] ok by simp
  then have "queue_ok q2"
    using late postgres.renew_invar [of "snd ?hq" "r_confirm_at run" "l_id l" owner secs]
    by (cases ?hq; cases "r_confirm run") (auto simp: stopAndConfirmOwnership_def split: if_splits)
  then have "queue_ok (r_between run q2)" using assms(4) queue_steps_ok by blast
  with late postgres.late_loss_is_reported [of l owner secs run q q2]
  show "processLeasedJob renew succeed fail l owner secs run q = (if r_finish run = Answered then LeaseLost else Threw, r_between run q2)"
    by (simp add: disowned_iff)
qed

text \<open>Between the end of a lease and its last renewal there is room for two lost heartbeats.\<close>

lemma heartbeat_leaves_room: "3 \<le> secs \<Longrightarrow> 3 * heartbeat_interval secs \<le> secs * 1000"
  by (simp add: heartbeat_interval_def)

subsection \<open>A concrete run\<close>

definition sample_run :: "jobs job_run" where
  "sample_run = \<lparr>r_events = [Beat 20000 Answered, Others (\<lambda>q. snd (renew 21000 ''j'' ''w2'' 60 q)), Beat 40000 LostBefore],
     r_outcome = None, r_confirm_at = 50000, r_confirm = Answered, r_between = (\<lambda>q. q), r_finish_at = 50001,
     r_finish = Answered, r_jitter = 0\<rparr>"

lemma sample_foreign: "(foreign_step ''j'' ''w1'' until)\<^sup>*\<^sup>* q (snd (renew 21000 ''j'' ''w2'' 60 q))"
  by (rule r_into_rtranclp, rule foreign_renew [of 21000 "''j''" "''w2''" 60 q "fst (renew 21000 ''j'' ''w2'' 60 q)"]) simp_all

theorem held_lease_result_is_recorded_witness:
  "\<exists>q'. processLeasedJob renew succeed fail sample_handout ''w1'' 60 sample_run sample_leased = (JobSucceeded, q')"
proof -
  have i: "l_id sample_handout = ''j''" by (simp add: sample_handout_def)
  have "respected (\<lambda>until g. \<forall>q. (foreign_step (l_id sample_handout) ''w1'' until)\<^sup>*\<^sup>* q (g q)) 60 (1000 + 60 * 1000)
      (r_events sample_run)"
    unfolding i by (simp add: sample_run_def sample_foreign)
  from held_lease_result_is_recorded [OF sample_reach(1) sample_lease _ this] show ?thesis
    by (auto simp: sample_run_def)
qed

text \<open>The lease of a worker runs out while it dispatches, and another worker leases the job.\<close>

definition overtaken :: "jobs \<Rightarrow> jobs" where
  "overtaken q = snd (lease [] 70000 ''w2'' 5 60 q)"

lemma overtaken_step: "queue_step\<^sup>*\<^sup>* q (overtaken q)"
  unfolding overtaken_def by (rule r_into_rtranclp, rule step_lease, rule prod.collapse [symmetric])

theorem lost_lease_leaves_no_trace_witness:
  "processLeasedJob renew succeed fail sample_handout ''w1'' 60 (sample_run\<lparr>r_events := [Others overtaken, Beat 71000 Answered]\<rparr>) sample_leased
     = (LeaseLost, overtaken sample_leased)"
proof -
  let ?run = "sample_run\<lparr>r_events := [Others overtaken, Beat 71000 Answered]\<rparr>"
  have "during_dispatch renew (l_id sample_handout) ''w1'' 60 [Others overtaken] (\<lparr>hb_stopped = False, hb_lost = False\<rparr>, sample_leased)
      = (\<lparr>hb_stopped = False, hb_lost = False\<rparr>, overtaken sample_leased)" by simp
  moreover have "queue_step\<^sup>*\<^sup>* q (r_between ?run q)" for q by (simp add: sample_run_def)
  moreover have "r_events ?run = [Others overtaken] @ [Beat 71000 Answered]" by simp
  moreover have "disowned (l_id sample_handout) ''w1'' (overtaken sample_leased)" by code_simp
  ultimately show ?thesis
    using lost_lease_leaves_no_trace [OF sample_reach(2), of ?run "[Others overtaken]" "[Beat 71000 Answered]" sample_handout "''w1''" 60] overtaken_step
    by (auto simp: sample_run_def)
qed

end
