(* ===== verification/Tables.thy ===== *)
theory Tables
  imports Evaluate Destination_Edits Job_Queue
begin

section \<open>The tables of the database (server/src/database/types.ts)\<close>

text \<open>
  A record per table that the modelled operations use, with a table as the list of its rows.
  Timestamps are milliseconds. A JSON column that only one kind of document is written to has the type
  of that document (\<open>policy_document\<close>, \<open>desired_state\<close>, \<open>normalized_event\<close>, the parts of an hours
  profile); the other JSON columns are JSON. An operation that runs in a transaction returns the new
  tables, or an error and then changes nothing: the transaction is rolled back.
\<close>

subsection \<open>Accounts and calendars\<close>

datatype connection_status = ConnectionActive | ActionRequired | ConnectionRevoked
datatype intended_role = AvailabilityRole | SourceRole | DestinationRole | BothRoles

record provider_connection =
  pc_id :: string
  pc_organization :: string
  pc_provider :: string
  pc_account_label :: string
  pc_role :: intended_role
  pc_status :: connection_status
  pc_last_success :: "int option"
  pc_error :: "string option"
  pc_updated :: int

record calendar_endpoint =
  ce_id :: string
  ce_organization :: string
  ce_connection :: string
  ce_remote_id :: string
  ce_name :: string
  ce_timezone :: string
  ce_access_role :: string
  ce_readable :: bool
  ce_writable :: bool
  ce_primary :: bool
  ce_capabilities :: json

record hours_profile_row =
  hp_id :: string
  hp_organization :: string
  hp_name :: string
  hp_timezone :: string
  hp_ambiguous :: dst_ambiguous
  hp_nonexistent :: dst_nonexistent
  hp_weekly :: "weekly_interval list"
  hp_exceptions :: "hours_exception list"
  hp_version :: int

subsection \<open>Policies\<close>

text \<open>The stored draft of a policy (\<open>PolicyDraft\<close> in server/src/policy/service.ts).\<close>

record inline_hours =
  ih_name :: string
  ih_timezone :: string
  ih_ambiguous :: dst_ambiguous
  ih_nonexistent :: dst_nonexistent
  ih_weekly :: "weekly_interval list"
  ih_exceptions :: "hours_exception list"

record policy_draft =
  pd_name :: string
  pd_source_calendar :: string
  pd_destination_calendar :: string
  pd_hours_profile_id :: "string option"
  pd_hours :: "(hours_mode \<times> string option) option"
  pd_hours_profile :: "json option"
  pd_privacy :: privacy_policy
  pd_selection :: selection_policy
  pd_destination :: "string option option"
  pd_destination_edits :: "json option"
  pd_horizon :: "(int \<times> int) option"

datatype policy_status = PolicyActive | PolicyPaused | PolicyDeleted

record policy_row =
  sp_id :: string
  sp_organization :: string
  sp_name :: string
  sp_source_calendar :: string
  sp_destination_calendar :: string
  sp_source_identity :: string
  sp_destination_identity :: string
  sp_hours_profile :: "string option"
  sp_status :: policy_status
  sp_revision :: int
  sp_document :: policy_draft
  sp_hash :: string
  sp_last_success :: "int option"
  sp_error :: "string option"
  sp_updated :: int

record preview_row =
  pp_id :: string
  pp_organization :: string
  pp_principal :: string
  pp_document :: policy_draft
  pp_hash :: string
  pp_cursor_fingerprint :: string
  pp_result :: json
  pp_expires :: int
  pp_consumed :: "int option"

subsection \<open>Rules\<close>

datatype rule_status = RuleActive | RulePaused | RuleDeleted

record rule_row =
  ru_id :: string
  ru_organization :: string
  ru_status :: rule_status
  ru_revision :: int

text \<open>A private-reply rule, and the calendars whose availability it reads.\<close>

record conflict_rule_row = rule_row +
  cr_response_calendar :: string

record availability_calendar_row =
  ac_rule :: string
  ac_identity :: string

subsection \<open>Observations, projections and effects\<close>

record observation_row =
  so_id :: string
  so_organization :: string
  so_calendar :: string
  so_remote_event :: string
  so_recurrence :: string
  so_etag :: "string option"
  so_event :: source_observation
  so_hash :: string
  so_managed :: bool
  so_tombstone :: bool
  so_generation :: int
  so_observed :: int

datatype cursor_state = FullRequired | Syncing | CursorReady | CursorActionRequired

record cursor_row =
  cu_id :: string
  cu_organization :: string
  cu_calendar :: string
  cu_fingerprint :: string
  cu_token :: "string option"
  cu_generation :: int
  cu_state :: cursor_state
  cu_last_started :: "int option"
  cu_last_full :: "int option"
  cu_last_success :: "int option"
  cu_error :: "string option"
  cu_updated :: int

datatype write_operation = CreateCopy | UpdateCopy | DeleteCopy
datatype copy_ownership = OwnAttached | OwnDetached | OwnAmbiguous

record projection_row =
  pr_id :: string
  pr_organization :: string
  pr_policy :: string
  pr_policy_revision :: int
  pr_observation :: string
  pr_basis :: "string option"
  pr_recovery :: "write_operation option"
  pr_recurrence :: string
  pr_destination_calendar :: string
  pr_event_id :: "string option"
  pr_etag :: "string option"
  pr_generation :: int
  pr_intent_sequence :: int
  pr_desired_hash :: "string option"
  pr_desired :: "desired_copy option"
  pr_status :: string
  pr_ownership :: copy_ownership
  pr_last_success :: "int option"
  pr_last_verified :: "int option"
  pr_error :: "string option"
  pr_updated :: int

record effect_row =
  oe_id :: string
  oe_organization :: string
  oe_policy :: string
  oe_projection :: string
  oe_basis :: "string option"
  oe_policy_revision :: int
  oe_operation :: write_operation
  oe_key :: string
  oe_desired :: "desired_copy option"
  oe_state :: job_state
  oe_attempts :: int
  oe_run_after :: int
  oe_owner :: "string option"
  oe_expires :: "int option"
  oe_ambiguous :: bool
  oe_error :: "string option"
  oe_created :: int
  oe_updated :: int

subsection \<open>Notices and the audit trail\<close>

datatype notice_status = Unread | Acknowledged | Resolved
datatype notice_action = RestoreCopy | KeepAndDetach

record notice_row =
  sn_id :: string
  sn_organization :: string
  sn_policy :: string
  sn_projection :: string
  sn_kind :: edit_notice
  sn_status :: notice_status
  sn_resolution :: "notice_action option"
  sn_detail :: json
  sn_created :: int
  sn_updated :: int

datatype actor_kind = ActorUser | ActorToken | ActorSync | ActorRecovery

record audit_row =
  af_id :: string
  af_organization :: string
  af_principal :: "string option"
  af_actor :: actor_kind
  af_action :: string
  af_target_type :: string
  af_target :: string
  af_reason :: string
  af_before :: "string option"
  af_after :: "string option"
  af_detail :: json

subsection \<open>The tables together\<close>

record db =
  organizations :: "string list"
  connections :: "provider_connection list"
  endpoints :: "calendar_endpoint list"
  hours_profiles :: "hours_profile_row list"
  policies :: "policy_row list"
  policy_previews :: "preview_row list"
  conflict_rules :: "conflict_rule_row list"
  availability_calendars :: "availability_calendar_row list"
  cursors :: "cursor_row list"
  observations :: "observation_row list"
  projections :: "projection_row list"
  effects :: "effect_row list"
  jobs_table :: jobs
  notices :: "notice_row list"
  audits :: "audit_row list"

text \<open>\<open>update ... where\<close> on a table.\<close>

definition update_where :: "('r \<Rightarrow> bool) \<Rightarrow> ('r \<Rightarrow> 'r) \<Rightarrow> 'r list \<Rightarrow> 'r list" where
  "update_where p f rows = map (\<lambda>r. if p r then f r else r) rows"

lemma update_where_simps [simp]:
  "update_where p f [] = []" "length (update_where p f rows) = length rows"
  by (simp_all add: update_where_def)

lemma in_update_where: "r' \<in> set (update_where p f rows) \<longleftrightarrow> (\<exists>r \<in> set rows. r' = (if p r then f r else r))"
  by (auto simp: update_where_def)

lemma update_whereE:
  assumes "r' \<in> set (update_where p f rows)"
  obtains (changed) r where "r \<in> set rows" "p r" "r' = f r" | (kept) "r' \<in> set rows" "\<not> p r'"
  using assms by (auto simp: in_update_where split: if_splits)

lemma update_where_all:
  "(\<And>r. r \<in> set rows \<Longrightarrow> p r \<Longrightarrow> P (f r)) \<Longrightarrow> (\<And>r. r \<in> set rows \<Longrightarrow> \<not> p r \<Longrightarrow> P r) \<Longrightarrow> r' \<in> set (update_where p f rows) \<Longrightarrow> P r'"
  by (erule update_whereE) auto

lemma update_where_none: "(\<And>r. r \<in> set rows \<Longrightarrow> \<not> p r) \<Longrightarrow> update_where p f rows = rows"
  by (simp add: update_where_def map_idI)

lemma map_update_where: "(\<And>r. g (f r) = g r) \<Longrightarrow> map g (update_where p f rows) = map g rows"
  by (simp add: update_where_def)

text \<open>Lookups with \<open>find\<close>: the first row that is selected.\<close>

lemma find_conj: "find P xs = Some x \<Longrightarrow> Q x \<Longrightarrow> find (\<lambda>x. P x \<and> Q x) xs = Some x"
  by (induction xs) (auto split: if_splits)

lemma find_snoc: "find P (xs @ [x]) = (case find P xs of Some y \<Rightarrow> Some y | None \<Rightarrow> if P x then Some x else None)"
  by (induction xs) auto

lemma find_update_where:
  "(\<And>r. P (f r) \<longleftrightarrow> P r) \<Longrightarrow> find P (update_where q f rows) = map_option (\<lambda>r. if q r then f r else r) (find P rows)"
  by (induction rows) (auto simp: update_where_def)

end
