(* ===== verification/Scheduler.thy ===== *)
theory Scheduler
  imports Tables
begin

section \<open>The scheduler (server/src/scheduler.ts)\<close>

text \<open>
  A tick walks over the organizations and enqueues the periodic jobs, in one transaction, and then
  cleans up old rows, one statement per table. The tables that only the scheduler reads are given here
  with the columns it reads. New identities are taken from the supply \<open>ids\<close> by position.
\<close>

record expiring_row =
  ex_id :: string
  ex_expires :: int
  ex_revoked :: "int option"

datatype suggestion_status = SuggestionPending | SuggestionAccepted | SuggestionDismissed | SuggestionExpired

record suggestion_row =
  ps_id :: string
  ps_status :: suggestion_status
  ps_expires :: int
  ps_updated :: int

record scheduler_tables = db +
  planning_rules :: "rule_row list"
  planning_previews :: "expiring_row list"
  conflict_previews :: "expiring_row list"
  suggestions :: "suggestion_row list"
  browser_sessions :: "expiring_row list"
  api_tokens :: "expiring_row list"

definition DISCOVERY_WINDOW_MILLISECONDS :: int where
  "DISCOVERY_WINDOW_MILLISECONDS = 60 * 60000"

definition RECONCILE_WINDOW_MILLISECONDS :: int where
  "RECONCILE_WINDOW_MILLISECONDS = 15 * 60000"

definition DESTINATION_VERIFICATION_INTERVAL_MILLISECONDS :: int where
  "DESTINATION_VERIFICATION_INTERVAL_MILLISECONDS = 15 * 60000"

text \<open>A job to enqueue: once ever, or once while it is active.\<close>

record job_request =
  rq_once :: bool
  rq_organization :: string
  rq_kind :: string
  rq_key :: string
  rq_payload :: json

definition discovery_requests :: "scheduler_tables \<Rightarrow> int \<Rightarrow> string \<Rightarrow> job_request list" where
  "discovery_requests s window org =
     map (\<lambda>c. \<lparr>rq_once = True, rq_organization = org, rq_kind = ''discover_calendars'',
         rq_key = ''connection:'' @ pc_id c @ '':window:'' @ dec_int window,
         rq_payload = JObj [(''connection_id'', Some (JStr (pc_id c)))]\<rparr>)
       (sort_key pc_id (filter (\<lambda>c. pc_organization c = org \<and> pc_status c = ConnectionActive) (connections s)))"

definition calendar_requests :: "scheduler_tables \<Rightarrow> string \<Rightarrow> job_request list" where
  "calendar_requests s org =
     map (\<lambda>e. \<lparr>rq_once = False, rq_organization = org, rq_kind = ''sync_calendar'', rq_key = ''calendar:'' @ ce_id e,
         rq_payload = JObj [(''calendar_id'', Some (JStr (ce_id e)))]\<rparr>)
       (sort_key ce_id (concat (map (\<lambda>e. map (\<lambda>c. e) (filter (\<lambda>c. pc_id c = ce_connection e
            \<and> ce_organization e = org \<and> ce_readable e \<and> (pc_role c = SourceRole \<or> pc_role c = BothRoles)) (connections s)))
          (endpoints s))))"

definition policy_requests :: "scheduler_tables \<Rightarrow> int \<Rightarrow> string \<Rightarrow> job_request list" where
  "policy_requests s window org =
     map (\<lambda>p. \<lparr>rq_once = True, rq_organization = org, rq_kind = ''reconcile_policy'',
         rq_key = ''policy:'' @ sp_id p @ '':revision:'' @ dec_int (sp_revision p) @ '':safety:'' @ dec_int window,
         rq_payload = JObj [(''policy_id'', Some (JStr (sp_id p)))]\<rparr>)
       (sort_key sp_id (filter (\<lambda>p. sp_organization p = org \<and> sp_status p = PolicyActive) (policies s)))"

definition rule_requests :: "string \<Rightarrow> string \<Rightarrow> 'a rule_row_scheme list \<Rightarrow> int \<Rightarrow> string \<Rightarrow> job_request list" where
  "rule_requests kind prefix rules window org =
     map (\<lambda>r. \<lparr>rq_once = True, rq_organization = org, rq_kind = kind,
         rq_key = prefix @ ru_id r @ '':revision:'' @ dec_int (ru_revision r) @ '':window:'' @ dec_int window,
         rq_payload = JObj [(''rule_id'', Some (JStr (ru_id r)))]\<rparr>)
       (sort_key ru_id (filter (\<lambda>r. ru_organization r = org \<and> ru_status r = RuleActive) rules))"

definition organization_requests :: "bool \<Rightarrow> scheduler_tables \<Rightarrow> int \<Rightarrow> string \<Rightarrow> job_request list" where
  "organization_requests planningEnabled s nowMs org =
     (let discoveryWindow = nowMs div DISCOVERY_WINDOW_MILLISECONDS;
          reconcileWindow = nowMs div RECONCILE_WINDOW_MILLISECONDS;
          verificationWindow = nowMs div DESTINATION_VERIFICATION_INTERVAL_MILLISECONDS
      in discovery_requests s discoveryWindow org
         @ calendar_requests s org
         @ policy_requests s reconcileWindow org
         @ (if planningEnabled
            then rule_requests ''reconcile_planning_rule'' ''planning-rule:'' (planning_rules s) reconcileWindow org
            else [])
         @ rule_requests ''reconcile_conflict_response_rule'' ''conflict-response-rule:'' (conflict_rules s) reconcileWindow org
         @ [\<lparr>rq_once = True, rq_organization = org, rq_kind = ''verify_destinations'',
             rq_key = ''organization:'' @ org @ '':window:'' @ dec_int verificationWindow, rq_payload = JObj []\<rparr>])"

definition tick_requests :: "bool \<Rightarrow> scheduler_tables \<Rightarrow> int \<Rightarrow> job_request list" where
  "tick_requests planningEnabled s nowMs =
     concat (map (organization_requests planningEnabled s nowMs) (sort (organizations s)))"

definition enqueue_request ::
  "int \<Rightarrow> (nat \<Rightarrow> string) \<Rightarrow> nat \<times> jobs \<Rightarrow> job_request \<Rightarrow> queue_error + nat \<times> jobs" where
  "enqueue_request nowMs ids nq r =
     bindE ((if rq_once r then enqueueOnce else enqueue)
              nowMs (ids (fst nq)) (rq_organization r) (rq_kind r) (rq_key r) (rq_payload r) nowMs (snd nq))
       (\<lambda>iq. Inr (Suc (fst nq), snd iq))"

definition tick_transaction ::
  "bool \<Rightarrow> int \<Rightarrow> (nat \<Rightarrow> string) \<Rightarrow> scheduler_tables \<Rightarrow> queue_error + scheduler_tables" where
  "tick_transaction planningEnabled nowMs ids s =
     bindE (foldE (enqueue_request nowMs ids) (0, jobs_table s) (tick_requests planningEnabled s nowMs))
       (\<lambda>nq. Inr (s\<lparr>jobs_table := snd nq\<rparr>))"

text \<open>A comparison with a missing timestamp is not true in SQL.\<close>

definition expired_or_revoked :: "int \<Rightarrow> expiring_row \<Rightarrow> bool" where
  "expired_or_revoked cutoff r \<longleftrightarrow> ex_expires r < cutoff \<or> (case ex_revoked r of None \<Rightarrow> False | Some t \<Rightarrow> t < cutoff)"

definition cleanup :: "int \<Rightarrow> scheduler_tables \<Rightarrow> scheduler_tables" where
  "cleanup nowMs s =
     (let cutoff = nowMs - 7 * 86400000
      in s\<lparr>policy_previews := filter (\<lambda>r. \<not> pp_expires r < cutoff) (policy_previews s),
           planning_previews := filter (\<lambda>r. \<not> ex_expires r < cutoff) (planning_previews s),
           conflict_previews := filter (\<lambda>r. \<not> ex_expires r < cutoff) (conflict_previews s),
           suggestions := update_where (\<lambda>r. ps_status r = SuggestionPending \<and> ps_expires r < nowMs)
             (\<lambda>r. r\<lparr>ps_status := SuggestionExpired, ps_updated := nowMs\<rparr>) (suggestions s),
           browser_sessions := filter (\<lambda>r. \<not> expired_or_revoked cutoff r) (browser_sessions s),
           api_tokens := filter (\<lambda>r. \<not> expired_or_revoked cutoff r) (api_tokens s),
           jobs_table := filter (\<lambda>j. \<not> ((j_state j = Succeeded \<or> j_state j = Dead) \<and> j_updated j < cutoff)) (jobs_table s),
           effects := filter (\<lambda>e. \<not> (oe_state e = Succeeded \<and> oe_updated e < cutoff)) (effects s)\<rparr>)"

definition tick :: "bool \<Rightarrow> int \<Rightarrow> (nat \<Rightarrow> string) \<Rightarrow> scheduler_tables \<Rightarrow> queue_error + scheduler_tables" where
  "tick planningEnabled nowMs ids s = bindE (tick_transaction planningEnabled nowMs ids s) (\<lambda>s'. Inr (cleanup nowMs s'))"

subsection \<open>What a tick leaves in the queue\<close>

definition request_key :: "job_request \<Rightarrow> string \<times> string \<times> string" where
  "request_key r = (rq_organization r, rq_kind r, rq_key r)"

text \<open>The requested job is in the table: in any state, or active.\<close>

definition scheduled :: "jobs \<Rightarrow> job_request \<Rightarrow> bool" where
  "scheduled q r \<longleftrightarrow> (\<exists>j \<in> set q. job_key j = request_key r \<and> (rq_once r \<or> active_state (j_state j)))"

definition object_payload :: "job_request \<Rightarrow> bool" where
  "object_payload r \<longleftrightarrow> (\<exists>ms. rq_payload r = JObj ms)"

lemma tick_requests_payload: "r \<in> set (tick_requests pe s n) \<Longrightarrow> object_payload r"
  by (auto simp: tick_requests_def organization_requests_def Let_def discovery_requests_def calendar_requests_def
      policy_requests_def rule_requests_def object_payload_def split: if_splits)

lemma tick_requests_once: "r \<in> set (tick_requests pe s n) \<Longrightarrow> \<not> rq_once r \<Longrightarrow> rq_kind r = ''sync_calendar''"
  by (auto simp: tick_requests_def organization_requests_def Let_def discovery_requests_def calendar_requests_def
      policy_requests_def rule_requests_def split: if_splits)

text \<open>One request: no row is lost, at most one is added, and with a fresh identity the job is there.\<close>

lemma enqueue_request_cases:
  assumes "object_payload r"
  obtains "enqueue_request n ids (k, q) r = Inr (Suc k, q)"
      "ids k \<notin> j_id ` set q \<Longrightarrow> scheduled q r"
  | row where "enqueue_request n ids (k, q) r = Inr (Suc k, q @ [row])" "job_key row = request_key r"
      "j_id row = ids k" "active_state (j_state row)" "rq_once r \<Longrightarrow> \<forall>j \<in> set q. job_key j \<noteq> request_key r"
proof -
  from assms obtain ms where ms: "rq_payload r = JObj ms" by (auto simp: object_payload_def)
  define row where "row = \<lparr>j_id = ids k, j_organization = rq_organization r, j_kind = rq_kind r, j_dedupe = rq_key r,
    j_payload = rq_payload r, j_state = Pending, j_attempts = 0, j_run_after = n, j_owner = None, j_expires = None,
    j_error = None, j_updated = n\<rparr>"
  have row: "job_key row = request_key r" "j_id row = ids k" "active_state (j_state row)"
    by (simp_all add: row_def job_key_def request_key_def active_state_def)
  have enq: "enqueue n (ids k) (rq_organization r) (rq_kind r) (rq_key r) (rq_payload r) n q
      = (if conflicts_with q row then Inr (None, q) else Inr (Some (ids k), q @ [row]))"
    by (simp add: enqueue_def assertJobPayload_def ms row_def Let_def)
  have once: "enqueueOnce n (ids k) (rq_organization r) (rq_kind r) (rq_key r) (rq_payload r) n q
      = (if \<exists>j \<in> set q. job_key j = request_key r then Inr (None, q)
         else enqueue n (ids k) (rq_organization r) (rq_kind r) (rq_key r) (rq_payload r) n q)"
    by (simp add: enqueueOnce_def assertJobPayload_def ms list_ex_iff request_key_def)
  consider (known) "rq_once r" "\<exists>j \<in> set q. job_key j = request_key r"
    | (taken) "\<not> (rq_once r \<and> (\<exists>j \<in> set q. job_key j = request_key r))" "conflicts_with q row"
    | (new) "\<not> (rq_once r \<and> (\<exists>j \<in> set q. job_key j = request_key r))" "\<not> conflicts_with q row" by blast
  then show thesis
  proof cases
    case known
    then show thesis by (intro that(1)) (auto simp: enqueue_request_def once scheduled_def)
  next
    case taken
    then have "scheduled q r" if "ids k \<notin> j_id ` set q"
      using that row unfolding conflicts_with_def list_ex_iff scheduled_def by (metis imageI)
    with taken show thesis by (intro that(1)) (auto simp: enqueue_request_def once enq)
  next
    case new
    then show thesis by (intro that(2) [OF _ row]) (auto simp: enqueue_request_def once enq)
  qed
qed

lemma scheduled_append: "scheduled q r \<Longrightarrow> scheduled (q @ rows) r"
  by (auto simp: scheduled_def)

lemma enqueue_requests:
  assumes "list_all object_payload rs"
  shows "\<exists>rows. foldE (enqueue_request n ids) (k, q) rs = Inr (k + length rs, q @ rows)
    \<and> (\<forall>row \<in> set rows. \<exists>i < length rs. j_id row = ids (k + i))
    \<and> (\<forall>row \<in> set rows. \<exists>r \<in> set rs. job_key row = request_key r \<and> (rq_once r \<longrightarrow> (\<forall>j \<in> set q. job_key j \<noteq> request_key r)))
    \<and> (inj ids \<and> (\<forall>i. ids (k + i) \<notin> j_id ` set q) \<longrightarrow> (\<forall>r \<in> set rs. scheduled (q @ rows) r))"
  using assms
proof (induction rs arbitrary: k q)
  case (Cons r rs)
  then have r: "object_payload r" and rs: "list_all object_payload rs" by simp_all
  from r show ?case
  proof (cases rule: enqueue_request_cases [of r n ids k q])
    case 1
    from Cons.IH [OF rs, of "Suc k" q] obtain rows where rows:
      "foldE (enqueue_request n ids) (Suc k, q) rs = Inr (Suc k + length rs, q @ rows)"
      "\<forall>row \<in> set rows. \<exists>i < length rs. j_id row = ids (Suc k + i)"
      "\<forall>row \<in> set rows. \<exists>r \<in> set rs. job_key row = request_key r \<and> (rq_once r \<longrightarrow> (\<forall>j \<in> set q. job_key j \<noteq> request_key r))"
      "inj ids \<and> (\<forall>i. ids (Suc k + i) \<notin> j_id ` set q) \<longrightarrow> (\<forall>r \<in> set rs. scheduled (q @ rows) r)" by blast
    have ids: "\<forall>row \<in> set rows. \<exists>i < length (r # rs). j_id row = ids (k + i)"
      using rows(2) by (metis Suc_mono add_Suc_shift length_Cons)
    have "scheduled (q @ rows) r" "\<forall>i. ids (Suc k + i) \<notin> j_id ` set q" if "\<forall>i. ids (k + i) \<notin> j_id ` set q"
      using 1(2) that by (metis add.right_neutral scheduled_append, metis add_Suc_shift)
    with rows ids 1(1) show ?thesis by (intro exI [of _ rows]) auto
  next
    case (2 row)
    from Cons.IH [OF rs, of "Suc k" "q @ [row]"] obtain rows where rows:
      "foldE (enqueue_request n ids) (Suc k, q @ [row]) rs = Inr (Suc k + length rs, (q @ [row]) @ rows)"
      "\<forall>row \<in> set rows. \<exists>i < length rs. j_id row = ids (Suc k + i)"
      "\<forall>row' \<in> set rows. \<exists>r \<in> set rs. job_key row' = request_key r
         \<and> (rq_once r \<longrightarrow> (\<forall>j \<in> set (q @ [row]). job_key j \<noteq> request_key r))"
      "inj ids \<and> (\<forall>i. ids (Suc k + i) \<notin> j_id ` set (q @ [row])) \<longrightarrow> (\<forall>r \<in> set rs. scheduled ((q @ [row]) @ rows) r)" by blast
    have ids: "\<forall>row' \<in> set (row # rows). \<exists>i < length (r # rs). j_id row' = ids (k + i)"
      using rows(2) 2(3) by (metis Suc_mono add.right_neutral add_Suc_shift length_Cons set_ConsD zero_less_Suc)
    have free: "\<forall>i. ids (Suc k + i) \<notin> j_id ` set (q @ [row])" if "inj ids" "\<forall>i. ids (k + i) \<notin> j_id ` set q"
    proof
      fix i
      have "ids (Suc k + i) \<noteq> ids k" using that(1) by (simp add: inj_eq)
      moreover have "ids (Suc k + i) \<notin> j_id ` set q" using that(2) by (metis add_Suc_shift)
      ultimately show "ids (Suc k + i) \<notin> j_id ` set (q @ [row])" using 2(3) by auto
    qed
    have "scheduled (q @ row # rows) r" using 2(2,4) by (auto simp: scheduled_def)
    with rows ids free 2 show ?thesis by (intro exI [of _ "row # rows"]) auto
  qed
qed simp

lemma tick_transaction_jobs:
  "\<exists>rows. tick_transaction pe n ids s = Inr (s\<lparr>jobs_table := jobs_table s @ rows\<rparr>)
    \<and> (\<forall>row \<in> set rows. \<exists>r \<in> set (tick_requests pe s n). job_key row = request_key r
         \<and> (rq_once r \<longrightarrow> (\<forall>j \<in> set (jobs_table s). job_key j \<noteq> request_key r)))
    \<and> (inj ids \<and> (\<forall>i. ids i \<notin> j_id ` set (jobs_table s))
         \<longrightarrow> (\<forall>r \<in> set (tick_requests pe s n). scheduled (jobs_table s @ rows) r))"
proof -
  have "list_all object_payload (tick_requests pe s n)" using tick_requests_payload by (auto simp: list_all_iff)
  from enqueue_requests [OF this, of n ids 0 "jobs_table s"] obtain rows where
    "foldE (enqueue_request n ids) (0, jobs_table s) (tick_requests pe s n)
      = Inr (0 + length (tick_requests pe s n), jobs_table s @ rows)"
    "\<forall>row \<in> set rows. \<exists>r \<in> set (tick_requests pe s n). job_key row = request_key r
      \<and> (rq_once r \<longrightarrow> (\<forall>j \<in> set (jobs_table s). job_key j \<noteq> request_key r))"
    "inj ids \<and> (\<forall>i. ids (0 + i) \<notin> j_id ` set (jobs_table s))
      \<longrightarrow> (\<forall>r \<in> set (tick_requests pe s n). scheduled (jobs_table s @ rows) r)" by blast
  then show ?thesis by (intro exI [of _ rows]) (simp add: tick_transaction_def)
qed

text \<open>The requests of an organization, by what they are for.\<close>

lemmas request_defs = organization_requests_def Let_def DISCOVERY_WINDOW_MILLISECONDS_def RECONCILE_WINDOW_MILLISECONDS_def
  DESTINATION_VERIFICATION_INTERVAL_MILLISECONDS_def

lemma discovery_requested:
  assumes "c \<in> set (connections s)" "pc_organization c = org" "pc_status c = ConnectionActive"
  shows "\<exists>r \<in> set (organization_requests pe s n org). request_key r = (org, ''discover_calendars'',
    ''connection:'' @ pc_id c @ '':window:'' @ dec_int (n div 3600000))"
proof -
  have "\<exists>r \<in> set (discovery_requests s (n div 3600000) org). request_key r = (org, ''discover_calendars'',
      ''connection:'' @ pc_id c @ '':window:'' @ dec_int (n div 3600000))"
    using assms by (auto simp: discovery_requests_def request_key_def)
  then show ?thesis by (auto simp: request_defs)
qed

lemma calendar_requested:
  assumes "e \<in> set (endpoints s)" "c \<in> set (connections s)" "ce_organization e = org" "ce_readable e"
    "pc_id c = ce_connection e" "pc_role c = SourceRole \<or> pc_role c = BothRoles"
  shows "\<exists>r \<in> set (organization_requests pe s n org). request_key r = (org, ''sync_calendar'', ''calendar:'' @ ce_id e)
    \<and> \<not> rq_once r"
proof -
  have "\<exists>r \<in> set (calendar_requests s org). request_key r = (org, ''sync_calendar'', ''calendar:'' @ ce_id e) \<and> \<not> rq_once r"
    using assms by (fastforce simp: calendar_requests_def request_key_def)
  then show ?thesis by (auto simp: request_defs)
qed

lemma policy_requested:
  assumes "p \<in> set (policies s)" "sp_organization p = org" "sp_status p = PolicyActive"
  shows "\<exists>r \<in> set (organization_requests pe s n org). request_key r = (org, ''reconcile_policy'',
    ''policy:'' @ sp_id p @ '':revision:'' @ dec_int (sp_revision p) @ '':safety:'' @ dec_int (n div 900000))"
proof -
  have "\<exists>r \<in> set (policy_requests s (n div 900000) org). request_key r = (org, ''reconcile_policy'',
      ''policy:'' @ sp_id p @ '':revision:'' @ dec_int (sp_revision p) @ '':safety:'' @ dec_int (n div 900000))"
    using assms by (auto simp: policy_requests_def request_key_def)
  then show ?thesis by (auto simp: request_defs)
qed

lemma rule_requested:
  assumes "r \<in> set rules" "ru_organization r = org" "ru_status r = RuleActive"
  shows "\<exists>q \<in> set (rule_requests kind prefix rules window org). request_key q = (org, kind,
    prefix @ ru_id r @ '':revision:'' @ dec_int (ru_revision r) @ '':window:'' @ dec_int window)"
  using assms by (auto simp: rule_requests_def request_key_def)

lemma planning_requested:
  assumes "r \<in> set (planning_rules s)" "ru_organization r = org" "ru_status r = RuleActive" "pe"
  shows "\<exists>q \<in> set (organization_requests pe s n org). request_key q = (org, ''reconcile_planning_rule'',
    ''planning-rule:'' @ ru_id r @ '':revision:'' @ dec_int (ru_revision r) @ '':window:'' @ dec_int (n div 900000))"
  using rule_requested [OF assms(1-3), of "''reconcile_planning_rule''" "''planning-rule:''" "n div 900000"] assms(4)
  by (auto simp: request_defs)

lemma reply_requested:
  assumes "r \<in> set (conflict_rules s)" "ru_organization r = org" "ru_status r = RuleActive"
  shows "\<exists>q \<in> set (organization_requests pe s n org). request_key q = (org, ''reconcile_conflict_response_rule'',
    ''conflict-response-rule:'' @ ru_id r @ '':revision:'' @ dec_int (ru_revision r) @ '':window:'' @ dec_int (n div 900000))"
  using rule_requested [OF assms(1-3), of "''reconcile_conflict_response_rule''" "''conflict-response-rule:''" "n div 900000"]
  by (auto simp: request_defs)

lemma verification_requested:
  "\<exists>q \<in> set (organization_requests pe s n org). request_key q =
    (org, ''verify_destinations'', ''organization:'' @ org @ '':window:'' @ dec_int (n div 900000))"
  by (auto simp: request_defs request_key_def)

text \<open>
  C37: A tick schedules everything that is due and never fails. Afterwards, every active connection,
  policy, planning rule and reply rule of every organization has its job for the current time
  window, and every readable source calendar has an active synchronization job.
\<close>

theorem tick_schedules_everything:
  assumes "inj ids" "\<forall>i. ids i \<notin> j_id ` set (jobs_table s)" "org \<in> set (organizations s)"
  shows "\<exists>q. tick_transaction pe n ids s = Inr (s\<lparr>jobs_table := q\<rparr>)
    \<and> (\<forall>c \<in> set (connections s). pc_organization c = org \<and> pc_status c = ConnectionActive \<longrightarrow>
         (\<exists>j \<in> set q. job_key j = (org, ''discover_calendars'',
            ''connection:'' @ pc_id c @ '':window:'' @ dec_int (n div 3600000))))
    \<and> (\<forall>e \<in> set (endpoints s). \<forall>c \<in> set (connections s). ce_organization e = org \<and> ce_readable e
           \<and> pc_id c = ce_connection e \<and> pc_role c \<in> {SourceRole, BothRoles} \<longrightarrow>
         (\<exists>j \<in> set q. job_key j = (org, ''sync_calendar'', ''calendar:'' @ ce_id e) \<and> active_state (j_state j)))
    \<and> (\<forall>p \<in> set (policies s). sp_organization p = org \<and> sp_status p = PolicyActive \<longrightarrow>
         (\<exists>j \<in> set q. job_key j = (org, ''reconcile_policy'',
            ''policy:'' @ sp_id p @ '':revision:'' @ dec_int (sp_revision p) @ '':safety:'' @ dec_int (n div 900000))))
    \<and> (\<forall>r \<in> set (planning_rules s). pe \<and> ru_organization r = org \<and> ru_status r = RuleActive \<longrightarrow>
         (\<exists>j \<in> set q. job_key j = (org, ''reconcile_planning_rule'',
            ''planning-rule:'' @ ru_id r @ '':revision:'' @ dec_int (ru_revision r) @ '':window:'' @ dec_int (n div 900000))))
    \<and> (\<forall>r \<in> set (conflict_rules s). ru_organization r = org \<and> ru_status r = RuleActive \<longrightarrow>
         (\<exists>j \<in> set q. job_key j = (org, ''reconcile_conflict_response_rule'',
            ''conflict-response-rule:'' @ ru_id r @ '':revision:'' @ dec_int (ru_revision r) @ '':window:'' @ dec_int (n div 900000))))
    \<and> (\<exists>j \<in> set q. job_key j = (org, ''verify_destinations'', ''organization:'' @ org @ '':window:'' @ dec_int (n div 900000)))"
proof -
  from tick_transaction_jobs [of pe n ids s] assms(1,2) obtain q where
    q: "tick_transaction pe n ids s = Inr (s\<lparr>jobs_table := q\<rparr>)"
    and all: "\<And>r. r \<in> set (tick_requests pe s n) \<Longrightarrow> scheduled q r" by blast
  have any: "\<exists>j \<in> set q. job_key j = k" if "\<exists>r \<in> set (organization_requests pe s n org). request_key r = k" for k
    using that assms(3) all by (fastforce simp: tick_requests_def scheduled_def)
  have active: "\<exists>j \<in> set q. job_key j = k \<and> active_state (j_state j)"
    if "\<exists>r \<in> set (organization_requests pe s n org). request_key r = k \<and> \<not> rq_once r" for k
    using that assms(3) all by (fastforce simp: tick_requests_def scheduled_def)
  show ?thesis
    by (intro exI [of _ q] conjI ballI impI q any active discovery_requested calendar_requested policy_requested
        planning_requested reply_requested verification_requested; (elim conjE)?; auto)
qed

lemma tick_requests_same:
  assumes "n' div 900000 = n div (900000 :: int)"
  shows "tick_requests pe (s\<lparr>jobs_table := q\<rparr>) n' = tick_requests pe s n"
proof -
  have "n' div 3600000 = n' div 900000 div 4" "n div 3600000 = n div 900000 div 4"
    using zdiv_zmult2_eq [of 4 _ 900000] by simp_all
  then have "n' div 3600000 = n div 3600000" using assms by simp
  then have "organization_requests pe (s\<lparr>jobs_table := q\<rparr>) n' = organization_requests pe s n"
    using assms by (intro ext) (simp add: request_defs discovery_requests_def calendar_requests_def policy_requests_def)
  then show ?thesis by (simp add: tick_requests_def)
qed

text \<open>
  A time-windowed job is created once. When a tick has run, the queue has worked on (jobs may have
  been leased, finished, failed or given up, but their rows are still there), and another tick runs in
  the same quarter of an hour, that tick adds nothing but synchronization jobs of calendars.
\<close>

theorem windowed_jobs_are_created_once:
  assumes "inj ids" "\<forall>i. ids i \<notin> j_id ` set (jobs_table s)"
    "tick_transaction pe n ids s = Inr s1" "job_key ` set (jobs_table s1) \<subseteq> job_key ` set q"
    "n' div 900000 = n div 900000" "tick_transaction pe n' ids' (s1\<lparr>jobs_table := q\<rparr>) = Inr s2"
  shows "\<exists>rows. jobs_table s2 = q @ rows \<and> (\<forall>row \<in> set rows. j_kind row = ''sync_calendar'')"
proof -
  from tick_transaction_jobs [of pe n ids s] assms(1-3) obtain first where
    s1: "s1 = s\<lparr>jobs_table := jobs_table s @ first\<rparr>"
    and all: "\<And>r. r \<in> set (tick_requests pe s n) \<Longrightarrow> scheduled (jobs_table s1) r" by fastforce
  have reqs: "tick_requests pe (s1\<lparr>jobs_table := q\<rparr>) n' = tick_requests pe s n"
    unfolding s1 using assms(5) by (simp add: tick_requests_same)
  from tick_transaction_jobs [of pe n' ids' "s1\<lparr>jobs_table := q\<rparr>"] assms(6) obtain rows where
    s2: "s2 = s1\<lparr>jobs_table := q @ rows\<rparr>"
    and new: "\<And>row. row \<in> set rows \<Longrightarrow> \<exists>r \<in> set (tick_requests pe s n). job_key row = request_key r
      \<and> (rq_once r \<longrightarrow> (\<forall>j \<in> set q. job_key j \<noteq> request_key r))" unfolding reqs by auto
  have "j_kind row = ''sync_calendar''" if "row \<in> set rows" for row
  proof -
    from new [OF that] obtain r where r: "r \<in> set (tick_requests pe s n)" "job_key row = request_key r"
      "rq_once r \<Longrightarrow> \<forall>j \<in> set q. job_key j \<noteq> request_key r" by blast
    have "request_key r \<in> job_key ` set (jobs_table s1)" using all [OF r(1)] unfolding scheduled_def by (metis imageI)
    then have "\<not> rq_once r" using r(3) assms(4) by fastforce
    with r(1,2) show ?thesis by (auto simp: job_key_def request_key_def dest: tick_requests_once)
  qed
  with s2 show ?thesis by auto
qed

text \<open>Every change of the queue by the scheduler is a step of the queue, so its invariant covers the scheduler.\<close>

lemma enqueue_request_step: "enqueue_request n ids kq r = Inr kq' \<Longrightarrow> queue_step (snd kq) (snd kq')"
  by (auto simp: enqueue_request_def bindE_Inr_iff split: if_splits intro: step_enqueue step_once)

lemma enqueue_requests_steps: "foldE (enqueue_request n ids) kq rs = Inr kq' \<Longrightarrow> queue_step\<^sup>*\<^sup>* (snd kq) (snd kq')"
  by (induction rs arbitrary: kq) (auto simp: bindE_Inr_iff dest!: enqueue_request_step intro: converse_rtranclp_into_rtranclp)

lemma cleanup_step: "queue_step (jobs_table s) (jobs_table (cleanup n s))"
  unfolding cleanup_def Let_def by simp (rule step_clean, auto simp: active_state_def)

text \<open>
  The scheduler keeps the queue consistent: whatever a tick does to the table, enqueueing and
  clean-up, is a sequence of steps of the queue.
\<close>

theorem tick_is_a_run_of_the_queue:
  assumes "tick pe n ids s = Inr s'"
  shows "queue_step\<^sup>*\<^sup>* (jobs_table s) (jobs_table s')"
proof -
  from assms obtain s1 where s1: "tick_transaction pe n ids s = Inr s1" "s' = cleanup n s1"
    by (auto simp: tick_def bindE_Inr_iff)
  from s1(1) have "queue_step\<^sup>*\<^sup>* (jobs_table s) (jobs_table s1)"
    by (auto simp: tick_transaction_def bindE_Inr_iff dest: enqueue_requests_steps)
  with s1(2) show ?thesis using cleanup_step [of s1 n] by (auto intro: rtranclp.rtrancl_into_rtrancl)
qed

subsection \<open>A concrete tick\<close>

definition sample_tables :: scheduler_tables where
  "sample_tables = \<lparr>organizations = [''o''],
     connections = [\<lparr>pc_id = ''c'', pc_organization = ''o'', pc_provider = ''google'', pc_account_label = ''me'',
       pc_role = SourceRole, pc_status = ConnectionActive, pc_last_success = None, pc_error = None, pc_updated = 0\<rparr>],
     endpoints = [\<lparr>ce_id = ''e'', ce_organization = ''o'', ce_connection = ''c'', ce_remote_id = ''r'', ce_name = ''n'',
       ce_timezone = ''UTC'', ce_access_role = ''owner'', ce_readable = True, ce_writable = False, ce_primary = True, ce_capabilities = JObj []\<rparr>],
     hours_profiles = [], policies = [], policy_previews = [], conflict_rules = [], availability_calendars = [], cursors = [],
     observations = [], projections = [], effects = [], jobs_table = [],
     notices = [], audits = [], planning_rules = [], planning_previews = [],
     conflict_previews = [], suggestions = [], browser_sessions = [], api_tokens = []\<rparr>"

definition sample_ids :: "nat \<Rightarrow> string" where
  "sample_ids i = ''n'' @ dec i"

lemma sample_ids_inj: "inj sample_ids"
  by (rule injI) (metis append_Cons append_Nil list.inject sample_ids_def undec_dec)

theorem tick_schedules_everything_witness:
  "\<exists>q. tick_transaction True 7200000 sample_ids sample_tables = Inr (sample_tables\<lparr>jobs_table := q\<rparr>)
     \<and> (\<exists>j \<in> set q. job_key j = (''o'', ''sync_calendar'', ''calendar:e'') \<and> active_state (j_state j))"
  using tick_schedules_everything [OF sample_ids_inj, of sample_tables "''o''" True 7200000]
  by (auto simp: sample_tables_def)

theorem windowed_jobs_are_created_once_witness:
  "\<exists>s1 s2 rows. tick_transaction True 7200000 sample_ids sample_tables = Inr s1
    \<and> tick_transaction True 7300000 sample_ids s1 = Inr s2
    \<and> jobs_table s2 = jobs_table s1 @ rows \<and> (\<forall>row \<in> set rows. j_kind row = ''sync_calendar'')"
proof -
  from tick_transaction_jobs [of True 7200000 sample_ids sample_tables] obtain s1 where
    s1: "tick_transaction True 7200000 sample_ids sample_tables = Inr s1" by blast
  from tick_transaction_jobs [of True 7300000 sample_ids s1] obtain s2 where
    s2: "tick_transaction True 7300000 sample_ids s1 = Inr s2" by blast
  then have "tick_transaction True 7300000 sample_ids (s1\<lparr>jobs_table := jobs_table s1\<rparr>) = Inr s2" by simp
  from windowed_jobs_are_created_once [OF sample_ids_inj _ s1 _ _ this] s1 s2 show ?thesis
    by (auto simp: sample_tables_def)
qed

theorem tick_is_a_run_of_the_queue_witness:
  "\<exists>s'. tick True 7200000 sample_ids sample_tables = Inr s' \<and> queue_step\<^sup>*\<^sup>* [] (jobs_table s')"
proof -
  from tick_transaction_jobs [of True 7200000 sample_ids sample_tables] obtain s' where
    "tick True 7200000 sample_ids sample_tables = Inr s'" by (auto simp: tick_def)
  with tick_is_a_run_of_the_queue [OF this] show ?thesis by (auto simp: sample_tables_def)
qed

end
