(* ===== verification/Policy_Draft.thy ===== *)
theory Policy_Draft
  imports Tables Platform
begin

section \<open>Policy documents and authorization bases\<close>

text \<open>
  What reconciliation, execution and verification share: compiling a stored draft into the policy of
  the evaluation (server/src/policy/service.ts), the hash that binds an intent to the observed state
  of its source (server/src/sync/basis.ts), the identity of a synchronization query
  (server/src/sync/query.ts) and the test for an open decision of a person
  (server/src/sync/notices.ts). The SHA-256 digest is the parameter \<open>sha\<close>.
\<close>

definition destinationCapabilities :: "json \<Rightarrow> bool \<Rightarrow> destination_capabilities" where
  "destinationCapabilities raw isWritable =
     \<lparr>writable = isWritable,
      private_visibility = (json_member raw ''private_visibility'' \<noteq> Some (JBool False)),
      conference_copy = (json_member raw ''conference_copy'' = Some (JBool True)),
      color_capable = (json_member raw ''color'' \<noteq> Some (JBool False))\<rparr>"

text \<open>An empty identity counts as missing, as in the code's truth tests.\<close>

definition is_truthy :: "string option \<Rightarrow> bool" where
  "is_truthy s \<longleftrightarrow> s \<noteq> None \<and> s \<noteq> Some ''''"

definition json_truthy :: "json option \<Rightarrow> bool" where
  "json_truthy v =
     (case v of
        None \<Rightarrow> False
      | Some JNull \<Rightarrow> False
      | Some (JBool b) \<Rightarrow> b
      | Some (JNum n) \<Rightarrow> n \<noteq> Whole 0
      | Some (JStr s) \<Rightarrow> s \<noteq> []
      | _ \<Rightarrow> True)"

definition or_else :: "'a option \<Rightarrow> 'a option \<Rightarrow> 'a option" where
  "or_else x y = (case x of None \<Rightarrow> y | Some _ \<Rightarrow> x)"

definition draft_hours_mode :: "policy_draft \<Rightarrow> hours_mode" where
  "draft_hours_mode d =
     (case pd_hours d of
        Some (m, _) \<Rightarrow> m
      | None \<Rightarrow> if is_truthy (pd_hours_profile_id d) \<or> json_truthy (pd_hours_profile d) then OverlapsProfile else AllTimes)"

definition compilePolicyDraft ::
  "policy_draft \<Rightarrow> string \<Rightarrow> int \<Rightarrow> policy_state \<Rightarrow> string option \<Rightarrow> sync_policy" where
  "compilePolicyDraft d policyRef revision st resolvedHoursProfileRef =
     (let hoursMode = draft_hours_mode d;
          profileRef = or_else resolvedHoursProfileRef
            (or_else (case pd_hours d of None \<Rightarrow> None | Some (_, r) \<Rightarrow> r) (pd_hours_profile_id d))
      in \<lparr>policy_ref = policyRef, policy_revision = revision, state = st,
          source_calendar_ref = pd_source_calendar d, destination_calendar_ref = pd_destination_calendar d,
          hours_mode = hoursMode,
          hours_profile_ref = (if hoursMode \<noteq> AllTimes \<and> is_truthy profileRef then profileRef else None),
          privacy = pd_privacy d, selection = pd_selection d,
          destination_color = (case pd_destination d of None \<Rightarrow> None | Some c \<Rightarrow> c),
          destination_edits = Some (normalizeDestinationEditPolicy (pd_destination_edits d))\<rparr>)"

definition sourceObservationBasisHash :: "(string \<Rightarrow> string) \<Rightarrow> string \<Rightarrow> bool \<Rightarrow> canon_error + string" where
  "sourceObservationBasisHash sha observationHash tombstone =
     sha256Canonical sha (JObj [(''version'', Some (JNum (Whole 1))), (''observation_hash'', Some (JStr observationHash)),
       (''tombstone'', Some (JBool tombstone))])"

definition FULL_SYNC_PAST_DAYS :: int where "FULL_SYNC_PAST_DAYS = 30"
definition FULL_SYNC_FUTURE_DAYS :: int where "FULL_SYNC_FUTURE_DAYS = 365"

definition calendarSyncQueryFingerprint :: "(string \<Rightarrow> string) \<Rightarrow> string \<Rightarrow> string \<Rightarrow> canon_error + string" where
  "calendarSyncQueryFingerprint sha provider remoteCalendar =
     sha256Canonical sha (JObj [(''version'', Some (JNum (Whole 1))), (''provider'', Some (JStr provider)),
       (''remote_calendar'', Some (JStr remoteCalendar)), (''recurrence'', Some (JStr ''materialized_occurrences'')),
       (''deleted'', Some (JBool True)), (''full_sync_past_days'', Some (JNum (Whole FULL_SYNC_PAST_DAYS))),
       (''full_sync_future_days'', Some (JNum (Whole FULL_SYNC_FUTURE_DAYS)))])"

definition DESTINATION_EDIT_HOLD_CODES :: "string list" where
  "DESTINATION_EDIT_HOLD_CODES = [''destination_edit_held'', ''destination_delete_held'']"

definition isDestinationEditHold :: "projection_row \<Rightarrow> bool" where
  "isDestinationEditHold p \<longleftrightarrow> pr_status p = ''held'' \<and> pr_ownership p = OwnAttached
     \<and> (case pr_error p of None \<Rightarrow> False | Some c \<Rightarrow> c \<in> set DESTINATION_EDIT_HOLD_CODES)"

subsection \<open>Properties\<close>

lemma sha256Canonical_eq_normal_form:
  assumes "inj sha" "sha256Canonical sha v = Inr h" "sha256Canonical sha w = Inr h"
  shows "normal_form v = normal_form w" "normal_form v \<noteq> None"
  using assms by (auto simp: sha256Canonical_def bindE_Inr_iff canonicalizeJson_Inr_iff render_inject inj_eq)

lemma sha256Canonical_member:
  assumes "inj sha" "sha256Canonical sha (JObj ms) = Inr h" "sha256Canonical sha (JObj ms') = Inr h"
    "distinct (map fst ms)" "distinct (map fst ms')"
  shows "member_form ms k = member_form ms' k"
  using member_form_eq sha256Canonical_eq_normal_form [OF assms(1-3)] assms(4,5) by blast

lemma set_normalizedEntries: "(k, v) \<in> set (normalizedEntries ms) \<Longrightarrow> (k, Some v) \<in> set ms"
  by (induction normalize_NFC ms rule: entries_with.induct) (auto simp: normalize_NFC_def)

lemma distinct_normalizedEntries: "distinct (map fst ms) \<Longrightarrow> distinct (map fst (normalizedEntries ms))"
proof (induction normalize_NFC ms rule: entries_with.induct)
  case (3 k v ms)
  then show ?case by (auto simp: normalize_NFC_def image_iff dest!: set_normalizedEntries)
qed auto

text \<open>A document whose properties are distinct and have canonical texts has a hash.\<close>

lemma sha256Canonical_total:
  assumes "distinct (map fst ms)" "\<And>k v. (k, Some v) \<in> set ms \<Longrightarrow> normal_form v \<noteq> None"
  shows "\<exists>h. sha256Canonical sha (JObj ms) = Inr h"
proof -
  have "None \<notin> set (map (\<lambda>(k, v). map_option (Pair k) (normal_form v)) (js_sort key_compare (normalizedEntries ms)))"
    using assms(2) by (fastforce dest: set_normalizedEntries)
  then obtain l where "those (map (\<lambda>(k, v). map_option (Pair k) (normal_form v)) (js_sort key_compare (normalizedEntries ms))) = Some l"
    by (meson not_None_eq those_None_iff)
  then have "normal_form (JObj ms) \<noteq> None" using distinct_normalizedEntries [OF assms(1)] by (simp add: Let_def)
  then have "\<exists>t. canonicalizeJson normalize_NFC (JObj ms) = Inr t" by (metis canonicalizeJson_Inr_iff not_None_eq)
  then show ?thesis unfolding sha256Canonical_def by (auto simp del: canonicalizeJson.simps)
qed

lemma basis_hash_total: "\<exists>h. sourceObservationBasisHash sha oh b = Inr h"
  unfolding sourceObservationBasisHash_def by (rule sha256Canonical_total) (auto simp: max_safe_integer_def)

text \<open>
  The basis of an intent identifies the observed state of its source. It is always defined, and
  with a digest that does not collide two bases are equal exactly when the observation hash and the
  tombstone are: a deletion never passes for the event that it deletes.
\<close>

theorem basis_binds_the_source:
  assumes "inj sha"
  shows "(\<exists>h. sourceObservationBasisHash sha oh b = Inr h)
    \<and> (sourceObservationBasisHash sha oh b = sourceObservationBasisHash sha oh' b' \<longleftrightarrow> oh = oh' \<and> b = b')"
proof -
  have "oh = oh' \<and> b = b'" if eq: "sourceObservationBasisHash sha oh b = sourceObservationBasisHash sha oh' b'"
  proof -
    obtain h where h: "sourceObservationBasisHash sha oh b = Inr h" using basis_hash_total by blast
    note m = sha256Canonical_member [OF assms h [unfolded sourceObservationBasisHash_def]
        h [unfolded eq, unfolded sourceObservationBasisHash_def]]
    show ?thesis using m [of "''observation_hash''"] m [of "''tombstone''"] by simp
  qed
  then show ?thesis using basis_hash_total by blast
qed

theorem basis_binds_the_source_witness:
  "sourceObservationBasisHash (\<lambda>s. s) ''h'' True \<noteq> sourceObservationBasisHash (\<lambda>s. s) ''h'' False"
  using basis_binds_the_source [of "\<lambda>s. s" "''h''" True "''h''" False] by (simp add: inj_on_def)

end
