(* ===== verification/Reconciliation.thy ===== *)
theory Reconciliation
  imports Policy_Draft "HOL-Library.AList"
begin

section \<open>Reconciliation (server/src/sync/reconciliation.ts)\<close>

text \<open>
  The reconciler turns observed source events into projections and outbox effects. One observation is
  one transaction; a pass goes over the observations of the source calendar page by page. The runtime
  is the evaluation of the Calendar Sync contract (\<open>evaluatePolicy\<close>) with the canonical hash. The clock
  and the new identities are arguments. The observations are not written by the pass, so it reads them
  from one state of their table. \<open>not_found\<close>, \<open>paused\<close> and the like are the keys of the counts that the
  pass returns.
\<close>

subsection \<open>Texts of the enumerations\<close>

primrec reason_text :: "reason_code \<Rightarrow> string" where
  "reason_text policy_disabled = ''policy_disabled''"
| "reason_text policy_paused = ''policy_paused''"
| "reason_text policy_review_required = ''policy_review_required''"
| "reason_text invalid_same_calendar = ''invalid_same_calendar''"
| "reason_text invalid_unwritable_destination = ''invalid_unwritable_destination''"
| "reason_text invalid_hours_profile = ''invalid_hours_profile''"
| "reason_text invalid_source_event = ''invalid_source_event''"
| "reason_text invalid_privacy_transform = ''invalid_privacy_transform''"
| "reason_text unsupported_destination_capability = ''unsupported_destination_capability''"
| "reason_text outside_horizon = ''outside_horizon''"
| "reason_text source_deleted = ''source_deleted''"
| "reason_text source_cancelled = ''source_cancelled''"
| "reason_text managed_copy = ''managed_copy''"
| "reason_text manual_exclusion = ''manual_exclusion''"
| "reason_text nosync = ''nosync''"
| "reason_text already_invited = ''already_invited''"
| "reason_text timed_event_disabled = ''timed_event_disabled''"
| "reason_text timed_event_included = ''timed_event_included''"
| "reason_text all_day = ''all_day''"
| "reason_text all_day_free = ''all_day_free''"
| "reason_text all_day_busy_included = ''all_day_busy_included''"
| "reason_text all_day_included = ''all_day_included''"
| "reason_text free = ''free''"
| "reason_text free_preserved = ''free_preserved''"
| "reason_text free_forced_busy = ''free_forced_busy''"
| "reason_text rsvp_declined = ''rsvp_declined''"
| "reason_text rsvp_accepted = ''rsvp_accepted''"
| "reason_text rsvp_tentative_busy = ''rsvp_tentative_busy''"
| "reason_text rsvp_tentative_free = ''rsvp_tentative_free''"
| "reason_text rsvp_unanswered_busy = ''rsvp_unanswered_busy''"
| "reason_text rsvp_unanswered_free = ''rsvp_unanswered_free''"
| "reason_text organizer_assumed_accepted = ''organizer_assumed_accepted''"
| "reason_text rsvp_unanswered_omitted = ''rsvp_unanswered_omitted''"
| "reason_text rsvp_tentative_omitted = ''rsvp_tentative_omitted''"
| "reason_text all_times = ''all_times''"
| "reason_text overlaps_hours = ''overlaps_hours''"
| "reason_text contained_in_hours = ''contained_in_hours''"
| "reason_text outside_hours = ''outside_hours''"
| "reason_text not_contained_in_hours = ''not_contained_in_hours''"
| "reason_text dst_ambiguous_earlier = ''dst_ambiguous_earlier''"
| "reason_text dst_ambiguous_later = ''dst_ambiguous_later''"
| "reason_text dst_nonexistent_shifted = ''dst_nonexistent_shifted''"
| "reason_text dst_resolution_rejected = ''dst_resolution_rejected''"
| "reason_text privacy_busy_only = ''privacy_busy_only''"
| "reason_text privacy_commitment = ''privacy_commitment''"
| "reason_text privacy_private_details = ''privacy_private_details''"
| "reason_text privacy_shared_details = ''privacy_shared_details''"
| "reason_text create_missing_copy = ''create_missing_copy''"
| "reason_text update_source_change = ''update_source_change''"
| "reason_text restore_destination_missing = ''restore_destination_missing''"
| "reason_text restore_destination_drift = ''restore_destination_drift''"
| "reason_text delete_source_removed = ''delete_source_removed''"
| "reason_text delete_policy_exclusion = ''delete_policy_exclusion''"
| "reason_text no_change = ''no_change''"
| "reason_text detached_no_action = ''detached_no_action''"
| "reason_text ambiguous_ownership = ''ambiguous_ownership''"

definition selection_text :: "evaluation_selection \<Rightarrow> string" where
  "selection_text s =
     (case s of Included \<Rightarrow> ''included'' | Excluded \<Rightarrow> ''excluded'' | Held \<Rightarrow> ''held'' | Invalid \<Rightarrow> ''invalid'')"

definition operation_text :: "evaluation_operation \<Rightarrow> string" where
  "operation_text op =
     (case op of Create \<Rightarrow> ''create'' | Update \<Rightarrow> ''update'' | Delete \<Rightarrow> ''delete'' | NoOperation \<Rightarrow> ''none'')"

definition write_text :: "write_operation \<Rightarrow> string" where
  "write_text op = (case op of CreateCopy \<Rightarrow> ''create'' | UpdateCopy \<Rightarrow> ''update'' | DeleteCopy \<Rightarrow> ''delete'')"

definition write_of :: "evaluation_operation \<Rightarrow> write_operation option" where
  "write_of op =
     (case op of Create \<Rightarrow> Some CreateCopy | Update \<Rightarrow> Some UpdateCopy | Delete \<Rightarrow> Some DeleteCopy | NoOperation \<Rightarrow> None)"

subsection \<open>Preparing an observation\<close>

definition normalizeIdentity :: "string \<Rightarrow> string" where
  "normalizeIdentity v = toLowerCase (trim (normalize_NFC v))"

definition markDestinationIdentityInvitation :: "source_observation \<Rightarrow> string \<Rightarrow> source_observation" where
  "markDestinationIdentityInvitation src destinationIdentity =
     (let ident = normalizeIdentity destinationIdentity;
          invited = destination_identity_invited src
            \<or> list_ex (\<lambda>a. normalizeIdentity a = ident) (case s_attendees src of None \<Rightarrow> [] | Some as \<Rightarrow> as)
            \<or> (case s_organizer src of None \<Rightarrow> False | Some g \<Rightarrow> normalizeIdentity g = ident)
      in if invited = destination_identity_invited src then src else src\<lparr>destination_identity_invited := invited\<rparr>)"

definition observationForEvaluation :: "source_observation \<Rightarrow> bool \<Rightarrow> source_observation" where
  "observationForEvaluation src tombstone =
     (if tombstone \<and> s_lifecycle src = Confirmed then src\<lparr>s_lifecycle := Deleted\<rparr> else src)"

subsection \<open>What is kept of a result\<close>

record persistence =
  ps_hash :: "string option"
  ps_state :: "desired_copy option"
  ps_error :: "string option"

definition projectionPersistenceForResult :: "policy_evaluation_result \<Rightarrow> projection_row option \<Rightarrow> persistence" where
  "projectionPersistenceForResult r existing =
     (let keep = res_selection r = Held \<and> res_operation r = NoOperation \<and> existing \<noteq> None
      in \<lparr>ps_hash = or_else (res_desired_fingerprint r) (if keep then pr_desired_hash (the existing) else None),
          ps_state = or_else (res_desired_copy r) (if keep then pr_desired (the existing) else None),
          ps_error = (if res_selection r = Invalid then Some (reason_text (primary_reason_code r))
                      else if res_selection r = Held
                      then or_else (Option.bind existing pr_error) (Some (reason_text (primary_reason_code r)))
                      else None)\<rparr>)"

definition recoveryOperationForResult :: "policy_evaluation_result \<Rightarrow> write_operation option" where
  "recoveryOperationForResult r =
     (if res_selection r = Included then Some (if res_operation r = Create then CreateCopy else UpdateCopy)
      else if res_selection r = Excluded \<and> res_operation r = Delete then Some DeleteCopy else None)"

definition projection_of :: "projection_row option \<Rightarrow> projection_input" where
  "projection_of existing =
     (case existing of
        None \<Rightarrow> \<lparr>p_ownership = Unowned, p_projection_ref = None, p_generation = None, p_destination_event_ref = None,
            p_destination_exists = None, p_desired_fingerprint = None, p_observed_copy = None\<rparr>
      | Some e \<Rightarrow>
          \<lparr>p_ownership = (if pr_status e = ''deleted'' \<and> pr_event_id e = None then Unowned
                          else case pr_ownership e of OwnAmbiguous \<Rightarrow> Attached | OwnAttached \<Rightarrow> Attached | OwnDetached \<Rightarrow> Detached),
           p_projection_ref = Some (pr_id e), p_generation = Some (pr_generation e),
           p_destination_event_ref = (if is_truthy (pr_event_id e) then pr_event_id e else None),
           p_destination_exists = Some (pr_event_id e \<noteq> None),
           p_desired_fingerprint = (if is_truthy (pr_desired_hash e) then pr_desired_hash e else None),
           p_observed_copy = None\<rparr>)"

subsection \<open>One observation\<close>

datatype sync_error =
    EvaluationThrew eval_error
  | HashThrew canon_error
  | DateThrew date_error
  | UniqueViolation

definition DAY_MS :: int where "DAY_MS = 86400000"

definition evaluation_input ::
  "int \<Rightarrow> (int \<times> int) option \<Rightarrow> string \<Rightarrow> sync_policy \<Rightarrow> hours_profile option \<Rightarrow> source_observation
   \<Rightarrow> projection_row option \<Rightarrow> destination_capabilities \<Rightarrow> sync_error + policy_evaluation_input" where
  "evaluation_input nowMs configuredHorizon projectionId pol profile src existing caps =
     (let (past, future) = (case configuredHorizon of None \<Rightarrow> (30, 365) | Some h \<Rightarrow> h)
      in bindE (liftE DateThrew (isoString nowMs)) (\<lambda>nowText.
         bindE (liftE DateThrew (isoString (nowMs - past * DAY_MS))) (\<lambda>startText.
         bindE (liftE DateThrew (isoString (nowMs + future * DAY_MS))) (\<lambda>endText.
           Inr \<lparr>now = nowText, horizon = \<lparr>iv_start = startText, iv_end = endText\<rparr>,
                candidate_projection_ref = projectionId, policy = pol, hours_profile = profile, source = src,
                projection = projection_of existing, capabilities = caps\<rparr>))))"

definition find_projection :: "db \<Rightarrow> string \<Rightarrow> string \<Rightarrow> string \<Rightarrow> string \<Rightarrow> projection_row option" where
  "find_projection d org policyId observationId recurrenceIdentity =
     find (\<lambda>p. pr_organization p = org \<and> pr_policy p = policyId \<and> pr_observation p = observationId
               \<and> pr_recurrence p = recurrenceIdentity) (projections d)"

definition blocking_effect :: "db \<Rightarrow> string \<Rightarrow> string \<Rightarrow> effect_row option" where
  "blocking_effect d org projectionId =
     (case sort_key (\<lambda>e. (oe_created e, oe_id e))
             (filter (\<lambda>e. oe_organization e = org \<and> oe_projection e = projectionId \<and> oe_state e = Dead) (effects d)) of
        [] \<Rightarrow> None | e # _ \<Rightarrow> Some e)"

definition decision_text :: "policy_evaluation_result \<Rightarrow> string" where
  "decision_text r = selection_text (res_selection r) @ '':'' @ operation_text (res_operation r) @ '':''
     @ reason_text (primary_reason_code r)"

text \<open>A projection that a person or the recovery has to decide about: only its evidence is refreshed.\<close>

definition refresh_held ::
  "int \<Rightarrow> sync_policy \<Rightarrow> string \<Rightarrow> policy_evaluation_result \<Rightarrow> effect_row option \<Rightarrow> projection_row \<Rightarrow> projection_row" where
  "refresh_held nowMs pol basis r blocking e =
     e\<lparr>pr_policy_revision := policy_revision pol, pr_basis := Some basis,
       pr_recovery := recoveryOperationForResult r,
       pr_desired_hash := res_desired_fingerprint r, pr_desired := res_desired_copy r,
       pr_status := (if pr_ownership e = OwnAmbiguous \<or> isDestinationEditHold e then ''held'' else ''failed''),
       pr_error := (if recoveryOperationForResult r = None then Some (reason_text (primary_reason_code r))
                    else or_else (Option.bind blocking oe_error) (or_else (pr_error e) (Some ''effect_recovery_required''))),
       pr_updated := nowMs\<rparr>"

definition new_projection ::
  "int \<Rightarrow> string \<Rightarrow> sync_policy \<Rightarrow> string \<Rightarrow> string \<Rightarrow> string \<Rightarrow> string \<Rightarrow> int \<Rightarrow> policy_evaluation_result
   \<Rightarrow> persistence \<Rightarrow> projection_row" where
  "new_projection nowMs org pol projectionId observationId basis recurrenceIdentity intentSequence r kept =
     \<lparr>pr_id = projectionId, pr_organization = org, pr_policy = policy_ref pol, pr_policy_revision = policy_revision pol,
      pr_observation = observationId, pr_basis = Some basis, pr_recovery = None, pr_recurrence = recurrenceIdentity,
      pr_destination_calendar = destination_calendar_ref pol, pr_event_id = None, pr_etag = None, pr_generation = 1,
      pr_intent_sequence = intentSequence, pr_desired_hash = ps_hash kept, pr_desired = ps_state kept,
      pr_status = (if res_operation r = NoOperation then ''held'' else ''pending''),
      pr_ownership = (if res_selection r = Held then OwnAmbiguous else OwnAttached),
      pr_last_success = None, pr_last_verified = None, pr_error = ps_error kept, pr_updated = nowMs\<rparr>"

definition updated_projection ::
  "int \<Rightarrow> sync_policy \<Rightarrow> string \<Rightarrow> int \<Rightarrow> policy_evaluation_result \<Rightarrow> persistence \<Rightarrow> projection_row \<Rightarrow> projection_row" where
  "updated_projection nowMs pol basis intentSequence r kept e =
     e\<lparr>pr_policy_revision := policy_revision pol, pr_basis := Some basis, pr_recovery := None,
       pr_intent_sequence := (if res_operation r = NoOperation then pr_intent_sequence e else intentSequence),
       pr_desired_hash := ps_hash kept, pr_desired := ps_state kept,
       pr_status := (if res_operation r = NoOperation
                     then if res_selection r = Held then ''held''
                          else if pr_status e = ''deleted'' \<and> pr_event_id e = None then ''deleted'' else ''converged''
                     else ''pending''),
       pr_error := ps_error kept, pr_updated := nowMs\<rparr>"

definition intent_key ::
  "(string \<Rightarrow> string) \<Rightarrow> sync_policy \<Rightarrow> string \<Rightarrow> int \<Rightarrow> int \<Rightarrow> write_operation \<Rightarrow> string option \<Rightarrow> canon_error + string" where
  "intent_key sha pol projectionId generation intentSequence op desiredHash =
     sha256Canonical sha (JObj [(''version'', Some (JNum (Whole 1))), (''policy_ref'', Some (JStr (policy_ref pol))),
       (''policy_revision'', Some (JNum (Whole (policy_revision pol)))), (''projection_ref'', Some (JStr projectionId)),
       (''generation'', Some (JNum (Whole generation))), (''intent_sequence'', Some (JNum (Whole intentSequence))),
       (''operation'', Some (JStr (write_text op))),
       (''desired_fingerprint'', Some (case desiredHash of None \<Rightarrow> JNull | Some h \<Rightarrow> JStr h))])"

definition new_effect ::
  "int \<Rightarrow> string \<Rightarrow> string \<Rightarrow> sync_policy \<Rightarrow> string \<Rightarrow> string \<Rightarrow> write_operation \<Rightarrow> string \<Rightarrow> desired_copy option \<Rightarrow> effect_row" where
  "new_effect nowMs effectId org pol projectionId basis op key desired =
     \<lparr>oe_id = effectId, oe_organization = org, oe_policy = policy_ref pol, oe_projection = projectionId,
      oe_basis = Some basis, oe_policy_revision = policy_revision pol, oe_operation = op, oe_key = key,
      oe_desired = desired, oe_state = Pending, oe_attempts = 0, oe_run_after = nowMs, oe_owner = None,
      oe_expires = None, oe_ambiguous = False, oe_error = None, oe_created = nowMs, oe_updated = nowMs\<rparr>"

text \<open>\<open>insert ... on conflict (idempotency_key) do nothing\<close>; the primary key still holds.\<close>

definition insert_effect :: "effect_row \<Rightarrow> db \<Rightarrow> sync_error + bool \<times> db" where
  "insert_effect e d =
     (if list_ex (\<lambda>x. oe_key x = oe_key e) (effects d) then Inr (False, d)
      else if list_ex (\<lambda>x. oe_id x = oe_id e) (effects d) then Inl UniqueViolation
      else Inr (True, d\<lparr>effects := effects d @ [e]\<rparr>))"

definition insert_projection :: "projection_row \<Rightarrow> db \<Rightarrow> sync_error + db" where
  "insert_projection p d =
     (if list_ex (\<lambda>x. pr_id x = pr_id p
           \<or> pr_policy x = pr_policy p \<and> pr_observation x = pr_observation p \<and> pr_recurrence x = pr_recurrence p) (projections d)
      then Inl UniqueViolation else Inr (d\<lparr>projections := projections d @ [p]\<rparr>))"

definition update_projection :: "string \<Rightarrow> (projection_row \<Rightarrow> projection_row) \<Rightarrow> db \<Rightarrow> db" where
  "update_projection ident f d = d\<lparr>projections := update_where (\<lambda>p. pr_id p = ident) f (projections d)\<rparr>"

record reconciled =
  rd_created :: bool
  rd_decision :: string

text \<open>The intent of a result: the projection is written, and the effect when there is something to do.\<close>

definition next_intent :: "projection_row option \<Rightarrow> policy_evaluation_result \<Rightarrow> int" where
  "next_intent existing r =
     (case existing of None \<Rightarrow> 0 | Some e \<Rightarrow> pr_intent_sequence e) + (if res_operation r = NoOperation then 0 else 1)"

definition store_projection ::
  "int \<Rightarrow> string \<Rightarrow> sync_policy \<Rightarrow> string \<Rightarrow> string \<Rightarrow> string \<Rightarrow> string
   \<Rightarrow> projection_row option \<Rightarrow> policy_evaluation_result \<Rightarrow> db \<Rightarrow> sync_error + db" where
  "store_projection nowMs org pol projectionId observationId basis recurrenceIdentity existing r d =
     (let kept = projectionPersistenceForResult r existing
      in case existing of
           None \<Rightarrow> insert_projection (new_projection nowMs org pol projectionId observationId basis
                    recurrenceIdentity (next_intent existing r) r kept) d
         | Some e \<Rightarrow>
             Inr (update_projection (pr_id e) (updated_projection nowMs pol basis (next_intent existing r) r kept) d))"

definition queue_effect ::
  "(string \<Rightarrow> string) \<Rightarrow> int \<Rightarrow> string \<Rightarrow> string \<Rightarrow> sync_policy \<Rightarrow> string \<Rightarrow> string
   \<Rightarrow> projection_row option \<Rightarrow> policy_evaluation_result \<Rightarrow> db \<Rightarrow> sync_error + reconciled \<times> db" where
  "queue_effect sha nowMs newEffectId org pol projectionId basis existing r d =
     (let kept = projectionPersistenceForResult r existing;
          generation = (case existing of None \<Rightarrow> 1 | Some e \<Rightarrow> pr_generation e)
      in case write_of (res_operation r) of
           None \<Rightarrow> Inr (\<lparr>rd_created = False, rd_decision = decision_text r\<rparr>, d)
         | Some op \<Rightarrow>
             bindE (liftE HashThrew (intent_key sha pol projectionId generation (next_intent existing r) op (ps_hash kept))) (\<lambda>key.
             bindE (insert_effect (new_effect nowMs newEffectId org pol projectionId basis op key (ps_state kept)) d)
               (\<lambda>(created, d'). Inr (\<lparr>rd_created = created, rd_decision = decision_text r\<rparr>, d'))))"

definition record_intent ::
  "(string \<Rightarrow> string) \<Rightarrow> int \<Rightarrow> string \<Rightarrow> string \<Rightarrow> sync_policy \<Rightarrow> string \<Rightarrow> string \<Rightarrow> string \<Rightarrow> string
   \<Rightarrow> projection_row option \<Rightarrow> policy_evaluation_result \<Rightarrow> db \<Rightarrow> sync_error + reconciled \<times> db" where
  "record_intent sha nowMs newEffectId org pol projectionId observationId basis recurrenceIdentity existing r d =
     bindE (store_projection nowMs org pol projectionId observationId basis recurrenceIdentity existing r d)
       (queue_effect sha nowMs newEffectId org pol projectionId basis existing r)"

definition reconcileObservation ::
  "temporal \<Rightarrow> (string \<Rightarrow> string) \<Rightarrow> int \<Rightarrow> string \<Rightarrow> string \<Rightarrow> string \<Rightarrow> sync_policy \<Rightarrow> destination_capabilities
   \<Rightarrow> hours_profile option \<Rightarrow> observation_row \<Rightarrow> source_observation \<Rightarrow> (int \<times> int) option \<Rightarrow> db
   \<Rightarrow> sync_error + reconciled \<times> db" where
  "reconcileObservation t sha nowMs newProjectionId newEffectId org pol caps profile row src configuredHorizon d =
     bindE (liftE HashThrew (sourceObservationBasisHash sha (so_hash row) (so_tombstone row))) (\<lambda>basis.
       let existing = find_projection d org (policy_ref pol) (so_id row) (so_recurrence row);
           blocking = Option.bind existing (\<lambda>e. blocking_effect d org (pr_id e));
           projectionId = (case existing of None \<Rightarrow> newProjectionId | Some e \<Rightarrow> pr_id e)
       in bindE (evaluation_input nowMs configuredHorizon projectionId pol profile src existing caps) (\<lambda>input.
          bindE (liftE EvaluationThrew (evaluatePolicy t sha input)) (\<lambda>r.
            case existing of
              Some e \<Rightarrow>
                if blocking \<noteq> None \<or> pr_ownership e = OwnAmbiguous \<or> isDestinationEditHold e then
                  Inr (\<lparr>rd_created = False, rd_decision =
                         (if blocking \<noteq> None
                          then (if pr_ownership e = OwnAmbiguous \<or> isDestinationEditHold e then ''held'' else ''failed'')
                            @ '':none:blocking_dead_effect''
                          else ''held:none:recovery_shadow_refreshed'')\<rparr>,
                       update_projection (pr_id e) (refresh_held nowMs pol basis r blocking) d)
                else record_intent sha nowMs newEffectId org pol projectionId (so_id row) basis (so_recurrence row) existing r d
            | None \<Rightarrow>
                if res_operation r = NoOperation then Inr (\<lparr>rd_created = False, rd_decision = decision_text r\<rparr>, d)
                else record_intent sha nowMs newEffectId org pol projectionId (so_id row) basis (so_recurrence row) existing r d)))"

subsection \<open>A pass over a policy\<close>

definition loadHoursProfile :: "db \<Rightarrow> string \<Rightarrow> string option \<Rightarrow> hours_profile option" where
  "loadHoursProfile d org profileId =
     (if \<not> is_truthy profileId then None
      else map_option (\<lambda>r. \<lparr>profile_ref = hp_id r, profile_revision = hp_version r, timezone = hp_timezone r,
             ambiguous = hp_ambiguous r, nonexistent = hp_nonexistent r, weekly = hp_weekly r, exceptions = hp_exceptions r\<rparr>)
           (find (\<lambda>r. hp_organization r = org \<and> Some (hp_id r) = profileId) (hours_profiles d)))"

text \<open>The policy with its two calendars and their connections, as the inner joins find them.\<close>

record policy_view =
  pv_policy :: policy_row
  pv_source :: calendar_endpoint
  pv_source_connection :: provider_connection
  pv_destination :: calendar_endpoint
  pv_destination_connection :: provider_connection

definition endpoint_view :: "db \<Rightarrow> string \<Rightarrow> (calendar_endpoint \<times> provider_connection) option" where
  "endpoint_view d calendarId =
     Option.bind (find (\<lambda>e. ce_id e = calendarId) (endpoints d))
       (\<lambda>e. map_option (Pair e) (find (\<lambda>c. pc_id c = ce_connection e) (connections d)))"

definition find_policy :: "db \<Rightarrow> string \<Rightarrow> string \<Rightarrow> policy_view option" where
  "find_policy d org policyId =
     Option.bind (find (\<lambda>p. sp_organization p = org \<and> sp_id p = policyId) (policies d)) (\<lambda>p.
     Option.bind (endpoint_view d (sp_source_calendar p)) (\<lambda>(se, sc).
     map_option (\<lambda>(de, dc). \<lparr>pv_policy = p, pv_source = se, pv_source_connection = sc,
         pv_destination = de, pv_destination_connection = dc\<rparr>) (endpoint_view d (sp_destination_calendar p))))"

definition source_usable :: "calendar_endpoint \<Rightarrow> provider_connection \<Rightarrow> bool" where
  "source_usable e c \<longleftrightarrow> ce_readable e \<and> pc_status c = ConnectionActive \<and> (pc_role c = SourceRole \<or> pc_role c = BothRoles)"

definition destination_usable :: "calendar_endpoint \<Rightarrow> provider_connection \<Rightarrow> bool" where
  "destination_usable e c \<longleftrightarrow> ce_writable e \<and> pc_status c = ConnectionActive \<and> (pc_role c = DestinationRole \<or> pc_role c = BothRoles)"

definition PAGE_SIZE :: nat where "PAGE_SIZE = 1000"

definition beyond :: "string option \<Rightarrow> observation_row \<Rightarrow> bool" where
  "beyond afterId r \<longleftrightarrow> (case afterId of None \<Rightarrow> True | Some a \<Rightarrow> a < so_id r)"

definition observation_page :: "nat \<Rightarrow> observation_row list \<Rightarrow> string option \<Rightarrow> observation_row list" where
  "observation_page pageSize rows afterId = take pageSize (sort_key so_id (filter (beyond afterId) rows))"

lemma in_observation_page: "r \<in> set (observation_page pageSize rows afterId) \<Longrightarrow> r \<in> set rows \<and> beyond afterId r"
  by (auto simp: observation_page_def dest: in_set_takeD)

lemma observation_page_progress:
  assumes "0 < pageSize" "pageSize \<le> length (observation_page pageSize rows afterId)"
  shows "length (filter (beyond (Some (so_id (last (observation_page pageSize rows afterId))))) rows)
    < length (filter (beyond afterId) rows)"
proof -
  let ?r = "last (observation_page pageSize rows afterId)"
  have "observation_page pageSize rows afterId \<noteq> []" using assms by auto
  then have "?r \<in> set (observation_page pageSize rows afterId)" by (rule last_in_set)
  then have r: "?r \<in> set rows" "beyond afterId ?r" by (auto dest: in_observation_page)
  have "filter (beyond (Some (so_id ?r))) rows = filter (beyond (Some (so_id ?r))) (filter (beyond afterId) rows)"
    using r(2) by (auto simp: beyond_def filter_filter split: option.splits intro!: filter_cong)
  moreover have "length (filter (beyond (Some (so_id ?r))) (filter (beyond afterId) rows)) < length (filter (beyond afterId) rows)"
    by (rule length_filter_less [of ?r]) (use r in \<open>auto simp: beyond_def\<close>)
  ultimately show ?thesis by simp
qed

text \<open>The pages that the loop reads: it ends with the first page that is not full.\<close>

function observation_pages :: "nat \<Rightarrow> observation_row list \<Rightarrow> string option \<Rightarrow> observation_row list list" where
  "observation_pages pageSize rows afterId =
     (let page = observation_page pageSize rows afterId
      in if length page < pageSize \<or> pageSize = 0 then [page]
         else page # observation_pages pageSize rows (Some (so_id (last page))))"
  by pat_completeness auto
termination
  by (relation "measure (\<lambda>(pageSize, rows, afterId). length (filter (beyond afterId) rows))")
    (auto simp: observation_page_progress)

declare observation_pages.simps [simp del]

record summary =
  su_evaluated :: nat
  su_effects :: nat
  su_counts :: "(string \<times> nat) list"

definition bump :: "string \<Rightarrow> (string \<times> nat) list \<Rightarrow> (string \<times> nat) list" where
  "bump k counts = AList.update k (case map_of counts k of None \<Rightarrow> 1 | Some n \<Rightarrow> n + 1) counts"

text \<open>The clock and the identities of the transaction of an observation.\<close>

record moment =
  mo_now :: int
  mo_projection_id :: string
  mo_effect_id :: string

definition policy_transaction ::
  "temporal \<Rightarrow> (string \<Rightarrow> string) \<Rightarrow> (nat \<Rightarrow> moment) \<Rightarrow> string \<Rightarrow> policy_view \<Rightarrow> hours_profile option
   \<Rightarrow> summary \<times> db \<Rightarrow> observation_row \<Rightarrow> sync_error + summary \<times> db" where
  "policy_transaction t sha moments org v profile sd row =
     (let (su, d) = sd; m = moments (su_evaluated su); p = pv_policy v
      in bindE (reconcileObservation t sha (mo_now m) (mo_projection_id m) (mo_effect_id m) org
                  (compilePolicyDraft (sp_document p) (sp_id p) (sp_revision p) Active None)
                  (destinationCapabilities (ce_capabilities (pv_destination v)) (ce_writable (pv_destination v)))
                  profile row
                  (markDestinationIdentityInvitation (observationForEvaluation (so_event row) (so_tombstone row))
                     (pc_account_label (pv_destination_connection v)))
                  (pd_horizon (sp_document p)) d)
           (\<lambda>(r, d'). Inr (su\<lparr>su_evaluated := su_evaluated su + 1,
                              su_effects := su_effects su + (if rd_created r then 1 else 0),
                              su_counts := bump (rd_decision r) (su_counts su)\<rparr>, d')))"

definition reconcile ::
  "temporal \<Rightarrow> (string \<Rightarrow> string) \<Rightarrow> int \<Rightarrow> (nat \<Rightarrow> moment) \<Rightarrow> string \<Rightarrow> string \<Rightarrow> db \<Rightarrow> sync_error + summary \<times> db" where
  "reconcile t sha nowMs moments org policyId d =
     (let nothing = (\<lambda>k. \<lparr>su_evaluated = 0, su_effects = 0, su_counts = [(k, 1)]\<rparr>)
      in case find_policy d org policyId of
           None \<Rightarrow> Inr (nothing ''not_found'', d)
         | Some v \<Rightarrow>
             if sp_status (pv_policy v) = PolicyDeleted then Inr (nothing ''not_found'', d)
             else if sp_status (pv_policy v) = PolicyPaused then Inr (nothing ''paused'', d)
             else if \<not> source_usable (pv_source v) (pv_source_connection v)
                   \<or> \<not> destination_usable (pv_destination v) (pv_destination_connection v)
             then Inr (nothing ''connection_role_changed'',
                    d\<lparr>policies := update_where (\<lambda>p. sp_organization p = org \<and> sp_id p = policyId \<and> sp_status p = PolicyActive)
                        (\<lambda>p. p\<lparr>sp_error := Some ''connection_role_changed'', sp_updated := nowMs\<rparr>) (policies d)\<rparr>)
             else
               bindE (foldE (policy_transaction t sha moments org v
                              (loadHoursProfile d org (sp_hours_profile (pv_policy v))))
                        (\<lparr>su_evaluated = 0, su_effects = 0, su_counts = []\<rparr>, d)
                        (concat (observation_pages PAGE_SIZE
                           (filter (\<lambda>o'. so_organization o' = org \<and> so_calendar o' = sp_source_calendar (pv_policy v)) (observations d))
                           None)))
                 (\<lambda>(su, d'). Inr (su, d'\<lparr>policies := update_where (\<lambda>p. sp_organization p = org \<and> sp_id p = policyId)
                    (\<lambda>p. p\<lparr>sp_last_success := Some nowMs, sp_error := None, sp_updated := nowMs\<rparr>) (policies d')\<rparr>)))"

text \<open>Paging loses and repeats nothing: the pages are the observations in the order of their identities.\<close>

lemma take_then_beyond:
  assumes "sorted (map so_id xs)" "distinct (map so_id xs)" "0 < pageSize" "pageSize \<le> length xs"
  shows "take pageSize xs @ filter (beyond (Some (so_id (last (take pageSize xs))))) xs = xs"
proof -
  let ?a = "so_id (last (take pageSize xs))"
  have last: "last (take pageSize xs) = xs ! (pageSize - 1)"
    using assms(3,4) by (subst last_conv_nth) (auto simp: min_def)
  have tl: "filter (beyond (Some ?a)) (take pageSize xs) = []"
  proof (rule filter_False, rule ballI)
    fix r assume "r \<in> set (take pageSize xs)"
    then obtain i where i: "i < pageSize" "i < length xs" "r = xs ! i" by (auto simp: in_set_conv_nth)
    then have "so_id (xs ! i) \<le> so_id (xs ! (pageSize - 1))"
      using assms(1,4) by (auto simp: sorted_iff_nth_mono)
    then show "\<not> beyond (Some ?a) r" using i(3) last by (simp add: beyond_def)
  qed
  have dl: "filter (beyond (Some ?a)) (drop pageSize xs) = drop pageSize xs"
  proof (rule filter_True, rule ballI)
    fix r assume "r \<in> set (drop pageSize xs)"
    then obtain i where i: "pageSize + i < length xs" "r = xs ! (pageSize + i)"
      by (metis assms(4) in_set_conv_nth length_drop less_diff_conv add.commute nth_drop)
    have "so_id (xs ! (pageSize - 1)) \<le> so_id (xs ! (pageSize + i))"
      using assms(1,3) i(1) by (auto simp: sorted_iff_nth_mono)
    moreover have "so_id (xs ! (pageSize - 1)) \<noteq> so_id (xs ! (pageSize + i))"
      using assms(2,3) i(1) by (auto simp: distinct_conv_nth)
    ultimately show "beyond (Some ?a) r" using i(2) last by (simp add: beyond_def)
  qed
  have "filter (beyond (Some ?a)) xs = drop pageSize xs"
    using tl dl by (metis append_Nil append_take_drop_id filter_append)
  then show ?thesis by simp
qed

lemma concat_observation_pages:
  assumes "distinct (map so_id rows)" "0 < pageSize"
  shows "concat (observation_pages pageSize rows afterId) = sort_key so_id (filter (beyond afterId) rows)"
  using assms
proof (induction pageSize rows afterId rule: observation_pages.induct)
  case (1 pageSize rows afterId)
  let ?xs = "sort_key so_id (filter (beyond afterId) rows)" and ?page = "observation_page pageSize rows afterId"
  show ?case
  proof (cases "length ?page < pageSize")
    case True
    then have "?page = ?xs" by (auto simp: observation_page_def)
    with True show ?thesis by (simp add: observation_pages.simps Let_def)
  next
    case False
    let ?a = "so_id (last ?page)"
    have "?page \<noteq> []" using False 1(3) by auto
    then have "beyond afterId (last ?page)" using in_observation_page last_in_set by blast
    then have sub: "filter (beyond (Some ?a)) rows = filter (beyond (Some ?a)) (filter (beyond afterId) rows)"
      by (auto simp: beyond_def filter_filter split: option.splits intro!: filter_cong)
    have "distinct (map so_id ?xs)" using 1(2) by (auto simp: distinct_map intro: inj_on_subset)
    moreover have "pageSize \<le> length ?xs" using False by (auto simp: observation_page_def)
    ultimately have "?page @ filter (beyond (Some ?a)) ?xs = ?xs"
      using take_then_beyond [of ?xs pageSize] 1(3) by (simp add: observation_page_def)
    then have "?page @ sort_key so_id (filter (beyond (Some ?a)) rows) = ?xs" unfolding sub by (simp add: filter_sort)
    with 1(1) [OF refl] False 1(2,3) show ?thesis by (subst observation_pages.simps) (simp add: Let_def)
  qed
qed

text \<open>
  C38: The paged pass is the pass over all observations: for every page size, the pages concatenated
  are exactly the observations of the calendar in the order of their identities, each once, and the
  loop ends.
\<close>

theorem pages_cover_the_calendar:
  assumes "distinct (map so_id rows)" "0 < pageSize"
  shows "concat (observation_pages pageSize rows None) = sort_key so_id rows
    \<and> mset (concat (observation_pages pageSize rows None)) = mset rows"
proof -
  have "filter (beyond None) rows = rows" by (simp add: beyond_def)
  then show ?thesis by (simp add: concat_observation_pages [OF assms])
qed

subsection \<open>The outcomes of one observation\<close>

lemma liftE_Inr_eq: "liftE f (Inr a) = Inr a"
  by (simp add: liftE_def)

definition needs_decision :: "db \<Rightarrow> string \<Rightarrow> projection_row \<Rightarrow> bool" where
  "needs_decision d org e \<longleftrightarrow> blocking_effect d org (pr_id e) \<noteq> None \<or> pr_ownership e = OwnAmbiguous \<or> isDestinationEditHold e"

lemma reconcileObservation_cases:
  assumes "reconcileObservation t sha nowMs pid eid org pol caps profile row src hz d = Inr (out, d')"
  obtains (held) e basis r where
      "find_projection d org (policy_ref pol) (so_id row) (so_recurrence row) = Some e" "needs_decision d org e"
      "\<not> rd_created out" "d' = update_projection (pr_id e) (refresh_held nowMs pol basis r (blocking_effect d org (pr_id e))) d"
  | (nothing) "find_projection d org (policy_ref pol) (so_id row) (so_recurrence row) = None" "\<not> rd_created out" "d' = d"
  | (intent) basis input r existing projectionId where
      "existing = find_projection d org (policy_ref pol) (so_id row) (so_recurrence row)"
      "projectionId = (case existing of None \<Rightarrow> pid | Some e \<Rightarrow> pr_id e)"
      "\<And>e. existing = Some e \<Longrightarrow> \<not> needs_decision d org e"
      "sourceObservationBasisHash sha (so_hash row) (so_tombstone row) = Inr basis"
      "evaluation_input nowMs hz projectionId pol profile src existing caps = Inr input"
      "evaluatePolicy t sha input = Inr r"
      "record_intent sha nowMs eid org pol projectionId (so_id row) basis (so_recurrence row) existing r d = Inr (out, d')"
proof -
  define existing where "existing = find_projection d org (policy_ref pol) (so_id row) (so_recurrence row)"
  define projectionId where "projectionId = (case existing of None \<Rightarrow> pid | Some e \<Rightarrow> pr_id e)"
  from assms obtain basis input r where
    b: "sourceObservationBasisHash sha (so_hash row) (so_tombstone row) = Inr basis"
    and i: "evaluation_input nowMs hz projectionId pol profile src existing caps = Inr input"
    and r: "evaluatePolicy t sha input = Inr r"
    unfolding reconcileObservation_def Let_def existing_def projectionId_def by (auto simp: bindE_Inr_iff)
  note run = assms [unfolded reconcileObservation_def Let_def, folded existing_def, folded projectionId_def,
      unfolded b i r liftE_Inr_eq bindE_simps]
  show thesis
  proof (cases existing)
    case None
    show thesis
    proof (cases "res_operation r = NoOperation")
      case True
      show thesis by (rule nothing) (use run None True in \<open>auto simp: existing_def\<close>)
    next
      case False
      show thesis by (rule intent [OF existing_def projectionId_def _ b i r]) (use run None False in auto)
    qed
  next
    case (Some e)
    show thesis
    proof (cases "needs_decision d org e")
      case True
      show thesis
        by (rule held [of e basis r])
          (use run Some True in \<open>auto simp: existing_def needs_decision_def split: if_splits\<close>)
    next
      case False
      show thesis
        by (rule intent [OF existing_def projectionId_def _ b i r])
          (use run Some False in \<open>auto simp: needs_decision_def split: if_splits\<close>)
    qed
  qed
qed





lemma new_effect_simps:
  assumes "e = new_effect nowMs eid org pol projectionId basis op key desired"
  shows "oe_id e = eid" "oe_projection e = projectionId" "oe_policy e = policy_ref pol" "oe_basis e = Some basis"
    "oe_policy_revision e = policy_revision pol" "oe_operation e = op" "oe_desired e = desired" "oe_state e = Pending"
    "\<not> oe_ambiguous e"
  using assms by (simp_all add: new_effect_def)

lemmas new_effect_facts [simp] = new_effect_simps [OF refl]

lemma find_projection_Some:
  "find_projection d org pid oid recur = Some e \<Longrightarrow>
   e \<in> set (projections d) \<and> pr_organization e = org \<and> pr_policy e = pid \<and> pr_observation e = oid \<and> pr_recurrence e = recur"
  by (auto simp: find_projection_def find_Some_iff)


lemma detached_is_never_written:
  assumes "evaluatePolicy t sha input = Inr r" "p_ownership (projection input) = Detached"
  shows "res_operation r = NoOperation"
  using assms(1) by (cases rule: evaluatePolicy_cases) (use assms(2) in \<open>auto simp: inert_simps excluded_facts\<close>)

definition same_copy :: "projection_row \<Rightarrow> projection_row \<Rightarrow> bool" where
  "same_copy p q \<longleftrightarrow> pr_id p = pr_id q \<and> pr_event_id p = pr_event_id q \<and> pr_etag p = pr_etag q
     \<and> pr_generation p = pr_generation q \<and> pr_ownership p = pr_ownership q \<and> pr_intent_sequence p = pr_intent_sequence q"

lemma update_projection_same_copy:
  "(\<And>p. same_copy (f p) p) \<Longrightarrow> list_all2 same_copy (projections (update_projection ident f d)) (projections d)"
  by (auto simp: update_projection_def update_where_def list.rel_map same_copy_def intro!: list.rel_refl)

lemma decided_copy_run:
  assumes "reconcileObservation t sha nowMs pid eid org pol caps profile row src hz d = Inr (out, d')"
    "find_projection d org (policy_ref pol) (so_id row) (so_recurrence row) = Some e"
    "pr_ownership e = OwnDetached \<and> \<not> (pr_status e = ''deleted'' \<and> pr_event_id e = None)
      \<or> pr_ownership e = OwnAmbiguous \<or> isDestinationEditHold e \<or> blocking_effect d org (pr_id e) \<noteq> None"
  shows "\<not> rd_created out \<and> effects d' = effects d \<and> list_all2 same_copy (projections d') (projections d)"
  using assms(1)
proof (cases rule: reconcileObservation_cases)
  case (held e' basis r)
  have "same_copy (refresh_held nowMs pol basis r b p) p" for b p by (simp add: same_copy_def refresh_held_def)
  with held show ?thesis by (auto simp: update_projection_same_copy) (simp add: update_projection_def)
next
  case nothing
  then show ?thesis by (auto simp: same_copy_def intro!: list.rel_refl)
next
  case (intent basis input r existing projectionId)
  with assms(2,3) have e: "existing = Some e" "pr_ownership e = OwnDetached" "\<not> (pr_status e = ''deleted'' \<and> pr_event_id e = None)"
    by (auto simp: needs_decision_def)
  have "p_ownership (projection input) = Detached"
    using intent(5) e by (auto simp: evaluation_input_def Let_def bindE_Inr_iff projection_of_def split: prod.splits option.splits)
  with intent(6) have "res_operation r = NoOperation" by (rule detached_is_never_written)
  with intent(7) e(1) have "\<not> rd_created out" "effects d' = effects d"
    "d' = update_projection (pr_id e) (updated_projection nowMs pol basis (next_intent existing r) r
       (projectionPersistenceForResult r existing)) d"
    by (auto simp: record_intent_def store_projection_def queue_effect_def write_of_def Let_def update_projection_def)
  moreover have "same_copy (updated_projection nowMs pol basis s r k p) p" for s k p
    using \<open>res_operation r = NoOperation\<close> by (simp add: same_copy_def updated_projection_def)
  ultimately show ?thesis by (simp add: update_projection_same_copy)
qed

text \<open>
  C4: Open decisions are respected. A copy that is detached, whose ownership is ambiguous, that waits
  for the decision of a person about a direct edit, or that has a dead effect before it, gets no new
  effect; and what is known of the copy at the destination (its event, revision, generation,
  ownership and intent number) stays as it is.
\<close>

theorem decided_copies_are_left_alone:
  assumes "reconcileObservation t sha nowMs pid eid org pol caps profile row src hz d = Inr (out, d')"
    "find_projection d org (policy_ref pol) (so_id row) (so_recurrence row) = Some e"
    "pr_ownership e = OwnDetached \<and> \<not> (pr_status e = ''deleted'' \<and> pr_event_id e = None)
      \<or> pr_ownership e = OwnAmbiguous \<or> isDestinationEditHold e \<or> blocking_effect d org (pr_id e) \<noteq> None"
  shows "\<not> rd_created out \<and> effects d' = effects d \<and> list_all2 same_copy (projections d') (projections d)"
  using decided_copy_run [OF assms] .

lemma evaluation_input_projection:
  "evaluation_input nowMs hz projectionId pol profile src existing caps = Inr input \<Longrightarrow> projection input = projection_of existing"
  by (auto simp: evaluation_input_def Let_def bindE_Inr_iff split: prod.splits option.splits)

lemma unchanged_fingerprint_is_quiet:
  assumes "evaluatePolicy t sha input = Inr r" "res_desired_fingerprint r = Some h"
    "p_ownership (projection input) \<noteq> Unowned" "p_destination_exists (projection input) = Some True"
    "p_observed_copy (projection input) = None" "p_desired_fingerprint (projection input) = Some h"
  shows "res_operation r = NoOperation \<and> res_selection r = Included"
  using assms(1)
proof (cases rule: evaluatePolicy_cases)
  case inert
  with assms(2) show ?thesis by (auto simp: result_def elim!: inert.cases)
next
  case (excluded reason b)
  with assms(2) show ?thesis by (auto simp: excluded_def result_def Let_def split: ownership.splits)
next
  case (copied avail reasons warnings desired disclosure fp op opr)
  with assms(2) have "fp = h" by (simp add: copy_result_def)
  with copied(6,7) assms(3-6) show ?thesis by (auto simp: plan_operation_def copy_result_def)
qed

text \<open>
  A converged copy stays quiet. When the copy exists at the destination, nobody has to decide
  about it, and the desired copy is the one already recorded, then the reconciliation queues nothing
  and leaves the projection converged with the same desired copy, generation and intent number.
\<close>

theorem converged_copy_stays_quiet:
  assumes "reconcileObservation t sha nowMs pid eid org pol caps profile row src hz d = Inr (out, d')"
    "find_projection d org (policy_ref pol) (so_id row) (so_recurrence row) = Some e" "\<not> needs_decision d org e"
    "pr_ownership e = OwnAttached" "pr_event_id e = Some ev" "pr_desired_hash e = Some h" "h \<noteq> ''''"
    "evaluation_input nowMs hz (pr_id e) pol profile src (Some e) caps = Inr input"
    "evaluatePolicy t sha input = Inr r" "res_desired_fingerprint r = Some h"
  shows "\<not> rd_created out \<and> effects d' = effects d
    \<and> (\<exists>p \<in> set (projections d'). pr_status p = ''converged'' \<and> same_copy p e \<and> pr_desired_hash p = Some h \<and> pr_error p = None)"
  using assms(1)
proof (cases rule: reconcileObservation_cases)
  case (held e' basis r')
  with assms(2,3) show ?thesis by simp
next
  case nothing
  with assms(2) show ?thesis by simp
next
  case (intent basis input' r' existing projectionId)
  with assms(2) have ex: "existing = Some e" "projectionId = pr_id e" by auto
  with intent(5,6) assms(8,9) have r: "r' = r" by simp
  have "projection input = projection_of (Some e)" using assms(8) by (rule evaluation_input_projection)
  with assms(4-7) have q: "res_operation r = NoOperation" "res_selection r = Included"
    using unchanged_fingerprint_is_quiet [OF assms(9,10)] by (auto simp: projection_of_def is_truthy_def)
  define p where "p = updated_projection nowMs pol basis (next_intent (Some e) r) r (projectionPersistenceForResult r (Some e)) e"
  have "e \<in> set (projections d)" using assms(2) by (simp add: find_projection_Some)
  then have "p \<in> set (projections d')" "\<not> rd_created out" "effects d' = effects d"
    using intent(7) ex r q
    by (auto simp: record_intent_def store_projection_def queue_effect_def write_of_def Let_def update_projection_def
        in_update_where p_def)
  moreover have "pr_status p = ''converged''" "same_copy p e" "pr_desired_hash p = Some h" "pr_error p = None"
    using q assms(5,10)
    by (auto simp: p_def updated_projection_def same_copy_def projectionPersistenceForResult_def or_else_def Let_def)
  ultimately show ?thesis by blast
qed

subsection \<open>Concrete passes\<close>

definition empty_db :: db where
  "empty_db = \<lparr>organizations = [''o''], connections = [], endpoints = [], hours_profiles = [], policies = [], policy_previews = [],
     conflict_rules = [], availability_calendars = [], cursors = [], observations = [], projections = [], effects = [], jobs_table = [], notices = [], audits = []\<rparr>"

definition observed_row :: observation_row where
  "observed_row = \<lparr>so_id = ''ob'', so_organization = ''o'', so_calendar = ''home'', so_remote_event = ''ev'', so_recurrence = '''', so_etag = None,
     so_event = sample_source, so_hash = ''sha256:1'', so_managed = False, so_tombstone = False,
     so_generation = 1, so_observed = 0\<rparr>"

definition sample_projection :: projection_row where
  "sample_projection = \<lparr>pr_id = ''x1'', pr_organization = ''o'', pr_policy = ''p1'', pr_policy_revision = 1,
     pr_observation = ''ob'', pr_basis = None, pr_recovery = None, pr_recurrence = '''', pr_destination_calendar = ''work'',
     pr_event_id = Some ''ev'', pr_etag = Some ''1'', pr_generation = 1, pr_intent_sequence = 1,
     pr_desired_hash = None, pr_desired = Some sample_copy, pr_status = ''converged'', pr_ownership = OwnAttached,
     pr_last_success = None, pr_last_verified = None, pr_error = None, pr_updated = 0\<rparr>"

definition sample_reconcile :: "db \<Rightarrow> sync_error + reconciled \<times> db" where
  "sample_reconcile d = reconcileObservation utc_library sample_sha 1784505600000 ''x1'' ''f1'' ''o'' sample_policy
     (capabilities sample_input) None observed_row sample_source None d"

definition holds_for :: "('a \<Rightarrow> bool) \<Rightarrow> 'e + 'a \<Rightarrow> bool" where
  "holds_for P x = (case x of Inl e \<Rightarrow> False | Inr a \<Rightarrow> P a)"

lemma holds_forE: "holds_for P x \<Longrightarrow> (\<And>a. x = Inr a \<Longrightarrow> P a \<Longrightarrow> Q) \<Longrightarrow> Q"
  by (cases x) (auto simp: holds_for_def)


lemma sample_basis: "holds_for (\<lambda>h. True) (sourceObservationBasisHash sample_sha ''sha256:1'' False)"
  by code_simp

definition sample_evaluation :: "projection_row option \<Rightarrow> sync_error + policy_evaluation_result" where
  "sample_evaluation existing =
     bindE (evaluation_input 1784505600000 None ''x1'' sample_policy None sample_source existing (capabilities sample_input))
       (\<lambda>i. liftE EvaluationThrew (evaluatePolicy utc_library sample_sha i))"


definition attached_row :: projection_row where
  "attached_row = sample_projection\<lparr>pr_desired_hash := Some ''sha256:346''\<rparr>"

lemma sample_evaluation_known:
  "holds_for (\<lambda>r. res_desired_fingerprint r = Some ''sha256:346'')
     (sample_evaluation (Some attached_row))"
  by code_simp




lemma sample_known_run:
  assumes "projections d = [e]" "pr_id e = ''x1''" "pr_organization e = ''o''" "pr_policy e = ''p1''"
    "pr_observation e = ''ob''" "pr_recurrence e = ''''" "\<not> needs_decision d ''o'' e"
    "sample_evaluation (Some e) = Inr r" "res_operation r = NoOperation"
  shows "\<exists>out d'. sample_reconcile d = Inr (out, d')"
proof -
  from sample_basis obtain b where b: "sourceObservationBasisHash sample_sha (so_hash observed_row) (so_tombstone observed_row) = Inr b"
    by (auto simp: observed_row_def elim: holds_forE)
  from assms(8) obtain i where
    i: "evaluation_input 1784505600000 None ''x1'' sample_policy None sample_source (Some e) (capabilities sample_input) = Inr i"
    and r: "evaluatePolicy utc_library sample_sha i = Inr r"
    by (auto simp: sample_evaluation_def bindE_Inr_iff)
  have f: "find_projection d ''o'' (policy_ref sample_policy) (so_id observed_row) (so_recurrence observed_row) = Some e"
    using assms(1-6) by (simp add: find_projection_def sample_policy_def observed_row_def)
  have w: "write_of (res_operation r) = None" using assms(9) by (simp add: write_of_def)
  show ?thesis
    unfolding sample_reconcile_def reconcileObservation_def Let_def b f liftE_Inr_eq bindE_simps option.case assms(2) i r
    using assms(7) by (simp add: record_intent_def store_projection_def queue_effect_def w Let_def needs_decision_def assms(2))
qed

lemma sample_evaluation_detached:
  "holds_for (\<lambda>r. res_operation r = NoOperation) (sample_evaluation (Some (attached_row\<lparr>pr_ownership := OwnDetached\<rparr>)))"
  by code_simp

theorem decided_copies_are_left_alone_witness:
  "\<exists>out d'. sample_reconcile (empty_db\<lparr>projections := [attached_row\<lparr>pr_ownership := OwnDetached\<rparr>]\<rparr>) = Inr (out, d')
     \<and> \<not> rd_created out \<and> effects d' = []"
proof -
  let ?e = "attached_row\<lparr>pr_ownership := OwnDetached\<rparr>" and ?d = "empty_db\<lparr>projections := [attached_row\<lparr>pr_ownership := OwnDetached\<rparr>]\<rparr>"
  note [simp] = attached_row_def sample_projection_def
  from sample_evaluation_detached obtain r where r: "sample_evaluation (Some ?e) = Inr r" "res_operation r = NoOperation"
    by (rule holds_forE)
  have "\<not> needs_decision ?d ''o'' ?e"
    by (simp add: needs_decision_def blocking_effect_def empty_db_def isDestinationEditHold_def)
  moreover have "projections ?d = [?e]" by simp
  ultimately obtain out d' where run: "sample_reconcile ?d = Inr (out, d')" using sample_known_run [OF _ _ _ _ _ _ _ r] by force
  have "find_projection ?d ''o'' (policy_ref sample_policy) (so_id observed_row) (so_recurrence observed_row) = Some ?e"
    by (simp add: find_projection_def sample_policy_def observed_row_def)
  from decided_copies_are_left_alone [OF run [unfolded sample_reconcile_def] this] run show ?thesis
    by (auto simp: empty_db_def)
qed

theorem converged_copy_stays_quiet_witness:
  "\<exists>out d'. sample_reconcile (empty_db\<lparr>projections := [attached_row]\<rparr>) = Inr (out, d')
     \<and> \<not> rd_created out \<and> effects d' = []"
proof -
  let ?d = "empty_db\<lparr>projections := [attached_row]\<rparr>"
  have e: "pr_id attached_row = ''x1''" "pr_organization attached_row = ''o''" "pr_policy attached_row = ''p1''"
    "pr_observation attached_row = ''ob''" "pr_recurrence attached_row = ''''" "pr_ownership attached_row = OwnAttached"
    "pr_event_id attached_row = Some ''ev''" "pr_desired_hash attached_row = Some ''sha256:346''"
    by (simp_all add: attached_row_def sample_projection_def)
  from sample_evaluation_known obtain r where r: "sample_evaluation (Some attached_row) = Inr r"
    "res_desired_fingerprint r = Some ''sha256:346''" by (rule holds_forE)
  then obtain i where
    i: "evaluation_input 1784505600000 None (pr_id attached_row) sample_policy None sample_source (Some attached_row)
      (capabilities sample_input) = Inr i"
    and ev: "evaluatePolicy utc_library sample_sha i = Inr r"
    by (auto simp: sample_evaluation_def bindE_Inr_iff e)
  have nd: "\<not> needs_decision ?d ''o'' attached_row"
    by (simp add: needs_decision_def blocking_effect_def empty_db_def isDestinationEditHold_def attached_row_def sample_projection_def)
  have "res_operation r = NoOperation"
    using unchanged_fingerprint_is_quiet [OF ev r(2)] evaluation_input_projection [OF i]
    by (simp add: projection_of_def is_truthy_def e attached_row_def sample_projection_def)
  with sample_known_run [OF _ e(1-5) nd r(1)] obtain out d' where run: "sample_reconcile ?d = Inr (out, d')" by auto
  have f: "find_projection ?d ''o'' (policy_ref sample_policy) (so_id observed_row) (so_recurrence observed_row) = Some attached_row"
    by (simp add: find_projection_def sample_policy_def observed_row_def e)
  from converged_copy_stays_quiet [OF run [unfolded sample_reconcile_def] f nd e(6-8) _ i ev r(2)] run show ?thesis
    by (auto simp: empty_db_def)
qed

theorem pages_cover_the_calendar_witness:
  "concat (observation_pages 1 [observed_row\<lparr>so_id := ''b''\<rparr>, observed_row] None) = [observed_row\<lparr>so_id := ''b''\<rparr>, observed_row]"
  using pages_cover_the_calendar [of "[observed_row\<lparr>so_id := ''b''\<rparr>, observed_row]" 1]
  by (simp add: observed_row_def)

end
