(* ===== verification/Effects.thy ===== *)
theory Effects
  imports Reconciliation
begin

section \<open>Executing outbox effects (server/src/sync/effects.ts)\<close>

text \<open>
  The executor leases outbox effects and performs each of them at the calendar provider, in one
  transaction that holds the policy, the effect and the projection. The provider is not part of the
  modelled code: it is a parameter that answers every call, depending on all calls before, with a
  result or an error; so it can lose answers, forget events or be changed by other people. The calls
  that were made are the result of a run beside the tables, in the order in which they were made.
\<close>

subsection \<open>The provider\<close>

datatype provider_call =
    AccessToken string
  | GetEvent string string
  | CreateEvent string string desired_copy
  | UpdateEvent string string "string option" desired_copy
  | DeleteEvent string string "string option"

type_synonym calls = "provider_call list"

datatype failure =
    ProviderFailure (pf_code: string) (pf_retryable: bool) (pf_ambiguous: bool) (pf_status: "int option")
  | OtherFailure thrown

record managed_identity =
  mi_policy :: string
  mi_projection :: string
  mi_generation :: int

record event_lookup =
  el_event :: string
  el_revision :: string
  el_identity :: "managed_identity option"

record write_result =
  wr_event :: string
  wr_revision :: string

record provider =
  ask_access :: "calls \<Rightarrow> string \<Rightarrow> string \<Rightarrow> failure + unit"
  ask_get :: "calls \<Rightarrow> string \<Rightarrow> string \<Rightarrow> failure + event_lookup option"
  ask_create :: "calls \<Rightarrow> string \<Rightarrow> string \<Rightarrow> desired_copy \<Rightarrow> failure + write_result"
  ask_update :: "calls \<Rightarrow> string \<Rightarrow> string \<Rightarrow> string option \<Rightarrow> desired_copy \<Rightarrow> failure + write_result"
  ask_delete :: "calls \<Rightarrow> string \<Rightarrow> string \<Rightarrow> string option \<Rightarrow> failure + unit"

text \<open>Calls in sequence, with exceptions.\<close>

type_synonym 'a remote = "calls \<Rightarrow> (failure + 'a) \<times> calls"

definition returnR :: "'a \<Rightarrow> 'a remote" where
  "returnR a h = (Inr a, h)"

definition throwR :: "failure \<Rightarrow> 'a remote" where
  "throwR e h = (Inl e, h)"

definition bindR :: "'a remote \<Rightarrow> ('a \<Rightarrow> 'b remote) \<Rightarrow> 'b remote" where
  "bindR m f h = (case m h of (Inl e, h') \<Rightarrow> (Inl e, h') | (Inr a, h') \<Rightarrow> f a h')"

definition catchR :: "'a remote \<Rightarrow> (failure \<Rightarrow> 'a remote) \<Rightarrow> 'a remote" where
  "catchR m handler h = (case m h of (Inl e, h') \<Rightarrow> handler e h' | (Inr a, h') \<Rightarrow> (Inr a, h'))"

definition accessR :: "provider \<Rightarrow> string \<Rightarrow> string \<Rightarrow> unit remote" where
  "accessR pv name connection h = (ask_access pv h name connection, h @ [AccessToken connection])"

definition getR :: "provider \<Rightarrow> string \<Rightarrow> string \<Rightarrow> event_lookup option remote" where
  "getR pv cal ev h = (ask_get pv h cal ev, h @ [GetEvent cal ev])"

definition createR :: "provider \<Rightarrow> string \<Rightarrow> string \<Rightarrow> desired_copy \<Rightarrow> write_result remote" where
  "createR pv cal ev c h = (ask_create pv h cal ev c, h @ [CreateEvent cal ev c])"

definition updateR :: "provider \<Rightarrow> string \<Rightarrow> string \<Rightarrow> string option \<Rightarrow> desired_copy \<Rightarrow> write_result remote" where
  "updateR pv cal ev rv c h = (ask_update pv h cal ev rv c, h @ [UpdateEvent cal ev rv c])"

definition deleteR :: "provider \<Rightarrow> string \<Rightarrow> string \<Rightarrow> string option \<Rightarrow> unit remote" where
  "deleteR pv cal ev rv h = (ask_delete pv h cal ev rv, h @ [DeleteEvent cal ev rv])"

definition failure_thrown :: "failure \<Rightarrow> thrown" where
  "failure_thrown e =
     (case e of ProviderFailure c r a s \<Rightarrow> ThrownError ''ProviderError'' (Some c) (Some r) | OtherFailure t \<Rightarrow> t)"

subsection \<open>Leasing\<close>

record leased_effect =
  le_id :: string
  le_organization :: string
  le_policy :: string
  le_policy_revision :: int
  le_projection :: string
  le_basis :: "string option"
  le_operation :: write_operation
  le_desired :: "desired_copy option"
  le_attempts :: nat
  le_ambiguous :: bool

definition expire_effects :: "int \<Rightarrow> effect_row list \<Rightarrow> effect_row list" where
  "expire_effects nowMs es =
     update_where (\<lambda>e. oe_state e = Leased \<and> (case oe_expires e of None \<Rightarrow> False | Some x \<Rightarrow> x < nowMs))
       (\<lambda>e. e\<lparr>oe_state := Retry, oe_owner := None, oe_expires := None, oe_ambiguous := True, oe_run_after := nowMs,
          oe_updated := nowMs\<rparr>) es"

definition is_prior :: "effect_row \<Rightarrow> effect_row \<Rightarrow> bool" where
  "is_prior prior e \<longleftrightarrow> oe_projection prior = oe_projection e \<and> oe_state prior \<noteq> Succeeded
     \<and> (oe_created prior < oe_created e \<or> oe_created prior = oe_created e \<and> oe_id prior < oe_id e)"

definition effect_due :: "int \<Rightarrow> effect_row list \<Rightarrow> effect_row \<Rightarrow> bool" where
  "effect_due nowMs es e \<longleftrightarrow> (oe_state e = Pending \<or> oe_state e = Retry) \<and> oe_run_after e \<le> nowMs
     \<and> \<not> list_ex (\<lambda>prior. is_prior prior e) es"

definition select_effects :: "string list \<Rightarrow> int \<Rightarrow> nat \<Rightarrow> effect_row list \<Rightarrow> effect_row list" where
  "select_effects locked nowMs limit es =
     take limit (filter (\<lambda>e. oe_id e \<notin> set locked)
       (sort_key (\<lambda>e. (oe_run_after e, oe_id e)) (filter (effect_due nowMs es) es)))"

definition leased_view :: "effect_row \<Rightarrow> leased_effect" where
  "leased_view e = \<lparr>le_id = oe_id e, le_organization = oe_organization e, le_policy = oe_policy e,
     le_policy_revision = oe_policy_revision e, le_projection = oe_projection e, le_basis = oe_basis e,
     le_operation = oe_operation e, le_desired = oe_desired e, le_attempts = nat (oe_attempts e + 1),
     le_ambiguous = oe_ambiguous e\<rparr>"

definition lease_effects ::
  "string list \<Rightarrow> int \<Rightarrow> string \<Rightarrow> nat \<Rightarrow> int \<Rightarrow> effect_row list \<Rightarrow> leased_effect list \<times> effect_row list" where
  "lease_effects locked nowMs owner limit leaseSeconds es =
     (let es' = expire_effects nowMs es;
          rows = select_effects locked nowMs limit es'
      in if rows = [] then ([], es')
         else (map leased_view rows,
               update_where (\<lambda>e. oe_id e \<in> set (map oe_id rows))
                 (\<lambda>e. e\<lparr>oe_state := Leased, oe_owner := Some owner, oe_expires := Some (nowMs + leaseSeconds * 1000),
                    oe_attempts := oe_attempts e + 1, oe_updated := nowMs\<rparr>) es'))"

subsection \<open>Recording outcomes\<close>

text \<open>The clock and the new identities of the transaction of one effect.\<close>

record stamp =
  st_now :: int
  st_audit_id :: string
  st_repair_audit_id :: string
  st_effect_id :: string
  st_job_id :: string

definition holds_effect :: "string \<Rightarrow> string \<Rightarrow> effect_row \<Rightarrow> bool" where
  "holds_effect ident owner e \<longleftrightarrow> oe_id e = ident \<and> oe_state e = Leased \<and> oe_owner e = Some owner"

definition settle :: "string \<Rightarrow> string \<Rightarrow> (effect_row \<Rightarrow> effect_row) \<Rightarrow> db \<Rightarrow> db" where
  "settle ident owner f d =
     d\<lparr>effects := update_where (holds_effect ident owner) (\<lambda>e. (f e)\<lparr>oe_owner := None, oe_expires := None\<rparr>) (effects d)\<rparr>"

definition audit_effect :: "string \<Rightarrow> leased_effect \<Rightarrow> string \<Rightarrow> string \<Rightarrow> (string \<times> json option) list \<Rightarrow> db \<Rightarrow> db" where
  "audit_effect ident eff action reasonCode extraDetail d =
     d\<lparr>audits := audits d @ [\<lparr>af_id = ident, af_organization = le_organization eff, af_principal = None, af_actor = ActorSync,
         af_action = action, af_target_type = ''projection'', af_target = le_projection eff, af_reason = reasonCode,
         af_before = None, af_after = None,
         af_detail = JObj ([(''effect_id'', Some (JStr (le_id eff))),
           (''operation'', Some (JStr (write_text (le_operation eff))))] @ extraDetail)\<rparr>]\<rparr>"

definition defer_effect :: "stamp \<Rightarrow> string \<Rightarrow> leased_effect \<Rightarrow> string \<Rightarrow> db \<Rightarrow> db" where
  "defer_effect st owner eff reasonCode d =
     audit_effect (st_audit_id st) eff ''copy.deferred'' reasonCode []
       (settle (le_id eff) owner (\<lambda>e. e\<lparr>oe_state := Retry, oe_attempts := oe_attempts e - 1,
          oe_run_after := st_now st + 24 * 60 * 60000, oe_ambiguous := False, oe_error := Some reasonCode,
          oe_updated := st_now st\<rparr>) d)"

definition supersede_effect :: "stamp \<Rightarrow> string \<Rightarrow> leased_effect \<Rightarrow> string \<Rightarrow> db \<Rightarrow> db" where
  "supersede_effect st owner eff reasonCode d =
     audit_effect (st_audit_id st) eff ''copy.effect_superseded'' reasonCode []
       (settle (le_id eff) owner (\<lambda>e. e\<lparr>oe_state := Succeeded, oe_ambiguous := False, oe_error := Some reasonCode,
          oe_updated := st_now st\<rparr>) d)"

definition succeed_effect :: "stamp \<Rightarrow> string \<Rightarrow> leased_effect \<Rightarrow> string option \<Rightarrow> string option \<Rightarrow> db \<Rightarrow> db" where
  "succeed_effect st owner eff remoteEventId remoteRevision d =
     audit_effect (st_audit_id st) eff
       (if le_operation eff = DeleteCopy then ''copy.deleted'' else ''copy.converged'') ''provider_write_succeeded'' []
       (update_projection (le_projection eff)
          (\<lambda>p. if le_operation eff = DeleteCopy
               then p\<lparr>pr_recovery := None, pr_event_id := None, pr_etag := None, pr_generation := pr_generation p + 1,
                      pr_status := ''deleted'', pr_last_success := Some (st_now st), pr_last_verified := None,
                      pr_error := None, pr_updated := st_now st\<rparr>
               else p\<lparr>pr_recovery := None, pr_event_id := remoteEventId, pr_etag := remoteRevision,
                      pr_status := ''converged'', pr_ownership := OwnAttached, pr_last_success := Some (st_now st),
                      pr_last_verified := Some (st_now st), pr_error := None, pr_updated := st_now st\<rparr>)
          (settle (le_id eff) owner (\<lambda>e. e\<lparr>oe_state := Succeeded, oe_ambiguous := False, oe_error := None,
             oe_updated := st_now st\<rparr>) d))"

definition holdAmbiguous :: "stamp \<Rightarrow> string \<Rightarrow> leased_effect \<Rightarrow> string \<Rightarrow> db \<Rightarrow> db" where
  "holdAmbiguous st owner eff errorCode d =
     audit_effect (st_audit_id st) eff ''copy.held''
       (if errorCode = ''ownership_mismatch'' then ''destination_ownership_mismatch'' else ''provider_precondition_failed'') []
       (update_projection (le_projection eff)
          (\<lambda>p. p\<lparr>pr_ownership := OwnAmbiguous, pr_status := ''held'', pr_error := Some errorCode, pr_updated := st_now st\<rparr>)
          (settle (le_id eff) owner (\<lambda>e. e\<lparr>oe_state := Dead, oe_ambiguous := True, oe_error := Some errorCode,
             oe_updated := st_now st\<rparr>) d))"

definition is_dead :: "leased_effect \<Rightarrow> failure \<Rightarrow> bool" where
  "is_dead eff error \<longleftrightarrow> (case error of ProviderFailure c r a s \<Rightarrow> \<not> r | OtherFailure t \<Rightarrow> False) \<or> 10 \<le> le_attempts eff"

definition fail_effect :: "stamp \<Rightarrow> string \<Rightarrow> leased_effect \<Rightarrow> failure \<Rightarrow> db \<Rightarrow> db" where
  "fail_effect st owner eff error d =
     (let delaySeconds = min 3600 (2 ^ min (le_attempts eff) 10);
          reason = safeErrorCode (failure_thrown error)
      in update_projection (le_projection eff)
           (\<lambda>p. p\<lparr>pr_status := (if is_dead eff error then ''failed'' else ''retrying''), pr_error := Some reason,
              pr_updated := st_now st\<rparr>)
           (settle (le_id eff) owner (\<lambda>e. e\<lparr>oe_state := (if is_dead eff error then Dead else Retry),
              oe_run_after := st_now st + delaySeconds * 1000,
              oe_ambiguous := (le_ambiguous eff \<or> (case error of ProviderFailure c r a s \<Rightarrow> a | OtherFailure t \<Rightarrow> False)),
              oe_error := Some reason, oe_updated := st_now st\<rparr>) d))"

subsection \<open>Replacing a copy that has disappeared\<close>

definition requireDesiredCopy :: "desired_copy option \<Rightarrow> failure + desired_copy" where
  "requireDesiredCopy v = orThrow (ProviderFailure ''invalid_desired_state'' False False None) v"

definition hash_or_fail :: "(string \<Rightarrow> string) \<Rightarrow> json \<Rightarrow> failure + string" where
  "hash_or_fail sha v = liftE (\<lambda>_. OtherFailure (ThrownError ''Error'' None None)) (sha256Canonical sha v)"

text \<open>
  The part of \<open>scheduleReplacementAfterMissing\<close> that can throw: it refuses a stale intent, and otherwise
  gives the desired copy of the next generation with its hash and the key of its intent.
\<close>

definition replacement ::
  "(string \<Rightarrow> string) \<Rightarrow> leased_effect \<Rightarrow> projection_row \<Rightarrow> failure + desired_copy \<times> string \<times> string" where
  "replacement sha eff p =
     bindE (requireDesiredCopy (pr_desired p)) (\<lambda>desired.
     bindE (requireDesiredCopy (le_desired eff)) (\<lambda>effectDesired.
     let stale = ProviderFailure ''stale_missing_repair'' False False None in
     if pr_policy_revision p \<noteq> le_policy_revision eff
        \<or> prov_policy_ref (d_provenance desired) \<noteq> le_policy eff
        \<or> prov_projection_ref (d_provenance desired) \<noteq> le_projection eff
        \<or> prov_generation (d_provenance desired) \<noteq> pr_generation p
        \<or> \<not> is_truthy (pr_desired_hash p)
     then Inl stale
     else
       bindE (hash_or_fail sha (copy_json desired)) (\<lambda>h.
       if Some h \<noteq> pr_desired_hash p then Inl stale else
       bindE (hash_or_fail sha (copy_json effectDesired)) (\<lambda>eh.
       if Some eh \<noteq> pr_desired_hash p then Inl stale
       else
         let generation = pr_generation p + 1;
             desired' = desired\<lparr>d_provenance := (d_provenance desired)\<lparr>prov_generation := generation\<rparr>\<rparr>
         in bindE (hash_or_fail sha (copy_json desired')) (\<lambda>desiredHash.
            bindE (hash_or_fail sha (JObj [(''version'', Some (JNum (Whole 1))),
                (''kind'', Some (JStr ''destination_missing_generation_repair'')),
                (''policy_ref'', Some (JStr (le_policy eff))), (''policy_revision'', Some (JNum (Whole (le_policy_revision eff)))),
                (''projection_ref'', Some (JStr (le_projection eff))), (''generation'', Some (JNum (Whole generation))),
                (''intent_sequence'', Some (JNum (Whole (pr_intent_sequence p + 1)))),
                (''operation'', Some (JStr ''create'')), (''desired_fingerprint'', Some (JStr desiredHash))])) (\<lambda>key.
              Inr (desired', desiredHash, key)))))))"

definition has_newer_intent :: "leased_effect \<Rightarrow> db \<Rightarrow> bool" where
  "has_newer_intent eff d \<longleftrightarrow>
     list_ex (\<lambda>e. oe_projection e = le_projection eff \<and> oe_id e \<noteq> le_id eff \<and> active_state (oe_state e)) (effects d)"

definition replacement_effect :: "stamp \<Rightarrow> leased_effect \<Rightarrow> desired_copy \<Rightarrow> string \<Rightarrow> effect_row" where
  "replacement_effect st eff desired key =
     \<lparr>oe_id = st_effect_id st, oe_organization = le_organization eff, oe_policy = le_policy eff,
      oe_projection = le_projection eff, oe_basis = le_basis eff, oe_policy_revision = le_policy_revision eff,
      oe_operation = CreateCopy, oe_key = key, oe_desired = Some desired, oe_state = Pending, oe_attempts = 0,
      oe_run_after = st_now st, oe_owner = None, oe_expires = None, oe_ambiguous = False, oe_error = None,
      oe_created = st_now st, oe_updated = st_now st\<rparr>"

definition install_replacement ::
  "stamp \<Rightarrow> string \<Rightarrow> leased_effect \<Rightarrow> projection_row \<Rightarrow> desired_copy \<times> string \<times> string \<Rightarrow> db \<Rightarrow> sync_error + db" where
  "install_replacement st owner eff p dhk d =
     (let (desired, desiredHash, key) = dhk;
          d1 = supersede_effect st owner eff ''destination_missing_generation_advanced'' d
      in if list_ex (\<lambda>x. oe_key x = key \<or> oe_id x = st_effect_id st) (effects d1) then Inl UniqueViolation
         else Inr (audit_effect (st_repair_audit_id st) eff ''copy.repair_scheduled'' ''destination_missing_generation_advanced''
                [(''replacement_effect_id'', Some (JStr (st_effect_id st))),
                 (''previous_generation'', Some (JNum (Whole (pr_generation p)))),
                 (''repair_generation'', Some (JNum (Whole (pr_generation p + 1))))]
                (update_projection (le_projection eff)
                   (\<lambda>q. q\<lparr>pr_intent_sequence := pr_intent_sequence p + 1, pr_generation := pr_generation p + 1,
                      pr_recovery := None, pr_event_id := None, pr_etag := None, pr_desired_hash := Some desiredHash,
                      pr_desired := Some desired, pr_status := ''pending'', pr_error := Some ''destination_missing'',
                      pr_updated := st_now st\<rparr>)
                   (d1\<lparr>effects := effects d1 @ [replacement_effect st eff desired key]\<rparr>))))"

subsection \<open>Talking to the provider\<close>

definition remove_dashes :: "string \<Rightarrow> string" where
  "remove_dashes s = filter (\<lambda>c. c \<noteq> CHR ''-'') s"

definition managedEventId :: "string \<Rightarrow> int \<Rightarrow> string" where
  "managedEventId projectionId generation = ''p'' @ toLowerCase (remove_dashes projectionId) @ dec_int generation"

definition eventBelongsToProjection :: "event_lookup \<Rightarrow> string \<Rightarrow> string \<Rightarrow> int \<Rightarrow> bool" where
  "eventBelongsToProjection ev policyId projectionId generation \<longleftrightarrow>
     el_identity ev = Some \<lparr>mi_policy = policyId, mi_projection = projectionId, mi_generation = generation\<rparr>"

text \<open>How the talk ends: written (with the event and its revision), a foreign event in the place, or no event.\<close>

datatype outcome = Written "string option" "string option" | OwnershipMismatch | MissingDestination

record target =
  tg_projection :: projection_row
  tg_observation :: observation_row
  tg_endpoint :: calendar_endpoint
  tg_connection :: provider_connection

definition target_event_id :: "target \<Rightarrow> string" where
  "target_event_id t = (case pr_event_id (tg_projection t) of
     Some ev \<Rightarrow> ev | None \<Rightarrow> managedEventId (pr_id (tg_projection t)) (pr_generation (tg_projection t)))"

definition mine :: "leased_effect \<Rightarrow> target \<Rightarrow> event_lookup \<Rightarrow> bool" where
  "mine eff t ev = eventBelongsToProjection ev (le_policy eff) (pr_id (tg_projection t)) (pr_generation (tg_projection t))"

definition liftR :: "failure + 'a \<Rightarrow> 'a remote" where
  "liftR x h = (x, h)"

definition written :: "write_result \<Rightarrow> outcome remote" where
  "written w = returnR (Written (Some (wr_event w)) (Some (wr_revision w)))"

definition run_create :: "provider \<Rightarrow> leased_effect \<Rightarrow> target \<Rightarrow> outcome remote" where
  "run_create pv eff t =
     (let cal = ce_remote_id (tg_endpoint t); eventId = target_event_id t
      in bindR (liftR (requireDesiredCopy (le_desired eff))) (\<lambda>desired.
         bindR (getR pv cal eventId) (\<lambda>found.
           case found of
             Some ev \<Rightarrow>
               if \<not> mine eff t ev then returnR OwnershipMismatch
               else bindR (updateR pv cal (el_event ev) (Some (el_revision ev)) desired) written
           | None \<Rightarrow>
               if le_ambiguous eff then returnR MissingDestination
               else bindR (createR pv cal eventId desired) written)))"

text \<open>An update that the provider answers with 404 is looked up again before anything is written.\<close>

definition update_or_replace :: "provider \<Rightarrow> leased_effect \<Rightarrow> target \<Rightarrow> desired_copy \<Rightarrow> string \<Rightarrow> string option \<Rightarrow> outcome remote" where
  "update_or_replace pv eff t desired eventId expectedRevision =
     (let cal = ce_remote_id (tg_endpoint t)
      in catchR (bindR (updateR pv cal eventId expectedRevision desired) written)
           (\<lambda>e. case e of
              ProviderFailure c r a s \<Rightarrow>
                if s \<noteq> Some 404 then throwR e
                else bindR (getR pv cal eventId) (\<lambda>found.
                       case found of
                         Some ev \<Rightarrow>
                           if \<not> mine eff t ev then returnR OwnershipMismatch
                           else bindR (updateR pv cal (el_event ev) (Some (el_revision ev)) desired) written
                       | None \<Rightarrow> returnR MissingDestination)
            | OtherFailure x \<Rightarrow> throwR e))"

definition run_update :: "provider \<Rightarrow> leased_effect \<Rightarrow> target \<Rightarrow> outcome remote" where
  "run_update pv eff t =
     (let cal = ce_remote_id (tg_endpoint t); p = tg_projection t
      in bindR (liftR (requireDesiredCopy (le_desired eff))) (\<lambda>desired.
         if is_truthy (pr_event_id p) then
           if le_ambiguous eff then
             bindR (getR pv cal (the (pr_event_id p))) (\<lambda>found.
               case found of
                 None \<Rightarrow> returnR MissingDestination
               | Some ev \<Rightarrow>
                   if \<not> mine eff t ev then returnR OwnershipMismatch
                   else if is_truthy (Some (el_event ev))
                   then update_or_replace pv eff t desired (el_event ev) (Some (el_revision ev))
                   else bindR (createR pv cal (target_event_id t) desired) written)
           else update_or_replace pv eff t desired (the (pr_event_id p)) (pr_etag p)
         else bindR (createR pv cal (target_event_id t) desired) written))"

definition run_delete :: "provider \<Rightarrow> leased_effect \<Rightarrow> target \<Rightarrow> outcome remote" where
  "run_delete pv eff t =
     (let cal = ce_remote_id (tg_endpoint t); p = tg_projection t;
          deleteEventId = or_else (pr_event_id p) (if le_ambiguous eff then Some (target_event_id t) else None)
      in if is_truthy deleteEventId then
           if le_ambiguous eff then
             bindR (getR pv cal (the deleteEventId)) (\<lambda>found.
               case found of
                 None \<Rightarrow> returnR (Written None None)
               | Some ev \<Rightarrow>
                   if \<not> mine eff t ev then returnR OwnershipMismatch
                   else bindR (deleteR pv cal (the deleteEventId) (Some (el_revision ev))) (\<lambda>_. returnR (Written None None)))
           else bindR (deleteR pv cal (the deleteEventId) (pr_etag p)) (\<lambda>_. returnR (Written None None))
         else returnR (Written None None))"

definition run_effect :: "provider \<Rightarrow> leased_effect \<Rightarrow> target \<Rightarrow> outcome remote" where
  "run_effect pv eff t =
     bindR (accessR pv (pc_provider (tg_connection t)) (ce_connection (tg_endpoint t))) (\<lambda>_.
       case le_operation eff of
         CreateCopy \<Rightarrow> run_create pv eff t
       | UpdateCopy \<Rightarrow> run_update pv eff t
       | DeleteCopy \<Rightarrow> run_delete pv eff t)"

subsection \<open>One effect\<close>

datatype disposition = Execute | DeferPaused | DeferRevision | SupersedeDeleted

definition effectPolicyExecutionDisposition :: "policy_status \<Rightarrow> int \<Rightarrow> int \<Rightarrow> disposition" where
  "effectPolicyExecutionDisposition status currentRevision effectRevision =
     (if status = PolicyDeleted then SupersedeDeleted
      else if status = PolicyPaused then DeferPaused
      else if currentRevision = effectRevision then Execute else DeferRevision)"

definition find_effect_policy ::
  "db \<Rightarrow> leased_effect \<Rightarrow> (policy_row \<times> calendar_endpoint \<times> provider_connection) option" where
  "find_effect_policy d eff =
     Option.bind (find (\<lambda>p. sp_organization p = le_organization eff \<and> sp_id p = le_policy eff) (policies d))
       (\<lambda>p. map_option (Pair p) (endpoint_view d (sp_source_calendar p)))"

definition find_target :: "db \<Rightarrow> leased_effect \<Rightarrow> target option" where
  "find_target d eff =
     Option.bind (find (\<lambda>p. pr_organization p = le_organization eff \<and> pr_id p = le_projection eff \<and> pr_policy p = le_policy eff)
                    (projections d)) (\<lambda>p.
     Option.bind (find (\<lambda>b. so_id b = pr_observation p) (observations d)) (\<lambda>b.
     map_option (\<lambda>(e, c). \<lparr>tg_projection = p, tg_observation = b, tg_endpoint = e, tg_connection = c\<rparr>)
       (endpoint_view d (pr_destination_calendar p))))"

text \<open>What happens after the provider has been talked to.\<close>

definition catch_failure :: "stamp \<Rightarrow> string \<Rightarrow> leased_effect \<Rightarrow> target \<Rightarrow> failure \<Rightarrow> db \<Rightarrow> db" where
  "catch_failure st owner eff t error d =
     (case error of
        ProviderFailure c r a s \<Rightarrow>
          if c = ''precondition_failed'' then holdAmbiguous st owner eff c d
          else if c = ''provider_auth'' then
            fail_effect st owner eff error
              (d\<lparr>connections := update_where (\<lambda>x. pc_organization x = le_organization eff \<and> pc_id x = ce_connection (tg_endpoint t))
                   (\<lambda>x. x\<lparr>pc_status := ActionRequired, pc_error := Some c, pc_updated := st_now st\<rparr>) (connections d)\<rparr>)
          else fail_effect st owner eff error d
      | OtherFailure x \<Rightarrow> fail_effect st owner eff error d)"

definition conclude ::
  "(string \<Rightarrow> string) \<Rightarrow> stamp \<Rightarrow> string \<Rightarrow> leased_effect \<Rightarrow> target \<Rightarrow> failure + outcome \<Rightarrow> db \<Rightarrow> sync_error + db" where
  "conclude sha st owner eff t res d =
     (case res of
        Inl error \<Rightarrow> Inr (catch_failure st owner eff t error d)
      | Inr (Written ev rv) \<Rightarrow> Inr (succeed_effect st owner eff ev rv d)
      | Inr OwnershipMismatch \<Rightarrow> Inr (holdAmbiguous st owner eff ''ownership_mismatch'' d)
      | Inr MissingDestination \<Rightarrow>
          if has_newer_intent eff d then Inr (supersede_effect st owner eff ''destination_missing_newer_intent'' d)
          else (case replacement sha eff (tg_projection t) of
                  Inl error \<Rightarrow> Inr (catch_failure st owner eff t error d)
                | Inr dhk \<Rightarrow> install_replacement st owner eff (tg_projection t) dhk d))"

definition basis_changed :: "leased_effect \<Rightarrow> target \<Rightarrow> string \<Rightarrow> bool" where
  "basis_changed eff t currentBasis \<longleftrightarrow> \<not> is_truthy (le_basis eff) \<or> \<not> is_truthy (pr_basis (tg_projection t))
     \<or> le_basis eff \<noteq> pr_basis (tg_projection t) \<or> le_basis eff \<noteq> Some currentBasis"

definition reject_basis :: "stamp \<Rightarrow> string \<Rightarrow> leased_effect \<Rightarrow> db \<Rightarrow> db" where
  "reject_basis st owner eff d =
     (let d1 = update_where (\<lambda>p. pr_organization p = le_organization eff \<and> pr_id p = le_projection eff)
            (\<lambda>p. p\<lparr>pr_status := ''failed'', pr_error := Some ''recovery_basis_changed'', pr_updated := st_now st\<rparr>);
          d2 = supersede_effect st owner eff ''recovery_basis_changed'' d
      in d2\<lparr>projections := d1 (projections d2),
            jobs_table := (case enqueue (st_now st) (st_job_id st) (le_organization eff) ''reconcile_policy''
                (''policy:'' @ le_policy eff @ '':revision:'' @ dec_int (le_policy_revision eff) @ '':recovery-basis:'' @ le_id eff)
                (JObj [(''policy_id'', Some (JStr (le_policy eff)))]) (st_now st) (jobs_table d2) of
              Inr (_, q) \<Rightarrow> q | Inl _ \<Rightarrow> jobs_table d2)\<rparr>)"

definition target_unavailable :: failure where
  "target_unavailable = ProviderFailure ''target_unavailable'' False False None"

definition role_changed :: failure where
  "role_changed = ProviderFailure ''connection_role_changed'' False False None"

text \<open>The destination side of a run, once the policy permits it.\<close>

definition execute_target ::
  "provider \<Rightarrow> (string \<Rightarrow> string) \<Rightarrow> stamp \<Rightarrow> string \<Rightarrow> leased_effect \<Rightarrow> bool \<Rightarrow> db \<Rightarrow> calls \<Rightarrow> (sync_error + db) \<times> calls" where
  "execute_target pv sha st owner eff hasPolicy d h =
     (case find_target d eff of
        None \<Rightarrow> (Inr (fail_effect st owner eff target_unavailable d), h)
      | Some t \<Rightarrow>
          if \<not> hasPolicy \<or> \<not> destination_usable (tg_endpoint t) (tg_connection t)
          then (Inr (fail_effect st owner eff target_unavailable d), h)
          else (case sourceObservationBasisHash sha (so_hash (tg_observation t)) (so_tombstone (tg_observation t)) of
                  Inl e \<Rightarrow> (Inl (HashThrew e), h)
                | Inr currentBasis \<Rightarrow>
                    if basis_changed eff t currentBasis then (Inr (reject_basis st owner eff d), h)
                    else let (res, h') = run_effect pv eff t h in (conclude sha st owner eff t res d, h')))"

definition executeOneLocked ::
  "provider \<Rightarrow> (string \<Rightarrow> string) \<Rightarrow> stamp \<Rightarrow> string \<Rightarrow> leased_effect \<Rightarrow> db \<Rightarrow> calls \<Rightarrow> (sync_error + db) \<times> calls" where
  "executeOneLocked pv sha st owner eff d h =
     (if \<not> list_ex (\<lambda>e. oe_organization e = le_organization eff \<and> holds_effect (le_id eff) owner e) (effects d) then (Inr d, h)
      else case find_effect_policy d eff of
             None \<Rightarrow> execute_target pv sha st owner eff False d h
           | Some (p, se, sc) \<Rightarrow>
               (case effectPolicyExecutionDisposition (sp_status p) (sp_revision p) (le_policy_revision eff) of
                  DeferPaused \<Rightarrow> (Inr (defer_effect st owner eff ''policy_paused'' d), h)
                | DeferRevision \<Rightarrow> (Inr (defer_effect st owner eff ''policy_revision_changed'' d), h)
                | SupersedeDeleted \<Rightarrow> (Inr (supersede_effect st owner eff ''policy_deleted'' d), h)
                | Execute \<Rightarrow>
                    if \<not> source_usable se sc then
                      (Inr (fail_effect st owner eff role_changed
                         (d\<lparr>policies := update_where (\<lambda>p. sp_organization p = le_organization eff \<and> sp_id p = le_policy eff
                              \<and> sp_status p = PolicyActive)
                            (\<lambda>p. p\<lparr>sp_error := Some ''connection_role_changed'', sp_updated := st_now st\<rparr>) (policies d)\<rparr>)), h)
                    else execute_target pv sha st owner eff True d h))"

text \<open>
  A batch: the effects one after the other, each committed on its own; a transaction that throws is
  rolled back and ends the batch.
\<close>

fun run_effects ::
  "provider \<Rightarrow> (string \<Rightarrow> string) \<Rightarrow> (nat \<Rightarrow> stamp) \<Rightarrow> string \<Rightarrow> nat \<Rightarrow> leased_effect list \<Rightarrow> db \<Rightarrow> calls
   \<Rightarrow> sync_error option \<times> db \<times> calls" where
  "run_effects pv sha sts owner k [] d h = (None, d, h)"
| "run_effects pv sha sts owner k (eff # effs) d h =
     (case executeOneLocked pv sha (sts k) owner eff d h of
        (Inl e, h') \<Rightarrow> (Some e, d, h')
      | (Inr d', h') \<Rightarrow> run_effects pv sha sts owner (Suc k) effs d' h')"

definition runBatch ::
  "provider \<Rightarrow> (string \<Rightarrow> string) \<Rightarrow> (nat \<Rightarrow> stamp) \<Rightarrow> string list \<Rightarrow> int \<Rightarrow> string \<Rightarrow> nat \<Rightarrow> int \<Rightarrow> db \<Rightarrow> calls
   \<Rightarrow> sync_error option \<times> db \<times> calls" where
  "runBatch pv sha sts locked nowMs owner limit leaseSeconds d h =
     (let (effs, es) = lease_effects locked nowMs owner limit leaseSeconds (effects d)
      in run_effects pv sha sts owner 0 effs (d\<lparr>effects := es\<rparr>) h)"

subsection \<open>Who may call the provider\<close>

lemmas remote_simps = returnR_def throwR_def bindR_def catchR_def accessR_def getR_def createR_def updateR_def deleteR_def
  liftR_def written_def

text \<open>
  C1: The provider is called only with authority. If a run of an effect makes any call, then the worker
  holds the lease of the effect, the policy is active at the revision of the effect with a usable
  source, the destination is writable over an active connection, and the effect, the projection and
  the source event as it is now agree on the basis of the intent.
\<close>

theorem provider_is_called_with_authority:
  assumes "executeOneLocked pv sha st owner eff d h = (res, h')" "h' \<noteq> h"
  shows "(\<exists>e \<in> set (effects d). oe_organization e = le_organization eff \<and> oe_id e = le_id eff \<and> oe_state e = Leased \<and> oe_owner e = Some owner)
    \<and> (\<exists>p se sc. find_effect_policy d eff = Some (p, se, sc) \<and> sp_status p = PolicyActive \<and> sp_revision p = le_policy_revision eff
         \<and> source_usable se sc)
    \<and> (\<exists>t basis. find_target d eff = Some t \<and> destination_usable (tg_endpoint t) (tg_connection t)
         \<and> sourceObservationBasisHash sha (so_hash (tg_observation t)) (so_tombstone (tg_observation t)) = Inr basis
         \<and> le_basis eff = Some basis \<and> pr_basis (tg_projection t) = Some basis)"
proof -
  from assms have held: "list_ex (\<lambda>e. oe_organization e = le_organization eff \<and> holds_effect (le_id eff) owner e) (effects d)"
    by (auto simp: executeOneLocked_def split: if_splits)
  have tgt: "hasPolicy \<and> (\<exists>t basis. find_target d eff = Some t \<and> destination_usable (tg_endpoint t) (tg_connection t)
         \<and> sourceObservationBasisHash sha (so_hash (tg_observation t)) (so_tombstone (tg_observation t)) = Inr basis
         \<and> le_basis eff = Some basis \<and> pr_basis (tg_projection t) = Some basis)"
    if "execute_target pv sha st owner eff hasPolicy d h = (res, h')" for hasPolicy
    using that assms(2)
    by (auto simp: execute_target_def basis_changed_def split: option.splits if_splits sum.splits)
  from assms held show ?thesis
    by (auto simp: executeOneLocked_def effectPolicyExecutionDisposition_def list_ex_iff holds_effect_def dest!: tgt
        split: option.splits prod.splits if_splits disposition.splits policy_status.splits)
      (meson policy_status.exhaust)
qed

subsection \<open>No blind overwriting\<close>

text \<open>
  The calls of a run, read in order: every update and every deletion is of an event that a lookup of
  the same run found and that passed \<open>ok\<close>, at the revision that the lookup saw; or it is \<open>known\<close>.
\<close>

fun guarded ::
  "provider \<Rightarrow> (event_lookup \<Rightarrow> bool) \<Rightarrow> (string \<Rightarrow> string option \<Rightarrow> bool) \<Rightarrow> calls \<Rightarrow> (string \<times> string \<times> event_lookup) list
   \<Rightarrow> calls \<Rightarrow> bool" where
  "guarded pv ok known h seen [] \<longleftrightarrow> True"
| "guarded pv ok known h seen (GetEvent cal ev # cs) \<longleftrightarrow>
     guarded pv ok known (h @ [GetEvent cal ev])
       (case ask_get pv h cal ev of Inr (Some l) \<Rightarrow> if ok l then (cal, ev, l) # seen else seen | _ \<Rightarrow> seen) cs"
| "guarded pv ok known h seen (UpdateEvent cal ev rv c # cs) \<longleftrightarrow>
     (known ev rv \<or> list_ex (\<lambda>(cal', ev', l). cal' = cal \<and> ev = el_event l \<and> rv = Some (el_revision l)) seen)
     \<and> guarded pv ok known (h @ [UpdateEvent cal ev rv c]) seen cs"
| "guarded pv ok known h seen (DeleteEvent cal ev rv # cs) \<longleftrightarrow>
     (known ev rv \<or> list_ex (\<lambda>(cal', ev', l). cal' = cal \<and> ev = ev' \<and> rv = Some (el_revision l)) seen)
     \<and> guarded pv ok known (h @ [DeleteEvent cal ev rv]) seen cs"
| "guarded pv ok known h seen (CreateEvent cal ev c # cs) \<longleftrightarrow> guarded pv ok known (h @ [CreateEvent cal ev c]) seen cs"
| "guarded pv ok known h seen (AccessToken c # cs) \<longleftrightarrow> guarded pv ok known (h @ [AccessToken c]) seen cs"

definition recorded :: "leased_effect \<Rightarrow> target \<Rightarrow> string \<Rightarrow> string option \<Rightarrow> bool" where
  "recorded eff t ev rv \<longleftrightarrow> \<not> le_ambiguous eff \<and> pr_event_id (tg_projection t) = Some ev \<and> rv = pr_etag (tg_projection t)"

lemma run_create_guarded:
  "\<exists>cs. snd (run_create pv eff t h) = h @ cs \<and> guarded pv (mine eff t) (recorded eff t) h [] cs"
  by (auto simp: run_create_def remote_simps Let_def split: sum.splits option.splits if_splits)

lemma update_or_replace_guarded:
  assumes "recorded eff t ev rv \<or> list_ex (\<lambda>(cal', ev', l). cal' = ce_remote_id (tg_endpoint t) \<and> ev = el_event l \<and> rv = Some (el_revision l)) seen"
  shows "\<exists>cs. snd (update_or_replace pv eff t desired ev rv h) = h @ cs \<and> guarded pv (mine eff t) (recorded eff t) h seen cs"
  using assms
  by (auto simp: update_or_replace_def remote_simps Let_def split: sum.splits option.splits if_splits failure.splits prod.splits)

lemma bindR_liftR: "bindR (liftR x) f h = (case x of Inl e \<Rightarrow> (Inl e, h) | Inr a \<Rightarrow> f a h)"
  by (auto simp: remote_simps split: sum.splits)

lemma bindR_getR: "bindR (getR pv cal ev) f h =
  (case ask_get pv h cal ev of Inl e \<Rightarrow> (Inl e, h @ [GetEvent cal ev]) | Inr a \<Rightarrow> f a (h @ [GetEvent cal ev]))"
  by (auto simp: remote_simps split: sum.splits)

lemma run_update_guarded:
  "\<exists>cs. snd (run_update pv eff t h) = h @ cs \<and> guarded pv (mine eff t) (recorded eff t) h [] cs"
proof (cases "requireDesiredCopy (le_desired eff)")
  case (Inl e)
  then show ?thesis by (simp add: run_update_def Let_def bindR_liftR)
next
  case (Inr desired)
  let ?cal = "ce_remote_id (tg_endpoint t)" and ?id = "pr_event_id (tg_projection t)"
  have create: "\<exists>cs. snd (bindR (createR pv ?cal (target_event_id t) desired) written h') = h' @ cs
      \<and> guarded pv (mine eff t) (recorded eff t) h' seen cs" for h' seen
    by (auto simp: remote_simps split: sum.splits)
  consider (none) "\<not> is_truthy ?id" | (plain) "is_truthy ?id" "\<not> le_ambiguous eff" | (ambiguous) "is_truthy ?id" "le_ambiguous eff" by blast
  then show ?thesis
  proof cases
    case none
    with Inr create show ?thesis by (simp add: run_update_def Let_def bindR_liftR)
  next
    case plain
    then have "recorded eff t (the ?id) (pr_etag (tg_projection t))" by (auto simp: recorded_def is_truthy_def)
    with plain Inr update_or_replace_guarded show ?thesis by (simp add: run_update_def Let_def bindR_liftR)
  next
    case ambiguous
    let ?h = "h @ [GetEvent ?cal (the ?id)]"
    show ?thesis
    proof (cases "ask_get pv h ?cal (the ?id)")
      case (Inl e)
      with Inr ambiguous show ?thesis by (auto simp: run_update_def Let_def bindR_liftR bindR_getR)
    next
      case found: (Inr r)
      show ?thesis
      proof (cases "\<exists>l. r = Some l \<and> mine eff t l")
        case True
        then obtain l where l: "r = Some l" "mine eff t l" by blast
        from update_or_replace_guarded [of eff t "el_event l" "Some (el_revision l)" "[(?cal, the ?id, l)]" pv desired ?h]
          create [of ?h "[(?cal, the ?id, l)]"] Inr ambiguous found l
        show ?thesis by (auto simp: run_update_def Let_def bindR_liftR bindR_getR)
      next
        case False
        with Inr ambiguous found show ?thesis
          by (auto simp: run_update_def Let_def bindR_liftR bindR_getR returnR_def split: option.splits)
      qed
    qed
  qed
qed

lemma run_delete_guarded:
  "\<exists>cs. snd (run_delete pv eff t h) = h @ cs \<and> guarded pv (mine eff t) (recorded eff t) h [] cs"
  by (auto simp: run_delete_def remote_simps recorded_def or_else_def is_truthy_def Let_def
      split: sum.splits option.splits if_splits)

lemma run_effect_guarded:
  "\<exists>cs. snd (run_effect pv eff t h) = h @ cs \<and> guarded pv (mine eff t) (recorded eff t) h [] cs"
proof -
  let ?c = "AccessToken (ce_connection (tg_endpoint t))"
  have "\<exists>cs. snd ((case le_operation eff of CreateCopy \<Rightarrow> run_create pv eff t | UpdateCopy \<Rightarrow> run_update pv eff t
      | DeleteCopy \<Rightarrow> run_delete pv eff t) (h @ [?c])) = (h @ [?c]) @ cs \<and> guarded pv (mine eff t) (recorded eff t) (h @ [?c]) [] cs"
    using run_create_guarded [of pv eff t "h @ [?c]"] run_update_guarded [of pv eff t "h @ [?c]"]
      run_delete_guarded [of pv eff t "h @ [?c]"] by (cases "le_operation eff") simp_all
  then obtain cs where cs: "snd ((case le_operation eff of CreateCopy \<Rightarrow> run_create pv eff t | UpdateCopy \<Rightarrow> run_update pv eff t
      | DeleteCopy \<Rightarrow> run_delete pv eff t) (h @ [?c])) = h @ ?c # cs" "guarded pv (mine eff t) (recorded eff t) (h @ [?c]) [] cs" by auto
  show ?thesis
  proof (cases "ask_access pv h (pc_provider (tg_connection t)) (ce_connection (tg_endpoint t))")
    case (Inl e)
    then show ?thesis by (intro exI [of _ "[?c]"]) (simp add: run_effect_def bindR_def accessR_def)
  next
    case (Inr u)
    with cs show ?thesis by (intro exI [of _ "?c # cs"]) (simp add: run_effect_def bindR_def accessR_def)
  qed
qed

text \<open>
  C2: The executor never overwrites or deletes blindly. In every run, each update and each deletion
  of an event either follows a lookup of this run that found the event with the markers of this very
  policy, projection and generation, and is conditional on the revision that the lookup saw; or the
  effect is not ambiguous and the call names the event and the revision that the projection has on
  record.
\<close>

theorem no_blind_overwrite:
  assumes "executeOneLocked pv sha st owner eff d h = (res, h')"
  shows "h' = h \<or> (\<exists>t cs. find_target d eff = Some t \<and> h' = h @ cs \<and> guarded pv (mine eff t) (recorded eff t) h [] cs)"
proof -
  have tgt: "h' = h \<or> (\<exists>t cs. find_target d eff = Some t \<and> h' = h @ cs \<and> guarded pv (mine eff t) (recorded eff t) h [] cs)"
    if run: "execute_target pv sha st owner eff b d h = (res, h')" for b
  proof (cases "\<exists>t. find_target d eff = Some t \<and> h' = snd (run_effect pv eff t h)")
    case True
    with run_effect_guarded show ?thesis by metis
  next
    case False
    with run show ?thesis
      by (auto simp: execute_target_def split: option.splits if_splits sum.splits prod.splits)
  qed
  from assms show ?thesis
    by (auto simp: executeOneLocked_def dest!: tgt split: option.splits prod.splits if_splits disposition.splits)
qed

subsection \<open>Every run is settled\<close>

text \<open>
  How the row of an effect looks after a run: nobody holds it, and it is finished, given up, or waits for
  its next attempt, which is in the future and at most a day away. After ten attempts it waits only for a
  policy that is paused or has changed.
\<close>

definition settled :: "int \<Rightarrow> leased_effect \<Rightarrow> effect_row \<Rightarrow> bool" where
  "settled nowMs eff e \<longleftrightarrow> oe_id e = le_id eff \<and> oe_owner e = None \<and> oe_expires e = None
     \<and> (oe_state e = Succeeded \<or> oe_state e = Dead \<and> oe_error e \<noteq> None
        \<or> oe_state e = Retry \<and> nowMs < oe_run_after e \<and> oe_run_after e \<le> nowMs + 24 * 60 * 60000
          \<and> (le_attempts eff < 10 \<or> oe_error e = Some ''policy_paused'' \<or> oe_error e = Some ''policy_revision_changed''))"

definition ends_run :: "int \<Rightarrow> leased_effect \<Rightarrow> string \<Rightarrow> db \<Rightarrow> db \<Rightarrow> bool" where
  "ends_run nowMs eff owner d d' \<longleftrightarrow>
     (list_ex (holds_effect (le_id eff) owner) (effects d) \<longrightarrow> list_ex (settled nowMs eff) (effects d'))
     \<and> \<not> list_ex (holds_effect (le_id eff) owner) (effects d')"

lemma settle_ends_run:
  assumes "\<And>e. oe_id e = le_id eff \<Longrightarrow> settled n eff ((f e)\<lparr>oe_owner := None, oe_expires := None\<rparr>)"
  shows "ends_run n eff owner d (settle (le_id eff) owner f d)"
proof -
  let ?f = "\<lambda>e. (f e)\<lparr>oe_owner := None, oe_expires := None\<rparr>"
  have s: "settled n eff (?f e)" "\<not> holds_effect (le_id eff) owner (?f e)" if "holds_effect (le_id eff) owner e" for e
  proof -
    from that have "oe_id e = le_id eff" by (simp add: holds_effect_def)
    from assms [OF this] show "settled n eff (?f e)" .
    then show "\<not> holds_effect (le_id eff) owner (?f e)" by (simp add: holds_effect_def)
  qed
  have "list_ex (settled n eff) (effects (settle (le_id eff) owner f d))" if "list_ex (holds_effect (le_id eff) owner) (effects d)"
  proof -
    from that obtain e where e: "e \<in> set (effects d)" "holds_effect (le_id eff) owner e" by (auto simp: list_ex_iff)
    then have "?f e \<in> set (effects (settle (le_id eff) owner f d))" by (force simp: settle_def update_where_def)
    with s(1) [OF e(2)] show ?thesis by (auto simp: list_ex_iff)
  qed
  moreover have "\<not> holds_effect (le_id eff) owner e" if "e \<in> set (effects (settle (le_id eff) owner f d))" for e
    using that s(2) by (auto simp: settle_def update_where_def split: if_splits)
  ultimately show ?thesis by (auto simp: ends_run_def list_ex_iff)
qed

lemma effects_unchanged [simp]:
  "effects (audit_effect i x a r dt d) = effects d" "effects (update_projection i g d) = effects d"
  by (simp_all add: audit_effect_def update_projection_def)

lemma ends_run_simps [simp]:
  "ends_run n eff owner d (audit_effect i x a r dt d') = ends_run n eff owner d d'"
  "ends_run n eff owner d (update_projection i g d') = ends_run n eff owner d d'"
  by (simp_all add: ends_run_def)

lemma delay_bounds: "1 \<le> min 3600 (2 ^ k :: int)" "min 3600 (2 ^ k :: int) \<le> 3600"
  by simp_all

lemma defer_ends_run:
  "reason = ''policy_paused'' \<or> reason = ''policy_revision_changed'' \<Longrightarrow> ends_run (st_now st) eff owner d (defer_effect st owner eff reason d)"
  unfolding defer_effect_def ends_run_simps by (rule settle_ends_run) (auto simp: settled_def)

lemma fail_ends_run:
  "effects d' = effects d \<Longrightarrow> ends_run (st_now st) eff owner d (fail_effect st owner eff e d')"
proof -
  let ?k = "min (le_attempts eff) 10"
  assume "effects d' = effects d"
  moreover have "ends_run (st_now st) eff owner d' (fail_effect st owner eff e d')"
    unfolding fail_effect_def Let_def ends_run_simps
    by (rule settle_ends_run) (use delay_bounds [of ?k] in \<open>auto simp: settled_def is_dead_def\<close>)
  ultimately show ?thesis by (simp add: ends_run_def)
qed

lemma supersede_ends_run: "ends_run (st_now st) eff owner d (supersede_effect st owner eff r d)"
  unfolding supersede_effect_def ends_run_simps by (rule settle_ends_run) (simp add: settled_def)

lemma succeed_ends_run: "ends_run (st_now st) eff owner d (succeed_effect st owner eff ev rv d)"
  unfolding succeed_effect_def ends_run_simps by (rule settle_ends_run) (simp add: settled_def)

lemma hold_ends_run: "ends_run (st_now st) eff owner d (holdAmbiguous st owner eff c d)"
  unfolding holdAmbiguous_def ends_run_simps by (rule settle_ends_run) (simp add: settled_def)

lemmas outcome_ends_run = defer_ends_run fail_ends_run supersede_ends_run succeed_ends_run hold_ends_run

lemma install_replacement_ends_run:
  assumes "install_replacement st owner eff p dhk d = Inr d'"
  shows "ends_run (st_now st) eff owner d d'"
proof -
  let ?d = "supersede_effect st owner eff ''destination_missing_generation_advanced'' d"
  obtain desired dh key where dhk: "dhk = (desired, dh, key)" by (metis prod_cases3)
  with assms have "effects d' = effects ?d @ [replacement_effect st eff desired key]"
    by (auto simp: install_replacement_def Let_def split: if_splits)
  moreover have "\<not> holds_effect i w (replacement_effect st eff desired key)" for i w by (simp add: holds_effect_def replacement_effect_def)
  ultimately show ?thesis using supersede_ends_run [of st eff owner d] by (simp add: ends_run_def)
qed

lemma catch_failure_ends_run: "ends_run (st_now st) eff owner d (catch_failure st owner eff t e d)"
  by (simp add: catch_failure_def outcome_ends_run split: failure.splits)

lemma conclude_ends_run: "conclude sha st owner eff t res d = Inr d' \<Longrightarrow> ends_run (st_now st) eff owner d d'"
  by (auto simp: conclude_def outcome_ends_run catch_failure_ends_run split: sum.splits outcome.splits if_splits
      dest: install_replacement_ends_run)

lemma reject_basis_ends_run: "ends_run (st_now st) eff owner d (reject_basis st owner eff d)"
  using supersede_ends_run [of st eff owner d] by (simp add: reject_basis_def Let_def ends_run_def)

lemma execute_target_ends_run: "execute_target pv sha st owner eff b d h = (Inr d', h') \<Longrightarrow> ends_run (st_now st) eff owner d d'"
  by (auto simp: execute_target_def outcome_ends_run reject_basis_ends_run conclude_ends_run
      split: option.splits if_splits sum.splits prod.splits)

text \<open>
  C30: A run never leaves its effect in the air. However the provider answers, a run that commits ends
  the lease of the effect that the worker holds: its row has no owner and no end of a lease, and it is
  finished, given up with a reason, or due again between now and a day from now; after ten attempts it
  is due again only when it was deferred because its policy is paused or has another revision.
\<close>

theorem every_run_is_settled:
  assumes "executeOneLocked pv sha st owner eff d h = (Inr d', h')" "e \<in> set (effects d)"
    "oe_organization e = le_organization eff" "oe_id e = le_id eff" "oe_state e = Leased" "oe_owner e = Some owner"
  shows "(\<exists>e' \<in> set (effects d'). oe_id e' = le_id eff \<and> oe_owner e' = None \<and> oe_expires e' = None
      \<and> (oe_state e' = Succeeded \<or> oe_state e' = Dead \<and> oe_error e' \<noteq> None
         \<or> oe_state e' = Retry \<and> st_now st < oe_run_after e' \<and> oe_run_after e' \<le> st_now st + 24 * 60 * 60000
           \<and> (le_attempts eff < 10 \<or> oe_error e' = Some ''policy_paused'' \<or> oe_error e' = Some ''policy_revision_changed'')))
    \<and> (\<forall>e' \<in> set (effects d'). \<not> (oe_id e' = le_id eff \<and> oe_state e' = Leased \<and> oe_owner e' = Some owner))"
proof -
  have held: "list_ex (\<lambda>e. oe_organization e = le_organization eff \<and> holds_effect (le_id eff) owner e) (effects d)"
    using assms(2-6) by (auto simp: list_ex_iff holds_effect_def)
  from assms(1) held have "ends_run (st_now st) eff owner d d'"
    by (auto simp: executeOneLocked_def outcome_ends_run dest: execute_target_ends_run
        split: option.splits prod.splits disposition.splits if_splits)
  moreover have "list_ex (holds_effect (le_id eff) owner) (effects d)" using held by (auto simp: list_ex_iff)
  ultimately show ?thesis by (auto simp: ends_run_def settled_def holds_effect_def list_ex_iff)
qed

subsection \<open>Leasing hands out the next effect of a copy\<close>

definition lease_expired :: "int \<Rightarrow> effect_row \<Rightarrow> bool" where
  "lease_expired nowMs e \<longleftrightarrow> oe_state e = Leased \<and> (case oe_expires e of None \<Rightarrow> False | Some x \<Rightarrow> x < nowMs)"

lemma select_effects_due: "e \<in> set (select_effects locked n limit es) \<Longrightarrow> e \<in> set es \<and> effect_due n es e \<and> oe_id e \<notin> set locked"
  by (auto simp: select_effects_def dest: in_set_takeD)

lemma expire_effects_row:
  assumes "e \<in> set (expire_effects n es)"
  obtains (kept) "e \<in> set es" "\<not> lease_expired n e"
  | (expired) e0 where "e0 \<in> set es" "lease_expired n e0" "oe_id e = oe_id e0" "oe_state e = Retry" "oe_ambiguous e"
proof -
  from assms have "(e \<in> set es \<and> \<not> lease_expired n e)
      \<or> (\<exists>e0 \<in> set es. lease_expired n e0 \<and> oe_id e = oe_id e0 \<and> oe_state e = Retry \<and> oe_ambiguous e)"
    by (auto simp: expire_effects_def update_where_def lease_expired_def split: if_splits)
  with kept expired show thesis by blast
qed

lemma due_effect_origin:
  assumes "r \<in> set (expire_effects n es)" "effect_due n (expire_effects n es) r"
  obtains e0 where "e0 \<in> set es" "oe_id e0 = oe_id r" "oe_state e0 \<in> {Pending, Retry} \<and> oe_run_after e0 \<le> n \<or> lease_expired n e0 \<and> oe_ambiguous r"
  using assms by (cases rule: expire_effects_row) (auto simp: effect_due_def)

text \<open>When fewer effects are selected than the limit allows, no due one is left out.\<close>

lemma due_effect_is_selected:
  assumes "length (select_effects locked n limit (expire_effects n es)) < limit" "e \<in> set es" "oe_id e \<notin> set locked"
    "oe_state e \<in> {Pending, Retry} \<and> oe_run_after e \<le> n \<or> lease_expired n e"
    "\<And>p. p \<in> set es \<Longrightarrow> oe_projection p = oe_projection e \<Longrightarrow> (oe_created p, oe_id p) < (oe_created e, oe_id e) \<Longrightarrow> oe_state p = Succeeded"
  shows "oe_id e \<in> oe_id ` set (select_effects locked n limit (expire_effects n es))"
proof -
  define g where "g x = (if lease_expired n x then x\<lparr>oe_state := Retry, oe_owner := None, oe_expires := None, oe_ambiguous := True,
     oe_run_after := n, oe_updated := n\<rparr> else x)" for x
  have es: "expire_effects n es = map g es" by (simp add: expire_effects_def update_where_def lease_expired_def g_def)
  have "\<not> is_prior (g p) (g e)" if "p \<in> set es" for p
    using assms(5) [OF that] by (auto simp: is_prior_def lease_expired_def g_def)
  then have "\<not> list_ex (\<lambda>prior. is_prior prior (g e)) (map g es)" by (simp add: list_ex_iff)
  moreover have "(oe_state (g e) = Pending \<or> oe_state (g e) = Retry) \<and> oe_run_after (g e) \<le> n" using assms(4) by (auto simp: g_def)
  ultimately have "effect_due n (map g es) (g e)" by (simp add: effect_due_def)
  moreover have id: "oe_id (g e) = oe_id e" by (simp add: g_def)
  ultimately have "g e \<in> set (select_effects locked n limit (expire_effects n es))"
    using assms(1-3) by (simp add: select_effects_def es)
  then have "oe_id (g e) \<in> oe_id ` set (select_effects locked n limit (expire_effects n es))" by (rule imageI)
  then show ?thesis by (simp only: id)
qed

text \<open>Changing the selected rows leaves every earlier effect of their copies finished.\<close>

lemma earlier_effects_finished:
  assumes "r \<in> set (select_effects locked n limit es)" "distinct (map oe_id es)"
    "p \<in> set (update_where (\<lambda>e. oe_id e \<in> set (map oe_id (select_effects locked n limit es))) f es)"
    "\<And>e. oe_projection (f e) = oe_projection e \<and> oe_created (f e) = oe_created e \<and> oe_id (f e) = oe_id e"
    "oe_projection p = oe_projection r" "(oe_created p, oe_id p) < (oe_created r, oe_id r)"
  shows "oe_state p = Succeeded"
proof -
  let ?rows = "select_effects locked n limit es"
  from assms(3) obtain q where q: "q \<in> set es" "p = (if oe_id q \<in> set (map oe_id ?rows) then f q else q)"
    by (auto simp: update_where_def)
  have "oe_projection q = oe_projection r" "(oe_created q, oe_id q) < (oe_created r, oe_id r)"
    using assms(4) [of q] assms(5,6) q(2) by (auto split: if_splits)
  with q(1) select_effects_due [OF assms(1)] have finished: "oe_state q = Succeeded"
    by (auto simp: effect_due_def list_ex_iff is_prior_def)
  have "oe_id q \<notin> set (map oe_id ?rows)"
  proof
    assume "oe_id q \<in> set (map oe_id ?rows)"
    then obtain r' where r': "r' \<in> set ?rows" "oe_id q = oe_id r'" by auto
    with select_effects_due [OF r'(1)] q(1) assms(2) have "q = r'" by (auto simp: distinct_map dest: inj_onD)
    with select_effects_due [OF r'(1)] finished show False by (auto simp: effect_due_def)
  qed
  with q(2) finished show ?thesis by simp
qed

lemma distinct_projections:
  assumes "distinct (map oe_id es)" "\<And>r. r \<in> set rows \<Longrightarrow> r \<in> set es \<and> effect_due n es r" "distinct rows"
  shows "distinct (map oe_projection rows)"
proof -
  have "r = r'" if "r \<in> set rows" "r' \<in> set rows" "oe_projection r = oe_projection r'" for r r'
  proof -
    from assms(2) [OF that(1)] assms(2) [OF that(2)] have rows: "r \<in> set es" "r' \<in> set es" "\<not> is_prior r r'" "\<not> is_prior r' r" "oe_state r \<noteq> Succeeded" "oe_state r' \<noteq> Succeeded"
      by (auto simp: effect_due_def list_ex_iff)
    then have "oe_id r = oe_id r'" using that(3) by (auto simp: is_prior_def)
    with rows(1,2) assms(1) show ?thesis by (auto simp: distinct_map dest: inj_onD)
  qed
  with assms(3) show ?thesis by (auto simp: distinct_map inj_on_def)
qed


text \<open>
  C13: Leasing hands out the next effect of a copy and no other. Of every copy at most one effect is
  handed out at a time, one that was waiting or whose lease had run out, and every earlier effect of the
  copy in the table is finished at that moment. The row of a handed-out effect is then leased to the worker
  until the end of the lease; a row that had been leased before comes back marked as ambiguous. No row is lost,
  and all other rows are as they were, except that leases that have run out are released. An effect that waits for
  nothing is handed out, unless the limit is reached or another transaction has its row locked.
\<close>

theorem lease_hands_out_the_next_effect:
  assumes "lease_effects locked n owner limit secs es = (out, es')" "distinct (map oe_id es)"
  shows "length out \<le> limit \<and> distinct (map le_projection out) \<and> map oe_id es' = map oe_id es
    \<and> (\<forall>x \<in> set out. \<exists>e0 \<in> set es. \<exists>e \<in> set es'. oe_id e0 = le_id x \<and> oe_id e = le_id x \<and> le_id x \<notin> set locked
        \<and> (oe_state e0 \<in> {Pending, Retry} \<and> oe_run_after e0 \<le> n \<or> lease_expired n e0 \<and> le_ambiguous x)
        \<and> oe_state e = Leased \<and> oe_owner e = Some owner \<and> oe_expires e = Some (n + secs * 1000) \<and> oe_projection e = le_projection x
        \<and> (\<forall>p \<in> set es'. oe_projection p = oe_projection e \<and> (oe_created p, oe_id p) < (oe_created e, oe_id e) \<longrightarrow> oe_state p = Succeeded))
    \<and> (\<forall>e \<in> set es'. oe_id e \<notin> le_id ` set out \<longrightarrow> e \<in> set es \<and> \<not> lease_expired n e
        \<or> (\<exists>e0 \<in> set es. lease_expired n e0 \<and> oe_id e = oe_id e0 \<and> oe_state e = Retry \<and> oe_ambiguous e))
    \<and> (length out < limit \<longrightarrow> (\<forall>e \<in> set es. oe_id e \<notin> set locked
        \<and> (oe_state e \<in> {Pending, Retry} \<and> oe_run_after e \<le> n \<or> lease_expired n e)
        \<and> (\<forall>p \<in> set es. oe_projection p = oe_projection e \<and> (oe_created p, oe_id p) < (oe_created e, oe_id e) \<longrightarrow> oe_state p = Succeeded)
        \<longrightarrow> oe_id e \<in> le_id ` set out))"
proof -
  let ?es = "expire_effects n es"
  let ?rows = "select_effects locked n limit ?es"
  let ?lease = "\<lambda>e. e\<lparr>oe_state := Leased, oe_owner := Some owner, oe_expires := Some (n + secs * 1000), oe_attempts := oe_attempts e + 1, oe_updated := n\<rparr>"
  let ?f = "\<lambda>e. if oe_id e \<in> set (map oe_id ?rows) then ?lease e else e"
  have out: "out = map leased_view ?rows" and es': "es' = map ?f ?es"
    using assms(1) by (auto simp: lease_effects_def update_where_def Let_def split: if_splits)
  have rows: "map oe_id ?es = map oe_id es" unfolding expire_effects_def by (subst map_update_where) simp_all
  have ids: "distinct (map oe_id ?es)" using assms(2) by (simp add: rows)
  have due: "r \<in> set ?es \<and> effect_due n ?es r \<and> oe_id r \<notin> set locked" if "r \<in> set ?rows" for r using select_effects_due [OF that] .
  have "distinct ?rows" using ids by (simp add: select_effects_def distinct_map)
  then have one: "distinct (map le_projection out)"
    using distinct_projections [OF ids, of ?rows n] due by (simp add: out leased_view_def comp_def)
  have handed: "\<exists>e0 \<in> set es. \<exists>e \<in> set es'. oe_id e0 = le_id x \<and> oe_id e = le_id x \<and> le_id x \<notin> set locked
        \<and> (oe_state e0 \<in> {Pending, Retry} \<and> oe_run_after e0 \<le> n \<or> lease_expired n e0 \<and> le_ambiguous x)
        \<and> oe_state e = Leased \<and> oe_owner e = Some owner \<and> oe_expires e = Some (n + secs * 1000) \<and> oe_projection e = le_projection x
        \<and> (\<forall>p \<in> set es'. oe_projection p = oe_projection e \<and> (oe_created p, oe_id p) < (oe_created e, oe_id e) \<longrightarrow> oe_state p = Succeeded)"
    if "x \<in> set out" for x
  proof -
    from that obtain r where r: "r \<in> set ?rows" "x = leased_view r" by (auto simp: out)
    note d = due [OF r(1)]
    have mem: "?lease r \<in> set es'" unfolding es' using r(1) d by force
    have first: "oe_state p = Succeeded" if "p \<in> set es'" "oe_projection p = oe_projection r" "(oe_created p, oe_id p) < (oe_created r, oe_id r)" for p
      by (rule earlier_effects_finished [OF r(1) ids, of p ?lease]) (use that in \<open>simp_all add: es' update_where_def\<close>)
    have x: "le_id x = oe_id r" "le_projection x = oe_projection r" "le_ambiguous x = oe_ambiguous r" by (simp_all add: r(2) leased_view_def)
    from d have "r \<in> set ?es" "effect_due n ?es r" by blast+
    then obtain e0 where e0: "e0 \<in> set es" "oe_id e0 = le_id x" "oe_state e0 \<in> {Pending, Retry} \<and> oe_run_after e0 \<le> n \<or> lease_expired n e0 \<and> le_ambiguous x"
      unfolding x by (rule due_effect_origin)
    with first d x show ?thesis by (intro bexI [OF _ e0(1)] bexI [OF _ mem]) simp
  qed
  have rest: "e \<in> set es \<and> \<not> lease_expired n e
        \<or> (\<exists>e0 \<in> set es. lease_expired n e0 \<and> oe_id e = oe_id e0 \<and> oe_state e = Retry \<and> oe_ambiguous e)"
    if e: "e \<in> set es'" "oe_id e \<notin> le_id ` set out" for e
  proof -
    from e have "e \<in> set ?es" unfolding es' out by (auto simp: leased_view_def image_iff split: if_splits)
    then show ?thesis by (cases rule: expire_effects_row) blast+
  qed
  have "oe_id e \<in> le_id ` set out"
    if "length out < limit" "e \<in> set es" "oe_id e \<notin> set locked" "oe_state e \<in> {Pending, Retry} \<and> oe_run_after e \<le> n \<or> lease_expired n e"
      "\<And>p. p \<in> set es \<Longrightarrow> oe_projection p = oe_projection e \<Longrightarrow> (oe_created p, oe_id p) < (oe_created e, oe_id e) \<Longrightarrow> oe_state p = Succeeded" for e
    using due_effect_is_selected [of locked n limit es e] that by (simp add: out image_image leased_view_def)
  moreover have "length out \<le> limit" by (simp add: out select_effects_def)
  moreover have "map oe_id es' = map oe_id es" using rows by (simp add: es' comp_def if_distrib cong: if_cong)
  ultimately show ?thesis using one handed rest by blast
qed

subsection \<open>A concrete run\<close>

definition sample_policy_draft :: policy_draft where
  "sample_policy_draft = \<lparr>pd_name = ''Home'', pd_source_calendar = ''home'', pd_destination_calendar = ''work'',
     pd_hours_profile_id = None, pd_hours = None, pd_hours_profile = None, pd_privacy = privacy sample_policy,
     pd_selection = selection sample_policy, pd_destination = None, pd_destination_edits = None, pd_horizon = None\<rparr>"

definition sample_policy_row :: policy_row where
  "sample_policy_row = \<lparr>sp_id = ''p1'', sp_organization = ''o'', sp_name = ''Home'', sp_source_calendar = ''home'',
     sp_destination_calendar = ''work'', sp_source_identity = ''6:google6:global6:r-home'',
     sp_destination_identity = ''6:google6:global6:r-work'', sp_hours_profile = None, sp_status = PolicyActive, sp_revision = 1,
     sp_document = sample_policy_draft, sp_hash = ''sha256:0'', sp_last_success = None, sp_error = None, sp_updated = 0\<rparr>"

definition sample_connection :: provider_connection where
  "sample_connection = \<lparr>pc_id = ''c'', pc_organization = ''o'', pc_provider = ''google'', pc_account_label = ''me'',
     pc_role = BothRoles, pc_status = ConnectionActive, pc_last_success = None, pc_error = None, pc_updated = 0\<rparr>"

definition sample_endpoint :: "string \<Rightarrow> calendar_endpoint" where
  "sample_endpoint ident = \<lparr>ce_id = ident, ce_organization = ''o'', ce_connection = ''c'', ce_remote_id = ''r-'' @ ident,
     ce_name = ident, ce_timezone = ''UTC'', ce_access_role = ''owner'', ce_readable = True, ce_writable = True,
     ce_primary = False, ce_capabilities = JNull\<rparr>"

definition sample_effect :: effect_row where
  "sample_effect = \<lparr>oe_id = ''f1'', oe_organization = ''o'', oe_policy = ''p1'', oe_projection = ''x1'',
     oe_basis = Some ''sha256:61'', oe_policy_revision = 1, oe_operation = DeleteCopy, oe_key = ''k1'', oe_desired = None,
     oe_state = Leased, oe_attempts = 1, oe_run_after = 5, oe_owner = Some ''w'', oe_expires = Some 65, oe_ambiguous = False,
     oe_error = None, oe_created = 1, oe_updated = 5\<rparr>"

definition executor_db :: db where
  "executor_db = empty_db\<lparr>connections := [sample_connection], endpoints := [sample_endpoint ''home'', sample_endpoint ''work''],
     policies := [sample_policy_row], observations := [observed_row],
     projections := [sample_projection\<lparr>pr_basis := Some ''sha256:61'', pr_event_id := Some ''ev'', pr_etag := Some ''t''\<rparr>],
     effects := [sample_effect]\<rparr>"

definition sample_provider :: provider where
  "sample_provider = \<lparr>ask_access = (\<lambda>h n c. Inr ()), ask_get = (\<lambda>h c e. Inr None),
     ask_create = (\<lambda>h c e x. Inr \<lparr>wr_event = e, wr_revision = ''1''\<rparr>),
     ask_update = (\<lambda>h c e r x. Inr \<lparr>wr_event = e, wr_revision = ''2''\<rparr>), ask_delete = (\<lambda>h c e r. Inr ())\<rparr>"

definition sample_stamp :: stamp where
  "sample_stamp = \<lparr>st_now = 9, st_audit_id = ''a1'', st_repair_audit_id = ''a2'', st_effect_id = ''f2'', st_job_id = ''j1''\<rparr>"

abbreviation sample_run :: "(sync_error + db) \<times> calls" where
  "sample_run \<equiv> executeOneLocked sample_provider sample_sha sample_stamp ''w'' (leased_view sample_effect) executor_db []"

lemma sample_basis_hash: "sourceObservationBasisHash sample_sha ''sha256:1'' False = Inr ''sha256:61''"
  by code_simp

lemma sample_run_eq:
  "sample_run = (Inr (succeed_effect sample_stamp ''w'' (leased_view sample_effect) None None executor_db),
     [AccessToken ''c'', DeleteEvent ''r-work'' ''ev'' (Some ''t'')])"
  by (simp add: executeOneLocked_def find_effect_policy_def endpoint_view_def execute_target_def find_target_def
      effectPolicyExecutionDisposition_def source_usable_def destination_usable_def basis_changed_def sample_basis_hash
      run_effect_def run_delete_def remote_simps or_else_def is_truthy_def conclude_def sample_provider_def Let_def
      leased_view_def holds_effect_def executor_db_def empty_db_def sample_effect_def sample_policy_row_def sample_connection_def
      sample_endpoint_def observed_row_def sample_projection_def)

theorem provider_is_called_with_authority_witness:
  "snd sample_run \<noteq> [] \<and> oe_owner sample_effect = Some ''w'' \<and> sp_status sample_policy_row = PolicyActive"
proof -
  have "find_effect_policy executor_db (leased_view sample_effect) = Some (sample_policy_row, sample_endpoint ''home'', sample_connection)"
    by (simp add: find_effect_policy_def endpoint_view_def executor_db_def empty_db_def leased_view_def sample_effect_def
        sample_policy_row_def sample_endpoint_def sample_connection_def)
  moreover have "effects executor_db = [sample_effect]" by (simp add: executor_db_def)
  ultimately show ?thesis using provider_is_called_with_authority [OF sample_run_eq] by (simp add: sample_run_eq)
qed

theorem no_blind_overwrite_witness:
  "\<exists>t cs. find_target executor_db (leased_view sample_effect) = Some t \<and> snd sample_run = cs \<and> cs \<noteq> []
     \<and> guarded sample_provider (mine (leased_view sample_effect) t) (recorded (leased_view sample_effect) t) [] [] cs"
  using no_blind_overwrite [OF sample_run_eq] by (auto simp: sample_run_eq)

definition waiting_effects :: "effect_row list" where
  "waiting_effects = [sample_effect\<lparr>oe_state := Pending\<rparr>, sample_effect\<lparr>oe_id := ''f2'', oe_state := Pending, oe_created := 2\<rparr>]"

lemma waiting_lease: "lease_effects [] 5 ''w'' 9 60 waiting_effects
  = ([leased_view sample_effect], [sample_effect\<lparr>oe_attempts := 2, oe_expires := Some 60005\<rparr>, sample_effect\<lparr>oe_id := ''f2'', oe_state := Pending, oe_created := 2\<rparr>])"
  by (simp add: lease_effects_def expire_effects_def select_effects_def effect_due_def is_prior_def update_where_def
      waiting_effects_def sample_effect_def leased_view_def Let_def)

theorem lease_hands_out_the_next_effect_witness:
  "\<exists>out es'. lease_effects [] 5 ''w'' 9 60 waiting_effects = (out, es') \<and> length out = 1 \<and> distinct (map le_projection out)"
proof -
  have "distinct (map oe_id waiting_effects)" by (simp add: waiting_effects_def sample_effect_def)
  from lease_hands_out_the_next_effect [OF waiting_lease this] waiting_lease show ?thesis by auto
qed

theorem every_run_is_settled_witness:
  "\<exists>d'. fst sample_run = Inr d' \<and> (\<exists>e' \<in> set (effects d'). oe_id e' = ''f1'' \<and> oe_owner e' = None \<and> oe_state e' \<noteq> Leased)"
proof -
  have "sample_effect \<in> set (effects executor_db)" by (simp add: executor_db_def)
  moreover have "oe_organization sample_effect = le_organization (leased_view sample_effect)" "oe_id sample_effect = le_id (leased_view sample_effect)"
    "oe_state sample_effect = Leased" "oe_owner sample_effect = Some ''w''" "le_id (leased_view sample_effect) = ''f1''"
    by (simp_all add: leased_view_def sample_effect_def)
  ultimately show ?thesis using every_run_is_settled [OF sample_run_eq] by (fastforce simp: sample_run_eq)
qed

end
