(* ===== verification/Notices.thy ===== *)
theory Notices
  imports Effects
begin

section \<open>Notices and decisions on edited copies (server/src/sync/notices.ts)\<close>

text \<open>
  When a person changes a managed copy, a notice tells the user; a held copy waits for the decision to
  restore it or to keep the change and let the copy go. The operations run in a transaction: its body
  gives a result and the tables it has written, and a body that throws is rolled back.
\<close>

subsection \<open>Transactions\<close>

datatype service_error = PolicyInputError (input_code: string) (input_message: string) | SyncThrew sync_error

type_synonym 'a transaction = "db \<Rightarrow> (service_error + 'a) \<times> db"

definition returnT :: "'a \<Rightarrow> 'a transaction" where
  "returnT a d = (Inr a, d)"

definition throwT :: "service_error \<Rightarrow> 'a transaction" where
  "throwT e d = (Inl e, d)"

definition bindT :: "'a transaction \<Rightarrow> ('a \<Rightarrow> 'b transaction) \<Rightarrow> 'b transaction" where
  "bindT m f d = (case m d of (Inl e, d') \<Rightarrow> (Inl e, d') | (Inr a, d') \<Rightarrow> f a d')"

definition readT :: "(db \<Rightarrow> 'a) \<Rightarrow> 'a transaction" where
  "readT f d = (Inr (f d), d)"

definition writeT :: "(db \<Rightarrow> db) \<Rightarrow> unit transaction" where
  "writeT f d = (Inr (), f d)"

definition liftT :: "sync_error + 'a \<Rightarrow> 'a transaction" where
  "liftT x d = (liftE SyncThrew x, d)"

definition requireT :: "bool \<Rightarrow> string \<Rightarrow> string \<Rightarrow> unit transaction" where
  "requireT ok code_text message d = (if ok then Inr () else Inl (PolicyInputError code_text message), d)"

definition foundT :: "'a option \<Rightarrow> string \<Rightarrow> string \<Rightarrow> 'a transaction" where
  "foundT x code_text message d = (orThrow (PolicyInputError code_text message) x, d)"

definition in_transaction :: "'a transaction \<Rightarrow> 'a transaction" where
  "in_transaction m d = (case m d of (Inl e, d') \<Rightarrow> (Inl e, d) | (Inr a, d') \<Rightarrow> (Inr a, d'))"

text \<open>\<open>insert into outbox_effects\<close>: the identity and the idempotency key are unique.\<close>

definition insert_outbox :: "effect_row \<Rightarrow> unit transaction" where
  "insert_outbox e d =
     (if list_ex (\<lambda>x. oe_key x = oe_key e \<or> oe_id x = oe_id e) (effects d) then (Inl (SyncThrew UniqueViolation), d)
      else (Inr (), d\<lparr>effects := effects d @ [e]\<rparr>))"

lemmas transaction_simps = returnT_def throwT_def bindT_def readT_def writeT_def liftT_def requireT_def foundT_def orThrow_def

lemma bindT_Inr:
  "bindT m f d = (Inr b, d'') \<longleftrightarrow> (\<exists>a d'. m d = (Inr a, d') \<and> f a d' = (Inr b, d''))"
  by (auto simp: bindT_def split: prod.splits sum.splits)

lemma pieces_Inr:
  "returnT a d = (Inr b, d') \<longleftrightarrow> b = a \<and> d' = d"
  "\<not> throwT e d = (Inr c, d')"
  "readT f d = (Inr x, d') \<longleftrightarrow> x = f d \<and> d' = d"
  "writeT g d = (Inr u, d') \<longleftrightarrow> d' = g d"
  "liftT y d = (Inr a', d') \<longleftrightarrow> y = Inr a' \<and> d' = d"
  "requireT ok c' m d = (Inr u, d') \<longleftrightarrow> ok \<and> d' = d"
  "foundT z c' m d = (Inr a', d') \<longleftrightarrow> z = Some a' \<and> d' = d"
  by (auto simp: transaction_simps liftE_def split: sum.splits option.splits)

lemma insert_outbox_Inr:
  "insert_outbox e d = (Inr u, d') \<longleftrightarrow> \<not> list_ex (\<lambda>x. oe_key x = oe_key e \<or> oe_id x = oe_id e) (effects d)
     \<and> d' = d\<lparr>effects := effects d @ [e]\<rparr>"
  by (auto simp: insert_outbox_def)

lemma in_transaction_Inr: "in_transaction m d = (Inr a, d') \<longleftrightarrow> m d = (Inr a, d')"
  by (auto simp: in_transaction_def split: prod.splits sum.splits)

lemma in_transaction_Inl: "in_transaction m d = (Inl e, d') \<longleftrightarrow> fst (m d) = Inl e \<and> d' = d"
  by (auto simp: in_transaction_def split: prod.splits sum.splits)

lemmas transaction_Inr = bindT_Inr pieces_Inr insert_outbox_Inr in_transaction_Inr

subsection \<open>Recording a notice\<close>

definition HELD_NOTICE_KINDS :: "edit_notice list" where
  "HELD_NOTICE_KINDS = [copy_edit_held, copy_delete_held]"

definition observation_text :: "edit_observation \<Rightarrow> string" where
  "observation_text observed = (case observed of Drifted \<Rightarrow> ''drifted'' | MissingCopy \<Rightarrow> ''missing'')"

definition noticeDetailForDesiredCopy :: "edit_observation \<Rightarrow> desired_copy \<Rightarrow> json" where
  "noticeDetailForDesiredCopy observed desired =
     JObj [(''observed'', Some (JStr (observation_text observed))),
           (''copy_summary'', Some (JStr (d_summary desired))),
           (''copy_timing'', Some (timing_json (d_timing desired)))]"

definition recordSyncNotice ::
  "int \<Rightarrow> string \<Rightarrow> string \<Rightarrow> string \<Rightarrow> string \<Rightarrow> edit_notice \<Rightarrow> json \<Rightarrow> db \<Rightarrow> db" where
  "recordSyncNotice nowMs noticeId org policyId projectionId kind detail d =
     d\<lparr>notices := notices d @ [\<lparr>sn_id = noticeId, sn_organization = org, sn_policy = policyId, sn_projection = projectionId,
         sn_kind = kind, sn_status = Unread, sn_resolution = None, sn_detail = detail,
         sn_created = nowMs, sn_updated = nowMs\<rparr>]\<rparr>"

subsection \<open>Listing and acknowledging\<close>

record notice_document =
  nd_id :: string
  nd_kind :: edit_notice
  nd_status :: notice_status
  nd_resolution :: "notice_action option"
  nd_policy_id :: string
  nd_policy_name :: string
  nd_projection_id :: string
  nd_destination_calendar :: string
  nd_destination_event_id :: "string option"
  nd_requires_decision :: bool
  nd_detail :: json
  nd_created_at :: string
  nd_updated_at :: string

definition noticeDocument ::
  "notice_row \<times> policy_row \<times> projection_row \<times> calendar_endpoint \<Rightarrow> notice_document" where
  "noticeDocument row =
     (case row of (n, p, x, c) \<Rightarrow>
        \<lparr>nd_id = sn_id n, nd_kind = sn_kind n, nd_status = sn_status n, nd_resolution = sn_resolution n,
         nd_policy_id = sn_policy n, nd_policy_name = sp_name p, nd_projection_id = sn_projection n,
         nd_destination_calendar = ce_name c, nd_destination_event_id = pr_event_id x,
         nd_requires_decision = sn_kind n \<in> set HELD_NOTICE_KINDS \<and> sn_status n \<noteq> Resolved \<and> isDestinationEditHold x,
         nd_detail = sn_detail n, nd_created_at = toISOString (sn_created n), nd_updated_at = toISOString (sn_updated n)\<rparr>)"

definition notice_rows :: "db \<Rightarrow> (notice_row \<times> policy_row \<times> projection_row \<times> calendar_endpoint) list" where
  "notice_rows d =
     [(n, p, x, c). n \<leftarrow> notices d, p \<leftarrow> policies d, sp_id p = sn_policy n,
        x \<leftarrow> projections d, pr_id x = sn_projection n, c \<leftarrow> endpoints d, ce_id c = pr_destination_calendar x]"

definition list_notices :: "string \<Rightarrow> bool \<Rightarrow> db \<Rightarrow> notice_document list" where
  "list_notices org openOnly d =
     map noticeDocument (take 100 (rev (sort_key (\<lambda>(n, p, x, c). (sn_created n, sn_id n))
       (filter (\<lambda>(n, p, x, c). sn_organization n = org \<and> (openOnly \<longrightarrow> sn_status n \<noteq> Resolved)) (notice_rows d)))))"

definition acknowledge :: "int \<Rightarrow> string \<Rightarrow> string \<Rightarrow> unit transaction" where
  "acknowledge nowMs org noticeId d =
     (if \<not> list_ex (\<lambda>n. sn_organization n = org \<and> sn_id n = noticeId) (notices d)
      then (Inl (PolicyInputError ''not_found'' ''sync notice was not found''), d)
      else (Inr (), d\<lparr>notices := update_where (\<lambda>n. sn_organization n = org \<and> sn_id n = noticeId \<and> sn_status n = Unread)
             (\<lambda>n. n\<lparr>sn_status := Acknowledged, sn_updated := nowMs\<rparr>) (notices d)\<rparr>))"

subsection \<open>Deciding\<close>

definition finishNotice :: "int \<Rightarrow> string \<Rightarrow> string \<Rightarrow> notice_action \<Rightarrow> db \<Rightarrow> db" where
  "finishNotice nowMs org noticeId resolution d =
     d\<lparr>notices := update_where (\<lambda>n. sn_organization n = org \<and> sn_id n = noticeId)
         (\<lambda>n. n\<lparr>sn_status := Resolved, sn_resolution := Some resolution, sn_updated := nowMs\<rparr>) (notices d)\<rparr>"

definition audit_decision :: "string \<Rightarrow> string \<Rightarrow> string \<Rightarrow> string \<Rightarrow> string \<Rightarrow> string \<Rightarrow> string \<Rightarrow> db \<Rightarrow> db" where
  "audit_decision auditId org who policyHash projectionId action reasonCode d =
     d\<lparr>audits := audits d @ [\<lparr>af_id = auditId, af_organization = org, af_principal = Some who, af_actor = ActorUser,
         af_action = action, af_target_type = ''projection'', af_target = projectionId, af_reason = reasonCode,
         af_before = Some policyHash, af_after = Some policyHash, af_detail = JObj []\<rparr>]\<rparr>"

definition keep_copy :: "stamp \<Rightarrow> string \<Rightarrow> string \<Rightarrow> string \<Rightarrow> policy_row \<Rightarrow> projection_row \<Rightarrow> unit transaction" where
  "keep_copy st org who noticeId p x = writeT (\<lambda>d.
     audit_decision (st_audit_id st) org who (sp_hash p) (pr_id x) ''copy.detached'' ''destination_edit_kept''
       (finishNotice (st_now st) org noticeId KeepAndDetach
         (update_projection (pr_id x) (\<lambda>q. q\<lparr>pr_ownership := OwnDetached, pr_status := ''converged'', pr_recovery := None,
            pr_error := None, pr_updated := st_now st\<rparr>) d)))"

text \<open>The evidence that a restore replays must still belong together.\<close>

definition evidence_consistent :: "(string \<Rightarrow> string) \<Rightarrow> policy_row \<Rightarrow> projection_row \<Rightarrow> sync_error + bool" where
  "evidence_consistent sha p x =
     (if pr_recovery x = Some DeleteCopy then Inr (pr_desired_hash x = None \<and> pr_desired x = None)
      else case pr_desired x of
             None \<Rightarrow> Inr False
           | Some desired \<Rightarrow>
               if \<not> is_truthy (pr_desired_hash x)
                  \<or> prov_policy_ref (d_provenance desired) \<noteq> sp_id p
                  \<or> prov_projection_ref (d_provenance desired) \<noteq> pr_id x
                  \<or> prov_generation (d_provenance desired) \<noteq> pr_generation x
               then Inr False
               else bindE (liftE HashThrew (sha256Canonical sha (copy_json desired))) (\<lambda>h. Inr (Some h = pr_desired_hash x)))"

definition restore_key :: "(string \<Rightarrow> string) \<Rightarrow> policy_row \<Rightarrow> projection_row \<Rightarrow> write_operation \<Rightarrow> sync_error + string" where
  "restore_key sha p x op =
     liftE HashThrew (sha256Canonical sha (JObj [(''version'', Some (JNum (Whole 1))),
       (''kind'', Some (JStr ''destination_edit_hold_restore'')), (''policy_ref'', Some (JStr (sp_id p))),
       (''policy_revision'', Some (JNum (Whole (sp_revision p)))), (''projection_ref'', Some (JStr (pr_id x))),
       (''generation'', Some (JNum (Whole (pr_generation x)))),
       (''intent_sequence'', Some (JNum (Whole (pr_intent_sequence x + 1)))), (''operation'', Some (JStr (write_text op))),
       (''desired_fingerprint'', Some (case pr_desired_hash x of None \<Rightarrow> JNull | Some h \<Rightarrow> JStr h))]))"

definition restore_effect :: "stamp \<Rightarrow> string \<Rightarrow> policy_row \<Rightarrow> projection_row \<Rightarrow> write_operation \<Rightarrow> string \<Rightarrow> effect_row" where
  "restore_effect st org p x op key =
     \<lparr>oe_id = st_effect_id st, oe_organization = org, oe_policy = sp_id p, oe_projection = pr_id x, oe_basis = pr_basis x,
      oe_policy_revision = sp_revision p, oe_operation = op, oe_key = key, oe_desired = pr_desired x, oe_state = Pending,
      oe_attempts = 0, oe_run_after = st_now st, oe_owner = None, oe_expires = None, oe_ambiguous = True, oe_error = None,
      oe_created = st_now st, oe_updated = st_now st\<rparr>"

definition restored_row :: "stamp \<Rightarrow> projection_row \<Rightarrow> projection_row \<Rightarrow> projection_row" where
  "restored_row st x q = q\<lparr>pr_intent_sequence := pr_intent_sequence x + 1, pr_recovery := None, pr_status := ''retrying'',
     pr_error := None, pr_updated := st_now st\<rparr>"

definition queue_restore ::
  "(string \<Rightarrow> string) \<Rightarrow> stamp \<Rightarrow> string \<Rightarrow> string \<Rightarrow> string \<Rightarrow> policy_row \<Rightarrow> projection_row \<Rightarrow> write_operation \<Rightarrow> unit transaction" where
  "queue_restore sha st org who noticeId p x op =
     bindT (liftT (evidence_consistent sha p x)) (\<lambda>ok.
     bindT (requireT ok ''hold_stale'' ''the held copy's recovery evidence is inconsistent'') (\<lambda>_.
     bindT (liftT (restore_key sha p x op)) (\<lambda>key.
     bindT (insert_outbox (restore_effect st org p x op key)) (\<lambda>_.
       writeT (\<lambda>d.
         audit_decision (st_audit_id st) org who (sp_hash p) (pr_id x) ''copy.restore_requested'' ''destination_edit_restored''
           (finishNotice (st_now st) org noticeId RestoreCopy
             (update_projection (pr_id x) (restored_row st x) d)))))))"

definition schedule_fresh_pass :: "stamp \<Rightarrow> string \<Rightarrow> string \<Rightarrow> policy_row \<Rightarrow> db \<Rightarrow> db" where
  "schedule_fresh_pass st org noticeId p d =
     d\<lparr>jobs_table := (case enqueue (st_now st) (st_job_id st) org ''reconcile_policy''
           (''policy:'' @ sp_id p @ '':revision:'' @ dec_int (sp_revision p) @ '':notice-basis:'' @ noticeId)
           (JObj [(''policy_id'', Some (JStr (sp_id p)))]) (st_now st) (jobs_table d) of
         Inr (_, q) \<Rightarrow> q | Inl _ \<Rightarrow> jobs_table d)\<rparr>"

definition current_basis :: "(string \<Rightarrow> string) \<Rightarrow> db \<Rightarrow> string \<Rightarrow> projection_row \<Rightarrow> sync_error + string option" where
  "current_basis sha d org x =
     (case find (\<lambda>b. so_organization b = org \<and> so_id b = pr_observation x) (observations d) of
        None \<Rightarrow> Inr None
      | Some b \<Rightarrow> bindE (liftE HashThrew (sourceObservationBasisHash sha (so_hash b) (so_tombstone b))) (\<lambda>h. Inr (Some h)))"

definition restore_copy ::
  "(string \<Rightarrow> string) \<Rightarrow> stamp \<Rightarrow> string \<Rightarrow> string \<Rightarrow> string \<Rightarrow> policy_row \<Rightarrow> projection_row \<Rightarrow> unit transaction" where
  "restore_copy sha st org who noticeId p x =
     (case pr_recovery x of
        Some op \<Rightarrow>
          bindT (requireT (pr_policy_revision x = sp_revision p) ''hold_stale'' ''the held copy changed while the decision was pending'') (\<lambda>_.
          bindT (readT (\<lambda>d. current_basis sha d org x)) (\<lambda>res.
          bindT (liftT res) (\<lambda>basis.
            if \<not> is_truthy basis \<or> \<not> is_truthy (pr_basis x) \<or> basis \<noteq> pr_basis x
            then bindT (writeT (schedule_fresh_pass st org noticeId p)) (\<lambda>_.
                   throwT (PolicyInputError ''hold_stale'' ''the source event changed; a fresh reconciliation was scheduled''))
            else queue_restore sha st org who noticeId p x op)))
      | None \<Rightarrow> throwT (PolicyInputError ''hold_stale'' ''the held copy changed while the decision was pending''))"

definition resolve_body ::
  "(string \<Rightarrow> string) \<Rightarrow> stamp \<Rightarrow> string \<Rightarrow> string \<Rightarrow> string \<Rightarrow> notice_action \<Rightarrow> unit transaction" where
  "resolve_body sha st org who noticeId action =
     bindT (readT (\<lambda>d. find (\<lambda>n. sn_organization n = org \<and> sn_id n = noticeId) (notices d))) (\<lambda>r.
     bindT (foundT r ''not_found'' ''sync notice was not found'') (\<lambda>n.
     bindT (requireT (sn_kind n \<in> set HELD_NOTICE_KINDS \<and> sn_status n \<noteq> Resolved) ''notice_not_resolvable''
              ''this notice does not carry an open decision'') (\<lambda>_.
     bindT (readT (\<lambda>d. find (\<lambda>p. sp_organization p = org \<and> sp_id p = sn_policy n \<and> sp_status p \<noteq> PolicyDeleted) (policies d))) (\<lambda>r.
     bindT (foundT r ''not_found'' ''sync policy was not found'') (\<lambda>p.
     bindT (readT (\<lambda>d. find (\<lambda>x. pr_organization x = org \<and> pr_id x = sn_projection n) (projections d))) (\<lambda>r.
     bindT (foundT (case r of Some x \<Rightarrow> if isDestinationEditHold x then Some x else None | None \<Rightarrow> None) ''hold_stale''
              ''the held copy has already been resolved or superseded'') (\<lambda>x.
       case action of
         KeepAndDetach \<Rightarrow> keep_copy st org who noticeId p x
       | RestoreCopy \<Rightarrow> restore_copy sha st org who noticeId p x)))))))"

definition resolve_notice ::
  "(string \<Rightarrow> string) \<Rightarrow> stamp \<Rightarrow> string \<Rightarrow> string \<Rightarrow> string \<Rightarrow> notice_action \<Rightarrow> unit transaction" where
  "resolve_notice sha st org who noticeId action = in_transaction (resolve_body sha st org who noticeId action)"

lemma liftE_total: "\<exists>h. x = Inr h \<Longrightarrow> \<exists>h. liftE f x = Inr h"
  by (auto simp: liftE_def)

subsection \<open>What a decision does\<close>

lemma resolve_body_Inr:
  assumes "resolve_body sha st org who nid action d = (Inr (), d')"
  obtains n p x where
    "find (\<lambda>n. sn_organization n = org \<and> sn_id n = nid) (notices d) = Some n" "sn_kind n \<in> set HELD_NOTICE_KINDS" "sn_status n \<noteq> Resolved"
    "find (\<lambda>p. sp_organization p = org \<and> sp_id p = sn_policy n \<and> sp_status p \<noteq> PolicyDeleted) (policies d) = Some p"
    "find (\<lambda>x. pr_organization x = org \<and> pr_id x = sn_projection n) (projections d) = Some x" "isDestinationEditHold x"
    "(case action of KeepAndDetach \<Rightarrow> keep_copy st org who nid p x | RestoreCopy \<Rightarrow> restore_copy sha st org who nid p x) d = (Inr (), d')"
  using assms by (auto simp: resolve_body_def transaction_Inr split: option.splits if_splits)

lemma resolve_body_held:
  assumes "find (\<lambda>n. sn_organization n = org \<and> sn_id n = nid) (notices d) = Some n" "sn_kind n \<in> set HELD_NOTICE_KINDS" "sn_status n \<noteq> Resolved"
    "find (\<lambda>p. sp_organization p = org \<and> sp_id p = sn_policy n \<and> sp_status p \<noteq> PolicyDeleted) (policies d) = Some p"
    "find (\<lambda>x. pr_organization x = org \<and> pr_id x = sn_projection n) (projections d) = Some x" "isDestinationEditHold x"
  shows "resolve_body sha st org who nid action d =
    (case action of KeepAndDetach \<Rightarrow> keep_copy st org who nid p x | RestoreCopy \<Rightarrow> restore_copy sha st org who nid p x) d"
  using assms by (cases action) (simp_all add: resolve_body_def transaction_simps)

lemma restore_copy_Inr:
  assumes "restore_copy sha st org who nid p x d = (Inr (), d')"
  obtains op key where "pr_recovery x = Some op" "pr_policy_revision x = sp_revision p" "is_truthy (pr_basis x)"
    "current_basis sha d org x = Inr (pr_basis x)" "evidence_consistent sha p x = Inr True" "restore_key sha p x op = Inr key"
    "\<not> list_ex (\<lambda>e. oe_key e = key \<or> oe_id e = st_effect_id st) (effects d)"
    "d' = audit_decision (st_audit_id st) org who (sp_hash p) (pr_id x) ''copy.restore_requested'' ''destination_edit_restored''
       (finishNotice (st_now st) org nid RestoreCopy
         (update_projection (pr_id x) (restored_row st x)
           (d\<lparr>effects := effects d @ [restore_effect st org p x op key]\<rparr>)))"
  using assms
  by (auto simp: restore_copy_def queue_restore_def transaction_Inr restore_effect_def split: option.splits if_splits)

lemma restored_rows:
  assumes "restore_copy sha st org who nid p x d = (Inr (), d')"
  obtains op key where "pr_recovery x = Some op" "pr_policy_revision x = sp_revision p" "is_truthy (pr_basis x)"
    "current_basis sha d org x = Inr (pr_basis x)" "\<not> list_ex (\<lambda>e. oe_key e = key \<or> oe_id e = st_effect_id st) (effects d)"
    "effects d' = effects d @ [restore_effect st org p x op key]"
    "notices d' = notices (finishNotice (st_now st) org nid RestoreCopy d)"
    "projections d' = update_where (\<lambda>q. pr_id q = pr_id x) (restored_row st x) (projections d)"
proof (rule restore_copy_Inr [OF assms], goal_cases)
  case (1 op key)
  show ?case
    by (rule that [OF 1(2-5,8)]) (simp_all add: 1(9) audit_decision_def finishNotice_def update_projection_def)
qed

lemma finished_notice:
  "m \<in> set (notices (finishNotice n org nid a d)) \<Longrightarrow> sn_organization m = org \<Longrightarrow> sn_id m = nid
     \<Longrightarrow> sn_status m = Resolved \<and> sn_resolution m = Some a"
  by (simp add: finishNotice_def) (erule update_whereE; simp)

lemma restored_row_is_free:
  "y \<in> set (update_where (\<lambda>q. pr_id q = i) (restored_row st x) ps) \<Longrightarrow> pr_id y = i \<Longrightarrow> \<not> isDestinationEditHold y"
  by (erule update_whereE) (simp_all add: restored_row_def isDestinationEditHold_def)

text \<open>
  A restore is replayed under marker checks. When the decision to restore succeeds, the notice was
  open and of a held copy, the policy is not deleted and has the revision of the copy, and the source is
  as it was when the copy was held; exactly one effect is queued. It carries the recorded operation,
  basis and copy, is pending and marked ambiguous, and its key and identity are new. The notice is
  resolved and the copy no longer waits for a decision.
\<close>

theorem restore_queues_a_verified_intent:
  assumes "resolve_notice sha st org who nid RestoreCopy d = (Inr (), d')"
  shows "\<exists>n p x e. n \<in> set (notices d) \<and> sn_id n = nid \<and> sn_kind n \<in> {copy_edit_held, copy_delete_held} \<and> sn_status n \<noteq> Resolved
    \<and> p \<in> set (policies d) \<and> sp_status p \<noteq> PolicyDeleted \<and> x \<in> set (projections d) \<and> isDestinationEditHold x
    \<and> pr_policy_revision x = sp_revision p \<and> current_basis sha d org x = Inr (pr_basis x) \<and> pr_basis x \<noteq> None
    \<and> effects d' = effects d @ [e] \<and> oe_key e \<notin> oe_key ` set (effects d) \<and> oe_id e \<notin> oe_id ` set (effects d)
    \<and> oe_state e = Pending \<and> oe_ambiguous e \<and> oe_projection e = pr_id x \<and> oe_policy e = sp_id p
    \<and> pr_recovery x = Some (oe_operation e) \<and> oe_desired e = pr_desired x \<and> oe_basis e = pr_basis x
    \<and> (\<forall>m \<in> set (notices d'). sn_organization m = org \<and> sn_id m = nid \<longrightarrow> sn_status m = Resolved \<and> sn_resolution m = Some RestoreCopy)
    \<and> (\<forall>y \<in> set (projections d'). pr_id y = pr_id x \<longrightarrow> \<not> isDestinationEditHold y)"
proof -
  from assms obtain n p x where
    n: "find (\<lambda>n. sn_organization n = org \<and> sn_id n = nid) (notices d) = Some n" "sn_kind n \<in> set HELD_NOTICE_KINDS" "sn_status n \<noteq> Resolved"
    and p: "find (\<lambda>p. sp_organization p = org \<and> sp_id p = sn_policy n \<and> sp_status p \<noteq> PolicyDeleted) (policies d) = Some p"
    and x: "find (\<lambda>x. pr_organization x = org \<and> pr_id x = sn_projection n) (projections d) = Some x" "isDestinationEditHold x"
    and run: "restore_copy sha st org who nid p x d = (Inr (), d')"
    unfolding resolve_notice_def in_transaction_Inr by (auto elim: resolve_body_Inr)
  from run obtain op key where r: "pr_recovery x = Some op" "pr_policy_revision x = sp_revision p" "is_truthy (pr_basis x)"
    "current_basis sha d org x = Inr (pr_basis x)" "\<not> list_ex (\<lambda>e. oe_key e = key \<or> oe_id e = st_effect_id st) (effects d)"
    and rows: "effects d' = effects d @ [restore_effect st org p x op key]"
    "notices d' = notices (finishNotice (st_now st) org nid RestoreCopy d)"
    "projections d' = update_where (\<lambda>q. pr_id q = pr_id x) (restored_row st x) (projections d)"
    by (rule restored_rows)
  let ?e = "restore_effect st org p x op key"
  have new: "oe_key ?e \<notin> oe_key ` set (effects d)" "oe_id ?e \<notin> oe_id ` set (effects d)"
    using r(5) by (auto simp: list_ex_iff restore_effect_def)
  have found: "n \<in> set (notices d)" "sn_id n = nid" "p \<in> set (policies d)" "sp_status p \<noteq> PolicyDeleted" "x \<in> set (projections d)"
    using n(1) p x(1) by (auto simp: find_Some_iff)
  have held: "sn_kind n \<in> {copy_edit_held, copy_delete_held}" using n(2) by (auto simp: HELD_NOTICE_KINDS_def)
  have basis: "pr_basis x \<noteq> None" using r(3) by (auto simp: is_truthy_def)
  have e: "oe_state ?e = Pending" "oe_ambiguous ?e" "oe_projection ?e = pr_id x" "oe_policy ?e = sp_id p"
    "pr_recovery x = Some (oe_operation ?e)" "oe_desired ?e = pr_desired x" "oe_basis ?e = pr_basis x"
    using r(1) by (simp_all add: restore_effect_def)
  have closed: "\<forall>m \<in> set (notices d'). sn_organization m = org \<and> sn_id m = nid \<longrightarrow> sn_status m = Resolved \<and> sn_resolution m = Some RestoreCopy"
    unfolding rows(2) using finished_notice by blast
  have free: "\<forall>y \<in> set (projections d'). pr_id y = pr_id x \<longrightarrow> \<not> isDestinationEditHold y"
    unfolding rows(3) using restored_row_is_free by blast
  from found held n(3) x(2) r(2,4) basis rows(1) new e closed free show ?thesis by blast
qed

text \<open>
  A kept edit is let go. When the decision to keep the change succeeds, nothing is queued, the
  notice is resolved and the copy is detached; from then on a pass over its source event, whatever the
  event has become, queues nothing for it and leaves it detached.
\<close>

theorem kept_edit_is_let_go:
  assumes "resolve_notice sha st org who nid KeepAndDetach d = (Inr (), d')"
    "find_projection d' org (policy_ref pol) (so_id row) (so_recurrence row) = Some e"
    "\<forall>n \<in> set (notices d). sn_organization n = org \<and> sn_id n = nid \<longrightarrow> sn_projection n = pr_id e"
    "reconcileObservation t sha nowMs pid eid org pol caps profile row src hz d' = Inr (out, d2)"
  shows "effects d' = effects d \<and> pr_ownership e = OwnDetached \<and> \<not> rd_created out \<and> effects d2 = effects d
    \<and> (\<forall>y \<in> set (projections d2). pr_id y = pr_id e \<longrightarrow> pr_ownership y = OwnDetached)"
proof -
  from assms(1) obtain n p x where
    n: "find (\<lambda>n. sn_organization n = org \<and> sn_id n = nid) (notices d) = Some n"
    and x: "find (\<lambda>x. pr_organization x = org \<and> pr_id x = sn_projection n) (projections d) = Some x"
    and run: "keep_copy st org who nid p x d = (Inr (), d')"
    unfolding resolve_notice_def in_transaction_Inr by (auto elim: resolve_body_Inr)
  from run have ef: "effects d' = effects d"
    and pr: "projections d' = update_where (\<lambda>q. pr_id q = pr_id x) (\<lambda>q. q\<lparr>pr_ownership := OwnDetached, pr_status := ''converged'',
        pr_recovery := None, pr_error := None, pr_updated := st_now st\<rparr>) (projections d)"
    by (auto simp: keep_copy_def transaction_Inr audit_decision_def finishNotice_def update_projection_def)
  have id: "pr_id x = pr_id e" using n x assms(3) by (auto simp: find_Some_iff)
  have det: "pr_ownership y = OwnDetached \<and> pr_status y = ''converged''" if "y \<in> set (projections d')" "pr_id y = pr_id e" for y
    using that unfolding pr by (elim update_whereE) (auto simp: id)
  from find_projection_Some [OF assms(2)] have "pr_ownership e = OwnDetached \<and> pr_status e = ''converged''" by (intro det) auto
  then have "\<not> rd_created out \<and> effects d2 = effects d' \<and> list_all2 same_copy (projections d2) (projections d')"
    by (intro decided_copy_run [OF assms(4,2)]) simp
  moreover have "pr_ownership y = OwnDetached" if "y \<in> set (projections d2)" "pr_id y = pr_id e"
    "list_all2 same_copy (projections d2) (projections d')" for y
  proof -
    from that obtain z where "z \<in> set (projections d')" "same_copy y z" by (metis in_set_conv_nth list_all2_conv_all_nth)
    with det that(2) show ?thesis by (auto simp: same_copy_def)
  qed
  ultimately show ?thesis using ef \<open>pr_ownership e = OwnDetached \<and> _\<close> by auto
qed

text \<open>
  The refusal of a stale restore promises a pass that nobody has scheduled. When the source has
  changed, the transaction queues the pass and then throws, so that the queued job is rolled back: the
  caller is told that a fresh reconciliation was scheduled, but the tables are as they were.
\<close>

theorem stale_restore_schedules_nothing:
  assumes "find (\<lambda>n. sn_organization n = org \<and> sn_id n = nid) (notices d) = Some n" "sn_kind n = copy_edit_held" "sn_status n = Unread"
    "find (\<lambda>p. sp_organization p = org \<and> sp_id p = sn_policy n \<and> sp_status p \<noteq> PolicyDeleted) (policies d) = Some p"
    "find (\<lambda>x. pr_organization x = org \<and> pr_id x = sn_projection n) (projections d) = Some x" "isDestinationEditHold x"
    "pr_recovery x \<noteq> None" "pr_policy_revision x = sp_revision p" "current_basis sha d org x = Inr basis" "basis \<noteq> pr_basis x"
  shows "resolve_notice sha st org who nid RestoreCopy d =
    (Inl (PolicyInputError ''hold_stale'' ''the source event changed; a fresh reconciliation was scheduled''), d)"
  using resolve_body_held [OF assms(1) _ _ assms(4-6)] assms(2,3,7-10)
  by (auto simp: resolve_notice_def in_transaction_Inl restore_copy_def transaction_simps liftE_def HELD_NOTICE_KINDS_def)

subsection \<open>Concrete decisions\<close>

definition held_row :: projection_row where
  "held_row = attached_row\<lparr>pr_status := ''held'', pr_error := Some ''destination_edit_held'', pr_recovery := Some UpdateCopy,
     pr_basis := Some ''sha256:61''\<rparr>"

definition held_notice :: notice_row where
  "held_notice = \<lparr>sn_id = ''n1'', sn_organization = ''o'', sn_policy = ''p1'', sn_projection = ''x1'', sn_kind = copy_edit_held,
     sn_status = Unread, sn_resolution = None, sn_detail = JNull, sn_created = 3, sn_updated = 3\<rparr>"

definition notice_db :: "projection_row \<Rightarrow> db" where
  "notice_db x = empty_db\<lparr>policies := [sample_policy_row], observations := [observed_row], projections := [x], notices := [held_notice]\<rparr>"

abbreviation decide :: "notice_action \<Rightarrow> projection_row \<Rightarrow> (service_error + unit) \<times> db" where
  "decide action x \<equiv> resolve_notice sample_sha sample_stamp ''o'' ''me'' ''n1'' action (notice_db x)"

lemmas held_simps = notice_db_def held_row_def held_notice_def attached_row_def sample_projection_def sample_policy_row_def
  empty_db_def observed_row_def

lemma held_effects: "effects (notice_db x) = []"
  by (simp add: notice_db_def empty_db_def)

lemma decide_eq:
  assumes "pr_organization x = ''o''" "pr_id x = ''x1''" "isDestinationEditHold x"
  shows "decide action x = in_transaction (case action of
       KeepAndDetach \<Rightarrow> keep_copy sample_stamp ''o'' ''me'' ''n1'' sample_policy_row x
     | RestoreCopy \<Rightarrow> restore_copy sample_sha sample_stamp ''o'' ''me'' ''n1'' sample_policy_row x) (notice_db x)"
proof -
  have "find (\<lambda>n. sn_organization n = ''o'' \<and> sn_id n = ''n1'') (notices (notice_db x)) = Some held_notice"
    "find (\<lambda>p. sp_organization p = ''o'' \<and> sp_id p = sn_policy held_notice \<and> sp_status p \<noteq> PolicyDeleted) (policies (notice_db x))
       = Some sample_policy_row"
    "find (\<lambda>y. pr_organization y = ''o'' \<and> pr_id y = sn_projection held_notice) (projections (notice_db x)) = Some x"
    "sn_kind held_notice = copy_edit_held" "sn_status held_notice = Unread"
    using assms(1,2) by (simp_all add: notice_db_def held_notice_def sample_policy_row_def)
  from resolve_body_held [OF this(1) _ _ this(2,3) assms(3)] this(4,5) show ?thesis
    by (simp add: resolve_notice_def in_transaction_def HELD_NOTICE_KINDS_def)
qed

lemma sample_evaluation_cong: "projection_of x = projection_of y \<Longrightarrow> sample_evaluation x = sample_evaluation y"
  unfolding sample_evaluation_def evaluation_input_def by (simp only:)

definition kept_row :: projection_row where
  "kept_row = held_row\<lparr>pr_ownership := OwnDetached, pr_status := ''converged'', pr_recovery := None, pr_error := None, pr_updated := 9\<rparr>"

lemma held_row_hold: "pr_organization held_row = ''o''" "pr_id held_row = ''x1''" "isDestinationEditHold held_row"
  by (simp_all add: isDestinationEditHold_def DESTINATION_EDIT_HOLD_CODES_def held_simps)

lemma kept_row_facts: "pr_id kept_row = ''x1''" "pr_organization kept_row = ''o''" "pr_policy kept_row = ''p1''"
  "pr_observation kept_row = ''ob''" "pr_recurrence kept_row = ''''" "pr_ownership kept_row = OwnDetached" "pr_status kept_row = ''converged''"
  by (simp_all add: kept_row_def held_simps)

lemma kept_run: "\<exists>d'. decide KeepAndDetach held_row = (Inr (), d') \<and> projections d' = [kept_row] \<and> effects d' = []"
  unfolding decide_eq [OF held_row_hold]
  by (simp add: in_transaction_def keep_copy_def writeT_def audit_decision_def finishNotice_def update_projection_def
      update_where_def sample_stamp_def notice_db_def empty_db_def kept_row_def)

lemma kept_evaluation: "\<exists>r. sample_evaluation (Some kept_row) = Inr r \<and> res_operation r = NoOperation"
proof -
  have "sample_evaluation (Some kept_row) = sample_evaluation (Some (attached_row\<lparr>pr_ownership := OwnDetached\<rparr>))"
    by (rule sample_evaluation_cong) (simp add: projection_of_def kept_row_def held_simps is_truthy_def)
  then show ?thesis using holds_forE [OF sample_evaluation_detached] by metis
qed

theorem kept_edit_is_let_go_witness:
  "\<exists>d' out d2. decide KeepAndDetach held_row = (Inr (), d') \<and> sample_reconcile d' = Inr (out, d2) \<and> effects d2 = []"
proof -
  from kept_run obtain d' where run: "decide KeepAndDetach held_row = (Inr (), d')" and rows: "projections d' = [kept_row]" "effects d' = []" by blast
  have nd: "\<not> needs_decision d' ''o'' kept_row"
    by (simp add: needs_decision_def blocking_effect_def rows isDestinationEditHold_def kept_row_facts)
  from kept_evaluation obtain r where r: "sample_evaluation (Some kept_row) = Inr r" "res_operation r = NoOperation" by blast
  from sample_known_run [OF rows(1) kept_row_facts(1-5) nd r] obtain out d2 where pass: "sample_reconcile d' = Inr (out, d2)" by blast
  have f: "find_projection d' ''o'' (policy_ref sample_policy) (so_id observed_row) (so_recurrence observed_row) = Some kept_row"
    using rows(1) kept_row_facts by (simp add: find_projection_def sample_policy_def observed_row_def)
  have "\<forall>n \<in> set (notices (notice_db held_row)). sn_organization n = ''o'' \<and> sn_id n = ''n1'' \<longrightarrow> sn_projection n = pr_id kept_row"
    by (simp add: notice_db_def held_notice_def kept_row_facts)
  from kept_edit_is_let_go [OF run f this pass [unfolded sample_reconcile_def]] have "effects d2 = []"
    by (simp add: held_effects)
  with run pass show ?thesis by blast
qed

definition held_removal :: projection_row where
  "held_removal = held_row\<lparr>pr_recovery := Some DeleteCopy, pr_desired := None, pr_desired_hash := None\<rparr>"

lemma held_basis: "current_basis sample_sha (notice_db x) ''o'' held_removal = Inr (Some ''sha256:61'')"
  using sample_basis_hash by (simp add: current_basis_def held_removal_def held_simps liftE_def)

lemma restore_key_total:
  assumes "\<bar>sp_revision p\<bar> \<le> max_safe_integer" "\<bar>pr_generation x\<bar> \<le> max_safe_integer" "\<bar>pr_intent_sequence x + 1\<bar> \<le> max_safe_integer"
  shows "\<exists>k. restore_key sha p x op = Inr k"
  unfolding restore_key_def using assms
  by (intro liftE_total sha256Canonical_total) (auto simp: max_safe_integer_def split: option.splits)

theorem restore_queues_a_verified_intent_witness:
  "\<exists>d' e. decide RestoreCopy held_removal = (Inr (), d') \<and> effects d' = [e] \<and> oe_ambiguous e"
proof -
  have hold: "pr_organization held_removal = ''o''" "pr_id held_removal = ''x1''" "isDestinationEditHold held_removal"
    by (simp_all add: isDestinationEditHold_def DESTINATION_EDIT_HOLD_CODES_def held_removal_def held_simps)
  have x: "pr_recovery held_removal = Some DeleteCopy" "pr_policy_revision held_removal = sp_revision sample_policy_row"
    "pr_basis held_removal = Some ''sha256:61''" "pr_desired held_removal = None" "pr_desired_hash held_removal = None"
    by (simp_all add: held_removal_def held_simps)
  obtain key where key: "restore_key sample_sha sample_policy_row held_removal DeleteCopy = Inr key"
    using restore_key_total [of sample_policy_row held_removal] by (auto simp: held_removal_def held_simps max_safe_integer_def)
  have "\<exists>d'. decide RestoreCopy held_removal = (Inr (), d')"
    unfolding decide_eq [OF hold]
    by (simp add: in_transaction_def restore_copy_def queue_restore_def evidence_consistent_def insert_outbox_def transaction_simps
        liftE_def is_truthy_def x key held_basis held_effects)
  then obtain d' where run: "decide RestoreCopy held_removal = (Inr (), d')" by blast
  from restore_queues_a_verified_intent [OF run] run held_effects show ?thesis by auto
qed

theorem stale_restore_schedules_nothing_witness:
  "decide RestoreCopy (held_removal\<lparr>pr_basis := Some ''old''\<rparr>) =
     (Inl (PolicyInputError ''hold_stale'' ''the source event changed; a fresh reconciliation was scheduled''),
      notice_db (held_removal\<lparr>pr_basis := Some ''old''\<rparr>))"
proof (rule stale_restore_schedules_nothing)
  let ?x = "held_removal\<lparr>pr_basis := Some ''old''\<rparr>"
  show "find (\<lambda>n. sn_organization n = ''o'' \<and> sn_id n = ''n1'') (notices (notice_db ?x)) = Some held_notice"
    "sn_kind held_notice = copy_edit_held" "sn_status held_notice = Unread"
    "find (\<lambda>p. sp_organization p = ''o'' \<and> sp_id p = sn_policy held_notice \<and> sp_status p \<noteq> PolicyDeleted) (policies (notice_db ?x))
       = Some sample_policy_row"
    "find (\<lambda>x. pr_organization x = ''o'' \<and> pr_id x = sn_projection held_notice) (projections (notice_db ?x)) = Some ?x"
    "isDestinationEditHold ?x" "pr_recovery ?x \<noteq> None" "pr_policy_revision ?x = sp_revision sample_policy_row"
    by (simp_all add: isDestinationEditHold_def DESTINATION_EDIT_HOLD_CODES_def held_removal_def held_simps)
  show "current_basis sample_sha (notice_db ?x) ''o'' ?x = Inr (Some ''sha256:61'')" "Some ''sha256:61'' \<noteq> pr_basis ?x"
    using sample_basis_hash by (simp_all add: current_basis_def held_removal_def held_simps liftE_def)
qed

subsection \<open>A hold that is forgotten\<close>

lemma reason_is_no_hold_code: "reason_text r \<notin> set DESTINATION_EDIT_HOLD_CODES"
  by (cases r) (simp_all add: DESTINATION_EDIT_HOLD_CODES_def)

lemma refresh_forgets:
  "recoveryOperationForResult r = None \<Longrightarrow> \<not> isDestinationEditHold (refresh_held nowMs pol basis r blocking e)"
  using reason_is_no_hold_code by (auto simp: isDestinationEditHold_def refresh_held_def)

lemma held_pass:
  assumes "reconcileObservation t sha nowMs pid eid org pol caps profile row src hz d = Inr (out, d')"
    "find_projection d org (policy_ref pol) (so_id row) (so_recurrence row) = Some e" "isDestinationEditHold e"
    "evaluation_input nowMs hz (pr_id e) pol profile src (Some e) caps = Inr i" "evaluatePolicy t sha i = Inr r"
  obtains basis where "d' = update_projection (pr_id e) (refresh_held nowMs pol basis r (blocking_effect d org (pr_id e))) d"
  using assms(1) unfolding reconcileObservation_def Let_def assms(2) bind.simps option.case assms(4,5) liftE_Inr_eq bindE_simps
  by (auto simp: bindE_Inr_iff assms(3) intro: that)

text \<open>
  An open decision can be forgotten. When a copy waits for a person and a pass cannot evaluate its
  source event (the result has no operation to recover with, for instance because the event is
  temporarily invalid), the reason of that result replaces the mark of the hold: the copy no longer
  counts as held for a decision, and the decision on its notice is refused, whichever it is.
\<close>

theorem unanswered_hold_is_forgotten:
  assumes "reconcileObservation t sha nowMs pid eid org pol caps profile row src hz d = Inr (out, d')"
    "find_projection d org (policy_ref pol) (so_id row) (so_recurrence row) = Some e" "isDestinationEditHold e"
    "evaluation_input nowMs hz (pr_id e) pol profile src (Some e) caps = Inr i" "evaluatePolicy t sha i = Inr r"
    "res_selection r = Invalid"
    "find (\<lambda>n. sn_organization n = org \<and> sn_id n = nid) (notices d) = Some n" "sn_kind n = copy_edit_held" "sn_status n = Unread"
    "find (\<lambda>p. sp_organization p = org \<and> sp_id p = sn_policy n \<and> sp_status p \<noteq> PolicyDeleted) (policies d) = Some p"
    "sn_projection n = pr_id e"
  shows "(\<forall>y \<in> set (projections d'). pr_id y = pr_id e \<longrightarrow> \<not> isDestinationEditHold y)
    \<and> resolve_notice sha st org who nid action d' =
        (Inl (PolicyInputError ''hold_stale'' ''the held copy has already been resolved or superseded''), d')"
proof -
  from held_pass [OF assms(1-5)] obtain basis where
    d': "d' = update_projection (pr_id e) (refresh_held nowMs pol basis r (blocking_effect d org (pr_id e))) d" .
  have none: "recoveryOperationForResult r = None" using assms(6) by (simp add: recoveryOperationForResult_def)
  have rows: "projections d' = update_where (\<lambda>q. pr_id q = pr_id e) (refresh_held nowMs pol basis r (blocking_effect d org (pr_id e))) (projections d)"
    "notices d' = notices d" "policies d' = policies d" by (simp_all add: d' update_projection_def)
  have free: "\<not> isDestinationEditHold y" if "y \<in> set (projections d')" "pr_id y = pr_id e" for y
    using that(1) unfolding rows(1) by (rule update_whereE) (use that(2) refresh_forgets [OF none] in auto)
  moreover have "resolve_notice sha st org who nid action d' =
      (Inl (PolicyInputError ''hold_stale'' ''the held copy has already been resolved or superseded''), d')"
  proof (cases "find (\<lambda>x. pr_organization x = org \<and> pr_id x = sn_projection n) (projections d')")
    case None
    with assms(7-10) show ?thesis
      by (simp add: resolve_notice_def in_transaction_Inl resolve_body_def transaction_simps rows HELD_NOTICE_KINDS_def)
  next
    case (Some x)
    then have "\<not> isDestinationEditHold x" using free assms(11) by (auto simp: find_Some_iff)
    with Some assms(7-10) show ?thesis
      by (simp add: resolve_notice_def in_transaction_Inl resolve_body_def transaction_simps rows(2,3) HELD_NOTICE_KINDS_def)
  qed
  ultimately show ?thesis by blast
qed

definition untimed_source :: source_observation where
  "untimed_source = sample_source\<lparr>s_timing := None\<rparr>"

definition forgetful_pass :: "db \<Rightarrow> sync_error + reconciled \<times> db" where
  "forgetful_pass d = reconcileObservation utc_library sample_sha 1784505600000 ''x2'' ''f1'' ''o'' sample_policy
     (capabilities sample_input) None observed_row untimed_source None d"

lemma untimed_evaluation:
  "\<exists>i r. evaluation_input 1784505600000 None ''x1'' sample_policy None untimed_source (Some held_row) (capabilities sample_input) = Inr i
     \<and> evaluatePolicy utc_library sample_sha i = Inr r \<and> res_selection r = Invalid"
proof -
  have "holds_for (\<lambda>i. holds_for (\<lambda>r. res_selection r = Invalid) (evaluatePolicy utc_library sample_sha i))
     (evaluation_input 1784505600000 None ''x1'' sample_policy None untimed_source (Some held_row) (capabilities sample_input))"
    by code_simp
  then show ?thesis by (auto elim!: holds_forE)
qed

theorem unanswered_hold_is_forgotten_witness:
  "\<exists>out d'. forgetful_pass (notice_db held_row) = Inr (out, d')
     \<and> fst (resolve_notice sample_sha sample_stamp ''o'' ''me'' ''n1'' KeepAndDetach d') =
         Inl (PolicyInputError ''hold_stale'' ''the held copy has already been resolved or superseded'')"
proof -
  from untimed_evaluation obtain i r where
    i: "evaluation_input 1784505600000 None (pr_id held_row) sample_policy None untimed_source (Some held_row) (capabilities sample_input) = Inr i"
    and r: "evaluatePolicy utc_library sample_sha i = Inr r" "res_selection r = Invalid" by (auto simp: held_row_hold)
  have b: "sourceObservationBasisHash sample_sha (so_hash observed_row) (so_tombstone observed_row) = Inr ''sha256:61''"
    using sample_basis_hash by (simp add: observed_row_def)
  have f: "find_projection (notice_db held_row) ''o'' (policy_ref sample_policy) (so_id observed_row) (so_recurrence observed_row) = Some held_row"
    by (simp add: find_projection_def sample_policy_def held_simps)
  have "\<exists>out d'. forgetful_pass (notice_db held_row) = Inr (out, d')"
    unfolding forgetful_pass_def reconcileObservation_def Let_def b f liftE_Inr_eq bindE_simps option.case i r
    by (simp add: held_row_hold)
  then obtain out d' where run: "forgetful_pass (notice_db held_row) = Inr (out, d')" by blast
  have n: "find (\<lambda>n. sn_organization n = ''o'' \<and> sn_id n = ''n1'') (notices (notice_db held_row)) = Some held_notice"
    "sn_kind held_notice = copy_edit_held" "sn_status held_notice = Unread"
    "find (\<lambda>p. sp_organization p = ''o'' \<and> sp_id p = sn_policy held_notice \<and> sp_status p \<noteq> PolicyDeleted) (policies (notice_db held_row))
       = Some sample_policy_row" "sn_projection held_notice = pr_id held_row"
    by (simp_all add: held_simps)
  from unanswered_hold_is_forgotten [OF run [unfolded forgetful_pass_def] f held_row_hold(3) i r n] run show ?thesis by auto
qed

end
