(* ===== verification/Verification.thy ===== *)
theory Verification
  imports Notices Scheduler
begin

section \<open>Verification of copies (server/src/sync/verification.ts)\<close>

text \<open>
  The verifier reads the copies that have not been looked at for a while and compares what it finds with
  what is recorded. An edited or deleted copy is repaired or held, as the policy says; a foreign event in
  the place of a copy is always held. The claim, the reading of a target and the reaction are separate
  transactions, so that every reaction checks again that nothing has changed since.
\<close>

definition MAX_DESTINATION_VERIFICATIONS_PER_JOB :: int where
  "MAX_DESTINATION_VERIFICATIONS_PER_JOB = 100"

record verification_target =
  vt_projection :: string
  vt_policy :: string
  vt_revision :: int
  vt_basis :: "string option"
  vt_generation :: int
  vt_intent :: int
  vt_event :: string
  vt_etag :: "string option"
  vt_hash :: string
  vt_desired :: desired_copy
  vt_calendar :: string
  vt_connection :: string
  vt_provider :: string
  vt_edits :: destination_edit_policy

datatype verification_decision =
    CopyCurrent string
  | CopyMissing
  | CopyDrifted string
  | CopyMismatch string

record verification_summary =
  vs_claimed :: nat
  vs_current :: nat
  vs_repairs :: nat
  vs_held :: nat
  vs_deferred :: nat

subsection \<open>Claiming and loading\<close>

definition claimable :: "string \<Rightarrow> int \<Rightarrow> db \<Rightarrow> projection_row \<Rightarrow> bool" where
  "claimable org cutoff d x \<longleftrightarrow> pr_organization x = org
     \<and> list_ex (\<lambda>p. sp_id p = pr_policy x \<and> sp_organization p = org \<and> sp_status p = PolicyActive) (policies d)
     \<and> pr_status x = ''converged'' \<and> pr_ownership x = OwnAttached \<and> pr_event_id x \<noteq> None \<and> pr_desired x \<noteq> None
     \<and> pr_desired_hash x \<noteq> None \<and> (case pr_last_verified x of None \<Rightarrow> True | Some v \<Rightarrow> v < cutoff)"

definition verified_key :: "projection_row \<Rightarrow> (bool \<times> int) \<times> string" where
  "verified_key x = (case pr_last_verified x of None \<Rightarrow> (False, 0) | Some v \<Rightarrow> (True, v), pr_id x)"

definition claimDue :: "string list \<Rightarrow> string \<Rightarrow> nat \<Rightarrow> int \<Rightarrow> int \<Rightarrow> db \<Rightarrow> string list \<times> db" where
  "claimDue locked org limit nowMs cutoff d =
     (let rows = take limit (filter (\<lambda>x. pr_id x \<notin> set locked) (sort_key verified_key (filter (claimable org cutoff d) (projections d))));
          ids = map pr_id rows
      in if rows = [] then ([], d)
         else (ids, d\<lparr>projections := update_where (\<lambda>x. pr_id x \<in> set ids) (\<lambda>x. x\<lparr>pr_last_verified := Some nowMs\<rparr>) (projections d)\<rparr>))"

definition loadTarget :: "string \<Rightarrow> string \<Rightarrow> db \<Rightarrow> verification_target option" where
  "loadTarget org projectionId d =
     Option.bind (find (\<lambda>x. pr_organization x = org \<and> pr_id x = projectionId \<and> pr_status x = ''converged''
                        \<and> pr_ownership x = OwnAttached) (projections d)) (\<lambda>x.
     Option.bind (find (\<lambda>p. sp_id p = pr_policy x \<and> sp_status p = PolicyActive) (policies d)) (\<lambda>p.
     Option.bind (endpoint_view d (pr_destination_calendar x)) (\<lambda>(e, c).
     Option.bind (pr_desired x) (\<lambda>desired.
       if \<not> is_truthy (pr_event_id x) \<or> \<not> is_truthy (pr_desired_hash x) \<or> \<not> destination_usable e c then None
       else Some \<lparr>vt_projection = pr_id x, vt_policy = pr_policy x, vt_revision = pr_policy_revision x, vt_basis = pr_basis x,
              vt_generation = pr_generation x, vt_intent = pr_intent_sequence x, vt_event = the (pr_event_id x),
              vt_etag = pr_etag x, vt_hash = the (pr_desired_hash x), vt_desired = desired, vt_calendar = ce_remote_id e,
              vt_connection = pc_id c, vt_provider = pc_provider c,
              vt_edits = normalizeDestinationEditPolicy (pd_destination_edits (sp_document p))\<rparr>))))"

definition classifyDestinationVerification :: "verification_target \<Rightarrow> event_lookup option \<Rightarrow> verification_decision" where
  "classifyDestinationVerification t observed =
     (case observed of
        None \<Rightarrow> CopyMissing
      | Some ev \<Rightarrow>
          if \<not> eventBelongsToProjection ev (vt_policy t) (vt_projection t) (vt_generation t) then CopyMismatch (el_revision ev)
          else if Some (el_revision ev) = vt_etag t then CopyCurrent (el_revision ev)
          else CopyDrifted (el_revision ev))"

definition destinationRepairGeneration :: "desired_copy \<Rightarrow> int \<Rightarrow> edit_observation \<Rightarrow> int \<times> desired_copy" where
  "destinationRepairGeneration desired currentGeneration kind =
     (if kind = Drifted then (currentGeneration, desired)
      else let generation = currentGeneration + 1
           in (generation, desired\<lparr>d_provenance := (d_provenance desired)\<lparr>prov_generation := generation\<rparr>\<rparr>))"

subsection \<open>Reacting\<close>

definition policy_unchanged :: "string \<Rightarrow> verification_target \<Rightarrow> db \<Rightarrow> bool" where
  "policy_unchanged org t d \<longleftrightarrow>
     (case find (\<lambda>p. sp_organization p = org \<and> sp_id p = vt_policy t) (policies d) of
        None \<Rightarrow> False
      | Some p \<Rightarrow> sp_status p = PolicyActive \<and> sp_revision p = vt_revision t)"

definition copy_unchanged :: "verification_target \<Rightarrow> projection_row \<Rightarrow> bool" where
  "copy_unchanged t x \<longleftrightarrow> pr_status x = ''converged'' \<and> pr_ownership x = OwnAttached \<and> pr_policy_revision x = vt_revision t
     \<and> pr_generation x = vt_generation t \<and> pr_event_id x = Some (vt_event t) \<and> pr_etag x = vt_etag t
     \<and> pr_desired_hash x = Some (vt_hash t)"

definition unfinished :: "verification_target \<Rightarrow> db \<Rightarrow> bool" where
  "unfinished t d \<longleftrightarrow> list_ex (\<lambda>e. oe_projection e = vt_projection t \<and> active_state (oe_state e)) (effects d)"

text \<open>The row of the copy, when policy, copy and outbox still are as the target says.\<close>

definition unchanged_row :: "string \<Rightarrow> verification_target \<Rightarrow> db \<Rightarrow> projection_row option" where
  "unchanged_row org t d =
     (if \<not> policy_unchanged org t d then None
      else case find (\<lambda>x. pr_organization x = org \<and> pr_id x = vt_projection t) (projections d) of
             None \<Rightarrow> None
           | Some x \<Rightarrow> if copy_unchanged t x \<and> \<not> unfinished t d then Some x else None)"

definition desired_unchanged :: "(string \<Rightarrow> string) \<Rightarrow> verification_target \<Rightarrow> desired_copy \<Rightarrow> sync_error + bool" where
  "desired_unchanged sha t desired =
     (if prov_policy_ref (d_provenance desired) \<noteq> vt_policy t \<or> prov_projection_ref (d_provenance desired) \<noteq> vt_projection t
         \<or> prov_generation (d_provenance desired) \<noteq> vt_generation t
      then Inr False
      else bindE (liftE HashThrew (sha256Canonical sha (copy_json desired))) (\<lambda>h. Inr (h = vt_hash t)))"

definition audit_verification ::
  "string \<Rightarrow> string \<Rightarrow> verification_target \<Rightarrow> string \<Rightarrow> string \<Rightarrow> (string \<times> json option) list \<Rightarrow> string \<Rightarrow> db \<Rightarrow> db" where
  "audit_verification auditId org t action reasonCode detail afterHash d =
     d\<lparr>audits := audits d @ [\<lparr>af_id = auditId, af_organization = org, af_principal = None, af_actor = ActorRecovery,
         af_action = action, af_target_type = ''projection'', af_target = vt_projection t, af_reason = reasonCode,
         af_before = Some (vt_hash t), af_after = Some afterHash,
         af_detail = JObj ([(''verification'', Some (JStr ''destination'')),
           (''generation'', Some (JNum (Whole (vt_generation t))))] @ detail)\<rparr>]\<rparr>"

definition edit_error_text :: "edit_error_code \<Rightarrow> string" where
  "edit_error_text c = (case c of destination_drift \<Rightarrow> ''destination_drift'' | destination_missing \<Rightarrow> ''destination_missing''
     | destination_edit_held \<Rightarrow> ''destination_edit_held'' | destination_delete_held \<Rightarrow> ''destination_delete_held'')"

definition repair_operation :: "edit_observation \<Rightarrow> write_operation" where
  "repair_operation kind = (if kind = MissingCopy then CreateCopy else UpdateCopy)"

definition repair_key :: "(string \<Rightarrow> string) \<Rightarrow> verification_target \<Rightarrow> int \<Rightarrow> int \<Rightarrow> write_operation \<Rightarrow> string \<Rightarrow> sync_error + string" where
  "repair_key sha t generation intentSequence op desiredHash =
     liftE HashThrew (sha256Canonical sha (JObj [(''version'', Some (JNum (Whole 1))),
       (''kind'', Some (JStr ''destination_verification_repair'')), (''policy_ref'', Some (JStr (vt_policy t))),
       (''policy_revision'', Some (JNum (Whole (vt_revision t)))), (''projection_ref'', Some (JStr (vt_projection t))),
       (''generation'', Some (JNum (Whole generation))), (''intent_sequence'', Some (JNum (Whole intentSequence))),
       (''operation'', Some (JStr (write_text op))), (''desired_fingerprint'', Some (JStr desiredHash))]))"

definition repair_effect ::
  "stamp \<Rightarrow> string \<Rightarrow> int \<Rightarrow> verification_target \<Rightarrow> write_operation \<Rightarrow> string \<Rightarrow> desired_copy \<Rightarrow> effect_row" where
  "repair_effect st org nowMs t op key desired =
     \<lparr>oe_id = st_effect_id st, oe_organization = org, oe_policy = vt_policy t, oe_projection = vt_projection t,
      oe_basis = vt_basis t, oe_policy_revision = vt_revision t, oe_operation = op, oe_key = key, oe_desired = Some desired,
      oe_state = Pending, oe_attempts = 0, oe_run_after = nowMs, oe_owner = None, oe_expires = None, oe_ambiguous = False,
      oe_error = None, oe_created = st_now st, oe_updated = st_now st\<rparr>"

definition repaired_row ::
  "int \<Rightarrow> verification_target \<Rightarrow> projection_row \<Rightarrow> edit_observation \<Rightarrow> string option \<Rightarrow> int \<Rightarrow> desired_copy \<Rightarrow> string
   \<Rightarrow> projection_row \<Rightarrow> projection_row" where
  "repaired_row nowMs t x kind observedRevision generation desired desiredHash q =
     q\<lparr>pr_intent_sequence := pr_intent_sequence x + 1, pr_generation := generation, pr_recovery := None,
       pr_event_id := (if kind = MissingCopy then None else Some (vt_event t)),
       pr_etag := (if kind = Drifted then observedRevision else None),
       pr_desired_hash := Some desiredHash, pr_desired := Some desired, pr_status := ''pending'',
       pr_error := Some (if kind = MissingCopy then ''destination_missing'' else ''destination_drift''),
       pr_updated := nowMs\<rparr>"

definition record_notice ::
  "stamp \<Rightarrow> string \<Rightarrow> string \<Rightarrow> verification_target \<Rightarrow> edit_notice \<Rightarrow> edit_observation \<Rightarrow> desired_copy \<Rightarrow> db \<Rightarrow> db" where
  "record_notice st noticeId org t notice kind desired =
     recordSyncNotice (st_now st) noticeId org (vt_policy t) (vt_projection t) notice (noticeDetailForDesiredCopy kind desired)"

definition queue_repair ::
  "(string \<Rightarrow> string) \<Rightarrow> stamp \<Rightarrow> string \<Rightarrow> string \<Rightarrow> int \<Rightarrow> verification_target \<Rightarrow> edit_observation \<Rightarrow> string option
   \<Rightarrow> edit_notice option \<Rightarrow> edit_error_code \<Rightarrow> projection_row \<Rightarrow> desired_copy \<Rightarrow> bool transaction" where
  "queue_repair sha st noticeId org nowMs t kind observedRevision notice errorCode x previous =
     (let (generation, desired) = destinationRepairGeneration previous (pr_generation x) kind;
          op = repair_operation kind
      in bindT (liftT (liftE HashThrew (sha256Canonical sha (copy_json desired)))) (\<lambda>desiredHash.
         bindT (liftT (repair_key sha t generation (pr_intent_sequence x + 1) op desiredHash)) (\<lambda>key.
         bindT (insert_outbox (repair_effect st org nowMs t op key desired)) (\<lambda>_.
         bindT (writeT (\<lambda>d.
           audit_verification (st_audit_id st) org t ''copy.repair_scheduled'' (edit_error_text errorCode)
             [(''operation'', Some (JStr (write_text op))), (''previous_generation'', Some (JNum (Whole (vt_generation t)))),
              (''repair_generation'', Some (JNum (Whole generation)))] desiredHash
             (update_projection (vt_projection t) (repaired_row nowMs t x kind observedRevision generation desired desiredHash) d))) (\<lambda>_.
         bindT (writeT (\<lambda>d. case notice of None \<Rightarrow> d | Some n \<Rightarrow> record_notice st noticeId org t n kind desired d)) (\<lambda>_.
           returnT True))))))"

definition scheduleRepair ::
  "(string \<Rightarrow> string) \<Rightarrow> stamp \<Rightarrow> string \<Rightarrow> string \<Rightarrow> int \<Rightarrow> verification_target \<Rightarrow> edit_observation \<Rightarrow> string option
   \<Rightarrow> edit_notice option \<Rightarrow> edit_error_code \<Rightarrow> bool transaction" where
  "scheduleRepair sha st noticeId org nowMs t kind observedRevision notice errorCode = in_transaction (
     bindT (readT (unchanged_row org t)) (\<lambda>row.
       case row of
         None \<Rightarrow> returnT False
       | Some x \<Rightarrow>
           (case pr_desired x of
              None \<Rightarrow> returnT False
            | Some previous \<Rightarrow>
                bindT (liftT (desired_unchanged sha t previous)) (\<lambda>same.
                  if \<not> same then returnT False
                  else queue_repair sha st noticeId org nowMs t kind observedRevision notice errorCode x previous))))"

definition held_edit_row :: "int \<Rightarrow> edit_observation \<Rightarrow> string option \<Rightarrow> edit_error_code \<Rightarrow> projection_row \<Rightarrow> projection_row" where
  "held_edit_row nowMs kind observedRevision errorCode q =
     q\<lparr>pr_status := ''held'', pr_recovery := Some (repair_operation kind), pr_error := Some (edit_error_text errorCode),
       pr_etag := (if kind = Drifted then observedRevision else pr_etag q), pr_updated := nowMs\<rparr>"

definition holdDestinationEdit ::
  "(string \<Rightarrow> string) \<Rightarrow> stamp \<Rightarrow> string \<Rightarrow> string \<Rightarrow> int \<Rightarrow> verification_target \<Rightarrow> edit_observation \<Rightarrow> string option
   \<Rightarrow> edit_notice \<Rightarrow> edit_error_code \<Rightarrow> bool transaction" where
  "holdDestinationEdit sha st noticeId org nowMs t kind observedRevision notice errorCode = in_transaction (
     bindT (readT (unchanged_row org t)) (\<lambda>row.
       case row of
         None \<Rightarrow> returnT False
       | Some x \<Rightarrow>
           (case pr_desired x of
              None \<Rightarrow> returnT False
            | Some desired \<Rightarrow>
                bindT (liftT (desired_unchanged sha t desired)) (\<lambda>same.
                  if \<not> same then returnT False
                  else bindT (writeT (\<lambda>d.
                         audit_verification (st_audit_id st) org t ''copy.held'' (edit_error_text errorCode)
                           [(''operation'', Some (JStr (write_text (repair_operation kind))))] (vt_hash t)
                           (record_notice st noticeId org t notice kind desired
                             (update_projection (vt_projection t) (held_edit_row nowMs kind observedRevision errorCode) d)))) (\<lambda>_.
                       returnT True)))))"

definition holdOwnershipMismatch :: "stamp \<Rightarrow> string \<Rightarrow> int \<Rightarrow> verification_target \<Rightarrow> string \<Rightarrow> bool transaction" where
  "holdOwnershipMismatch st org nowMs t observedRevision = in_transaction (
     bindT (readT (unchanged_row org t)) (\<lambda>row.
       case row of
         None \<Rightarrow> returnT False
       | Some x \<Rightarrow>
           bindT (writeT (\<lambda>d.
             audit_verification (st_audit_id st) org t ''copy.held'' ''destination_ownership_mismatch'' [] (vt_hash t)
               (update_projection (vt_projection t) (\<lambda>q. q\<lparr>pr_status := ''held'', pr_ownership := OwnAmbiguous,
                  pr_recovery := Some UpdateCopy, pr_error := Some ''ownership_mismatch'', pr_etag := Some observedRevision,
                  pr_updated := nowMs\<rparr>) d))) (\<lambda>_.
           returnT True)))"

subsection \<open>A batch\<close>

datatype verified = VerifiedCurrent | VerifiedRepaired | VerifiedHeld | VerifiedDeferred

definition tally :: "verified \<Rightarrow> (service_error + bool) \<times> db \<Rightarrow> verified \<times> db" where
  "tally good res = (case res of (Inr True, d) \<Rightarrow> (good, d) | (Inr False, d) \<Rightarrow> (VerifiedDeferred, d) | (Inl e, d) \<Rightarrow> (VerifiedDeferred, d))"

definition react ::
  "(string \<Rightarrow> string) \<Rightarrow> stamp \<Rightarrow> string \<Rightarrow> string \<Rightarrow> int \<Rightarrow> verification_target \<Rightarrow> verification_decision \<Rightarrow> db \<Rightarrow> verified \<times> db" where
  "react sha st noticeId org nowMs t decision d =
     (let edited = (\<lambda>kind revision. case planDestinationEditResponse (vt_edits t) kind of
            Hold notice code' \<Rightarrow> tally VerifiedHeld (holdDestinationEdit sha st noticeId org nowMs t kind revision notice code' d)
          | Repair notice code' \<Rightarrow> tally VerifiedRepaired (scheduleRepair sha st noticeId org nowMs t kind revision notice code' d))
      in case decision of
           CopyCurrent revision \<Rightarrow> (VerifiedCurrent, d)
         | CopyMismatch revision \<Rightarrow> tally VerifiedHeld (holdOwnershipMismatch st org nowMs t revision d)
         | CopyMissing \<Rightarrow> edited MissingCopy None
         | CopyDrifted revision \<Rightarrow> edited Drifted (Some revision))"

type_synonym token_cache = "(string \<times> (failure + unit)) list"

text \<open>The token of a connection is asked for once per batch; a rejection is kept like a token.\<close>

definition cached_token :: "provider \<Rightarrow> verification_target \<Rightarrow> token_cache \<Rightarrow> calls \<Rightarrow> (failure + unit) \<times> token_cache \<times> calls" where
  "cached_token pv t cache h =
     (case map_of cache (vt_connection t) of
        Some res \<Rightarrow> (res, cache, h)
      | None \<Rightarrow> let (res, h') = accessR pv (vt_provider t) (vt_connection t) h in (res, (vt_connection t, res) # cache, h'))"

definition reject_token :: "string \<Rightarrow> int \<Rightarrow> verification_target \<Rightarrow> failure \<Rightarrow> db \<Rightarrow> db" where
  "reject_token org nowMs t error d =
     (case error of
        ProviderFailure c r a s \<Rightarrow>
          if c = ''provider_auth''
          then d\<lparr>connections := update_where (\<lambda>x. pc_organization x = org \<and> pc_id x = vt_connection t)
                 (\<lambda>x. x\<lparr>pc_status := ActionRequired, pc_error := Some c, pc_updated := nowMs\<rparr>) (connections d)\<rparr>
          else d
      | OtherFailure x \<Rightarrow> d)"

definition verify_one ::
  "provider \<Rightarrow> (string \<Rightarrow> string) \<Rightarrow> stamp \<Rightarrow> string \<Rightarrow> string \<Rightarrow> int \<Rightarrow> string \<Rightarrow> token_cache \<Rightarrow> db \<Rightarrow> calls
   \<Rightarrow> verified \<times> token_cache \<times> db \<times> calls" where
  "verify_one pv sha st noticeId org nowMs projectionId cache d h =
     (case loadTarget org projectionId d of
        None \<Rightarrow> (VerifiedDeferred, cache, d, h)
      | Some t \<Rightarrow>
          (case cached_token pv t cache h of
             (Inl error, cache', h') \<Rightarrow> (VerifiedDeferred, cache', reject_token org nowMs t error d, h')
           | (Inr _, cache', h') \<Rightarrow>
               (case getR pv (vt_calendar t) (vt_event t) h' of
                  (Inl error, h'') \<Rightarrow> (VerifiedDeferred, cache', reject_token org nowMs t error d, h'')
                | (Inr observed, h'') \<Rightarrow>
                    let (v, d') = react sha st noticeId org nowMs t (classifyDestinationVerification t observed) d
                    in (v, cache', d', h''))))"

fun verify_all ::
  "provider \<Rightarrow> (string \<Rightarrow> string) \<Rightarrow> (nat \<Rightarrow> stamp) \<Rightarrow> (nat \<Rightarrow> string) \<Rightarrow> string \<Rightarrow> int \<Rightarrow> nat \<Rightarrow> string list \<Rightarrow> token_cache \<Rightarrow> db \<Rightarrow> calls
   \<Rightarrow> verified list \<times> db \<times> calls" where
  "verify_all pv sha sts nids org nowMs k [] cache d h = ([], d, h)"
| "verify_all pv sha sts nids org nowMs k (i # is) cache d h =
     (case verify_one pv sha (sts k) (nids k) org nowMs i cache d h of
        (v, cache', d', h') \<Rightarrow>
          (case verify_all pv sha sts nids org nowMs (Suc k) is cache' d' h' of (vs, d'', h'') \<Rightarrow> (v # vs, d'', h'')))"

definition verifyBatch ::
  "provider \<Rightarrow> (string \<Rightarrow> string) \<Rightarrow> (nat \<Rightarrow> stamp) \<Rightarrow> (nat \<Rightarrow> string) \<Rightarrow> string list \<Rightarrow> string \<Rightarrow> int \<Rightarrow> int \<Rightarrow> db \<Rightarrow> calls
   \<Rightarrow> verification_summary \<times> db \<times> calls" where
  "verifyBatch pv sha sts nids locked org limit nowMs d h =
     (let boundedLimit = max 1 (min limit MAX_DESTINATION_VERIFICATIONS_PER_JOB);
          (ids, d1) = claimDue locked org (nat boundedLimit) nowMs (nowMs - DESTINATION_VERIFICATION_INTERVAL_MILLISECONDS) d;
          (vs, d2, h') = verify_all pv sha sts nids org nowMs 0 ids [] d1 h
      in (\<lparr>vs_claimed = length ids, vs_current = count_list vs VerifiedCurrent, vs_repairs = count_list vs VerifiedRepaired,
           vs_held = count_list vs VerifiedHeld, vs_deferred = count_list vs VerifiedDeferred\<rparr>, d2, h'))"

subsection \<open>Verification only reads\<close>

definition is_read :: "provider_call \<Rightarrow> bool" where
  "is_read c \<longleftrightarrow> (case c of AccessToken _ \<Rightarrow> True | GetEvent _ _ \<Rightarrow> True | _ \<Rightarrow> False)"

definition tokens :: "calls \<Rightarrow> string list" where
  "tokens cs = concat (map (\<lambda>c. case c of AccessToken x \<Rightarrow> [x] | _ \<Rightarrow> []) cs)"

lemma tokens_simps [simp]:
  "tokens [] = []" "tokens (AccessToken x # cs) = x # tokens cs" "tokens (GetEvent a b # cs) = tokens cs" "tokens (as @ bs) = tokens as @ tokens bs"
  by (simp_all add: tokens_def)

lemma verify_one_calls:
  assumes "verify_one pv sha st nid org n i cache d h = (v, cache', d', h')"
  obtains cs where "h' = h @ cs" "list_all is_read cs" "length cs \<le> 2" "distinct (tokens cs)"
    "fst ` set cache' = set (tokens cs) \<union> fst ` set cache" "set (tokens cs) \<inter> fst ` set cache = {}"
proof -
  have "\<exists>cs. h' = h @ cs \<and> list_all is_read cs \<and> length cs \<le> 2 \<and> distinct (tokens cs)
    \<and> fst ` set cache' = set (tokens cs) \<union> fst ` set cache \<and> set (tokens cs) \<inter> fst ` set cache = {}"
    using assms
    by (auto simp: verify_one_def cached_token_def getR_def accessR_def is_read_def map_of_eq_None_iff
        split: option.splits sum.splits prod.splits)
  then show thesis using that by blast
qed

lemma verify_all_calls:
  "verify_all pv sha sts nids org n k is cache d h = (vs, d', h') \<Longrightarrow>
   \<exists>cs. h' = h @ cs \<and> list_all is_read cs \<and> length cs \<le> 2 * length is \<and> distinct (tokens cs) \<and> set (tokens cs) \<inter> fst ` set cache = {}
     \<and> length vs = length is"
proof (induction "is" arbitrary: k cache d h vs)
  case (Cons i "is")
  obtain v cache1 d1 h1 where one: "verify_one pv sha (sts k) (nids k) org n i cache d h = (v, cache1, d1, h1)" by (metis prod_cases4)
  obtain vs' where rest: "verify_all pv sha sts nids org n (Suc k) is cache1 d1 h1 = (vs', d', h')" and vs: "vs = v # vs'"
    using Cons.prems one by (auto split: prod.splits)
  from Cons.IH [OF rest] obtain cs where cs: "h' = h1 @ cs" "list_all is_read cs" "length cs \<le> 2 * length is" "distinct (tokens cs)"
    "set (tokens cs) \<inter> fst ` set cache1 = {}" "length vs' = length is" by blast
  from one obtain cs1 where cs1: "h1 = h @ cs1" "list_all is_read cs1" "length cs1 \<le> 2" "distinct (tokens cs1)"
    "fst ` set cache1 = set (tokens cs1) \<union> fst ` set cache" "set (tokens cs1) \<inter> fst ` set cache = {}" by (rule verify_one_calls)
  show ?case
    by (rule exI [of _ "cs1 @ cs"]) (use cs cs1 vs in auto)
qed simp

lemma verified_counts:
  "count_list vs VerifiedCurrent + count_list vs VerifiedRepaired + count_list vs VerifiedHeld + count_list vs VerifiedDeferred = length vs"
proof (induction vs)
  case (Cons v vs)
  then show ?case by (cases v) simp_all
qed simp

lemma claimDue_length: "claimDue locked org limit n cutoff d = (ids, d1) \<Longrightarrow> length ids \<le> limit"
  by (auto simp: claimDue_def Let_def split: if_splits)

text \<open>
  Verification only reads. Whatever the provider answers, a batch makes no call that writes; it asks
  for the token of a connection at most once, claims at most 100 copies, and every claimed copy is counted
  exactly once, as current, repaired, held or deferred.
\<close>

theorem verification_only_reads:
  assumes "verifyBatch pv sha sts nids locked org limit n d h = (s, d', h')"
  shows "\<exists>cs. h' = h @ cs \<and> list_all is_read cs \<and> distinct (tokens cs) \<and> length cs \<le> 2 * vs_claimed s \<and> vs_claimed s \<le> 100
    \<and> vs_current s + vs_repairs s + vs_held s + vs_deferred s = vs_claimed s"
proof -
  let ?limit = "nat (max 1 (min limit MAX_DESTINATION_VERIFICATIONS_PER_JOB))"
  obtain ids d1 where claim: "claimDue locked org ?limit n (n - DESTINATION_VERIFICATION_INTERVAL_MILLISECONDS) d = (ids, d1)" by fastforce
  obtain vs d2 h2 where all: "verify_all pv sha sts nids org n 0 ids [] d1 h = (vs, d2, h2)" by (metis prod_cases3)
  from verify_all_calls [OF all] obtain cs where cs: "h2 = h @ cs" "list_all is_read cs" "length cs \<le> 2 * length ids" "distinct (tokens cs)"
    "length vs = length ids" by blast
  have "length ids \<le> 100" using claimDue_length [OF claim] by (simp add: MAX_DESTINATION_VERIFICATIONS_PER_JOB_def)
  moreover have "s = \<lparr>vs_claimed = length ids, vs_current = count_list vs VerifiedCurrent, vs_repairs = count_list vs VerifiedRepaired,
           vs_held = count_list vs VerifiedHeld, vs_deferred = count_list vs VerifiedDeferred\<rparr>" "h' = h2"
    using assms by (simp_all add: verifyBatch_def claim all Let_def)
  ultimately show ?thesis using cs verified_counts [of vs] by (intro exI [of _ cs]) simp
qed

subsection \<open>What a reaction leaves behind\<close>

lemma unchanged_rowD:
  assumes "unchanged_row org t d = Some x"
  shows "find (\<lambda>x. pr_organization x = org \<and> pr_id x = vt_projection t) (projections d) = Some x" "copy_unchanged t x" "\<not> unfinished t d"
    "\<exists>p. find (\<lambda>p. sp_organization p = org \<and> sp_id p = vt_policy t) (policies d) = Some p \<and> sp_status p = PolicyActive
       \<and> sp_revision p = vt_revision t"
  using assms by (auto simp: unchanged_row_def policy_unchanged_def split: if_splits option.splits)

lemma desired_unchangedD:
  assumes "desired_unchanged sha t desired = Inr True"
  shows "prov_policy_ref (d_provenance desired) = vt_policy t" "prov_projection_ref (d_provenance desired) = vt_projection t"
    "prov_generation (d_provenance desired) = vt_generation t" "sha256Canonical sha (copy_json desired) = Inr (vt_hash t)"
  using assms by (auto simp: desired_unchanged_def bindE_Inr_iff liftE_Inr split: if_splits)

lemma holdDestinationEdit_Inr:
  assumes "holdDestinationEdit sha st nid org n t kind rv notice ec d = (Inr True, d')"
  obtains x desired where "unchanged_row org t d = Some x" "pr_desired x = Some desired" "desired_unchanged sha t desired = Inr True"
    "d' = audit_verification (st_audit_id st) org t ''copy.held'' (edit_error_text ec)
       [(''operation'', Some (JStr (write_text (repair_operation kind))))] (vt_hash t)
       (record_notice st nid org t notice kind desired (update_projection (vt_projection t) (held_edit_row n kind rv ec) d))"
  using assms by (auto simp: holdDestinationEdit_def transaction_Inr split: option.splits if_splits)





lemma hash_is_truthy: "sha256Canonical sha v = Inr h \<Longrightarrow> is_truthy (Some h)"
  by (auto simp: sha256Canonical_def bindE_Inr_iff is_truthy_def)

lemma keep_copy_detaches:
  assumes "x \<in> set (projections d)"
  shows "\<exists>d' z. keep_copy st org who nid p x d = (Inr (), d') \<and> effects d' = effects d \<and> z \<in> set (projections d')
    \<and> pr_id z = pr_id x \<and> pr_ownership z = OwnDetached"
proof -
  let ?z = "x\<lparr>pr_ownership := OwnDetached, pr_status := ''converged'', pr_recovery := None, pr_error := None, pr_updated := st_now st\<rparr>"
  have "?z \<in> set (projections (snd (keep_copy st org who nid p x d)))"
    using assms by (auto simp: keep_copy_def writeT_def audit_decision_def finishNotice_def update_projection_def update_where_def image_iff)
  then show ?thesis
    by (intro exI [of _ "snd (keep_copy st org who nid p x d)"] exI [of _ ?z])
      (simp add: keep_copy_def writeT_def audit_decision_def finishNotice_def update_projection_def)
qed

lemma restore_copy_queues:
  assumes "pr_recovery y = Some op" "pr_policy_revision y = sp_revision p" "current_basis sha d org y = Inr (pr_basis y)" "is_truthy (pr_basis y)"
    "evidence_consistent sha p y = Inr True" "restore_key sha p y op = Inr key"
    "\<forall>e \<in> set (effects d). oe_key e \<noteq> key \<and> oe_id e \<noteq> st_effect_id st"
  shows "\<exists>d'. restore_copy sha st org who nid p y d = (Inr (), d') \<and> effects d' = effects d @ [restore_effect st org p y op key]"
proof -
  let ?e = "restore_effect st org p y op key"
  have "insert_outbox ?e d = (Inr (), d\<lparr>effects := effects d @ [?e]\<rparr>)"
    using assms(7) by (auto simp: insert_outbox_def list_ex_iff restore_effect_def)
  with assms(1-6) show ?thesis
    by (simp add: restore_copy_def queue_restore_def transaction_simps liftE_def audit_decision_def finishNotice_def update_projection_def)
qed

lemma restore_copy_stale:
  assumes "pr_recovery y = Some op" "pr_policy_revision y = sp_revision p" "current_basis sha d org y = Inr b" "b \<noteq> pr_basis y"
  shows "\<exists>m d'. restore_copy sha st org who nid p y d = (Inl (PolicyInputError ''hold_stale'' m), d')"
  using assms by (simp add: restore_copy_def transaction_simps liftE_def)

text \<open>The state after a hold: the copy and its notice, ready for the decision.\<close>

lemma held_edit_state:
  assumes "holdDestinationEdit sha st nid org n t kind rv notice ec d = (Inr True, d')"
    "planDestinationEditResponse (vt_edits t) kind = Hold notice ec" "\<forall>m \<in> set (notices d). sn_id m \<noteq> nid"
  obtains x p where "unchanged_row org t d = Some x" "sp_revision p = vt_revision t" "sp_id p = vt_policy t"
    "find (\<lambda>y. pr_organization y = org \<and> pr_id y = vt_projection t) (projections d') = Some (held_edit_row n kind rv ec x)"
    "isDestinationEditHold (held_edit_row n kind rv ec x)" "effects d' = effects d"
    "\<forall>st' who action. resolve_body sha st' org who nid action d' = (case action of
        KeepAndDetach \<Rightarrow> keep_copy st' org who nid p (held_edit_row n kind rv ec x)
      | RestoreCopy \<Rightarrow> restore_copy sha st' org who nid p (held_edit_row n kind rv ec x)) d'"
proof -
  from assms(1) obtain x desired where x: "unchanged_row org t d = Some x"
    and d': "d' = audit_verification (st_audit_id st) org t ''copy.held'' (edit_error_text ec)
       [(''operation'', Some (JStr (write_text (repair_operation kind))))] (vt_hash t)
       (record_notice st nid org t notice kind desired (update_projection (vt_projection t) (held_edit_row n kind rv ec) d))"
    by (rule holdDestinationEdit_Inr)
  note row = unchanged_rowD [OF x] and defs = audit_verification_def record_notice_def recordSyncNotice_def update_projection_def
  let ?y = "held_edit_row n kind rv ec x"
  define note' where "note' = last (notices d')"
  have "pr_id x = vt_projection t" using row(1) by (auto simp: find_Some_iff)
  then have y: "find (\<lambda>y. pr_organization y = org \<and> pr_id y = vt_projection t) (projections d') = Some ?y"
    using row(1) by (simp add: d' defs) (subst find_update_where, simp_all add: held_edit_row_def)
  have held: "edit_error_text ec \<in> set DESTINATION_EDIT_HOLD_CODES" "notice \<in> set HELD_NOTICE_KINDS"
    using assms(2) by (auto simp: planDestinationEditResponse_def Let_def edit_error_text_def DESTINATION_EDIT_HOLD_CODES_def
        HELD_NOTICE_KINDS_def split: if_splits)
  have hold: "isDestinationEditHold ?y"
    using row(2) held(1) by (simp add: isDestinationEditHold_def held_edit_row_def copy_unchanged_def)
  have ns: "notices d' = notices d @ [note']" and n: "sn_id note' = nid" "sn_organization note' = org" "sn_kind note' = notice"
    "sn_status note' = Unread" "sn_policy note' = vt_policy t" "sn_projection note' = vt_projection t"
    by (simp_all add: note'_def d' defs)
  have "find (\<lambda>m. sn_organization m = org \<and> sn_id m = nid) (notices d) = None"
    using assms(3) by (auto simp: find_None_iff)
  then have found: "find (\<lambda>m. sn_organization m = org \<and> sn_id m = nid) (notices d') = Some note'"
    using ns n by (simp add: find_snoc)
  from row(4) obtain p where p: "find (\<lambda>p. sp_organization p = org \<and> sp_id p = vt_policy t) (policies d) = Some p" "sp_status p = PolicyActive"
    "sp_revision p = vt_revision t" by blast
  from find_conj [OF p(1), of "\<lambda>p. sp_status p \<noteq> PolicyDeleted"] p(2)
  have pol: "find (\<lambda>p. sp_organization p = org \<and> sp_id p = sn_policy note' \<and> sp_status p \<noteq> PolicyDeleted) (policies d') = Some p"
    by (simp add: d' defs n(5) conj_assoc)
  have "sp_id p = vt_policy t" "effects d' = effects d" using p(1) by (auto simp: find_Some_iff d' defs)
  moreover have "resolve_body sha st' org who nid action d' = (case action of
        KeepAndDetach \<Rightarrow> keep_copy st' org who nid p ?y | RestoreCopy \<Rightarrow> restore_copy sha st' org who nid p ?y) d'" for st' who action
    by (rule resolve_body_held [OF found _ _ pol _ hold]) (simp_all add: n held(2) y)
  ultimately show thesis using x p(3) y hold by (intro that [of x p]) simp_all
qed

text \<open>
  C14: The decisions about a copy that was just held. Nothing has been queued and the copy is held. Keeping the
  change succeeds: the copy is detached and nothing is queued. Restoring succeeds as long as the source is
  what the copy was made from and the outbox has neither the identity nor the key of the new effect: one
  effect is queued, which reads before it writes. When the source has changed, restoring is refused and
  nothing is changed.
\<close>

theorem held_edit_can_be_decided:
  assumes "holdDestinationEdit sha st nid org n t kind rv notice ec d = (Inr True, d')"
    "planDestinationEditResponse (vt_edits t) kind = Hold notice ec"
    "\<forall>m \<in> set (notices d). sn_id m \<noteq> nid"
    "\<bar>vt_revision t\<bar> \<le> max_safe_integer" "\<bar>vt_generation t\<bar> \<le> max_safe_integer"
    "\<forall>x \<in> set (projections d). \<bar>pr_intent_sequence x + 1\<bar> \<le> max_safe_integer"
  shows "\<exists>y p key. find (\<lambda>y. pr_organization y = org \<and> pr_id y = vt_projection t) (projections d') = Some y \<and> isDestinationEditHold y
    \<and> effects d' = effects d \<and> sp_id p = vt_policy t \<and> restore_key sha p y (repair_operation kind) = Inr key
    \<and> (\<exists>d'' z. resolve_notice sha st' org who nid KeepAndDetach d' = (Inr (), d'') \<and> effects d'' = effects d
        \<and> z \<in> set (projections d'') \<and> pr_id z = vt_projection t \<and> pr_ownership z = OwnDetached)
    \<and> (current_basis sha d' org y = Inr (pr_basis y) \<and> is_truthy (pr_basis y)
        \<and> (\<forall>e \<in> set (effects d). oe_key e \<noteq> key \<and> oe_id e \<noteq> st_effect_id st') \<longrightarrow>
        (\<exists>d'' e. resolve_notice sha st' org who nid RestoreCopy d' = (Inr (), d'') \<and> effects d'' = effects d @ [e]
          \<and> oe_projection e = vt_projection t \<and> oe_operation e = repair_operation kind \<and> oe_desired e = pr_desired y \<and> oe_ambiguous e))
    \<and> (\<forall>b. current_basis sha d' org y = Inr b \<and> b \<noteq> pr_basis y \<longrightarrow>
        (\<exists>m. resolve_notice sha st' org who nid RestoreCopy d' = (Inl (PolicyInputError ''hold_stale'' m), d')))"
proof -
  obtain x p where x: "unchanged_row org t d = Some x" and p: "sp_revision p = vt_revision t" "sp_id p = vt_policy t"
    and y: "find (\<lambda>y. pr_organization y = org \<and> pr_id y = vt_projection t) (projections d') = Some (held_edit_row n kind rv ec x)"
      "isDestinationEditHold (held_edit_row n kind rv ec x)" "effects d' = effects d"
    and body: "\<forall>st' who action. resolve_body sha st' org who nid action d' = (case action of
        KeepAndDetach \<Rightarrow> keep_copy st' org who nid p (held_edit_row n kind rv ec x)
      | RestoreCopy \<Rightarrow> restore_copy sha st' org who nid p (held_edit_row n kind rv ec x)) d'"
    by (rule held_edit_state [OF assms(1-3)])
  let ?y = "held_edit_row n kind rv ec x"
  from assms(1) x obtain desired where desired: "pr_desired x = Some desired" "desired_unchanged sha t desired = Inr True"
    by (auto elim: holdDestinationEdit_Inr)
  note row = unchanged_rowD [OF x] and des = desired_unchangedD [OF desired(2)]
  have id: "pr_id x = vt_projection t" "x \<in> set (projections d)" using row(1) by (auto simp: find_Some_iff)
  have fields: "pr_recovery ?y = Some (repair_operation kind)" "pr_policy_revision ?y = sp_revision p" "pr_id ?y = vt_projection t"
    "pr_generation ?y = vt_generation t" "pr_desired ?y = Some desired" "pr_desired_hash ?y = Some (vt_hash t)"
    "pr_intent_sequence ?y = pr_intent_sequence x"
    using row(2) p(1) id(1) desired(1) by (simp_all add: held_edit_row_def copy_unchanged_def)
  have ev: "evidence_consistent sha p ?y = Inr True"
    using fields des p(2) hash_is_truthy [OF des(4)] by (simp add: evidence_consistent_def repair_operation_def liftE_def)
  obtain key where key: "restore_key sha p ?y (repair_operation kind) = Inr key"
    using restore_key_total [of p ?y sha "repair_operation kind"] assms(4-6) id(2) fields p(1) by auto
  have mem: "?y \<in> set (projections d')" using y(1) by (auto simp: find_Some_iff)
  note run = resolve_notice_def in_transaction_def body
  from keep_copy_detaches [OF mem, of st' org who nid p] obtain dk z where "keep_copy st' org who nid p ?y d' = (Inr (), dk)" "effects dk = effects d'"
    "z \<in> set (projections dk)" "pr_id z = pr_id ?y" "pr_ownership z = OwnDetached" by blast
  then have keep: "\<exists>d'' z. resolve_notice sha st' org who nid KeepAndDetach d' = (Inr (), d'') \<and> effects d'' = effects d
      \<and> z \<in> set (projections d'') \<and> pr_id z = vt_projection t \<and> pr_ownership z = OwnDetached"
    using fields(3) y(3) by (intro exI [of _ dk] exI [of _ z]) (simp add: run)
  have restore: "\<exists>d'' e. resolve_notice sha st' org who nid RestoreCopy d' = (Inr (), d'') \<and> effects d'' = effects d @ [e]
      \<and> oe_projection e = vt_projection t \<and> oe_operation e = repair_operation kind \<and> oe_desired e = pr_desired ?y \<and> oe_ambiguous e"
    if "current_basis sha d' org ?y = Inr (pr_basis ?y)" "is_truthy (pr_basis ?y)"
      "\<forall>e \<in> set (effects d). oe_key e \<noteq> key \<and> oe_id e \<noteq> st_effect_id st'"
  proof -
    from restore_copy_queues [OF fields(1,2) that(1,2) ev key, of st' who nid] that(3) y(3) obtain dr where
      "restore_copy sha st' org who nid p ?y d' = (Inr (), dr)" "effects dr = effects d @ [restore_effect st' org p ?y (repair_operation kind) key]" by auto
    then show ?thesis
      by (intro exI [of _ dr] exI [of _ "restore_effect st' org p ?y (repair_operation kind) key"]) (simp add: run restore_effect_def fields(3))
  qed
  have refuse: "\<exists>m. resolve_notice sha st' org who nid RestoreCopy d' = (Inl (PolicyInputError ''hold_stale'' m), d')"
    if "current_basis sha d' org ?y = Inr b" "b \<noteq> pr_basis ?y" for b
    using restore_copy_stale [OF fields(1,2) that, of st' who nid] by (auto simp: run)
  show ?thesis
    by (rule exI [of _ ?y], rule exI [of _ p], rule exI [of _ key]) (use y p(2) key keep restore refuse in simp)
qed

subsection \<open>Concrete verifications\<close>

definition verified_row :: projection_row where
  "verified_row = attached_row\<lparr>pr_basis := Some ''sha256:61''\<rparr>"

definition verified_db :: db where
  "verified_db = executor_db\<lparr>effects := [], projections := [verified_row]\<rparr>"

definition sample_target :: verification_target where
  "sample_target = \<lparr>vt_projection = ''x1'', vt_policy = ''p1'', vt_revision = 1, vt_basis = Some ''sha256:61'', vt_generation = 1,
     vt_intent = 1, vt_event = ''ev'', vt_etag = Some ''1'', vt_hash = ''sha256:346'', vt_desired = sample_copy, vt_calendar = ''r-work'',
     vt_connection = ''c'', vt_provider = ''google'', vt_edits = \<lparr>on_edit = HoldForReview, on_delete = Restore\<rparr>\<rparr>"

lemma sample_copy_hash: "sha256Canonical sample_sha (copy_json sample_copy) = Inr ''sha256:346''"
  by code_simp

lemmas verified_simps = verified_db_def verified_row_def attached_row_def sample_projection_def executor_db_def empty_db_def
  sample_policy_row_def sample_target_def

lemma sample_unchanged: "unchanged_row ''o'' sample_target verified_db = Some verified_row" "pr_desired verified_row = Some sample_copy"
  "desired_unchanged sample_sha sample_target sample_copy = Inr True"
proof -
  show "unchanged_row ''o'' sample_target verified_db = Some verified_row"
    by (simp add: unchanged_row_def policy_unchanged_def copy_unchanged_def unfinished_def verified_simps)
  show "pr_desired verified_row = Some sample_copy" by (simp add: verified_simps)
  have "d_provenance sample_copy = \<lparr>prov_policy_ref = ''p1'', prov_projection_ref = ''x1'', prov_generation = 1\<rparr>" by (simp add: sample_copy_def)
  then show "desired_unchanged sample_sha sample_target sample_copy = Inr True"
    by (simp add: desired_unchanged_def sample_copy_hash liftE_def sample_target_def)
qed

theorem verification_only_reads_witness:
  "\<exists>s d' cs. verifyBatch sample_provider sample_sha (\<lambda>_. sample_stamp) (\<lambda>_. ''n'') [] ''o'' 50 9000000 verified_db [] = (s, d', cs)
     \<and> list_all is_read cs \<and> vs_claimed s \<le> 100"
proof -
  obtain s d' cs where run: "verifyBatch sample_provider sample_sha (\<lambda>_. sample_stamp) (\<lambda>_. ''n'') [] ''o'' 50 9000000 verified_db [] = (s, d', cs)"
    by (metis prod_cases3)
  from verification_only_reads [OF run] run show ?thesis by auto
qed

lemma sample_hold:
  "\<exists>d'. holdDestinationEdit sample_sha sample_stamp ''n'' ''o'' 9 sample_target Drifted (Some ''2'') copy_edit_held destination_edit_held
     verified_db = (Inr True, d') \<and> projections d' = [held_edit_row 9 Drifted (Some ''2'') destination_edit_held verified_row]
     \<and> observations d' = [observed_row] \<and> effects d' = []"
  by (simp add: holdDestinationEdit_def in_transaction_def transaction_simps sample_unchanged liftE_def audit_verification_def record_notice_def
      recordSyncNotice_def update_projection_def update_where_def) (simp add: verified_simps)

theorem held_edit_can_be_decided_witness:
  "\<exists>d' d1 d2. holdDestinationEdit sample_sha sample_stamp ''n'' ''o'' 9 sample_target Drifted (Some ''2'') copy_edit_held destination_edit_held
       verified_db = (Inr True, d') \<and> resolve_notice sample_sha sample_stamp ''o'' ''me'' ''n'' KeepAndDetach d' = (Inr (), d1)
     \<and> resolve_notice sample_sha sample_stamp ''o'' ''me'' ''n'' RestoreCopy d' = (Inr (), d2)"
proof -
  let ?y = "held_edit_row 9 Drifted (Some ''2'') destination_edit_held verified_row"
  obtain d' where run: "holdDestinationEdit sample_sha sample_stamp ''n'' ''o'' 9 sample_target Drifted (Some ''2'') copy_edit_held
       destination_edit_held verified_db = (Inr True, d')"
    and rows: "projections d' = [?y]" "observations d' = [observed_row]" "effects d' = []" using sample_hold by blast
  have none: "effects verified_db = []" by (simp add: verified_db_def)
  have basis: "current_basis sample_sha d' ''o'' ?y = Inr (pr_basis ?y)" "is_truthy (pr_basis ?y)"
    by (simp_all add: current_basis_def rows held_edit_row_def verified_row_def attached_row_def sample_projection_def observed_row_def
        sample_basis_hash liftE_def is_truthy_def)
  have "planDestinationEditResponse (vt_edits sample_target) Drifted = Hold copy_edit_held destination_edit_held"
    by (simp add: planDestinationEditResponse_def sample_target_def)
  moreover have "\<forall>m \<in> set (notices verified_db). sn_id m \<noteq> ''n''" "\<bar>vt_revision sample_target\<bar> \<le> max_safe_integer"
    "\<bar>vt_generation sample_target\<bar> \<le> max_safe_integer" "\<forall>x \<in> set (projections verified_db). \<bar>pr_intent_sequence x + 1\<bar> \<le> max_safe_integer"
    by (simp_all add: verified_simps max_safe_integer_def)
  ultimately obtain y where y: "find (\<lambda>y. pr_organization y = ''o'' \<and> pr_id y = vt_projection sample_target) (projections d') = Some y"
    and keep: "\<exists>d1. resolve_notice sample_sha sample_stamp ''o'' ''me'' ''n'' KeepAndDetach d' = (Inr (), d1)"
    and restore: "current_basis sample_sha d' ''o'' y = Inr (pr_basis y) \<and> is_truthy (pr_basis y) \<longrightarrow>
      (\<exists>d2. resolve_notice sample_sha sample_stamp ''o'' ''me'' ''n'' RestoreCopy d' = (Inr (), d2))"
    using held_edit_can_be_decided [OF run, of sample_stamp "''me''"] none by force
  from y rows(1) have "y = ?y" by (auto split: if_splits)
  with keep restore basis run show ?thesis by blast
qed



end
