(* ===== verification/Calendar_Identity.thy ===== *)
theory Calendar_Identity
  imports Tables
begin

section \<open>The identity of a provider calendar (server/src/providers/calendar-identity.ts)\<close>

text \<open>
  The same calendar can be reachable over several connections. Its identity is a text of length-prefixed
  parts; bridges and private-reply rules that must exclude each other compare these texts, and take
  advisory locks named after them (server/src/calendar-protection-lock.ts).
\<close>

text \<open>The number of bytes of the UTF-8 form: code units from 128 on take two of them.\<close>

definition byteLength :: "string \<Rightarrow> nat" where
  "byteLength s = sum_list (map (\<lambda>c. if code c < 128 then 1 else 2) s)"

definition identity_part :: "string \<Rightarrow> string" where
  "identity_part component = dec (byteLength component) @ '':'' @ component"

definition providerCalendarIdentity :: "string \<Rightarrow> string \<Rightarrow> string \<Rightarrow> string" where
  "providerCalendarIdentity provider connectionId remoteId =
     (let scope = (if provider = ''google'' then ''global'' else connectionId)
      in concat (map identity_part [provider, scope, remoteId]))"

definition providerCalendarProtectionKey :: "string \<Rightarrow> string" where
  "providerCalendarProtectionKey identity = ''provider-calendar:'' @ identity"

text \<open>
  The advisory locks of a transaction, in the order in which it takes them: \<open>JSON.stringify\<close> of an
  array of three texts, without repetitions and sorted.
\<close>

definition lock_key :: "string \<Rightarrow> string \<Rightarrow> string" where
  "lock_key org calendarId =
     ''['' @ json_quote ''planipus:no-copy-source:v1'' @ '','' @ json_quote org @ '','' @ json_quote calendarId @ '']''"

definition lockProtectedSourceCalendars :: "string \<Rightarrow> string list \<Rightarrow> string list" where
  "lockProtectedSourceCalendars org calendarIds = js_sort js_compare (uniq (map (lock_key org) calendarIds))"

subsection \<open>Identities are unambiguous\<close>

lemma byteLength_simps [simp]:
  "byteLength [] = 0" "byteLength (c # s) = (if code c < 128 then 1 else 2) + byteLength s"
  by (simp_all add: byteLength_def)

text \<open>Texts of the same number of bytes at the front of the same text are equal.\<close>

lemma same_front: "s @ x = t @ y \<Longrightarrow> byteLength s = byteLength t \<Longrightarrow> s = t \<and> x = y"
proof (induction s arbitrary: t)
  case Nil
  then show ?case by (cases t) (auto split: if_splits)
next
  case (Cons c s)
  then show ?case by (cases t) (auto split: if_splits)
qed

lemma identity_part_prefix_code:
  assumes "identity_part s @ x = identity_part t @ y"
  shows "s = t \<and> x = y"
proof -
  have front: "no_digit_front (CHR '':'' # z)" for z by (simp add: no_digit_front_def is_digit_def)
  have "dec (byteLength s) @ (CHR '':'' # s @ x) = dec (byteLength t) @ (CHR '':'' # t @ y)"
    using assms by (simp add: identity_part_def)
  from dec_prefix_code [OF this front front] have "byteLength s = byteLength t" "s @ x = t @ y" by simp_all
  then show ?thesis using same_front by blast
qed

text \<open>
  C39: The identity of a provider calendar is unambiguous. Two calendars have the same identity exactly
  when provider and remote identifier agree and, except at Google, whose identifiers are global, also
  the connection; no choice of identifiers can imitate the separators of the text.
\<close>

theorem same_identity_iff:
  "providerCalendarIdentity p c r = providerCalendarIdentity p' c' r' \<longleftrightarrow> p = p' \<and> r = r' \<and> (p = ''google'' \<or> c = c')"
proof
  assume "providerCalendarIdentity p c r = providerCalendarIdentity p' c' r'"
  then have "identity_part p @ identity_part (if p = ''google'' then ''global'' else c) @ identity_part r @ [] =
      identity_part p' @ identity_part (if p' = ''google'' then ''global'' else c') @ identity_part r' @ []"
    by (simp add: providerCalendarIdentity_def Let_def)
  from identity_part_prefix_code [OF this] have p: "p = p'"
    and rest: "identity_part (if p = ''google'' then ''global'' else c) @ identity_part r @ [] =
      identity_part (if p' = ''google'' then ''global'' else c') @ identity_part r' @ []" by blast+
  from identity_part_prefix_code [OF rest] have c: "(if p = ''google'' then ''global'' else c) = (if p' = ''google'' then ''global'' else c')"
    and last: "identity_part r @ [] = identity_part r' @ []" by blast+
  from identity_part_prefix_code [OF last] p c show "p = p' \<and> r = r' \<and> (p = ''google'' \<or> c = c')" by (auto split: if_splits)
qed (auto simp: providerCalendarIdentity_def)

subsection \<open>Locks are taken in one order\<close>

lemma inj_lock_key: "inj (lock_key org)"
proof (rule injI)
  fix x y
  assume "lock_key org x = lock_key org y"
  then have "json_quote x @ '']'' = json_quote y @ '']''" by (simp add: lock_key_def)
  then show "x = y" using json_quote_prefix_code by blast
qed

text \<open>
  Two transactions take the locks they share in the same order, and never take a lock twice, so they
  cannot wait for each other in a circle.
\<close>

lemma locks_are_ordered:
  "sorted (lockProtectedSourceCalendars org ids)" "distinct (lockProtectedSourceCalendars org ids)"
  "set (lockProtectedSourceCalendars org ids) = lock_key org ` set ids"
  using comparator.sorted_sort [OF comparator_key [of "\<lambda>x. x"], of "uniq (map (lock_key org) ids)"]
  by (simp_all add: lockProtectedSourceCalendars_def)

end
