(* ===== verification/Hours_Draft.thy ===== *)
theory Hours_Draft
  imports Draft_Fields Tables
begin

section \<open>Submitted hours profiles (server/src/policy/service.ts)\<close>

text \<open>
  The check of an hours profile that a policy draft brings along. The profile is the JSON of a request
  body; every refusal carries the code \<open>invalid_hours_profile\<close>, so only its message is kept. The code
  casts the lists it has checked to their types; \<open>as_weekly\<close> and \<open>as_exception\<close> are these casts.
\<close>

definition isLocalTime :: "string \<Rightarrow> bool" where
  "isLocalTime s \<longleftrightarrow> length s = 8 \<and> is_clock s"

definition isLocalDate :: "platform \<Rightarrow> string \<Rightarrow> bool" where
  "isLocalDate pf s \<longleftrightarrow> date_shaped s
     \<and> (case getTime pf (s @ ''T00:00:00Z'') of None \<Rightarrow> False | Some ms \<Rightarrow> take 10 (toISOString ms) = s)"

definition isLocalInterval :: "json \<Rightarrow> bool" where
  "isLocalInterval v =
     (case (json_member v ''start'', json_member v ''end'', json_member v ''end_day_offset'') of
        (Some (JStr s), Some (JStr e), Some (JNum (Whole n))) \<Rightarrow>
          (n = 0 \<or> n = 1) \<and> isLocalTime s \<and> isLocalTime e \<and> (n = 1 \<or> s < e)
      | _ \<Rightarrow> False)"

definition isWeeklyInterval :: "json \<Rightarrow> bool" where
  "isWeeklyInterval v \<longleftrightarrow> is_record v
     \<and> (case json_member v ''weekday'' of Some (JNum (Whole n)) \<Rightarrow> 1 \<le> n \<and> n \<le> 7 | _ \<Rightarrow> False) \<and> isLocalInterval v"

definition isHoursException :: "platform \<Rightarrow> json \<Rightarrow> bool" where
  "isHoursException pf v \<longleftrightarrow> is_record v
     \<and> (case json_member v ''date'' of Some (JStr s) \<Rightarrow> isLocalDate pf s | _ \<Rightarrow> False)
     \<and> (if json_member v ''kind'' = Some (JStr ''closed'') then json_member v ''intervals'' = None
        else (json_member v ''kind'' = Some (JStr ''replace'') \<or> json_member v ''kind'' = Some (JStr ''add'')
              \<or> json_member v ''kind'' = Some (JStr ''remove''))
          \<and> (case json_member v ''intervals'' of
               Some (JArr is) \<Rightarrow> length is \<le> 32 \<and> list_all (\<lambda>i. is_record i \<and> isLocalInterval i) is
             | _ \<Rightarrow> False))"

subsection \<open>The casts\<close>

definition as_text :: "json option \<Rightarrow> string" where
  "as_text v = (case v of Some (JStr s) \<Rightarrow> s | _ \<Rightarrow> [])"

definition as_int :: "json option \<Rightarrow> int" where
  "as_int v = (case v of Some (JNum (Whole n)) \<Rightarrow> n | _ \<Rightarrow> 0)"

definition as_list :: "json option \<Rightarrow> json list" where
  "as_list v = (case v of Some (JArr vs) \<Rightarrow> vs | _ \<Rightarrow> [])"

definition as_interval :: "json \<Rightarrow> local_interval" where
  "as_interval v = \<lparr>li_start = as_text (json_member v ''start''), li_end = as_text (json_member v ''end''),
     end_day_offset = as_int (json_member v ''end_day_offset'')\<rparr>"

definition as_weekly :: "json \<Rightarrow> weekly_interval" where
  "as_weekly v = \<lparr>weekday = as_int (json_member v ''weekday''), w_start = as_text (json_member v ''start''),
     w_end = as_text (json_member v ''end''), w_end_day_offset = as_int (json_member v ''end_day_offset'')\<rparr>"

definition as_exception :: "json \<Rightarrow> hours_exception" where
  "as_exception v =
     (let date = as_text (json_member v ''date''); intervals = map as_interval (as_list (json_member v ''intervals'')) in
      if json_member v ''kind'' = Some (JStr ''closed'') then Closed date
      else if json_member v ''kind'' = Some (JStr ''replace'') then Adjust Replace date intervals
      else if json_member v ''kind'' = Some (JStr ''add'') then Adjust AddIntervals date intervals
      else Adjust Remove date intervals)"

subsection \<open>The check\<close>

definition parse_ambiguous :: "json option \<Rightarrow> dst_ambiguous option" where
  "parse_ambiguous v = (if v = Some (JStr ''earlier_offset'') then Some EarlierOffset
     else if v = Some (JStr ''later_offset'') then Some LaterOffset else None)"

definition parse_nonexistent :: "json option \<Rightarrow> dst_nonexistent option" where
  "parse_nonexistent v = (if v = Some (JStr ''reject'') then Some RejectGap
     else if v = Some (JStr ''shift_forward_by_gap'') then Some ShiftForwardByGap else None)"

definition parse_resolution :: "json option \<Rightarrow> (dst_ambiguous \<times> dst_nonexistent) option" where
  "parse_resolution v =
     (case v of
        Some r \<Rightarrow>
          (case (parse_ambiguous (json_member r ''ambiguous''), parse_nonexistent (json_member r ''nonexistent'')) of
             (Some a, Some n) \<Rightarrow> if is_record r then Some (a, n) else None
           | _ \<Rightarrow> None)
      | None \<Rightarrow> None)"

definition validateInlineHoursProfile :: "platform \<Rightarrow> json \<Rightarrow> inline_hours parsed" where
  "validateInlineHoursProfile pf value =
     bindE (reject_if (\<not> is_record value) ''hours profile must be an object'') (\<lambda>_.
     (case (json_member value ''name'', json_member value ''timezone'') of
        (Some (JStr rawName), Some (JStr rawTimezone)) \<Rightarrow>
          (let name = trim (normalize_NFC rawName); tz = trim rawTimezone in
           bindE (reject_if (length name < 1 \<or> 120 < length name \<or> list_ex is_control name) ''hours profile name is invalid'') (\<lambda>_.
           bindE (reject_if (local_clock pf tz 0 = None) ''hours profile timezone is invalid'') (\<lambda>_.
           (case parse_resolution (json_member value ''dst_resolution'') of
              None \<Rightarrow> Inl ''hours profile DST policy is invalid''
            | Some (amb, gap) \<Rightarrow>
                (case json_member value ''weekly'' of
                   Some (JArr ws) \<Rightarrow>
                     bindE (reject_if (128 < length ws \<or> \<not> list_all isWeeklyInterval ws) ''hours profile weekly intervals are invalid'') (\<lambda>_.
                     (case json_member value ''exceptions'' of
                        Some (JArr es) \<Rightarrow>
                          bindE (reject_if (366 < length es \<or> \<not> list_all (isHoursException pf) es) ''hours profile exceptions are invalid'') (\<lambda>_.
                          let dates = map (\<lambda>e. as_text (json_member e ''date'')) es in
                          bindE (reject_if (length (uniq dates) \<noteq> length dates) ''hours profile contains duplicate exception dates'') (\<lambda>_.
                            Inr \<lparr>ih_name = name, ih_timezone = tz, ih_ambiguous = amb, ih_nonexistent = gap,
                                 ih_weekly = map as_weekly ws, ih_exceptions = map as_exception es\<rparr>))
                      | _ \<Rightarrow> Inl ''hours profile exceptions are invalid''))
                 | _ \<Rightarrow> Inl ''hours profile weekly intervals are invalid'')))))
      | _ \<Rightarrow> Inl ''hours profile name and timezone are required''))"

subsection \<open>What an accepted profile satisfies\<close>

text \<open>The demands on an interval of local time, on an exception and on a profile.\<close>

definition clock_span :: "string \<Rightarrow> string \<Rightarrow> int \<Rightarrow> bool" where
  "clock_span s e n \<longleftrightarrow> (n = 0 \<or> n = 1) \<and> isLocalTime s \<and> isLocalTime e \<and> (n = 1 \<or> s < e)"

definition good_weekly :: "weekly_interval \<Rightarrow> bool" where
  "good_weekly w \<longleftrightarrow> 1 \<le> weekday w \<and> weekday w \<le> 7 \<and> clock_span (w_start w) (w_end w) (w_end_day_offset w)"

definition good_exception :: "platform \<Rightarrow> hours_exception \<Rightarrow> bool" where
  "good_exception pf e \<longleftrightarrow> isLocalDate pf (ex_date e)
     \<and> (case e of Closed _ \<Rightarrow> True
        | Adjust _ _ is \<Rightarrow> length is \<le> 32 \<and> list_all (\<lambda>i. clock_span (li_start i) (li_end i) (end_day_offset i)) is)"

definition good_hours :: "platform \<Rightarrow> inline_hours \<Rightarrow> bool" where
  "good_hours pf h \<longleftrightarrow>
     trim (ih_name h) = ih_name h \<and> 1 \<le> length (ih_name h) \<and> length (ih_name h) \<le> 120 \<and> \<not> list_ex is_control (ih_name h)
     \<and> trim (ih_timezone h) = ih_timezone h \<and> local_clock pf (ih_timezone h) 0 \<noteq> None
     \<and> length (ih_weekly h) \<le> 128 \<and> list_all good_weekly (ih_weekly h)
     \<and> length (ih_exceptions h) \<le> 366 \<and> list_all (good_exception pf) (ih_exceptions h)
     \<and> distinct (map ex_date (ih_exceptions h))"

text \<open>The document of a profile, as it is submitted and stored.\<close>

definition interval_json :: "local_interval \<Rightarrow> json" where
  "interval_json i = JObj [(''start'', Some (JStr (li_start i))), (''end'', Some (JStr (li_end i))),
     (''end_day_offset'', Some (JNum (Whole (end_day_offset i))))]"

definition weekly_json :: "weekly_interval \<Rightarrow> json" where
  "weekly_json w = JObj [(''weekday'', Some (JNum (Whole (weekday w)))), (''start'', Some (JStr (w_start w))),
     (''end'', Some (JStr (w_end w))), (''end_day_offset'', Some (JNum (Whole (w_end_day_offset w))))]"

definition kind_text :: "exception_kind \<Rightarrow> string" where
  "kind_text k = (case k of Replace \<Rightarrow> ''replace'' | AddIntervals \<Rightarrow> ''add'' | Remove \<Rightarrow> ''remove'')"

definition exception_json :: "hours_exception \<Rightarrow> json" where
  "exception_json e =
     (case e of
        Closed d \<Rightarrow> JObj [(''kind'', Some (JStr ''closed'')), (''date'', Some (JStr d))]
      | Adjust k d is \<Rightarrow> JObj [(''kind'', Some (JStr (kind_text k))), (''date'', Some (JStr d)),
          (''intervals'', Some (JArr (map interval_json is)))])"

definition resolution_json :: "dst_ambiguous \<Rightarrow> dst_nonexistent \<Rightarrow> json" where
  "resolution_json a n = JObj
     [(''ambiguous'', Some (JStr (case a of EarlierOffset \<Rightarrow> ''earlier_offset'' | LaterOffset \<Rightarrow> ''later_offset''))),
      (''nonexistent'', Some (JStr (case n of RejectGap \<Rightarrow> ''reject'' | ShiftForwardByGap \<Rightarrow> ''shift_forward_by_gap'')))]"

definition inline_hours_json :: "inline_hours \<Rightarrow> json" where
  "inline_hours_json h = JObj
     [(''name'', Some (JStr (ih_name h))), (''timezone'', Some (JStr (ih_timezone h))),
      (''dst_resolution'', Some (resolution_json (ih_ambiguous h) (ih_nonexistent h))),
      (''weekly'', Some (JArr (map weekly_json (ih_weekly h)))),
      (''exceptions'', Some (JArr (map exception_json (ih_exceptions h))))]"

text \<open>Demands on a property of a certain shape.\<close>

lemma case_JStr: "(case v of Some (JStr s) \<Rightarrow> P s | _ \<Rightarrow> False) \<longleftrightarrow> (\<exists>s. v = Some (JStr s) \<and> P s)"
  by (simp split: option.split json.split)

lemma case_JArr: "(case v of Some (JArr s) \<Rightarrow> P s | _ \<Rightarrow> False) \<longleftrightarrow> (\<exists>s. v = Some (JArr s) \<and> P s)"
  by (simp split: option.split json.split)

lemma case_Whole: "(case v of Some (JNum (Whole n)) \<Rightarrow> P n | _ \<Rightarrow> False) \<longleftrightarrow> (\<exists>n. v = Some (JNum (Whole n)) \<and> P n)"
  by (simp split: option.split json.split js_number.split)

lemma isLocalIntervalD:
  assumes "isLocalInterval v"
  obtains s e n where "json_member v ''start'' = Some (JStr s)" "json_member v ''end'' = Some (JStr e)"
    "json_member v ''end_day_offset'' = Some (JNum (Whole n))" "clock_span s e n"
  using assms unfolding isLocalInterval_def prod.case case_JStr case_Whole clock_span_def by blast

lemma as_interval_good:
  "isLocalInterval v \<Longrightarrow> clock_span (li_start (as_interval v)) (li_end (as_interval v)) (end_day_offset (as_interval v))"
  by (erule isLocalIntervalD) (simp add: as_interval_def as_text_def as_int_def)

lemma as_weekly_good:
  assumes "isWeeklyInterval v"
  shows "good_weekly (as_weekly v)"
proof -
  have "case json_member v ''weekday'' of Some (JNum (Whole n)) \<Rightarrow> 1 \<le> n \<and> n \<le> 7 | _ \<Rightarrow> False"
    using assms by (simp add: isWeeklyInterval_def)
  then obtain n where "json_member v ''weekday'' = Some (JNum (Whole n))" "1 \<le> n" "n \<le> 7"
    unfolding case_Whole by blast
  moreover have "isLocalInterval v" using assms by (simp add: isWeeklyInterval_def)
  then obtain s e n where "json_member v ''start'' = Some (JStr s)" "json_member v ''end'' = Some (JStr e)"
    "json_member v ''end_day_offset'' = Some (JNum (Whole n))" "clock_span s e n" by (rule isLocalIntervalD)
  ultimately show ?thesis by (simp add: good_weekly_def as_weekly_def as_text_def as_int_def)
qed

lemma as_exception_date [simp]: "ex_date (as_exception v) = as_text (json_member v ''date'')"
  by (simp add: as_exception_def Let_def)

lemma isHoursExceptionD:
  assumes "isHoursException pf v"
  obtains (closed) s where "json_member v ''date'' = Some (JStr s)" "isLocalDate pf s" "json_member v ''kind'' = Some (JStr ''closed'')"
  | (adjusted) s "is" k where "json_member v ''date'' = Some (JStr s)" "isLocalDate pf s" "json_member v ''kind'' = Some (JStr (kind_text k))"
      "json_member v ''intervals'' = Some (JArr is)" "length is \<le> 32" "list_all isLocalInterval is"
proof -
  have "case json_member v ''date'' of Some (JStr s) \<Rightarrow> isLocalDate pf s | _ \<Rightarrow> False"
    using assms by (simp add: isHoursException_def)
  then obtain s where s: "json_member v ''date'' = Some (JStr s)" "isLocalDate pf s"
    unfolding case_JStr by blast
  show thesis
  proof (cases "json_member v ''kind'' = Some (JStr ''closed'')")
    case True
    with s show ?thesis by (rule closed)
  next
    case False
    with assms have "json_member v ''kind'' = Some (JStr (kind_text Replace)) \<or> json_member v ''kind'' = Some (JStr (kind_text AddIntervals))
        \<or> json_member v ''kind'' = Some (JStr (kind_text Remove))" by (simp add: isHoursException_def kind_text_def)
    then obtain k where k: "json_member v ''kind'' = Some (JStr (kind_text k))" by blast
    have "case json_member v ''intervals'' of
        Some (JArr is) \<Rightarrow> length is \<le> 32 \<and> list_all (\<lambda>i. is_record i \<and> isLocalInterval i) is | _ \<Rightarrow> False"
      using assms False by (simp add: isHoursException_def)
    then obtain "is" where "json_member v ''intervals'' = Some (JArr is)" "length is \<le> 32" "list_all isLocalInterval is"
      unfolding case_JArr by (auto simp: list_all_iff)
    with s k show ?thesis by (rule adjusted)
  qed
qed

lemma as_exception_good: "isHoursException pf v \<Longrightarrow> good_exception pf (as_exception v)"
proof (erule isHoursExceptionD)
  fix s "is" k
  assume "json_member v ''date'' = Some (JStr s)" "isLocalDate pf s" "json_member v ''kind'' = Some (JStr (kind_text k))"
    "json_member v ''intervals'' = Some (JArr is)" "length is \<le> 32" "list_all isLocalInterval is"
  then show "good_exception pf (as_exception v)"
    by (cases k) (auto simp: good_exception_def as_exception_def as_text_def as_list_def list_all_iff as_interval_good kind_text_def)
qed (simp add: good_exception_def as_exception_def as_text_def)

lemma weekly_again: "good_weekly w \<Longrightarrow> isWeeklyInterval (weekly_json w) \<and> as_weekly (weekly_json w) = w"
  by (auto simp: good_weekly_def clock_span_def weekly_json_def isWeeklyInterval_def is_record_def isLocalInterval_def json_member_def
      as_weekly_def as_text_def as_int_def)

lemma interval_again:
  "clock_span (li_start i) (li_end i) (end_day_offset i) \<Longrightarrow> is_record (interval_json i) \<and> isLocalInterval (interval_json i)"
  "as_interval (interval_json i) = i"
  by (auto simp: clock_span_def interval_json_def is_record_def isLocalInterval_def json_member_def as_interval_def as_text_def as_int_def)

lemma exception_again: "good_exception pf e \<Longrightarrow> isHoursException pf (exception_json e) \<and> as_exception (exception_json e) = e"
proof (cases e)
  case (Closed d)
  then show "good_exception pf e \<Longrightarrow> ?thesis"
    by (simp add: good_exception_def exception_json_def isHoursException_def is_record_def json_member_def as_exception_def as_text_def)
next
  case (Adjust k d "is")
  assume "good_exception pf e"
  with Adjust have "isLocalDate pf d" "length is \<le> 32" "list_all (\<lambda>i. is_record i \<and> isLocalInterval i) (map interval_json is)"
    by (auto simp: good_exception_def list_all_iff interval_again)
  with Adjust show ?thesis
    by (cases k) (simp_all add: exception_json_def isHoursException_def is_record_def json_member_def as_exception_def as_text_def
        as_list_def kind_text_def interval_again o_def)
qed

lemma resolution_again: "parse_resolution (Some (resolution_json a n)) = Some (a, n)"
  by (cases a; cases n)
    (simp_all add: parse_resolution_def resolution_json_def json_member_def parse_ambiguous_def parse_nonexistent_def is_record_def)

lemma trim_again: "trim (trim (normalize_NFC s)) = trim (normalize_NFC s)"
  by simp

lemma accepted_hours_good:
  assumes "validateInlineHoursProfile pf v = Inr h"
  shows "good_hours pf h"
proof -
  from assms obtain rawName rawTimezone ws es where
    h: "ih_name h = trim (normalize_NFC rawName)" "ih_timezone h = trim rawTimezone" "ih_weekly h = map as_weekly ws"
      "ih_exceptions h = map as_exception es"
    and ok: "1 \<le> length (ih_name h)" "length (ih_name h) \<le> 120" "\<not> list_ex is_control (ih_name h)" "local_clock pf (ih_timezone h) 0 \<noteq> None"
      "length ws \<le> 128" "list_all isWeeklyInterval ws" "length es \<le> 366" "list_all (isHoursException pf) es"
      "distinct (map (\<lambda>e. as_text (json_member e ''date'')) es)"
    by (auto simp: validateInlineHoursProfile_def bindE_Inr_iff Let_def length_uniq_iff not_less Suc_le_eq
        split: option.splits json.splits prod.splits)
  show ?thesis
    using ok by (auto simp: good_hours_def h list_all_iff as_weekly_good as_exception_good o_def)
qed

lemma accepted_hours_again:
  assumes good: "good_hours pf h"
  shows "validateInlineHoursProfile pf (inline_hours_json h) = Inr h"
proof -
  have ws: "list_all isWeeklyInterval (map weekly_json (ih_weekly h))" "map as_weekly (map weekly_json (ih_weekly h)) = ih_weekly h"
    using good by (auto simp: good_hours_def list_all_iff weekly_again intro!: map_idI)
  have es: "list_all (isHoursException pf) (map exception_json (ih_exceptions h))"
    "map as_exception (map exception_json (ih_exceptions h)) = ih_exceptions h"
    using good by (auto simp: good_hours_def list_all_iff exception_again intro!: map_idI)
  have "map (\<lambda>e. as_text (json_member e ''date'')) (map exception_json (ih_exceptions h)) = map ex_date (ih_exceptions h)"
    by (auto simp: exception_json_def as_text_def json_member_def split: hours_exception.splits)
  then have dates: "length (uniq (map (\<lambda>e. as_text (json_member e ''date'')) (map exception_json (ih_exceptions h)))) = length (ih_exceptions h)"
    using good unfolding good_hours_def by (simp only: uniq_id length_map)
  have members: "is_record (inline_hours_json h)" "json_member (inline_hours_json h) ''name'' = Some (JStr (ih_name h))"
    "json_member (inline_hours_json h) ''timezone'' = Some (JStr (ih_timezone h))"
    "json_member (inline_hours_json h) ''dst_resolution'' = Some (resolution_json (ih_ambiguous h) (ih_nonexistent h))"
    "json_member (inline_hours_json h) ''weekly'' = Some (JArr (map weekly_json (ih_weekly h)))"
    "json_member (inline_hours_json h) ''exceptions'' = Some (JArr (map exception_json (ih_exceptions h)))"
    by (simp_all add: inline_hours_json_def is_record_def json_member_def)
  have "ih_name h \<noteq> []" using good by (auto simp: good_hours_def)
  show ?thesis
    using good ws es dates \<open>ih_name h \<noteq> []\<close>
    by (simp add: validateInlineHoursProfile_def members resolution_again Let_def reject_if_def bindE_def good_hours_def normalize_NFC_def
        not_less)
qed

text \<open>
  An accepted hours profile is well formed and reads back. Every profile the check accepts has a
  clean name, a known zone, at most 128 weekly intervals and at most 366 exceptions with valid dates, one
  per date, and every interval begins before it ends; and a profile is well formed exactly when its own
  document is accepted as that profile.
\<close>

theorem accepted_hours_read_back:
  "(\<forall>v. validateInlineHoursProfile pf v = Inr h \<longrightarrow> good_hours pf h)
   \<and> (good_hours pf h \<longleftrightarrow> validateInlineHoursProfile pf (inline_hours_json h) = Inr h)"
  using accepted_hours_good accepted_hours_again by blast

definition office_hours :: inline_hours where
  "office_hours = \<lparr>ih_name = ''Office'', ih_timezone = ''UTC'', ih_ambiguous = EarlierOffset, ih_nonexistent = ShiftForwardByGap,
     ih_weekly = [\<lparr>weekday = 1, w_start = ''09:00:00'', w_end = ''17:00:00'', w_end_day_offset = 0\<rparr>],
     ih_exceptions = [Closed ''2026-12-25'', Adjust Replace ''2026-12-24''
       [\<lparr>li_start = ''09:00:00'', li_end = ''12:00:00'', end_day_offset = 0\<rparr>]]\<rparr>"

lemma office_hours_good: "good_hours utc_platform office_hours"
  by code_simp

theorem accepted_hours_read_back_witness:
  "validateInlineHoursProfile utc_platform (inline_hours_json office_hours) = Inr office_hours \<and> good_hours utc_platform office_hours"
  using accepted_hours_read_back [of utc_platform office_hours] office_hours_good by blast

end
