(* ===== verification/Policy_Input.thy ===== *)
theory Policy_Input
  imports Hours_Draft Policy_Draft
begin

section \<open>Submitted policies (server/src/api/app.ts)\<close>

text \<open>
  A policy draft arrives as the JSON of a request body. The API checks its shape and hands it on under
  its type (\<open>value as PolicyDraft\<close>). The code keeps the value as it is; the record of
  \<open>as_policy_draft\<close> is the view of it that the operations have, with a field for every property they
  read, and leaves out what none of them reads. \<open>draft_json\<close> is the value that such a record stands for, the one
  that is hashed and stored. The check of an identifier is the one of the \<open>uuid\<close> package, the parameter
  \<open>valid_uuid\<close>.
\<close>

subsection \<open>The choices of a policy\<close>

definition preset_of :: "json option \<Rightarrow> privacy_preset option" where
  "preset_of v = (if v = Some (JStr ''busy_only'') then Some BusyOnly else if v = Some (JStr ''commitment'') then Some Commitment
     else if v = Some (JStr ''private_details'') then Some PrivateDetails
     else if v = Some (JStr ''shared_details'') then Some SharedDetails else None)"

definition preset_text :: "privacy_preset \<Rightarrow> string" where
  "preset_text p = (case p of BusyOnly \<Rightarrow> ''busy_only'' | Commitment \<Rightarrow> ''commitment'' | PrivateDetails \<Rightarrow> ''private_details''
     | SharedDetails \<Rightarrow> ''shared_details'')"

definition bool_of :: "json option \<Rightarrow> bool option" where
  "bool_of v = (case v of Some (JBool b) \<Rightarrow> Some b | _ \<Rightarrow> None)"

definition text_of :: "json option \<Rightarrow> string option" where
  "text_of v = (case v of Some (JStr s) \<Rightarrow> Some s | _ \<Rightarrow> None)"

definition parse_privacy :: "json \<Rightarrow> privacy_policy option" where
  "parse_privacy v =
     (case (preset_of (json_member v ''preset''), text_of (json_member v ''generic_summary''),
            bool_of (json_member v ''copy_summary''), bool_of (json_member v ''copy_description''),
            bool_of (json_member v ''copy_location''), bool_of (json_member v ''copy_conference''),
            bool_of (json_member v ''copy_attendees''), bool_of (json_member v ''copy_organizer'')) of
        (Some p, Some g, Some s, Some d, Some l, Some c, Some a, Some o') \<Rightarrow>
          if is_record v \<and> json_member v ''preset_version'' = Some (JNum (Whole 1)) \<and> 0 < length (trim (normalize_NFC g))
          then Some \<lparr>preset = p, generic_summary = g, copy_summary = s, copy_description = d, copy_location = l,
                 copy_conference = c, copy_attendees = a, copy_organizer = o'\<rparr>
          else None
      | _ \<Rightarrow> None)"

definition timed_of :: "json option \<Rightarrow> timed_selection option" where
  "timed_of v = (if v = Some (JStr ''include'') then Some IncludeTimed else if v = Some (JStr ''skip'') then Some SkipTimed else None)"

definition all_day_of :: "json option \<Rightarrow> all_day_selection option" where
  "all_day_of v = (if v = Some (JStr ''skip'') then Some SkipAllDay else if v = Some (JStr ''busy_only'') then Some BusyAllDay
     else if v = Some (JStr ''all'') then Some EveryAllDay else None)"

definition free_of :: "json option \<Rightarrow> free_selection option" where
  "free_of v = (if v = Some (JStr ''skip_when_redacted'') then Some SkipWhenRedacted
     else if v = Some (JStr ''preserve_free'') then Some PreserveFree
     else if v = Some (JStr ''force_busy'') then Some ForceBusy else None)"

definition rsvp_of :: "json option \<Rightarrow> rsvp_selection option" where
  "rsvp_of v = (if v = Some (JStr ''busy'') then Some AsBusy else if v = Some (JStr ''free'') then Some AsFree
     else if v = Some (JStr ''omit'') then Some Omit else None)"

definition texts_of :: "json option \<Rightarrow> string list option" where
  "texts_of v =
     (case v of
        Some (JArr vs) \<Rightarrow> if list_all (\<lambda>x. text_of (Some x) \<noteq> None) vs then Some (map (\<lambda>x. the (text_of (Some x))) vs) else None
      | _ \<Rightarrow> None)"

definition parse_selection :: "json \<Rightarrow> selection_policy option" where
  "parse_selection v =
     (case (timed_of (json_member v ''timed''), all_day_of (json_member v ''all_day''), free_of (json_member v ''free_events''),
            rsvp_of (json_member v ''tentative''), rsvp_of (json_member v ''unanswered''),
            bool_of (json_member v ''skip_when_destination_identity_invited''),
            text_of (json_member v ''source_exclusion_marker''), texts_of (json_member v ''manual_exclusions'')) of
        (Some t, Some a, Some f, Some te, Some u, Some i, Some m, Some xs) \<Rightarrow>
          if is_record v
          then Some \<lparr>sel_timed = t, sel_all_day = a, sel_free_events = f, sel_tentative = te, sel_unanswered = u,
                 skip_when_invited = i, source_exclusion_marker = m, manual_exclusions = xs\<rparr>
          else None
      | _ \<Rightarrow> None)"

definition hours_mode_of :: "json option \<Rightarrow> hours_mode option" where
  "hours_mode_of v = (if v = Some (JStr ''all_times'') then Some AllTimes
     else if v = Some (JStr ''overlaps_profile'') then Some OverlapsProfile
     else if v = Some (JStr ''contained_in_profile'') then Some ContainedInProfile else None)"

definition isBoundedDayCount :: "json option \<Rightarrow> bool" where
  "isBoundedDayCount v = (case v of Some (JNum (Whole n)) \<Rightarrow> 0 \<le> n \<and> n \<le> 3650 | _ \<Rightarrow> False)"

subsection \<open>The draft\<close>

definition is_uuid :: "(string \<Rightarrow> bool) \<Rightarrow> json option \<Rightarrow> bool" where
  "is_uuid valid_uuid v = (case v of Some (JStr s) \<Rightarrow> valid_uuid s | _ \<Rightarrow> False)"

definition draft_shaped :: "(string \<Rightarrow> bool) \<Rightarrow> json \<Rightarrow> bool" where
  "draft_shaped valid_uuid v \<longleftrightarrow>
     (case json_member v ''name'' of
        Some (JStr s) \<Rightarrow> 1 \<le> length (trim (normalize_NFC s)) \<and> length (trim (normalize_NFC s)) \<le> 120 | _ \<Rightarrow> False)
     \<and> is_uuid valid_uuid (json_member v ''source_calendar_id'') \<and> is_uuid valid_uuid (json_member v ''destination_calendar_id'')
     \<and> (case json_member v ''privacy'' of Some p \<Rightarrow> parse_privacy p \<noteq> None | None \<Rightarrow> False)
     \<and> (case json_member v ''selection'' of Some s \<Rightarrow> parse_selection s \<noteq> None | None \<Rightarrow> False)
     \<and> (case json_member v ''hours'' of None \<Rightarrow> True | Some h \<Rightarrow> is_record h \<and> hours_mode_of (json_member h ''mode'') \<noteq> None)
     \<and> (case json_member v ''destination_edits'' of None \<Rightarrow> True | Some e \<Rightarrow> isDestinationEditPolicy e)
     \<and> (case json_member v ''hours_profile_id'' of None \<Rightarrow> True | Some JNull \<Rightarrow> True | Some i \<Rightarrow> is_uuid valid_uuid (Some i))
     \<and> (case json_member v ''hours_profile'' of None \<Rightarrow> True | Some p \<Rightarrow> is_record p)
     \<and> (case json_member v ''horizon'' of
          None \<Rightarrow> True
        | Some h \<Rightarrow> is_record h \<and> isBoundedDayCount (json_member h ''past_days'') \<and> isBoundedDayCount (json_member h ''future_days''))"

definition as_policy_draft :: "json \<Rightarrow> policy_draft" where
  "as_policy_draft v =
     \<lparr>pd_name = as_text (json_member v ''name''),
      pd_source_calendar = as_text (json_member v ''source_calendar_id''),
      pd_destination_calendar = as_text (json_member v ''destination_calendar_id''),
      pd_hours_profile_id = text_of (json_member v ''hours_profile_id''),
      pd_hours = map_option (\<lambda>h. (the (hours_mode_of (json_member h ''mode'')), text_of (json_member h ''profile_ref'')))
        (json_member v ''hours''),
      pd_hours_profile = json_member v ''hours_profile'',
      pd_privacy = the (parse_privacy (the (json_member v ''privacy''))),
      pd_selection = the (parse_selection (the (json_member v ''selection''))),
      pd_destination = map_option (\<lambda>c. text_of (json_member c ''color'')) (json_member v ''destination''),
      pd_destination_edits = json_member v ''destination_edits'',
      pd_horizon = map_option (\<lambda>h. (as_int (json_member h ''past_days''), as_int (json_member h ''future_days'')))
        (json_member v ''horizon'')\<rparr>"

text \<open>An array has no property of these names, so only an object passes.\<close>

definition parsePolicyDraft :: "(string \<Rightarrow> bool) \<Rightarrow> json \<Rightarrow> policy_draft option" where
  "parsePolicyDraft valid_uuid v = (if draft_shaped valid_uuid v then Some (as_policy_draft v) else None)"

subsection \<open>The document of a draft\<close>

definition privacy_json :: "privacy_policy \<Rightarrow> json" where
  "privacy_json p = JObj
     [(''preset'', Some (JStr (preset_text (preset p)))), (''preset_version'', Some (JNum (Whole 1))),
      (''generic_summary'', Some (JStr (generic_summary p))), (''copy_summary'', Some (JBool (copy_summary p))),
      (''copy_description'', Some (JBool (copy_description p))), (''copy_location'', Some (JBool (copy_location p))),
      (''copy_conference'', Some (JBool (copy_conference p))), (''copy_attendees'', Some (JBool (copy_attendees p))),
      (''copy_organizer'', Some (JBool (copy_organizer p)))]"

definition rsvp_text :: "rsvp_selection \<Rightarrow> string" where
  "rsvp_text r = (case r of AsBusy \<Rightarrow> ''busy'' | AsFree \<Rightarrow> ''free'' | Omit \<Rightarrow> ''omit'')"

definition selection_json :: "selection_policy \<Rightarrow> json" where
  "selection_json s = JObj
     [(''timed'', Some (JStr (case sel_timed s of IncludeTimed \<Rightarrow> ''include'' | SkipTimed \<Rightarrow> ''skip''))),
      (''all_day'', Some (JStr (case sel_all_day s of SkipAllDay \<Rightarrow> ''skip'' | BusyAllDay \<Rightarrow> ''busy_only'' | EveryAllDay \<Rightarrow> ''all''))),
      (''free_events'', Some (JStr (case sel_free_events s of SkipWhenRedacted \<Rightarrow> ''skip_when_redacted''
         | PreserveFree \<Rightarrow> ''preserve_free'' | ForceBusy \<Rightarrow> ''force_busy''))),
      (''tentative'', Some (JStr (rsvp_text (sel_tentative s)))), (''unanswered'', Some (JStr (rsvp_text (sel_unanswered s)))),
      (''skip_when_destination_identity_invited'', Some (JBool (skip_when_invited s))),
      (''source_exclusion_marker'', Some (JStr (source_exclusion_marker s))),
      (''manual_exclusions'', Some (JArr (map JStr (manual_exclusions s))))]"

definition mode_text :: "hours_mode \<Rightarrow> string" where
  "mode_text m = (case m of AllTimes \<Rightarrow> ''all_times'' | OverlapsProfile \<Rightarrow> ''overlaps_profile''
     | ContainedInProfile \<Rightarrow> ''contained_in_profile'')"

definition draft_json :: "policy_draft \<Rightarrow> json" where
  "draft_json d = JObj
     [(''name'', Some (JStr (pd_name d))), (''source_calendar_id'', Some (JStr (pd_source_calendar d))),
      (''destination_calendar_id'', Some (JStr (pd_destination_calendar d))),
      (''hours_profile_id'', map_option JStr (pd_hours_profile_id d)),
      (''hours'', map_option (\<lambda>(m, r). JObj [(''mode'', Some (JStr (mode_text m))), (''profile_ref'', map_option JStr r)]) (pd_hours d)),
      (''hours_profile'', pd_hours_profile d),
      (''privacy'', Some (privacy_json (pd_privacy d))), (''selection'', Some (selection_json (pd_selection d))),
      (''destination'', map_option (\<lambda>c. JObj [(''color'', map_option JStr c)]) (pd_destination d)),
      (''destination_edits'', pd_destination_edits d),
      (''horizon'', map_option (\<lambda>(p, f). JObj [(''past_days'', Some (JNum (Whole p))), (''future_days'', Some (JNum (Whole f)))]) (pd_horizon d))]"

text \<open>A draft for the examples.\<close>

definition home_draft :: policy_draft where
  "home_draft = \<lparr>pd_name = ''Home'', pd_source_calendar = ''home'', pd_destination_calendar = ''work'',
     pd_hours_profile_id = None, pd_hours = None, pd_hours_profile = Some (inline_hours_json office_hours),
     pd_privacy = privacy sample_policy, pd_selection = selection sample_policy, pd_destination = None,
     pd_destination_edits = None, pd_horizon = Some (7, 90)\<rparr>"

end
