(* ===== verification/Policy_Service.thy ===== *)
theory Policy_Service
  imports Notices Calendar_Identity Policy_Input
begin

section \<open>The life of a policy (server/src/policy/service.ts)\<close>

text \<open>
  A policy is previewed, activated from the preview, paused and resumed, and reconciled on request. The
  activation and the later commands each run in a transaction. The preview runs outside of one: it reads
  the tables, evaluates, and looks at the cursor of the source again before it stores its result, so it
  has two states of the tables, the one it read from and the one it writes to.
\<close>

subsection \<open>Checks on a draft\<close>

definition input_error :: "string \<Rightarrow> string \<Rightarrow> service_error + 'a" where
  "input_error code_text message = Inl (PolicyInputError code_text message)"

definition require :: "bool \<Rightarrow> string \<Rightarrow> string \<Rightarrow> service_error + unit" where
  "require ok code_text message = (if ok then Inr () else input_error code_text message)"

definition requirePolicyDraftIds :: "(string \<Rightarrow> bool) \<Rightarrow> policy_draft \<Rightarrow> service_error + unit" where
  "requirePolicyDraftIds valid_uuid draft =
     require (valid_uuid (pd_source_calendar draft) \<and> valid_uuid (pd_destination_calendar draft)
         \<and> (case pd_hours_profile_id draft of None \<Rightarrow> True | Some i \<Rightarrow> valid_uuid i))
       ''invalid_policy'' ''policy identifiers are invalid''"

definition requireLocalPolicyId :: "(string \<Rightarrow> bool) \<Rightarrow> string \<Rightarrow> string \<Rightarrow> service_error + unit" where
  "requireLocalPolicyId valid_uuid value field_name =
     require (valid_uuid value) ''invalid_request'' (field_name @ '' identifier is invalid'')"

definition inline_hours_of :: "platform \<Rightarrow> policy_draft \<Rightarrow> service_error + inline_hours option" where
  "inline_hours_of pf draft =
     (if json_truthy (pd_hours_profile draft)
      then bindE (liftE (PolicyInputError ''invalid_hours_profile'') (validateInlineHoursProfile pf (the (pd_hours_profile draft))))
             (\<lambda>h. Inr (Some h))
      else Inr None)"

definition check_draft :: "platform \<Rightarrow> (string \<Rightarrow> bool) \<Rightarrow> policy_draft \<Rightarrow> service_error + inline_hours option" where
  "check_draft pf valid_uuid draft =
     bindE (requirePolicyDraftIds valid_uuid draft) (\<lambda>_.
     bindE (require (pd_source_calendar draft \<noteq> pd_destination_calendar draft) ''same_calendar''
              ''source and destination calendars must differ'') (\<lambda>_.
     bindE (require (\<not> (is_truthy (pd_hours_profile_id draft) \<and> json_truthy (pd_hours_profile draft))) ''invalid_hours_profile''
              ''choose either a saved or inline hours profile'') (\<lambda>_.
     bindE (require (case pd_destination_edits draft of None \<Rightarrow> True | Some e \<Rightarrow> isDestinationEditPolicy e)
              ''invalid_destination_edits'' ''destination-edit behavior must set version 1 with on_edit and on_delete modes'') (\<lambda>_.
     bindE (inline_hours_of pf draft) (\<lambda>inline.
     let hoursMode = (case pd_hours draft of Some (m, _) \<Rightarrow> m
           | None \<Rightarrow> if is_truthy (pd_hours_profile_id draft) \<or> inline \<noteq> None then OverlapsProfile else AllTimes);
         hasProfile = is_truthy (pd_hours_profile_id draft) \<or> inline \<noteq> None in
     bindE (require (hoursMode = AllTimes \<or> hasProfile) ''invalid_hours_profile'' ''hours mode requires an hours profile'') (\<lambda>_.
     bindE (require (hoursMode \<noteq> AllTimes \<or> \<not> hasProfile) ''invalid_hours_profile'' ''all-times mode cannot use an hours profile'') (\<lambda>_.
       Inr inline)))))))"

subsection \<open>Calendars and their protection\<close>

type_synonym policy_calendar = "calendar_endpoint \<times> provider_connection"

definition loadPolicyCalendarCapabilities :: "db \<Rightarrow> string \<Rightarrow> string \<Rightarrow> string \<Rightarrow> policy_calendar list" where
  "loadPolicyCalendarCapabilities d org sourceId destinationId =
     [(e, c). e \<leftarrow> endpoints d, c \<leftarrow> connections d,
        pc_id c = ce_connection e \<and> ce_organization e = org \<and> ce_id e \<in> set [sourceId, destinationId]]"

definition calendar_identity :: "policy_calendar \<Rightarrow> string" where
  "calendar_identity k = providerCalendarIdentity (pc_provider (snd k)) (ce_connection (fst k)) (ce_remote_id (fst k))"

definition requirePolicyCalendars ::
  "policy_calendar list \<Rightarrow> string \<Rightarrow> string \<Rightarrow> service_error + policy_calendar \<times> policy_calendar" where
  "requirePolicyCalendars calendars sourceId destinationId =
     (case (find (\<lambda>k. ce_id (fst k) = sourceId) calendars, find (\<lambda>k. ce_id (fst k) = destinationId) calendars) of
        (Some s, Some t) \<Rightarrow>
          bindE (require (source_usable (fst s) (snd s) \<and> destination_usable (fst t) (snd t)) ''calendar_capability''
                   ''source and destination must be active and match their authorized connection roles'') (\<lambda>_.
          bindE (require (calendar_identity s \<noteq> calendar_identity t) ''same_provider_calendar''
                   ''source and destination aliases refer to the same underlying provider calendar'') (\<lambda>_.
            Inr (s, t)))
      | _ \<Rightarrow> input_error ''calendar_capability''
               ''source and destination must be active and match their authorized connection roles'')"

text \<open>A rule that is not deleted protects the calendars whose availability it reads.\<close>

definition protected_calendar :: "db \<Rightarrow> string \<Rightarrow> string \<Rightarrow> bool" where
  "protected_calendar d org identity \<longleftrightarrow>
     list_ex (\<lambda>r. ru_organization r = org \<and> ru_status r \<noteq> RuleDeleted
       \<and> list_ex (\<lambda>a. ac_rule a = ru_id r \<and> ac_identity a = identity) (availability_calendars d)) (conflict_rules d)"

definition requireNoConflictResponseRule :: "db \<Rightarrow> string \<Rightarrow> string list \<Rightarrow> service_error + unit" where
  "requireNoConflictResponseRule d org identities =
     require (\<not> list_ex (protected_calendar d org) identities) ''no_copy_rule_conflict''
       ''a calendar protected for private availability cannot participate in a bridge''"

subsection \<open>The cursor of the source\<close>

definition source_cursors :: "db \<Rightarrow> string \<Rightarrow> string \<Rightarrow> string \<Rightarrow> cursor_row list" where
  "source_cursors d org calendarId fingerprint =
     filter (\<lambda>c. cu_organization c = org \<and> cu_calendar c = calendarId \<and> cu_fingerprint c = fingerprint) (cursors d)"

definition requireCompletedCursor :: "cursor_row list \<Rightarrow> string \<Rightarrow> service_error + unit" where
  "requireCompletedCursor rows code_text =
     require (case rows of [] \<Rightarrow> False | c # _ \<Rightarrow> cu_state c = CursorReady \<and> is_truthy (cu_token c)) code_text
       ''source calendar has not completed its current synchronization''"

definition cursor_state_text :: "cursor_state \<Rightarrow> string" where
  "cursor_state_text s = (case s of FullRequired \<Rightarrow> ''full_required'' | Syncing \<Rightarrow> ''syncing'' | CursorReady \<Rightarrow> ''ready''
     | CursorActionRequired \<Rightarrow> ''action_required'')"

definition cursor_json :: "cursor_row \<Rightarrow> json" where
  "cursor_json c = JObj [(''query_fingerprint'', Some (JStr (cu_fingerprint c))), (''generation'', Some (JNum (Whole (cu_generation c)))),
     (''sync_token'', Some (case cu_token c of None \<Rightarrow> JNull | Some t \<Rightarrow> JStr t)), (''state'', Some (JStr (cursor_state_text (cu_state c))))]"

definition cursor_fingerprint :: "(string \<Rightarrow> string) \<Rightarrow> cursor_row list \<Rightarrow> service_error + string" where
  "cursor_fingerprint sha rows = liftE (\<lambda>e. SyncThrew (HashThrew e)) (sha256Canonical sha (JArr (map cursor_json rows)))"

definition query_fingerprint :: "(string \<Rightarrow> string) \<Rightarrow> policy_calendar \<Rightarrow> service_error + string" where
  "query_fingerprint sha s =
     liftE (\<lambda>e. SyncThrew (HashThrew e)) (calendarSyncQueryFingerprint sha (pc_provider (snd s)) (ce_remote_id (fst s)))"

subsection \<open>The evaluation of a preview\<close>

definition resultCountKey :: "policy_evaluation_result \<Rightarrow> string" where
  "resultCountKey r = (if res_selection r \<noteq> Included then ''excluded''
     else if res_operation r = NoOperation then ''unchanged'' else operation_text (res_operation r))"

record preview_example =
  px_observation_hash :: string
  px_decision :: string
  px_reasons :: "reason_code list"
  px_disclosure :: "disclosure_manifest option"

record preview_result =
  vr_counts :: "(string \<times> nat) list"
  vr_excluded :: "(string \<times> nat) list"
  vr_disclosure :: "disclosure_manifest option"
  vr_examples :: "preview_example list"

definition empty_preview :: preview_result where
  "empty_preview = \<lparr>vr_counts = [(''create'', 0), (''update'', 0), (''delete'', 0), (''unchanged'', 0), (''excluded'', 0)],
     vr_excluded = [], vr_disclosure = None, vr_examples = []\<rparr>"

definition add_result :: "string \<Rightarrow> policy_evaluation_result \<Rightarrow> preview_result \<Rightarrow> preview_result" where
  "add_result observationHash r v =
     (let decision = resultCountKey r in
      \<lparr>vr_counts = bump decision (vr_counts v),
       vr_excluded = (if decision = ''excluded'' then fold (\<lambda>c m. bump (reason_text c) m) (reason_codes r) (vr_excluded v) else vr_excluded v),
       vr_disclosure = or_else (vr_disclosure v) (res_disclosure r),
       vr_examples = (if length (vr_examples v) < 3
          then vr_examples v @ [\<lparr>px_observation_hash = observationHash, px_decision = decision, px_reasons = reason_codes r,
                                 px_disclosure = res_disclosure r\<rparr>]
          else vr_examples v)\<rparr>)"

definition preview_step ::
  "temporal \<Rightarrow> (string \<Rightarrow> string) \<Rightarrow> int \<Rightarrow> (int \<times> int) option \<Rightarrow> sync_policy \<Rightarrow> hours_profile option \<Rightarrow> destination_capabilities
   \<Rightarrow> preview_result \<Rightarrow> observation_row \<Rightarrow> service_error + preview_result" where
  "preview_step t sha nowMs hz pol profile caps v row =
     bindE (liftE SyncThrew (evaluation_input nowMs hz (''preview:'' @ so_id row) pol profile (so_event row) None caps)) (\<lambda>input.
     bindE (liftE (\<lambda>e. SyncThrew (EvaluationThrew e)) (evaluatePolicy t sha input)) (\<lambda>r.
       Inr (add_result (so_hash row) r v)))"

definition manifest_json :: "disclosure_manifest \<Rightarrow> json" where
  "manifest_json m = JObj [(''version'', Some (JNum (Whole 1))),
     (''preset'', Some (JObj [(''id'', Some (JStr (preset_text (dm_preset m)))), (''version'', Some (JNum (Whole 1)))])),
     (''source_fields_read'', Some (JArr (map JStr (source_fields_read m)))),
     (''source_fields_disclosed'', Some (JArr (map JStr (source_fields_disclosed m)))),
     (''destination_fields_written'', Some (JArr (map JStr (destination_fields_written m)))),
     (''source_fields_omitted'', Some (JArr (map JStr (source_fields_omitted m))))]"

definition disclosure_json :: "disclosure_manifest option \<Rightarrow> json" where
  "disclosure_json m = (case m of None \<Rightarrow> JNull | Some x \<Rightarrow> manifest_json x)"

definition counts_json :: "(string \<times> nat) list \<Rightarrow> json" where
  "counts_json m = JObj (map (\<lambda>(k, n). (k, Some (JNum (Whole (int n))))) m)"

definition result_json :: "preview_result \<Rightarrow> json" where
  "result_json v = JObj [(''complete'', Some (JBool True)), (''counts'', Some (counts_json (vr_counts v))),
     (''excluded_by_reason'', Some (counts_json (vr_excluded v))), (''disclosure'', Some (disclosure_json (vr_disclosure v))),
     (''examples'', Some (JArr (map (\<lambda>x. JObj
        [(''source'', Some (JObj [(''observation_hash'', Some (JStr (px_observation_hash x))), (''details_redacted'', Some (JBool True))])),
         (''decision'', Some (JStr (px_decision x))), (''reason_codes'', Some (JArr (map (\<lambda>c. JStr (reason_text c)) (px_reasons x)))),
         (''disclosure'', Some (disclosure_json (px_disclosure x)))]) (vr_examples v)))),
     (''warnings'', Some (JArr []))]"

definition PREVIEW_OBSERVATION_LIMIT :: nat where "PREVIEW_OBSERVATION_LIMIT = 5000"

definition preview_observations :: "db \<Rightarrow> string \<Rightarrow> string \<Rightarrow> observation_row list" where
  "preview_observations d org calendarId =
     take (PREVIEW_OBSERVATION_LIMIT + 1) (rev (sort_key so_observed
       (filter (\<lambda>o'. so_organization o' = org \<and> so_calendar o' = calendarId \<and> \<not> so_tombstone o' \<and> \<not> so_managed o') (observations d))))"

definition inline_profile :: "(string \<Rightarrow> string) \<Rightarrow> inline_hours \<Rightarrow> service_error + hours_profile" where
  "inline_profile sha h =
     bindE (liftE (\<lambda>e. SyncThrew (HashThrew e)) (sha256Canonical sha (inline_hours_json h))) (\<lambda>x.
       Inr \<lparr>profile_ref = ''inline:'' @ x, profile_revision = 1, timezone = ih_timezone h, ambiguous = ih_ambiguous h,
            nonexistent = ih_nonexistent h, weekly = ih_weekly h, exceptions = ih_exceptions h\<rparr>)"

definition preview_profile :: "(string \<Rightarrow> string) \<Rightarrow> db \<Rightarrow> string \<Rightarrow> policy_draft \<Rightarrow> inline_hours option \<Rightarrow> service_error + hours_profile option" where
  "preview_profile sha d org draft inline =
     bindE (require (\<not> is_truthy (pd_hours_profile_id draft) \<or> loadHoursProfile d org (pd_hours_profile_id draft) \<noteq> None)
              ''hours_profile_not_found'' ''hours profile was not found'') (\<lambda>_.
     (case inline of
        Some h \<Rightarrow> bindE (inline_profile sha h) (\<lambda>p. Inr (Some p))
      | None \<Rightarrow> Inr (loadHoursProfile d org (pd_hours_profile_id draft))))"

subsection \<open>Previewing\<close>

text \<open>What a preview has found when it looks at the cursor again.\<close>

record preview_basis =
  pb_fingerprint :: string
  pb_cursor :: string
  pb_result :: preview_result

definition preview_read ::
  "temporal \<Rightarrow> platform \<Rightarrow> (string \<Rightarrow> bool) \<Rightarrow> (string \<Rightarrow> string) \<Rightarrow> int \<Rightarrow> string \<Rightarrow> policy_draft \<Rightarrow> db \<Rightarrow> service_error + preview_basis" where
  "preview_read t pf valid_uuid sha nowMs org draft d =
     bindE (check_draft pf valid_uuid draft) (\<lambda>inline.
     bindE (requirePolicyCalendars (loadPolicyCalendarCapabilities d org (pd_source_calendar draft) (pd_destination_calendar draft))
              (pd_source_calendar draft) (pd_destination_calendar draft)) (\<lambda>(s, t').
     bindE (requireNoConflictResponseRule d org [calendar_identity s, calendar_identity t']) (\<lambda>_.
     bindE (query_fingerprint sha s) (\<lambda>fp.
     let rows = take 1 (source_cursors d org (pd_source_calendar draft) fp) in
     bindE (requireCompletedCursor rows ''source_sync_incomplete'') (\<lambda>_.
     bindE (cursor_fingerprint sha rows) (\<lambda>cursor.
     let seen = preview_observations d org (pd_source_calendar draft) in
     bindE (require (length seen \<le> PREVIEW_OBSERVATION_LIMIT) ''preview_incomplete''
              ''policy preview exceeds the 5000-observation safety limit'') (\<lambda>_.
     bindE (preview_profile sha d org draft inline) (\<lambda>profile.
     bindE (foldE (preview_step t sha nowMs (pd_horizon draft)
                     (compilePolicyDraft draft ''preview'' 1 Active (map_option profile_ref profile)) profile
                     (destinationCapabilities (ce_capabilities (fst t')) (ce_writable (fst t')))) empty_preview seen) (\<lambda>v.
       Inr \<lparr>pb_fingerprint = fp, pb_cursor = cursor, pb_result = v\<rparr>)))))))))"

definition preview_store ::
  "(string \<Rightarrow> string) \<Rightarrow> int \<Rightarrow> string \<Rightarrow> string \<Rightarrow> string \<Rightarrow> policy_draft \<Rightarrow> preview_basis \<Rightarrow> db \<Rightarrow> service_error + db" where
  "preview_store sha nowMs newId org who draft b d =
     bindE (liftE (\<lambda>e. SyncThrew (HashThrew e)) (sha256Canonical sha (draft_json draft))) (\<lambda>policyHash.
     let rows = source_cursors d org (pd_source_calendar draft) (pb_fingerprint b) in
     bindE (requireCompletedCursor rows ''source_sync_incomplete'') (\<lambda>_.
     bindE (cursor_fingerprint sha rows) (\<lambda>cursor.
     bindE (require (cursor = pb_cursor b) ''source_sync_incomplete''
              ''source calendar changed while the preview was being calculated'') (\<lambda>_.
       Inr (d\<lparr>policy_previews := policy_previews d @ [\<lparr>pp_id = newId, pp_organization = org, pp_principal = who, pp_document = draft,
              pp_hash = policyHash, pp_cursor_fingerprint = cursor, pp_result = result_json (pb_result b),
              pp_expires = nowMs + 15 * 60000, pp_consumed = None\<rparr>]\<rparr>)))))"

definition preview ::
  "temporal \<Rightarrow> platform \<Rightarrow> (string \<Rightarrow> bool) \<Rightarrow> (string \<Rightarrow> string) \<Rightarrow> int \<Rightarrow> string \<Rightarrow> string \<Rightarrow> string \<Rightarrow> policy_draft \<Rightarrow> db \<Rightarrow> db
   \<Rightarrow> service_error + preview_result \<times> db" where
  "preview t pf valid_uuid sha nowMs newId org who draft d d' =
     bindE (preview_read t pf valid_uuid sha nowMs org draft d) (\<lambda>b.
     bindE (preview_store sha nowMs newId org who draft b d') (\<lambda>d''. Inr (pb_result b, d'')))"

subsection \<open>Activating\<close>

definition isCompletePreviewResult :: "json \<Rightarrow> bool" where
  "isCompletePreviewResult v \<longleftrightarrow> is_record v \<and> json_member v ''complete'' = Some (JBool True)
     \<and> (case json_member v ''warnings'' of Some (JArr ws) \<Rightarrow> JStr ''preview_truncated'' \<notin> set ws | _ \<Rightarrow> False)"

definition policyDraftForPersistence :: "policy_draft \<Rightarrow> string option \<Rightarrow> policy_draft" where
  "policyDraftForPersistence draft hoursProfileId =
     (let mode = (case pd_hours draft of Some (m, _) \<Rightarrow> m | None \<Rightarrow> if is_truthy hoursProfileId then OverlapsProfile else AllTimes) in
      draft\<lparr>pd_hours_profile := None, pd_hours_profile_id := hoursProfileId,
        pd_hours := Some (mode, if mode \<noteq> AllTimes \<and> is_truthy hoursProfileId then hoursProfileId else None),
        pd_destination_edits := Some (edit_policy_json (normalizeDestinationEditPolicy (pd_destination_edits draft)))\<rparr>)"

text \<open>The stored document has an explicit \<open>null\<close> for a missing profile.\<close>

definition persisted_json :: "policy_draft \<Rightarrow> json" where
  "persisted_json d =
     (case draft_json d of
        JObj ms \<Rightarrow> JObj (map (\<lambda>(k, v). (k, if k = ''hours_profile_id'' then Some (case v of None \<Rightarrow> JNull | Some x \<Rightarrow> x) else v)) ms)
      | v \<Rightarrow> v)"

definition auditActorDetail :: "(string \<times> json option) list \<Rightarrow> actor_kind \<Rightarrow> string option \<Rightarrow> json" where
  "auditActorDetail detail actor tokenId =
     JObj (detail @ (if actor = ActorToken \<and> is_truthy tokenId then [(''api_token_id'', map_option JStr tokenId)] else []))"

text \<open>Who commands: the principal, the kind of actor and the token it used.\<close>

record command =
  co_organization :: string
  co_principal :: string
  co_actor :: actor_kind
  co_token :: "string option"

text \<open>The clock and the new identities of a command.\<close>

record ticket =
  tk_now :: int
  tk_policy_id :: string
  tk_hours_id :: string
  tk_audit_id :: string
  tk_job_id :: string

definition audit_command ::
  "ticket \<Rightarrow> command \<Rightarrow> string \<Rightarrow> string \<Rightarrow> string \<Rightarrow> string option \<Rightarrow> string option \<Rightarrow> (string \<times> json option) list \<Rightarrow> db \<Rightarrow> db" where
  "audit_command tk co action target reasonCode before after detail d =
     d\<lparr>audits := audits d @ [\<lparr>af_id = tk_audit_id tk, af_organization = co_organization co, af_principal = Some (co_principal co),
        af_actor = co_actor co, af_action = action, af_target_type = ''sync_policy'', af_target = target, af_reason = reasonCode,
        af_before = before, af_after = after, af_detail = auditActorDetail detail (co_actor co) (co_token co)\<rparr>]\<rparr>"

definition enqueue_reconcile :: "int \<Rightarrow> string \<Rightarrow> string \<Rightarrow> string \<Rightarrow> string \<Rightarrow> db \<Rightarrow> string option \<times> db" where
  "enqueue_reconcile nowMs jobId org key policyId d =
     (case enqueue nowMs jobId org ''reconcile_policy'' key (JObj [(''policy_id'', Some (JStr policyId))]) nowMs (jobs_table d) of
        Inl _ \<Rightarrow> (None, d)
      | Inr (j, q) \<Rightarrow> (j, d\<lparr>jobs_table := q\<rparr>))"

definition liftS :: "service_error + 'a \<Rightarrow> 'a transaction" where
  "liftS x d = (x, d)"

definition revision_key :: "string \<Rightarrow> int \<Rightarrow> string" where
  "revision_key policyId revision = ''policy:'' @ policyId @ '':revision:'' @ dec_int revision"

definition usable_preview :: "int \<Rightarrow> preview_row option \<Rightarrow> preview_row option" where
  "usable_preview nowMs r =
     (case r of
        None \<Rightarrow> None
      | Some p \<Rightarrow> if pp_consumed p \<noteq> None \<or> pp_expires p \<le> nowMs then None else Some p)"

text \<open>The checks of an activation, up to the cursor of the source: the two calendars, checked twice.\<close>

definition activation_calendars :: "db \<Rightarrow> string \<Rightarrow> policy_draft \<Rightarrow> service_error + policy_calendar \<times> policy_calendar" where
  "activation_calendars d org draft =
     (let calendars = loadPolicyCalendarCapabilities d org (pd_source_calendar draft) (pd_destination_calendar draft) in
      bindE (requirePolicyCalendars calendars (pd_source_calendar draft) (pd_destination_calendar draft)) (\<lambda>(s0, t0).
      bindE (requireNoConflictResponseRule d org [calendar_identity s0, calendar_identity t0]) (\<lambda>_.
      bindE (requirePolicyCalendars calendars (pd_source_calendar draft) (pd_destination_calendar draft)) (\<lambda>(s, t).
      bindE (require (calendar_identity s = calendar_identity s0 \<and> calendar_identity t = calendar_identity t0) ''preview_stale''
               ''calendar identity changed after preview'') (\<lambda>_.
        Inr (s, t))))))"

definition activation_cursor :: "(string \<Rightarrow> string) \<Rightarrow> db \<Rightarrow> string \<Rightarrow> preview_row \<Rightarrow> policy_calendar \<Rightarrow> service_error + unit" where
  "activation_cursor sha d org p s =
     bindE (query_fingerprint sha s) (\<lambda>fp.
     let rows = source_cursors d org (pd_source_calendar (pp_document p)) fp in
     bindE (requireCompletedCursor rows ''preview_stale'') (\<lambda>_.
     bindE (cursor_fingerprint sha rows) (\<lambda>h.
       require (h = pp_cursor_fingerprint p) ''preview_stale'' ''source cursor changed after preview'')))"

definition insert_hours :: "ticket \<Rightarrow> string \<Rightarrow> inline_hours option \<Rightarrow> unit transaction" where
  "insert_hours tk org inline d =
     (case inline of
        None \<Rightarrow> (Inr (), d)
      | Some h \<Rightarrow>
          if list_ex (\<lambda>r. hp_id r = tk_hours_id tk) (hours_profiles d) then (Inl (SyncThrew UniqueViolation), d)
          else (Inr (), d\<lparr>hours_profiles := hours_profiles d @ [\<lparr>hp_id = tk_hours_id tk, hp_organization = org, hp_name = ih_name h,
                 hp_timezone = ih_timezone h, hp_ambiguous = ih_ambiguous h, hp_nonexistent = ih_nonexistent h,
                 hp_weekly = ih_weekly h, hp_exceptions = ih_exceptions h, hp_version = 1\<rparr>]\<rparr>))"

definition new_policy ::
  "ticket \<Rightarrow> string \<Rightarrow> policy_draft \<Rightarrow> policy_calendar \<Rightarrow> policy_calendar \<Rightarrow> string option \<Rightarrow> string \<Rightarrow> policy_row" where
  "new_policy tk org draft s t hoursProfileId h =
     \<lparr>sp_id = tk_policy_id tk, sp_organization = org, sp_name = pd_name draft, sp_source_calendar = pd_source_calendar draft,
      sp_destination_calendar = pd_destination_calendar draft, sp_source_identity = calendar_identity s,
      sp_destination_identity = calendar_identity t, sp_hours_profile = hoursProfileId, sp_status = PolicyActive, sp_revision = 1,
      sp_document = policyDraftForPersistence draft hoursProfileId, sp_hash = h, sp_last_success = None, sp_error = None,
      sp_updated = tk_now tk\<rparr>"

definition insert_policy :: "policy_row \<Rightarrow> unit transaction" where
  "insert_policy p d =
     (if list_ex (\<lambda>q. sp_id q = sp_id p) (policies d) then (Inl (SyncThrew UniqueViolation), d)
      else (Inr (), d\<lparr>policies := policies d @ [p]\<rparr>))"

definition finish_activation :: "ticket \<Rightarrow> command \<Rightarrow> string \<Rightarrow> string \<Rightarrow> db \<Rightarrow> db" where
  "finish_activation tk co previewId h d =
     (let d1 = d\<lparr>policy_previews := update_where (\<lambda>p. pp_id p = previewId) (\<lambda>p. p\<lparr>pp_consumed := Some (tk_now tk)\<rparr>) (policy_previews d)\<rparr>;
          d2 = audit_command tk co ''policy.activated'' (tk_policy_id tk) ''preview_confirmed'' None (Some h)
                 [(''policy_revision'', Some (JNum (Whole 1)))] d1
      in snd (enqueue_reconcile (tk_now tk) (tk_job_id tk) (co_organization co) (revision_key (tk_policy_id tk) 1) (tk_policy_id tk) d2))"

definition activate_body ::
  "platform \<Rightarrow> (string \<Rightarrow> string) \<Rightarrow> ticket \<Rightarrow> command \<Rightarrow> string \<Rightarrow> (string \<times> int) transaction" where
  "activate_body pf sha tk co previewId =
     bindT (readT (\<lambda>d. usable_preview (tk_now tk) (find (\<lambda>p. pp_id p = previewId \<and> pp_organization p = co_organization co
              \<and> pp_principal p = co_principal co) (policy_previews d)))) (\<lambda>r.
     bindT (foundT r ''preview_stale'' ''preview is missing, expired, or already consumed'') (\<lambda>p.
     bindT (requireT (isCompletePreviewResult (pp_result p)) ''preview_stale'' ''preview was incomplete and cannot be activated'') (\<lambda>_.
     bindT (readT (\<lambda>d. activation_calendars d (co_organization co) (pp_document p))) (\<lambda>c.
     bindT (liftS c) (\<lambda>(s, t).
     bindT (readT (\<lambda>d. activation_cursor sha d (co_organization co) p s)) (\<lambda>u.
     bindT (liftS u) (\<lambda>_.
     bindT (liftS (inline_hours_of pf (pp_document p))) (\<lambda>inline.
     let hoursProfileId = (if inline \<noteq> None then Some (tk_hours_id tk) else pd_hours_profile_id (pp_document p)) in
     bindT (insert_hours tk (co_organization co) inline) (\<lambda>_.
     bindT (liftS (liftE (\<lambda>e. SyncThrew (HashThrew e))
              (sha256Canonical sha (persisted_json (policyDraftForPersistence (pp_document p) hoursProfileId))))) (\<lambda>h.
     bindT (insert_policy (new_policy tk (co_organization co) (pp_document p) s t hoursProfileId h)) (\<lambda>_.
     bindT (writeT (finish_activation tk co previewId h)) (\<lambda>_.
       returnT (tk_policy_id tk, 1)))))))))))))"

definition activate ::
  "platform \<Rightarrow> (string \<Rightarrow> bool) \<Rightarrow> (string \<Rightarrow> string) \<Rightarrow> ticket \<Rightarrow> command \<Rightarrow> string \<Rightarrow> (string \<times> int) transaction" where
  "activate pf valid_uuid sha tk co previewId =
     bindT (liftS (requireLocalPolicyId valid_uuid previewId ''preview token'')) (\<lambda>_. in_transaction (activate_body pf sha tk co previewId))"

subsection \<open>Pausing, resuming and asking for a pass\<close>

definition find_live_policy :: "string \<Rightarrow> string \<Rightarrow> db \<Rightarrow> policy_row option" where
  "find_live_policy org policyId d =
     find (\<lambda>p. sp_organization p = org \<and> sp_id p = policyId \<and> sp_status p \<noteq> PolicyDeleted) (policies d)"

definition status_text :: "policy_status \<Rightarrow> string" where
  "status_text s = (case s of PolicyActive \<Rightarrow> ''active'' | PolicyPaused \<Rightarrow> ''paused'' | PolicyDeleted \<Rightarrow> ''deleted'')"

definition resume_checks :: "db \<Rightarrow> string \<Rightarrow> policy_row \<Rightarrow> service_error + unit" where
  "resume_checks d org p =
     bindE (requireNoConflictResponseRule d org [sp_source_identity p, sp_destination_identity p]) (\<lambda>_.
     bindE (requirePolicyCalendars (loadPolicyCalendarCapabilities d org (sp_source_calendar p) (sp_destination_calendar p))
              (sp_source_calendar p) (sp_destination_calendar p)) (\<lambda>(s, t).
       require (calendar_identity s = sp_source_identity p \<and> calendar_identity t = sp_destination_identity p)
         ''connection_role_changed'' ''calendar identity changed while the bridge was paused''))"

definition wake_deferred :: "int \<Rightarrow> policy_row \<Rightarrow> db \<Rightarrow> db" where
  "wake_deferred nowMs p d =
     d\<lparr>effects := update_where (\<lambda>e. oe_policy e = sp_id p \<and> oe_policy_revision e = sp_revision p \<and> oe_state e = Retry
           \<and> oe_error e = Some ''policy_paused'')
         (\<lambda>e. e\<lparr>oe_run_after := nowMs, oe_error := None, oe_updated := nowMs\<rparr>) (effects d)\<rparr>"

definition set_status :: "int \<Rightarrow> string \<Rightarrow> policy_status \<Rightarrow> db \<Rightarrow> db" where
  "set_status nowMs policyId status d =
     d\<lparr>policies := update_where (\<lambda>p. sp_id p = policyId) (\<lambda>p. p\<lparr>sp_status := status, sp_updated := nowMs\<rparr>) (policies d)\<rparr>"

definition paused_state :: "ticket \<Rightarrow> command \<Rightarrow> policy_row \<Rightarrow> bool \<Rightarrow> db \<Rightarrow> db" where
  "paused_state tk co p paused d =
     (let nextStatus = (if paused then PolicyPaused else PolicyActive);
          d1 = set_status (tk_now tk) (sp_id p) nextStatus d;
          d2 = (if paused then d1 else wake_deferred (tk_now tk) p d1);
          d3 = audit_command tk co (if paused then ''policy.paused'' else ''policy.resumed'') (sp_id p) ''user_command''
                 (Some (sp_hash p)) (Some (sp_hash p))
                 [(''previous_status'', Some (JStr (status_text (sp_status p)))), (''status'', Some (JStr (status_text nextStatus)))] d2
      in if paused then d3
         else snd (enqueue_reconcile (tk_now tk) (tk_job_id tk) (co_organization co) (revision_key (sp_id p) (sp_revision p)) (sp_id p) d3))"

definition setPaused :: "(string \<Rightarrow> bool) \<Rightarrow> ticket \<Rightarrow> command \<Rightarrow> string \<Rightarrow> bool \<Rightarrow> unit transaction" where
  "setPaused valid_uuid tk co policyId paused =
     bindT (liftS (requireLocalPolicyId valid_uuid policyId ''sync policy'')) (\<lambda>_.
     in_transaction (
       bindT (readT (find_live_policy (co_organization co) policyId)) (\<lambda>r.
       bindT (foundT r ''not_found'' ''sync policy was not found'') (\<lambda>p.
       bindT (readT (\<lambda>d. if paused then Inr () else resume_checks d (co_organization co) p)) (\<lambda>c.
       bindT (liftS c) (\<lambda>_.
         writeT (paused_state tk co p paused)))))))"

definition reconcile_now :: "ticket \<Rightarrow> command \<Rightarrow> string \<Rightarrow> policy_row \<Rightarrow> string option transaction" where
  "reconcile_now tk co policyId p d =
     (let (j, d1) = enqueue_reconcile (tk_now tk) (tk_job_id tk) (co_organization co) (revision_key policyId (sp_revision p)) policyId d
      in (Inr j, audit_command tk co ''policy.reconcile_requested'' policyId ''user_command'' (Some (sp_hash p)) (Some (sp_hash p))
            [(''enqueued'', Some (JBool (j \<noteq> None)))] d1))"

definition requestReconcile :: "(string \<Rightarrow> bool) \<Rightarrow> ticket \<Rightarrow> command \<Rightarrow> string \<Rightarrow> string option transaction" where
  "requestReconcile valid_uuid tk co policyId =
     bindT (liftS (requireLocalPolicyId valid_uuid policyId ''sync policy'')) (\<lambda>_.
     in_transaction (
       bindT (readT (find_live_policy (co_organization co) policyId)) (\<lambda>r.
       bindT (foundT r ''not_found'' ''sync policy was not found'') (\<lambda>p.
         reconcile_now tk co policyId p))))"

text \<open>The list of an organization: its policies in the order of their creation.\<close>

definition list_policies :: "string \<Rightarrow> db \<Rightarrow> policy_row list" where
  "list_policies org d = filter (\<lambda>p. sp_organization p = org \<and> sp_status p \<noteq> PolicyDeleted) (policies d)"

subsection \<open>What a successful command has checked and written\<close>

lemma require_Inr [simp]: "require ok c m = Inr u \<longleftrightarrow> ok"
  by (simp add: require_def input_error_def)

lemma liftS_Inr: "liftS x d = (Inr a, d') \<longleftrightarrow> x = Inr a \<and> d' = d"
  by (auto simp: liftS_def)

lemma insert_policy_Inr:
  "insert_policy p d = (Inr u, d') \<longleftrightarrow> (\<forall>q \<in> set (policies d). sp_id q \<noteq> sp_id p) \<and> d' = d\<lparr>policies := policies d @ [p]\<rparr>"
  by (auto simp: insert_policy_def list_ex_iff)

lemma requirePolicyCalendars_Inr:
  assumes "requirePolicyCalendars ks a b = Inr (s, t)"
  shows "find (\<lambda>k. ce_id (fst k) = a) ks = Some s" "find (\<lambda>k. ce_id (fst k) = b) ks = Some t"
    "source_usable (fst s) (snd s)" "destination_usable (fst t) (snd t)" "calendar_identity s \<noteq> calendar_identity t"
  using assms by (auto simp: requirePolicyCalendars_def bindE_Inr_iff input_error_def split: option.split_asm)

lemma requireNoConflictResponseRule_Inr:
  "requireNoConflictResponseRule d org ids = Inr u \<longleftrightarrow> (\<forall>i \<in> set ids. \<not> protected_calendar d org i)"
  by (auto simp: requireNoConflictResponseRule_def list_ex_iff)

lemma activation_calendars_Inr:
  assumes "activation_calendars d org draft = Inr (s, t)"
  shows "calendar_identity s \<noteq> calendar_identity t" "\<not> protected_calendar d org (calendar_identity s)"
    "\<not> protected_calendar d org (calendar_identity t)" "source_usable (fst s) (snd s)" "destination_usable (fst t) (snd t)"
proof -
  from assms obtain s0 t0 where a: "requirePolicyCalendars (loadPolicyCalendarCapabilities d org (pd_source_calendar draft) (pd_destination_calendar draft))
      (pd_source_calendar draft) (pd_destination_calendar draft) = Inr (s0, t0)"
    "requireNoConflictResponseRule d org [calendar_identity s0, calendar_identity t0] = Inr ()" "s = s0" "t = t0"
    by (auto simp: activation_calendars_def Let_def bindE_Inr_iff)
  show "calendar_identity s \<noteq> calendar_identity t" "\<not> protected_calendar d org (calendar_identity s)"
    "\<not> protected_calendar d org (calendar_identity t)" "source_usable (fst s) (snd s)" "destination_usable (fst t) (snd t)"
    using requirePolicyCalendars_Inr [OF a(1)] a by (auto simp: requireNoConflictResponseRule_Inr)
qed

lemma enqueue_reconcile_keeps:
  "enqueue_reconcile n j org key pid d = (r, d') \<Longrightarrow> \<exists>q. d' = d\<lparr>jobs_table := q\<rparr>"
  by (auto simp: enqueue_reconcile_def split: sum.splits prod.splits intro: exI [of _ "jobs_table d"])

text \<open>The tables that the end of an activation changes.\<close>

lemma finish_activation_tables:
  "policies (finish_activation tk co pid h d) = policies d"
  "hours_profiles (finish_activation tk co pid h d) = hours_profiles d"
  "conflict_rules (finish_activation tk co pid h d) = conflict_rules d"
  "availability_calendars (finish_activation tk co pid h d) = availability_calendars d"
  "effects (finish_activation tk co pid h d) = effects d"
  "policy_previews (finish_activation tk co pid h d) =
     update_where (\<lambda>p. pp_id p = pid) (\<lambda>p. p\<lparr>pp_consumed := Some (tk_now tk)\<rparr>) (policy_previews d)"
proof -
  define d2 where "d2 = audit_command tk co ''policy.activated'' (tk_policy_id tk) ''preview_confirmed'' None (Some h)
    [(''policy_revision'', Some (JNum (Whole 1)))]
    (d\<lparr>policy_previews := update_where (\<lambda>p. pp_id p = pid) (\<lambda>p. p\<lparr>pp_consumed := Some (tk_now tk)\<rparr>) (policy_previews d)\<rparr>)"
  obtain r d3 where e: "enqueue_reconcile (tk_now tk) (tk_job_id tk) (co_organization co) (revision_key (tk_policy_id tk) 1) (tk_policy_id tk) d2 = (r, d3)"
    by fastforce
  then obtain q where q: "d3 = d2\<lparr>jobs_table := q\<rparr>" using enqueue_reconcile_keeps by blast
  have f: "finish_activation tk co pid h d = d3" by (simp add: finish_activation_def Let_def d2_def [symmetric] e)
  show "policies (finish_activation tk co pid h d) = policies d"
    "hours_profiles (finish_activation tk co pid h d) = hours_profiles d"
    "conflict_rules (finish_activation tk co pid h d) = conflict_rules d"
    "availability_calendars (finish_activation tk co pid h d) = availability_calendars d"
    "effects (finish_activation tk co pid h d) = effects d"
    "policy_previews (finish_activation tk co pid h d) =
       update_where (\<lambda>p. pp_id p = pid) (\<lambda>p. p\<lparr>pp_consumed := Some (tk_now tk)\<rparr>) (policy_previews d)"
    by (simp_all add: f q d2_def audit_command_def)
qed

lemma insert_hours_Inr:
  assumes "insert_hours tk org inline d = (Inr u, d')"
  shows "d' = d\<lparr>hours_profiles := hours_profiles d'\<rparr>"
    "inline = None \<Longrightarrow> hours_profiles d' = hours_profiles d"
    "inline = Some h \<Longrightarrow> (\<forall>r \<in> set (hours_profiles d). hp_id r \<noteq> tk_hours_id tk)
       \<and> hours_profiles d' = hours_profiles d @ [\<lparr>hp_id = tk_hours_id tk, hp_organization = org, hp_name = ih_name h,
                 hp_timezone = ih_timezone h, hp_ambiguous = ih_ambiguous h, hp_nonexistent = ih_nonexistent h,
                 hp_weekly = ih_weekly h, hp_exceptions = ih_exceptions h, hp_version = 1\<rparr>]"
  using assms by (auto simp: insert_hours_def list_ex_iff split: option.split_asm if_split_asm)

lemma activate_Inr:
  assumes "activate pf valid_uuid sha tk co pid d = (Inr r, d')"
  obtains p s t inline d1 h where
    "usable_preview (tk_now tk) (find (\<lambda>p. pp_id p = pid \<and> pp_organization p = co_organization co \<and> pp_principal p = co_principal co)
       (policy_previews d)) = Some p" "isCompletePreviewResult (pp_result p)"
    "activation_calendars d (co_organization co) (pp_document p) = Inr (s, t)"
    "activation_cursor sha d (co_organization co) p s = Inr ()" "inline_hours_of pf (pp_document p) = Inr inline"
    "insert_hours tk (co_organization co) inline d = (Inr (), d1)" "\<forall>q \<in> set (policies d). sp_id q \<noteq> tk_policy_id tk"
    "d' = finish_activation tk co pid h (d1\<lparr>policies := policies d @
       [new_policy tk (co_organization co) (pp_document p) s t (if inline \<noteq> None then Some (tk_hours_id tk) else pd_hours_profile_id (pp_document p)) h]\<rparr>)"
    "r = (tk_policy_id tk, 1)"
proof -
  from assms have "activate_body pf sha tk co pid d = (Inr r, d')"
    by (auto simp: activate_def transaction_Inr liftS_Inr)
  then obtain p s t inline d1 h where
    a: "usable_preview (tk_now tk) (find (\<lambda>p. pp_id p = pid \<and> pp_organization p = co_organization co \<and> pp_principal p = co_principal co)
       (policy_previews d)) = Some p" "isCompletePreviewResult (pp_result p)"
    "activation_calendars d (co_organization co) (pp_document p) = Inr (s, t)"
    "activation_cursor sha d (co_organization co) p s = Inr ()" "inline_hours_of pf (pp_document p) = Inr inline"
    and b: "insert_hours tk (co_organization co) inline d = (Inr (), d1)"
    and c: "\<forall>q \<in> set (policies d1). sp_id q \<noteq> tk_policy_id tk"
    "d' = finish_activation tk co pid h (d1\<lparr>policies := policies d1 @
       [new_policy tk (co_organization co) (pp_document p) s t (if inline \<noteq> None then Some (tk_hours_id tk) else pd_hours_profile_id (pp_document p)) h]\<rparr>)"
    "r = (tk_policy_id tk, 1)"
    unfolding activate_body_def Let_def
    by (simp add: transaction_Inr liftS_Inr insert_policy_Inr split: prod.splits) (auto simp: new_policy_def)
  moreover have "policies d1 = policies d" using insert_hours_Inr(1) [OF b] by (metis db.select_convs(5) db.surjective db.update_convs(4))
  ultimately show thesis by (intro that [OF a b]) simp_all
qed

subsection \<open>The activated policy is the previewed one\<close>

lemma inline_hours_of_Inr: "inline_hours_of pf draft = Inr inline \<Longrightarrow> inline \<noteq> None \<longleftrightarrow> json_truthy (pd_hours_profile draft)"
  by (auto simp: inline_hours_of_def bindE_Inr_iff split: if_split_asm)

lemma check_draft_Inr:
  assumes "check_draft pf u draft = Inr inline"
  shows "inline_hours_of pf draft = Inr inline" "pd_source_calendar draft \<noteq> pd_destination_calendar draft"
    "draft_hours_mode draft = AllTimes \<longleftrightarrow> \<not> is_truthy (pd_hours_profile_id draft) \<and> inline = None"
    "\<not> (is_truthy (pd_hours_profile_id draft) \<and> inline \<noteq> None)"
proof -
  let ?mode = "case pd_hours draft of Some (m, _) \<Rightarrow> m
    | None \<Rightarrow> if is_truthy (pd_hours_profile_id draft) \<or> inline \<noteq> None then OverlapsProfile else AllTimes"
  from assms have a: "inline_hours_of pf draft = Inr inline" "pd_source_calendar draft \<noteq> pd_destination_calendar draft"
    "\<not> (is_truthy (pd_hours_profile_id draft) \<and> json_truthy (pd_hours_profile draft))"
    "?mode = AllTimes \<or> is_truthy (pd_hours_profile_id draft) \<or> inline \<noteq> None"
    "?mode \<noteq> AllTimes \<or> \<not> (is_truthy (pd_hours_profile_id draft) \<or> inline \<noteq> None)"
    unfolding check_draft_def bindE_Inr_iff Let_def require_Inr by blast+
  note i = inline_hours_of_Inr [OF a(1)]
  have "draft_hours_mode draft = ?mode" unfolding draft_hours_mode_def i by simp
  with a i show "inline_hours_of pf draft = Inr inline" "pd_source_calendar draft \<noteq> pd_destination_calendar draft"
    "draft_hours_mode draft = AllTimes \<longleftrightarrow> \<not> is_truthy (pd_hours_profile_id draft) \<and> inline = None"
    "\<not> (is_truthy (pd_hours_profile_id draft) \<and> inline \<noteq> None)" by metis+
qed

text \<open>Compiling the stored form of a draft gives the previewed policy, with references of its own.\<close>

lemma persisted_compile:
  assumes "check_draft pf u draft = Inr inline" "newId \<noteq> []"
    "hid = (if inline \<noteq> None then Some newId else pd_hours_profile_id draft)"
  shows "compilePolicyDraft (policyDraftForPersistence draft hid) pid r Active None =
    (compilePolicyDraft draft ''preview'' r Active ref)\<lparr>policy_ref := pid, hours_profile_ref := (if is_truthy hid then hid else None)\<rparr>"
proof -
  note c = check_draft_Inr [OF assms(1)]
  have t: "is_truthy hid \<longleftrightarrow> is_truthy (pd_hours_profile_id draft) \<or> inline \<noteq> None"
    using assms(2) c(4) by (auto simp: assms(3) is_truthy_def)
  have m: "draft_hours_mode (policyDraftForPersistence draft hid) = draft_hours_mode draft"
    using inline_hours_of_Inr [OF c(1)] t
    by (auto simp: draft_hours_mode_def policyDraftForPersistence_def Let_def split: option.split)
  have n: "draft_hours_mode draft = AllTimes \<longleftrightarrow> \<not> is_truthy hid" using c(3) t by blast
  have p: "pd_hours (policyDraftForPersistence draft hid) =
      Some (draft_hours_mode draft, if draft_hours_mode draft \<noteq> AllTimes \<and> is_truthy hid then hid else None)"
    using inline_hours_of_Inr [OF c(1)] t
    by (auto simp: draft_hours_mode_def policyDraftForPersistence_def Let_def split: option.split)
  have q: "pd_hours_profile_id (policyDraftForPersistence draft hid) = hid"
    "pd_source_calendar (policyDraftForPersistence draft hid) = pd_source_calendar draft"
    "pd_destination_calendar (policyDraftForPersistence draft hid) = pd_destination_calendar draft"
    "pd_privacy (policyDraftForPersistence draft hid) = pd_privacy draft"
    "pd_selection (policyDraftForPersistence draft hid) = pd_selection draft"
    "pd_destination (policyDraftForPersistence draft hid) = pd_destination draft"
    "normalizeDestinationEditPolicy (pd_destination_edits (policyDraftForPersistence draft hid)) =
      normalizeDestinationEditPolicy (pd_destination_edits draft)"
    by (simp_all add: policyDraftForPersistence_def Let_def edit_policy_again)
  show ?thesis
    unfolding compilePolicyDraft_def Let_def m p q using n by (auto simp: or_else_def split: option.split)
qed

text \<open>Every stored preview is of a draft that passed the checks.\<close>

definition previews_checked :: "platform \<Rightarrow> (string \<Rightarrow> bool) \<Rightarrow> db \<Rightarrow> bool" where
  "previews_checked pf valid_uuid d \<longleftrightarrow> (\<forall>p \<in> set (policy_previews d). \<exists>inline. check_draft pf valid_uuid (pp_document p) = Inr inline)"

lemma preview_keeps_checked:
  assumes "preview t pf u sha n i org who draft d d' = Inr (v, d'')" "previews_checked pf u d'"
  shows "previews_checked pf u d''"
proof -
  from assms(1) obtain b where b: "preview_read t pf u sha n org draft d = Inr b" "preview_store sha n i org who draft b d' = Inr d''"
    by (auto simp: preview_def bindE_Inr_iff)
  from b(1) have "\<exists>inline. check_draft pf u draft = Inr inline" by (auto simp: preview_read_def bindE_Inr_iff)
  with assms(2) b(2) show ?thesis
    by (auto simp: preview_store_def bindE_Inr_iff Let_def previews_checked_def)
qed

lemma activate_keeps_checked:
  assumes "activate pf u sha tk co pid d = (Inr r, d')" "previews_checked pf u d"
  shows "previews_checked pf u d'"
proof (rule activate_Inr [OF assms(1)], goal_cases)
  case (1 p s t inline d1 h)
  have "policy_previews d1 = policy_previews d" using insert_hours_Inr(1) [OF 1(6)] by (metis db.select_convs(6) db.surjective db.update_convs(4))
  with 1(8) assms(2) show ?case by (auto simp: previews_checked_def finish_activation_tables in_update_where)
qed

lemma stored_profile:
  assumes "insert_hours tk org inline d = (Inr (), d1)" "preview_profile sha d org draft inline = Inr pr"
    "hours_profiles d' = hours_profiles d1" "tk_hours_id tk \<noteq> []" "\<not> (is_truthy (pd_hours_profile_id draft) \<and> inline \<noteq> None)"
    "hid = (if inline \<noteq> None then Some (tk_hours_id tk) else pd_hours_profile_id draft)"
  shows "loadHoursProfile d' org hid = map_option (\<lambda>x. x\<lparr>profile_ref := the hid\<rparr>) pr"
    "(if is_truthy hid then hid else None) = map_option profile_ref (loadHoursProfile d' org hid)"
proof -
  have one: "loadHoursProfile d' org hid = map_option (\<lambda>x. x\<lparr>profile_ref := the hid\<rparr>) pr
    \<and> (if is_truthy hid then hid else None) = map_option profile_ref (loadHoursProfile d' org hid)"
  proof (cases inline)
    case (Some h)
    note rows = insert_hours_Inr(3) [OF assms(1) Some]
    have "find (\<lambda>r. hp_organization r = org \<and> Some (hp_id r) = Some (tk_hours_id tk)) (hours_profiles d) = None"
      using rows by (auto simp: find_None_iff)
    then have "loadHoursProfile d' org (Some (tk_hours_id tk)) = Some \<lparr>profile_ref = tk_hours_id tk, profile_revision = 1,
      timezone = ih_timezone h, ambiguous = ih_ambiguous h, nonexistent = ih_nonexistent h, weekly = ih_weekly h, exceptions = ih_exceptions h\<rparr>"
      using rows assms(3,4) by (simp add: loadHoursProfile_def is_truthy_def find_snoc)
    with Some assms(2,4,6) show ?thesis
      by (auto simp: preview_profile_def inline_profile_def bindE_Inr_iff is_truthy_def)
  next
    case None
    have rows: "hours_profiles d' = hours_profiles d" using insert_hours_Inr(2) [OF assms(1) None] assms(3) by simp
    have "loadHoursProfile d' org hid = pr" and found: "is_truthy hid \<longrightarrow> pr \<noteq> None"
      using None assms(2,6) rows by (auto simp: preview_profile_def bindE_Inr_iff loadHoursProfile_def split: if_split_asm)
    moreover have "profile_ref x = the hid \<and> hid \<noteq> None" if "loadHoursProfile d' org hid = Some x" for x
      using that by (auto simp: loadHoursProfile_def is_truthy_def find_Some_iff split: if_split_asm)
    moreover have "\<not> is_truthy hid \<Longrightarrow> loadHoursProfile d' org hid = None" by (simp add: loadHoursProfile_def)
    ultimately show ?thesis by (cases pr) auto
  qed
  then show "loadHoursProfile d' org hid = map_option (\<lambda>x. x\<lparr>profile_ref := the hid\<rparr>) pr"
    "(if is_truthy hid then hid else None) = map_option profile_ref (loadHoursProfile d' org hid)" by simp_all
qed


lemma enqueue_reconcile_tables:
  "policies (snd (enqueue_reconcile n j org key q d)) = policies d" "effects (snd (enqueue_reconcile n j org key q d)) = effects d"
  "conflict_rules (snd (enqueue_reconcile n j org key q d)) = conflict_rules d"
  "availability_calendars (snd (enqueue_reconcile n j org key q d)) = availability_calendars d"
  by (simp_all add: enqueue_reconcile_def split: sum.split prod.split)

lemma usable_preview_Some:
  "usable_preview n (find P ps) = Some p \<Longrightarrow> p \<in> set ps \<and> P p \<and> pp_consumed p = None \<and> n < pp_expires p"
  by (auto simp: usable_preview_def find_Some_iff split: option.split_asm if_split_asm)

lemma preview_is_used_up:
  assumes "\<forall>p \<in> set (policy_previews d). pp_id p = pid \<longrightarrow> pp_consumed p \<noteq> None"
  shows "fst (activate pf u sha tk co pid d) \<noteq> Inr r"
proof
  assume "fst (activate pf u sha tk co pid d) = Inr r"
  then obtain d' where "activate pf u sha tk co pid d = (Inr r, d')" by (metis prod.collapse)
  then show False
  proof (rule activate_Inr, goal_cases)
    case (1 q)
    with usable_preview_Some [OF 1(1)] assms show False by blast
  qed
qed

lemma consumed_preview:
  assumes "d' = finish_activation tk co pid h d"
  shows "\<forall>p \<in> set (policy_previews d'). pp_id p = pid \<longrightarrow> pp_consumed p \<noteq> None"
  unfolding assms finish_activation_tables by (rule ballI, erule update_whereE) simp_all

lemma new_policy_fields:
  "sp_id (new_policy tk org draft s t hid h) = tk_policy_id tk" "sp_status (new_policy tk org draft s t hid h) = PolicyActive"
  "sp_revision (new_policy tk org draft s t hid h) = 1" "sp_hours_profile (new_policy tk org draft s t hid h) = hid"
  "sp_document (new_policy tk org draft s t hid h) = policyDraftForPersistence draft hid"
  "pd_horizon (policyDraftForPersistence draft hid) = pd_horizon draft"
  by (simp_all add: new_policy_def policyDraftForPersistence_def Let_def)

text \<open>
  C16: The activated policy is the previewed one. An activation takes a preview of the same user that has
  neither expired nor been used, adds exactly one policy, and this policy compiles to the policy that was
  previewed: only the references to itself and to its hours profile are new. The hours profile it will be
  evaluated with has the content of the previewed one, and the preview is used up: no later activation
  accepts it again.
\<close>

theorem activated_policy_is_the_previewed_one:
  assumes "activate pf valid_uuid sha tk co pid d = (Inr r, d')" "previews_checked pf valid_uuid d" "tk_hours_id tk \<noteq> ''''"
  shows "\<exists>p y inline. p \<in> set (policy_previews d) \<and> pp_id p = pid \<and> pp_principal p = co_principal co \<and> pp_consumed p = None
      \<and> tk_now tk < pp_expires p \<and> inline_hours_of pf (pp_document p) = Inr inline
      \<and> policies d' = policies d @ [y] \<and> r = (sp_id y, 1) \<and> sp_status y = PolicyActive \<and> sp_id y \<notin> sp_id ` set (policies d)
      \<and> pd_horizon (sp_document y) = pd_horizon (pp_document p)
      \<and> (\<forall>profile. preview_profile sha d (co_organization co) (pp_document p) inline = Inr profile \<longrightarrow>
           loadHoursProfile d' (co_organization co) (sp_hours_profile y) = map_option (\<lambda>x. x\<lparr>profile_ref := the (sp_hours_profile y)\<rparr>) profile
           \<and> compilePolicyDraft (sp_document y) (sp_id y) (sp_revision y) Active None =
             (compilePolicyDraft (pp_document p) ''preview'' 1 Active (map_option profile_ref profile))
               \<lparr>policy_ref := sp_id y, hours_profile_ref := map_option profile_ref (loadHoursProfile d' (co_organization co) (sp_hours_profile y))\<rparr>)
    \<and> fst (activate pf valid_uuid sha tk' co pid d') \<noteq> Inr r'"
proof (rule activate_Inr [OF assms(1)], goal_cases)
  case (1 p s t inline d1 h)
  let ?hid = "if inline \<noteq> None then Some (tk_hours_id tk) else pd_hours_profile_id (pp_document p)"
  let ?y = "new_policy tk (co_organization co) (pp_document p) s t ?hid h"
  note p = usable_preview_Some [OF 1(1)]
  then obtain i where i: "check_draft pf valid_uuid (pp_document p) = Inr i" using assms(2) by (auto simp: previews_checked_def)
  note c = check_draft_Inr [OF i]
  have inl: "i = inline" using c(1) 1(5) by simp
  have rows: "policies d' = policies d @ [?y]" "hours_profiles d' = hours_profiles d1" by (simp_all add: 1(8) finish_activation_tables)
  have fresh: "sp_id ?y \<notin> sp_id ` set (policies d)" using 1(7) by (auto simp: new_policy_fields)
  have profile: "\<forall>profile. preview_profile sha d (co_organization co) (pp_document p) inline = Inr profile \<longrightarrow>
      loadHoursProfile d' (co_organization co) ?hid = map_option (\<lambda>x. x\<lparr>profile_ref := the ?hid\<rparr>) profile
      \<and> compilePolicyDraft (policyDraftForPersistence (pp_document p) ?hid) (tk_policy_id tk) 1 Active None =
        (compilePolicyDraft (pp_document p) ''preview'' 1 Active (map_option profile_ref profile))
          \<lparr>policy_ref := tk_policy_id tk, hours_profile_ref := map_option profile_ref (loadHoursProfile d' (co_organization co) ?hid)\<rparr>"
  proof (intro allI impI)
    fix pr
    assume pr: "preview_profile sha d (co_organization co) (pp_document p) inline = Inr pr"
    note stored = stored_profile [OF 1(6) pr rows(2) assms(3) c(4) [unfolded inl] refl]
    note compiled = persisted_compile [OF i assms(3) refl, of "tk_policy_id tk" 1 "map_option profile_ref pr", unfolded inl stored(2)]
    show "loadHoursProfile d' (co_organization co) ?hid = map_option (\<lambda>x. x\<lparr>profile_ref := the ?hid\<rparr>) pr
      \<and> compilePolicyDraft (policyDraftForPersistence (pp_document p) ?hid) (tk_policy_id tk) 1 Active None =
        (compilePolicyDraft (pp_document p) ''preview'' 1 Active (map_option profile_ref pr))
          \<lparr>policy_ref := tk_policy_id tk, hours_profile_ref := map_option profile_ref (loadHoursProfile d' (co_organization co) ?hid)\<rparr>"
      by (rule conjI [OF stored(1) compiled])
  qed
  have used: "fst (activate pf valid_uuid sha tk' co pid d') \<noteq> Inr r'"
    by (rule preview_is_used_up [OF consumed_preview [OF 1(8)]])
  have ex: "\<exists>p y inline. p \<in> set (policy_previews d) \<and> pp_id p = pid \<and> pp_principal p = co_principal co \<and> pp_consumed p = None
      \<and> tk_now tk < pp_expires p \<and> inline_hours_of pf (pp_document p) = Inr inline
      \<and> policies d' = policies d @ [y] \<and> r = (sp_id y, 1) \<and> sp_status y = PolicyActive \<and> sp_id y \<notin> sp_id ` set (policies d)
      \<and> pd_horizon (sp_document y) = pd_horizon (pp_document p)
      \<and> (\<forall>profile. preview_profile sha d (co_organization co) (pp_document p) inline = Inr profile \<longrightarrow>
           loadHoursProfile d' (co_organization co) (sp_hours_profile y) = map_option (\<lambda>x. x\<lparr>profile_ref := the (sp_hours_profile y)\<rparr>) profile
           \<and> compilePolicyDraft (sp_document y) (sp_id y) (sp_revision y) Active None =
             (compilePolicyDraft (pp_document p) ''preview'' 1 Active (map_option profile_ref profile))
               \<lparr>policy_ref := sp_id y, hours_profile_ref := map_option profile_ref (loadHoursProfile d' (co_organization co) (sp_hours_profile y))\<rparr>)"
    by (rule exI [of _ p], rule exI [of _ ?y], rule exI [of _ inline], unfold new_policy_fields)
      (use p 1(5,9) rows(1) fresh profile in \<open>simp only: new_policy_fields, blast\<close>)
  from ex used show ?case by blast
qed

subsection \<open>Protected calendars stay out of bridges\<close>

text \<open>
  No active policy of an organization reads or writes a calendar that a private-reply rule of the
  organization protects.
\<close>

definition protection_respected :: "db \<Rightarrow> bool" where
  "protection_respected d \<longleftrightarrow> (\<forall>p \<in> set (policies d). sp_status p = PolicyActive \<longrightarrow>
     \<not> protected_calendar d (sp_organization p) (sp_source_identity p)
     \<and> \<not> protected_calendar d (sp_organization p) (sp_destination_identity p)
     \<and> sp_source_identity p \<noteq> sp_destination_identity p)"

lemma protected_calendar_cong:
  "conflict_rules d' = conflict_rules d \<Longrightarrow> availability_calendars d' = availability_calendars d
     \<Longrightarrow> protected_calendar d' org i = protected_calendar d org i"
  by (simp add: protected_calendar_def)

lemma activate_keeps_protection:
  assumes "activate pf u sha tk co pid d = (Inr r, d')" "protection_respected d"
  shows "protection_respected d'"
proof (rule activate_Inr [OF assms(1)], goal_cases)
  case (1 p s t inline d1 h)
  have d1: "conflict_rules d1 = conflict_rules d" "availability_calendars d1 = availability_calendars d"
    using 1(6) by (auto simp: insert_hours_def split: option.split_asm if_split_asm)
  have rows: "policies d' = policies d @ [new_policy tk (co_organization co) (pp_document p) s t
      (if inline \<noteq> None then Some (tk_hours_id tk) else pd_hours_profile_id (pp_document p)) h]"
    and same: "protected_calendar d' = protected_calendar d"
    by (simp_all add: 1(8) finish_activation_tables fun_eq_iff protected_calendar_def d1)
  show ?case
    using assms(2) activation_calendars_Inr [OF 1(3)] unfolding protection_respected_def rows same by (auto simp: new_policy_def)
qed

lemma setPaused_Inr:
  assumes "setPaused u tk co pid b d = (Inr x, d')"
  obtains p where "find_live_policy (co_organization co) pid d = Some p" "\<not> b \<longrightarrow> resume_checks d (co_organization co) p = Inr ()"
    "d' = paused_state tk co p b d"
  using assms by (auto simp: setPaused_def transaction_Inr liftS_Inr split: if_split_asm)

lemma resume_checks_Inr:
  assumes "resume_checks d org p = Inr ()"
  shows "\<not> protected_calendar d org (sp_source_identity p)" "\<not> protected_calendar d org (sp_destination_identity p)"
    "sp_source_identity p \<noteq> sp_destination_identity p"
proof -
  from assms obtain s t where "requirePolicyCalendars (loadPolicyCalendarCapabilities d org (sp_source_calendar p) (sp_destination_calendar p))
      (sp_source_calendar p) (sp_destination_calendar p) = Inr (s, t)"
    "calendar_identity s = sp_source_identity p" "calendar_identity t = sp_destination_identity p"
    "requireNoConflictResponseRule d org [sp_source_identity p, sp_destination_identity p] = Inr ()"
    by (auto simp: resume_checks_def bindE_Inr_iff)
  then show "\<not> protected_calendar d org (sp_source_identity p)" "\<not> protected_calendar d org (sp_destination_identity p)"
    "sp_source_identity p \<noteq> sp_destination_identity p"
    using requirePolicyCalendars_Inr(5) by (fastforce simp: requireNoConflictResponseRule_Inr)+
qed

lemma paused_state_tables:
  "conflict_rules (paused_state tk co p b d) = conflict_rules d" "availability_calendars (paused_state tk co p b d) = availability_calendars d"
  "policies (paused_state tk co p b d) = policies (set_status (tk_now tk) (sp_id p) (if b then PolicyPaused else PolicyActive) d)"
  "effects (paused_state tk co p b d) = effects (if b then d else wake_deferred (tk_now tk) p d)"
proof -
  show "conflict_rules (paused_state tk co p b d) = conflict_rules d" "availability_calendars (paused_state tk co p b d) = availability_calendars d"
    "policies (paused_state tk co p b d) = policies (set_status (tk_now tk) (sp_id p) (if b then PolicyPaused else PolicyActive) d)"
    "effects (paused_state tk co p b d) = effects (if b then d else wake_deferred (tk_now tk) p d)"
    by (simp_all add: paused_state_def Let_def enqueue_reconcile_tables audit_command_def set_status_def wake_deferred_def)
qed


lemma setPaused_keeps_protection:
  assumes "setPaused u tk co pid b d = (Inr x, d')" "protection_respected d" "distinct (map sp_id (policies d))"
  shows "protection_respected d'" "map sp_id (policies d') = map sp_id (policies d)" "policy_previews d' = policy_previews d"
proof -
  from assms(1) obtain p where p: "find_live_policy (co_organization co) pid d = Some p"
    and checks: "\<not> b \<longrightarrow> resume_checks d (co_organization co) p = Inr ()" and d': "d' = paused_state tk co p b d"
    by (rule setPaused_Inr)
  have mem: "p \<in> set (policies d)" "sp_organization p = co_organization co" using p by (auto simp: find_live_policy_def find_Some_iff)
  have one: "q = p" if "q \<in> set (policies d)" "sp_id q = sp_id p" for q
    using that mem(1) assms(3) by (auto simp: distinct_map inj_on_def)
  have same: "protected_calendar d' = protected_calendar d"
    by (simp add: fun_eq_iff protected_calendar_def d' paused_state_tables)
  have rows: "policies d' = update_where (\<lambda>q. sp_id q = sp_id p)
      (\<lambda>q. q\<lparr>sp_status := (if b then PolicyPaused else PolicyActive), sp_updated := tk_now tk\<rparr>) (policies d)"
    by (simp add: d' paused_state_tables set_status_def)
  show "protection_respected d'"
    unfolding protection_respected_def same rows
  proof (rule ballI, erule update_whereE, goal_cases)
    case (1 q' q)
    with one have q: "q = p" by blast
    show ?case
    proof (cases b)
      case False
      with resume_checks_Inr [of d "co_organization co" p] checks 1(3) mem(2) q show ?thesis by simp
    qed (use 1(3) in simp)
  next
    case (2 q')
    with assms(2) show ?case by (simp add: protection_respected_def)
  qed
  show "map sp_id (policies d') = map sp_id (policies d)" unfolding rows by (rule map_update_where) simp
  show "policy_previews d' = policy_previews d"
    by (simp add: d' paused_state_def Let_def enqueue_reconcile_def audit_command_def set_status_def wake_deferred_def
        split: sum.split prod.split)
qed

lemma requestReconcile_Inr:
  assumes "requestReconcile u tk co pid d = (Inr x, d')"
  shows "\<exists>q a. d' = d\<lparr>jobs_table := q, audits := a\<rparr>"
proof -
  from assms obtain p where "reconcile_now tk co pid p d = (Inr x, d')"
    by (auto simp: requestReconcile_def transaction_Inr liftS_Inr)
  then obtain j d1 where e: "enqueue_reconcile (tk_now tk) (tk_job_id tk) (co_organization co) (revision_key pid (sp_revision p)) pid d = (j, d1)"
    and d': "d' = audit_command tk co ''policy.reconcile_requested'' pid ''user_command'' (Some (sp_hash p)) (Some (sp_hash p))
      [(''enqueued'', Some (JBool (j \<noteq> None)))] d1"
    unfolding reconcile_now_def by (auto split: prod.split_asm)
  from enqueue_reconcile_keeps [OF e] d' show ?thesis by (auto simp: audit_command_def)
qed

text \<open>The commands of the service, in any order and by anybody.\<close>

inductive policy_step :: "platform \<Rightarrow> (string \<Rightarrow> bool) \<Rightarrow> db \<Rightarrow> db \<Rightarrow> bool" for pf valid_uuid where
  step_preview: "preview t pf valid_uuid sha n i org who draft d0 d = Inr (v, d') \<Longrightarrow> policy_step pf valid_uuid d d'"
| step_activate: "activate pf valid_uuid sha tk co pid d = (Inr r, d') \<Longrightarrow> policy_step pf valid_uuid d d'"
| step_pause: "setPaused valid_uuid tk co pid b d = (Inr u, d') \<Longrightarrow> policy_step pf valid_uuid d d'"
| step_reconcile: "requestReconcile valid_uuid tk co pid d = (Inr j, d') \<Longrightarrow> policy_step pf valid_uuid d d'"

definition service_ok :: "platform \<Rightarrow> (string \<Rightarrow> bool) \<Rightarrow> db \<Rightarrow> bool" where
  "service_ok pf valid_uuid d \<longleftrightarrow> protection_respected d \<and> previews_checked pf valid_uuid d \<and> distinct (map sp_id (policies d))"

lemma preview_tables:
  assumes "preview t pf u sha n i org who draft d0 d = Inr (v, d')"
  shows "\<exists>ps. d' = d\<lparr>policy_previews := ps\<rparr>"
  using assms by (auto simp: preview_def preview_store_def bindE_Inr_iff Let_def)

lemma activate_distinct:
  assumes "activate pf u sha tk co pid d = (Inr r, d')" "distinct (map sp_id (policies d))"
  shows "distinct (map sp_id (policies d'))"
proof (rule activate_Inr [OF assms(1)], goal_cases)
  case (1 p s t inline d1 h)
  then have "policies d' = policies d @ [new_policy tk (co_organization co) (pp_document p) s t
      (if inline \<noteq> None then Some (tk_hours_id tk) else pd_hours_profile_id (pp_document p)) h]"
    by (simp add: finish_activation_tables)
  with 1(7) assms(2) show ?case by (auto simp: new_policy_fields)
qed

lemma policy_step_ok:
  assumes "policy_step pf u d d'" "service_ok pf u d"
  shows "service_ok pf u d'"
  using assms
proof (induction rule: policy_step.induct)
  case (step_preview t sha n i org who draft d0 d v d')
  from preview_tables [OF this(1)] preview_keeps_checked [OF this(1)] this(2) show ?case
    by (auto simp: service_ok_def protection_respected_def protected_calendar_def)
next
  case (step_activate sha tk co pid d r d')
  with activate_keeps_protection [OF this(1)] activate_keeps_checked [OF this(1)] activate_distinct [OF this(1)]
  show ?case by (simp add: service_ok_def)
next
  case (step_pause tk co pid b d x d')
  with setPaused_keeps_protection [OF this(1)] show ?case by (simp add: service_ok_def previews_checked_def)
next
  case (step_reconcile tk co pid d j d')
  from requestReconcile_Inr [OF this(1)] this(2) show ?case
    by (auto simp: service_ok_def protection_respected_def protected_calendar_def previews_checked_def)
qed

text \<open>
  C17: Protected calendars stay out of bridges. However policies are previewed, activated, paused, resumed and
  reconciled, no active policy reads or writes a calendar that a private-reply rule protects, and no active
  policy copies a calendar onto itself, under whatever connections the calendar is reached.
\<close>

theorem protected_calendars_stay_out:
  assumes "(policy_step pf valid_uuid)\<^sup>*\<^sup>* d d'" "service_ok pf valid_uuid d"
    "p \<in> set (policies d')" "sp_status p = PolicyActive"
  shows "\<not> protected_calendar d' (sp_organization p) (sp_source_identity p)
    \<and> \<not> protected_calendar d' (sp_organization p) (sp_destination_identity p) \<and> sp_source_identity p \<noteq> sp_destination_identity p"
proof -
  from assms(1,2) have "service_ok pf valid_uuid d'"
    by (induction rule: rtranclp_induct) (auto intro: policy_step_ok)
  with assms(3,4) show ?thesis by (simp add: service_ok_def protection_respected_def)
qed

subsection \<open>Pausing and resuming\<close>

text \<open>
  C19: A paused effect waits for the resumption. An effect that is run while its policy is paused reaches no
  provider and is put off without using up an attempt; when the policy is resumed, it is due at once, like
  every effect that waited for the pause. It comes back with its read-before-write mark cleared, also when it
  had been marked, because its earlier outcome was unknown.
\<close>

theorem paused_effect_waits_for_resumption:
  assumes "e \<in> set (effects d)" "holds_effect (le_id eff) owner e" "oe_organization e = le_organization eff"
    "find_effect_policy d eff = Some (p, se, sc)" "sp_status p = PolicyPaused" "oe_policy e = sp_id p" "oe_policy_revision e = sp_revision p"
    "executeOneLocked pv sha st owner eff d h = (Inr d1, h1)"
    "setPaused valid_uuid tk co (sp_id p) False d1 = (Inr (), d2)" "distinct (map sp_id (policies d))"
  shows "h1 = h \<and> (\<exists>e' \<in> set (effects d2). oe_id e' = le_id eff
    \<and> e' = e\<lparr>oe_state := Retry, oe_attempts := oe_attempts e - 1, oe_run_after := tk_now tk, oe_owner := None, oe_expires := None,
             oe_ambiguous := False, oe_error := None, oe_updated := tk_now tk\<rparr>)"
proof -
  have "list_ex (\<lambda>e. oe_organization e = le_organization eff \<and> holds_effect (le_id eff) owner e) (effects d)"
    using assms(1-3) by (auto simp: list_ex_iff)
  then have d1: "d1 = defer_effect st owner eff ''policy_paused'' d" "h1 = h"
    using assms(8) by (simp_all add: executeOneLocked_def assms(4) effectPolicyExecutionDisposition_def assms(5))
  define f where "f = e\<lparr>oe_state := Retry, oe_attempts := oe_attempts e - 1, oe_run_after := st_now st + 24 * 60 * 60000,
    oe_ambiguous := False, oe_error := Some ''policy_paused'', oe_updated := st_now st, oe_owner := None, oe_expires := None\<rparr>"
  have f: "f \<in> set (effects d1)"
    using assms(1,2) by (auto simp: d1 f_def defer_effect_def audit_effect_def settle_def in_update_where)
  have pol: "policies d1 = policies d" by (simp add: d1 defer_effect_def audit_effect_def settle_def)
  from assms(9) obtain q where q: "find_live_policy (co_organization co) (sp_id p) d1 = Some q" "d2 = paused_state tk co q False d1"
    by (rule setPaused_Inr)
  have "q \<in> set (policies d)" "sp_id q = sp_id p" using q(1) pol by (auto simp: find_live_policy_def find_Some_iff)
  moreover have "p \<in> set (policies d)" using assms(4) by (auto simp: find_effect_policy_def find_Some_iff split: bind_splits)
  ultimately have "q = p" using assms(10) by (auto simp: distinct_map inj_on_def)
  then have "effects d2 = effects (wake_deferred (tk_now tk) p d1)" by (simp add: q(2) paused_state_tables)
  with f have "f\<lparr>oe_run_after := tk_now tk, oe_error := None, oe_updated := tk_now tk\<rparr> \<in> set (effects d2)"
    using assms(6,7) by (auto simp: wake_deferred_def in_update_where f_def intro!: bexI [of _ f])
  moreover have "oe_id e = le_id eff" using assms(2) by (simp add: holds_effect_def)
  ultimately show ?thesis using d1(2) by (intro conjI bexI [of _ "f\<lparr>oe_run_after := tk_now tk, oe_error := None, oe_updated := tk_now tk\<rparr>"]) (simp_all add: f_def)
qed


subsection \<open>Concrete commands\<close>

definition home_cursor :: cursor_row where
  "home_cursor = \<lparr>cu_id = ''cu'', cu_organization = ''o'', cu_calendar = ''home'', cu_fingerprint = ''sha256:168'', cu_token = Some ''t'',
     cu_generation = 1, cu_state = CursorReady, cu_last_started = Some 0, cu_last_full = Some 0, cu_last_success = Some 0, cu_error = None,
     cu_updated = 0\<rparr>"

definition home_preview :: preview_row where
  "home_preview = \<lparr>pp_id = ''v1'', pp_organization = ''o'', pp_principal = ''u'', pp_document = home_draft, pp_hash = ''sha256:0'',
     pp_cursor_fingerprint = ''sha256:84'', pp_result = result_json empty_preview, pp_expires = 900, pp_consumed = None\<rparr>"

definition home_db :: db where
  "home_db = empty_db\<lparr>connections := [sample_connection], endpoints := [sample_endpoint ''home'', sample_endpoint ''work''],
     cursors := [home_cursor], policy_previews := [home_preview]\<rparr>"

definition home_ticket :: ticket where
  "home_ticket = \<lparr>tk_now = 100, tk_policy_id = ''p9'', tk_hours_id = ''h1'', tk_audit_id = ''a1'', tk_job_id = ''j1''\<rparr>"

definition home_command :: command where
  "home_command = \<lparr>co_organization = ''o'', co_principal = ''u'', co_actor = ActorUser, co_token = None\<rparr>"

abbreviation any_id :: "string \<Rightarrow> bool" where
  "any_id \<equiv> \<lambda>i. True"

lemma home_calendars:
  "activation_calendars home_db ''o'' home_draft =
     Inr ((sample_endpoint ''home'', sample_connection), (sample_endpoint ''work'', sample_connection))"
proof -
  have "loadPolicyCalendarCapabilities home_db ''o'' ''home'' ''work'' =
      [(sample_endpoint ''home'', sample_connection), (sample_endpoint ''work'', sample_connection)]"
    by (simp add: loadPolicyCalendarCapabilities_def home_db_def sample_connection_def sample_endpoint_def)
  moreover have "calendar_identity (sample_endpoint ''home'', sample_connection) \<noteq> calendar_identity (sample_endpoint ''work'', sample_connection)"
    by (simp add: calendar_identity_def same_identity_iff sample_endpoint_def sample_connection_def)
  moreover have "\<not> protected_calendar home_db ''o'' i" for i
    by (simp add: protected_calendar_def home_db_def empty_db_def)
  ultimately show ?thesis
    by (simp add: activation_calendars_def home_draft_def requirePolicyCalendars_def requireNoConflictResponseRule_def require_def
        bindE_def source_usable_def destination_usable_def) (simp add: sample_endpoint_def sample_connection_def)
qed

lemma home_cursor_current: "activation_cursor sample_sha home_db ''o'' home_preview (sample_endpoint ''home'', sample_connection) = Inr ()"
proof -
  have fp: "query_fingerprint sample_sha (sample_endpoint ''home'', sample_connection) = Inr ''sha256:168''" by code_simp
  have rows: "source_cursors home_db ''o'' ''home'' ''sha256:168'' = [home_cursor]"
    by (simp add: source_cursors_def home_db_def home_cursor_def)
  have h: "cursor_fingerprint sample_sha [home_cursor] = Inr ''sha256:84''" by code_simp
  have "requireCompletedCursor [home_cursor] ''preview_stale'' = Inr ()" by (simp add: requireCompletedCursor_def home_cursor_def is_truthy_def)
  with fp rows h show ?thesis
    by (simp add: activation_cursor_def home_preview_def home_draft_def)
qed

lemma home_inline: "inline_hours_of utc_platform home_draft = Inr (Some office_hours)"
  using accepted_hours_again [OF office_hours_good]
  by (simp add: inline_hours_of_def home_draft_def json_truthy_def inline_hours_json_def liftE_def)

lemma home_activated:
  "\<exists>d'. activate utc_platform any_id sample_sha home_ticket home_command ''v1'' home_db = (Inr (''p9'', 1), d')"
proof -
  have found: "usable_preview 100 (find (\<lambda>p. pp_id p = ''v1'' \<and> pp_organization p = ''o'' \<and> pp_principal p = ''u'') (policy_previews home_db))
      = Some home_preview" by (simp add: home_db_def home_preview_def usable_preview_def)
  have complete: "isCompletePreviewResult (pp_result home_preview)"
    by (simp add: home_preview_def isCompletePreviewResult_def result_json_def is_record_def json_member_def)
  have doc: "pp_document home_preview = home_draft" by (simp add: home_preview_def)
  have hash: "sha256Canonical sample_sha (persisted_json (policyDraftForPersistence home_draft (Some ''h1''))) = Inr ''sha256:744''" by code_simp
  have none: "hours_profiles home_db = []" "policies home_db = []" by (simp_all add: home_db_def empty_db_def)
  show ?thesis
    by (simp add: activate_def activate_body_def in_transaction_def transaction_simps liftS_def requireLocalPolicyId_def require_def
        home_ticket_def home_command_def found complete doc home_calendars home_cursor_current home_inline insert_hours_def none hash
        insert_policy_def new_policy_def Let_def)
qed

lemma home_checked: "previews_checked utc_platform any_id home_db"
proof -
  have "check_draft utc_platform any_id home_draft = Inr (Some office_hours)"
    by (simp add: check_draft_def requirePolicyDraftIds_def require_def home_inline)
      (simp add: home_draft_def is_truthy_def)
  then show ?thesis by (simp add: previews_checked_def home_db_def home_preview_def)
qed

theorem activated_policy_is_the_previewed_one_witness:
  "\<exists>d' y. activate utc_platform any_id sample_sha home_ticket home_command ''v1'' home_db = (Inr (''p9'', 1), d') \<and> policies d' = [y]
     \<and> sp_status y = PolicyActive \<and> pd_horizon (sp_document y) = Some (7, 90)"
proof -
  from home_activated obtain d' where run: "activate utc_platform any_id sample_sha home_ticket home_command ''v1'' home_db = (Inr (''p9'', 1), d')" ..
  have "tk_hours_id home_ticket \<noteq> ''''" by (simp add: home_ticket_def)
  from activated_policy_is_the_previewed_one [OF run home_checked this] obtain p y where
    "p \<in> set (policy_previews home_db)" "policies d' = policies home_db @ [y]" "sp_status y = PolicyActive"
    "pd_horizon (sp_document y) = pd_horizon (pp_document p)" by blast
  with run show ?thesis by (auto simp: home_db_def empty_db_def home_preview_def home_draft_def)
qed

theorem protected_calendars_stay_out_witness:
  "\<exists>d' p. (policy_step utc_platform any_id)\<^sup>*\<^sup>* home_db d' \<and> p \<in> set (policies d') \<and> sp_status p = PolicyActive
     \<and> \<not> protected_calendar d' (sp_organization p) (sp_source_identity p)"
proof -
  from home_activated obtain d' where run: "activate utc_platform any_id sample_sha home_ticket home_command ''v1'' home_db = (Inr (''p9'', 1), d')" ..
  then have step: "(policy_step utc_platform any_id)\<^sup>*\<^sup>* home_db d'" by (intro r_into_rtranclp step_activate)
  have ok: "service_ok utc_platform any_id home_db"
    using home_checked by (simp add: service_ok_def protection_respected_def) (simp add: home_db_def empty_db_def)
  from run have "\<exists>y. y \<in> set (policies d') \<and> sp_status y = PolicyActive"
  proof (rule activate_Inr, goal_cases)
    case (1 p s t inline d1 h)
    then show ?case by (auto simp: finish_activation_tables new_policy_fields)
  qed
  then obtain y where y: "y \<in> set (policies d')" "sp_status y = PolicyActive" by blast
  from protected_calendars_stay_out [OF step ok y] step y show ?thesis by blast
qed

definition paused_db :: db where
  "paused_db = executor_db\<lparr>policies := [sample_policy_row\<lparr>sp_status := PolicyPaused\<rparr>]\<rparr>"

abbreviation deferred_db :: db where
  "deferred_db \<equiv> defer_effect sample_stamp ''w'' (leased_view sample_effect) ''policy_paused'' paused_db"

lemma deferred_run:
  "executeOneLocked sample_provider sample_sha sample_stamp ''w'' (leased_view sample_effect) paused_db [] = (Inr deferred_db, [])"
  "find_effect_policy paused_db (leased_view sample_effect) =
     Some (sample_policy_row\<lparr>sp_status := PolicyPaused\<rparr>, sample_endpoint ''home'', sample_connection)"
proof -
  show p: "find_effect_policy paused_db (leased_view sample_effect) =
     Some (sample_policy_row\<lparr>sp_status := PolicyPaused\<rparr>, sample_endpoint ''home'', sample_connection)"
    by (simp add: find_effect_policy_def endpoint_view_def paused_db_def executor_db_def leased_view_def sample_policy_row_def
        sample_effect_def sample_endpoint_def sample_connection_def)
  show "executeOneLocked sample_provider sample_sha sample_stamp ''w'' (leased_view sample_effect) paused_db [] = (Inr deferred_db, [])"
    by (simp add: executeOneLocked_def p effectPolicyExecutionDisposition_def)
      (simp add: paused_db_def executor_db_def leased_view_def sample_effect_def holds_effect_def)
qed

lemma deferred_resumes: "\<exists>d2. setPaused any_id home_ticket home_command ''p1'' False deferred_db = (Inr (), d2)"
proof -
  let ?p = "sample_policy_row\<lparr>sp_status := PolicyPaused\<rparr>"
  have tables: "policies deferred_db = [?p]" "endpoints deferred_db = endpoints executor_db" "connections deferred_db = connections executor_db"
    "conflict_rules deferred_db = conflict_rules executor_db"
    by (simp_all add: defer_effect_def audit_effect_def settle_def paused_db_def)
  have none: "\<not> protected_calendar deferred_db ''o'' i" for i by (simp add: protected_calendar_def tables executor_db_def empty_db_def)
  have found: "find_live_policy ''o'' ''p1'' deferred_db = Some ?p"
    by (simp add: find_live_policy_def tables sample_policy_row_def)
  have ks: "loadPolicyCalendarCapabilities deferred_db ''o'' ''home'' ''work'' =
      [(sample_endpoint ''home'', sample_connection), (sample_endpoint ''work'', sample_connection)]"
    by (simp add: loadPolicyCalendarCapabilities_def tables executor_db_def sample_connection_def sample_endpoint_def)
  have ids: "calendar_identity (sample_endpoint ''home'', sample_connection) = ''6:google6:global6:r-home''"
    "calendar_identity (sample_endpoint ''work'', sample_connection) = ''6:google6:global6:r-work''" by code_simp+
  have "requirePolicyCalendars [(sample_endpoint ''home'', sample_connection), (sample_endpoint ''work'', sample_connection)] ''home'' ''work''
      = Inr ((sample_endpoint ''home'', sample_connection), (sample_endpoint ''work'', sample_connection))"
    by (simp add: requirePolicyCalendars_def ids require_def bindE_def source_usable_def destination_usable_def)
      (simp add: sample_endpoint_def sample_connection_def)
  then have "resume_checks deferred_db ''o'' ?p = Inr ()"
    by (simp add: resume_checks_def requireNoConflictResponseRule_def none require_def sample_policy_row_def ks bindE_def ids)
  then show ?thesis
    by (simp add: setPaused_def in_transaction_def transaction_simps liftS_def requireLocalPolicyId_def require_def home_command_def found)
qed

theorem paused_effect_waits_for_resumption_witness:
  "\<exists>d2 e'. setPaused any_id home_ticket home_command ''p1'' False deferred_db = (Inr (), d2) \<and> e' \<in> set (effects d2)
     \<and> oe_state e' = Retry \<and> oe_run_after e' = 100 \<and> oe_attempts e' = 0"
proof -
  from deferred_resumes obtain d2 where run: "setPaused any_id home_ticket home_command ''p1'' False deferred_db = (Inr (), d2)" ..
  have id: "sp_id (sample_policy_row\<lparr>sp_status := PolicyPaused\<rparr>) = ''p1''" by (simp add: sample_policy_row_def)
  have e: "sample_effect \<in> set (effects paused_db)" "holds_effect (le_id (leased_view sample_effect)) ''w'' sample_effect"
    "oe_organization sample_effect = le_organization (leased_view sample_effect)" "distinct (map sp_id (policies paused_db))"
    by (simp_all add: paused_db_def executor_db_def leased_view_def sample_effect_def holds_effect_def)
  have q: "sp_status (sample_policy_row\<lparr>sp_status := PolicyPaused\<rparr>) = PolicyPaused"
    "oe_policy sample_effect = sp_id (sample_policy_row\<lparr>sp_status := PolicyPaused\<rparr>)"
    "oe_policy_revision sample_effect = sp_revision (sample_policy_row\<lparr>sp_status := PolicyPaused\<rparr>)"
    by (simp_all add: sample_effect_def sample_policy_row_def)
  from paused_effect_waits_for_resumption [OF e(1-3) deferred_run(2) q deferred_run(1) run [folded id] e(4)] run show ?thesis
    by (fastforce simp: sample_effect_def home_ticket_def)
qed

end
