(* ===== verification/Policy_Recovery.thy ===== *)
theory Policy_Recovery
  imports Policy_Service
begin

section \<open>Recovering blocked copies (server/src/policy/service.ts, \<open>retryBlocked\<close>)\<close>

text \<open>
  A copy is blocked when it is held or failed, or when an effect of it has died. The user asks for a
  recovery after looking at the destination. A dead effect that still fits is replayed; one that does
  not is superseded, and the evidence that the last pass has recorded takes its place; without such
  evidence a fresh pass is scheduled. The transaction covers all copies of the policy, a hundred at most.
\<close>

definition is_blocked :: "db \<Rightarrow> projection_row \<Rightarrow> bool" where
  "is_blocked d x \<longleftrightarrow> pr_status x \<in> {''held'', ''failed''}
     \<or> list_ex (\<lambda>e. oe_organization e = pr_organization x \<and> oe_projection e = pr_id x \<and> oe_state e = Dead) (effects d)"

definition blocked_projections :: "string \<Rightarrow> string \<Rightarrow> db \<Rightarrow> projection_row list" where
  "blocked_projections org policyId d =
     take 100 (sort_key pr_updated (filter (\<lambda>x. pr_organization x = org \<and> pr_policy x = policyId \<and> is_blocked d x) (projections d)))"

definition source_basis_matches :: "effect_row \<Rightarrow> projection_row \<Rightarrow> string option \<Rightarrow> bool" where
  "source_basis_matches dead x basis \<longleftrightarrow> basis \<noteq> None \<and> oe_basis dead \<noteq> None \<and> pr_basis x \<noteq> None
     \<and> oe_basis dead = pr_basis x \<and> oe_basis dead = basis"

definition dead_payload_matches :: "(string \<Rightarrow> string) \<Rightarrow> policy_row \<Rightarrow> effect_row \<Rightarrow> projection_row \<Rightarrow> sync_error + bool" where
  "dead_payload_matches sha p dead x =
     (if oe_operation dead = DeleteCopy then Inr (pr_desired_hash x = None \<and> pr_desired x = None)
      else case (oe_desired dead, pr_desired_hash x, pr_desired x) of
        (Some c, Some h, Some c') \<Rightarrow>
          if prov_policy_ref (d_provenance c) \<noteq> sp_id p \<or> prov_projection_ref (d_provenance c) \<noteq> pr_id x
             \<or> prov_generation (d_provenance c) \<noteq> pr_generation x
          then Inr False
          else bindE (liftE HashThrew (sha256Canonical sha (copy_json c))) (\<lambda>g.
               if g \<noteq> h then Inr False
               else bindE (liftE HashThrew (sha256Canonical sha (copy_json c'))) (\<lambda>g'. Inr (g' = h)))
      | _ \<Rightarrow> Inr False)"

subsection \<open>Replaying and superseding\<close>

definition replayed :: "int \<Rightarrow> effect_row \<Rightarrow> effect_row" where
  "replayed nowMs e = e\<lparr>oe_state := Retry, oe_attempts := 0, oe_run_after := nowMs, oe_owner := None, oe_expires := None,
     oe_ambiguous := True, oe_error := None, oe_updated := nowMs\<rparr>"

definition retrying_row :: "int \<Rightarrow> projection_row \<Rightarrow> projection_row" where
  "retrying_row nowMs x = x\<lparr>pr_recovery := None, pr_status := ''retrying'', pr_error := None, pr_updated := nowMs\<rparr>"

definition replay_dead :: "int \<Rightarrow> effect_row \<Rightarrow> projection_row \<Rightarrow> db \<Rightarrow> db" where
  "replay_dead nowMs dead x d =
     update_projection (pr_id x) (retrying_row nowMs)
       (d\<lparr>effects := update_where (\<lambda>e. oe_id e = oe_id dead \<and> oe_state e = Dead) (replayed nowMs) (effects d)\<rparr>)"

definition supersede_dead :: "int \<Rightarrow> policy_row \<Rightarrow> effect_row \<Rightarrow> db \<Rightarrow> db" where
  "supersede_dead nowMs p dead d =
     (let reasonCode = (if oe_policy_revision dead = sp_revision p then ''recovery_basis_changed'' else ''policy_revision_superseded'')
      in d\<lparr>effects := update_where (\<lambda>e. oe_id e = oe_id dead \<and> oe_state e = Dead)
           (\<lambda>e. e\<lparr>oe_state := Succeeded, oe_owner := None, oe_expires := None, oe_ambiguous := False, oe_error := Some reasonCode,
                  oe_updated := nowMs\<rparr>) (effects d)\<rparr>)"

text \<open>The copy is left as it is, with a note, and a pass will look at it afresh.\<close>

definition look_afresh :: "stamp \<Rightarrow> string \<Rightarrow> policy_row \<Rightarrow> projection_row \<Rightarrow> string \<Rightarrow> string \<Rightarrow> db \<Rightarrow> db" where
  "look_afresh st org p x status key d =
     snd (enqueue_reconcile (st_now st) (st_job_id st) org (revision_key (sp_id p) (sp_revision p) @ key) (sp_id p)
       (update_projection (pr_id x) (\<lambda>q. q\<lparr>pr_status := status, pr_error := Some ''recovery_basis_changed'', pr_updated := st_now st\<rparr>) d))"

subsection \<open>The recorded evidence\<close>

definition recovery_key :: "(string \<Rightarrow> string) \<Rightarrow> policy_row \<Rightarrow> projection_row \<Rightarrow> write_operation \<Rightarrow> sync_error + string" where
  "recovery_key sha p x op =
     liftE HashThrew (sha256Canonical sha (JObj [(''version'', Some (JNum (Whole 1))),
       (''kind'', Some (JStr ''user_requested_ambiguous_recovery'')), (''policy_ref'', Some (JStr (sp_id p))),
       (''policy_revision'', Some (JNum (Whole (sp_revision p)))), (''projection_ref'', Some (JStr (pr_id x))),
       (''generation'', Some (JNum (Whole (pr_generation x)))),
       (''intent_sequence'', Some (JNum (Whole (pr_intent_sequence x + 1)))), (''operation'', Some (JStr (write_text op))),
       (''desired_fingerprint'', Some (case pr_desired_hash x of None \<Rightarrow> JNull | Some h \<Rightarrow> JStr h))]))"

definition queue_recovery :: "(string \<Rightarrow> string) \<Rightarrow> stamp \<Rightarrow> string \<Rightarrow> policy_row \<Rightarrow> projection_row \<Rightarrow> write_operation \<Rightarrow> bool transaction" where
  "queue_recovery sha st org p x op =
     bindT (liftT (recovery_key sha p x op)) (\<lambda>key.
     bindT (insert_outbox (restore_effect st org p x op key)) (\<lambda>_.
     bindT (writeT (update_projection (pr_id x) (restored_row st x))) (\<lambda>_.
       returnT True)))"

definition recover_evidence ::
  "(string \<Rightarrow> string) \<Rightarrow> stamp \<Rightarrow> string \<Rightarrow> policy_row \<Rightarrow> projection_row \<Rightarrow> string option \<Rightarrow> effect_row option \<Rightarrow> bool transaction" where
  "recover_evidence sha st org p x basis superseded =
     (case pr_recovery x of
        Some op \<Rightarrow>
          if (superseded = None \<and> (pr_status x \<noteq> ''held'' \<or> pr_ownership x \<noteq> OwnAmbiguous)) \<or> pr_policy_revision x \<noteq> sp_revision p
          then (case superseded of
                  None \<Rightarrow> returnT False
                | Some e \<Rightarrow> bindT (writeT (look_afresh st org p x ''failed'' ('':recovery:'' @ oe_id e))) (\<lambda>_. returnT True))
          else if \<not> is_truthy basis \<or> \<not> is_truthy (pr_basis x) \<or> basis \<noteq> pr_basis x
          then bindT (writeT (look_afresh st org p x (if superseded = None then ''held'' else ''failed'') ('':recovery-basis:'' @ pr_id x)))
                 (\<lambda>_. returnT True)
          else bindT (liftT (evidence_consistent sha p x)) (\<lambda>ok.
                 if ok then queue_recovery sha st org p x op
                 else (case superseded of
                         None \<Rightarrow> returnT False
                       | Some _ \<Rightarrow> bindT (writeT (look_afresh st org p x ''failed'' ('':recovery-payload:'' @ pr_id x))) (\<lambda>_. returnT True)))
      | None \<Rightarrow>
          (case superseded of
             None \<Rightarrow> returnT False
           | Some e \<Rightarrow> bindT (writeT (look_afresh st org p x ''failed'' ('':recovery:'' @ oe_id e))) (\<lambda>_. returnT True)))"

subsection \<open>The command\<close>

definition recover_projection :: "(string \<Rightarrow> string) \<Rightarrow> string \<Rightarrow> policy_row \<Rightarrow> stamp \<Rightarrow> projection_row \<Rightarrow> bool transaction" where
  "recover_projection sha org p st x =
     bindT (readT (\<lambda>d. blocking_effect d org (pr_id x))) (\<lambda>dead.
     bindT (readT (\<lambda>d. current_basis sha d org x)) (\<lambda>b.
     bindT (liftT b) (\<lambda>basis.
       case dead of
         None \<Rightarrow> recover_evidence sha st org p x basis None
       | Some e \<Rightarrow>
           bindT (liftT (dead_payload_matches sha p e x)) (\<lambda>payload.
             if oe_policy_revision e = sp_revision p \<and> source_basis_matches e x basis \<and> payload
             then bindT (writeT (replay_dead (st_now st) e x)) (\<lambda>_. returnT True)
             else bindT (writeT (supersede_dead (st_now st) p e)) (\<lambda>_. recover_evidence sha st org p x basis (Some e))))))"

fun recover_all :: "(string \<Rightarrow> string) \<Rightarrow> string \<Rightarrow> policy_row \<Rightarrow> (nat \<Rightarrow> stamp) \<Rightarrow> nat \<Rightarrow> projection_row list \<Rightarrow> nat transaction" where
  "recover_all sha org p sts k [] = returnT 0"
| "recover_all sha org p sts k (x # xs) =
     bindT (recover_projection sha org p (sts k) x) (\<lambda>done.
     bindT (recover_all sha org p sts (Suc k) xs) (\<lambda>n. returnT (if done then n + 1 else n)))"

definition retryBlocked ::
  "(string \<Rightarrow> bool) \<Rightarrow> (string \<Rightarrow> string) \<Rightarrow> (nat \<Rightarrow> stamp) \<Rightarrow> ticket \<Rightarrow> command \<Rightarrow> string \<Rightarrow> nat transaction" where
  "retryBlocked valid_uuid sha sts tk co policyId =
     bindT (liftS (requireLocalPolicyId valid_uuid policyId ''sync policy'')) (\<lambda>_.
     in_transaction (
       bindT (readT (find_live_policy (co_organization co) policyId)) (\<lambda>r.
       bindT (foundT r ''not_found'' ''sync policy was not found'') (\<lambda>p.
       bindT (readT (blocked_projections (co_organization co) policyId)) (\<lambda>xs.
       bindT (recover_all sha (co_organization co) p sts 0 xs) (\<lambda>retried.
       bindT (writeT (audit_command tk co ''policy.recovery_requested'' policyId ''user_command'' (Some (sp_hash p)) (Some (sp_hash p))
                [(''effects_retried'', Some (JNum (Whole (int retried))))])) (\<lambda>_.
         returnT retried)))))))"

subsection \<open>What a recovery queues\<close>

text \<open>
  The demands on an effect that a recovery makes active again: it reads before it writes, it is of the
  current revision and of the current state of the source, and what it writes is what is recorded for the
  copy.
\<close>

definition vouched :: "(string \<Rightarrow> string) \<Rightarrow> string \<Rightarrow> policy_row \<Rightarrow> db \<Rightarrow> projection_row \<Rightarrow> effect_row \<Rightarrow> bool" where
  "vouched sha org p d x e \<longleftrightarrow> oe_projection e = pr_id x \<and> oe_ambiguous e \<and> oe_state e \<in> {Pending, Retry} \<and> oe_owner e = None
     \<and> oe_policy_revision e = sp_revision p \<and> oe_basis e \<noteq> None \<and> oe_basis e = pr_basis x \<and> current_basis sha d org x = Inr (oe_basis e)
     \<and> (if oe_operation e = DeleteCopy then pr_desired x = None
        else \<exists>c h. oe_desired e = Some c \<and> pr_desired_hash x = Some h \<and> sha256Canonical sha (copy_json c) = Inr h
          \<and> d_provenance c = \<lparr>prov_policy_ref = sp_id p, prov_projection_ref = pr_id x, prov_generation = pr_generation x\<rparr>)"

lemma dead_payload_matches_True:
  assumes "dead_payload_matches sha p e x = Inr True" "oe_operation e \<noteq> DeleteCopy"
  shows "\<exists>c h. oe_desired e = Some c \<and> pr_desired_hash x = Some h \<and> sha256Canonical sha (copy_json c) = Inr h
    \<and> d_provenance c = \<lparr>prov_policy_ref = sp_id p, prov_projection_ref = pr_id x, prov_generation = pr_generation x\<rparr>"
  using assms by (auto simp: dead_payload_matches_def bindE_Inr_iff split: option.split_asm if_split_asm intro!: provenance.equality)

lemma evidence_consistent_True:
  assumes "evidence_consistent sha p x = Inr True" "pr_recovery x \<noteq> Some DeleteCopy"
  shows "\<exists>c h. pr_desired x = Some c \<and> pr_desired_hash x = Some h \<and> sha256Canonical sha (copy_json c) = Inr h
    \<and> d_provenance c = \<lparr>prov_policy_ref = sp_id p, prov_projection_ref = pr_id x, prov_generation = pr_generation x\<rparr>"
  using assms by (auto simp: evidence_consistent_def bindE_Inr_iff split: option.split_asm if_split_asm intro!: provenance.equality)

lemma look_afresh_tables:
  "effects (look_afresh st org p x s k d) = effects d" "observations (look_afresh st org p x s k d) = observations d"
  by (simp_all add: look_afresh_def enqueue_reconcile_def update_projection_def split: sum.split prod.split)

lemma evidence_effect:
  assumes "queue_recovery sha st org p x op d = (Inr b, d')" "evidence_consistent sha p x = Inr True" "pr_recovery x = Some op"
    "is_truthy (pr_basis x)" "current_basis sha d0 org x = Inr (pr_basis x)"
  shows "observations d' = observations d" "\<exists>e. effects d' = effects d @ [e] \<and> oe_id e \<notin> oe_id ` set (effects d) \<and> vouched sha org p d0 x e"
proof -
  from assms(1) obtain key where d': "d' = update_projection (pr_id x) (restored_row st x) (d\<lparr>effects := effects d @ [restore_effect st org p x op key]\<rparr>)"
    and new: "\<not> list_ex (\<lambda>e. oe_key e = key \<or> oe_id e = st_effect_id st) (effects d)"
    by (auto simp: queue_recovery_def transaction_Inr restore_effect_def)
  have "vouched sha org p d0 x (restore_effect st org p x op key)"
    using assms(2-5) evidence_consistent_True [OF assms(2)]
    by (auto simp: vouched_def restore_effect_def is_truthy_def evidence_consistent_def)
  then show "observations d' = observations d" "\<exists>e. effects d' = effects d @ [e] \<and> oe_id e \<notin> oe_id ` set (effects d) \<and> vouched sha org p d0 x e"
    using new by (auto simp: d' update_projection_def list_ex_iff restore_effect_def)
qed

text \<open>What the recovery of one copy does to the effects.\<close>

definition recovers :: "(string \<Rightarrow> string) \<Rightarrow> string \<Rightarrow> policy_row \<Rightarrow> projection_row \<Rightarrow> db \<Rightarrow> db \<Rightarrow> bool" where
  "recovers sha org p x d d' \<longleftrightarrow> observations d' = observations d
     \<and> (\<exists>new. map oe_id (effects d') = map oe_id (effects d) @ new \<and> (distinct (map oe_id (effects d)) \<longrightarrow> distinct (map oe_id (effects d'))))
     \<and> (\<forall>e \<in> set (effects d'). e \<in> set (effects d) \<or> oe_state e = Succeeded \<or> vouched sha org p d x e)"

lemma recovers_refl: "recovers sha org p x d d"
  by (simp add: recovers_def)

lemma recovers_trans:
  assumes "recovers sha org p x d d1" "recovers sha org p x d1 d2"
  shows "recovers sha org p x d d2"
proof -
  have "vouched sha org p d1 x e = vouched sha org p d x e" for e
    using assms(1) by (simp add: recovers_def vouched_def current_basis_def)
  with assms show ?thesis unfolding recovers_def by (metis append.assoc)
qed

lemma recovers_same: "effects d' = effects d \<Longrightarrow> observations d' = observations d \<Longrightarrow> recovers sha org p x d d'"
  by (simp add: recovers_def)

lemma recover_evidence_recovers:
  assumes "recover_evidence sha st org p x basis s d = (Inr b, d')" "current_basis sha d org x = Inr basis"
  shows "recovers sha org p x d d'"
proof -
  have quiet: "recovers sha org p x d (look_afresh st org p x t k d)" for t k by (rule recovers_same) (simp_all add: look_afresh_tables)
  consider "d' = d" | t k where "d' = look_afresh st org p x t k d"
    | op where "pr_recovery x = Some op" "is_truthy (pr_basis x)" "basis = pr_basis x" "evidence_consistent sha p x = Inr True"
        "queue_recovery sha st org p x op d = (Inr b, d')"
    using assms(1) unfolding recover_evidence_def
    by (auto simp: transaction_Inr split: option.split_asm if_split_asm)
  then show ?thesis
  proof cases
    case (3 op)
    from evidence_effect [OF 3(5,4,1,2), of d] assms(2) 3(3) show ?thesis by (auto simp: recovers_def)
  qed (use quiet recovers_refl in auto)
qed

lemma blocking_effectD:
  assumes "blocking_effect d org i = Some e"
  shows "e \<in> set (effects d)" "oe_projection e = i" "oe_state e = Dead"
proof -
  let ?es = "filter (\<lambda>e. oe_organization e = org \<and> oe_projection e = i \<and> oe_state e = Dead) (effects d)"
  from assms obtain es where "sort_key (\<lambda>e. (oe_created e, oe_id e)) ?es = e # es"
    by (auto simp: blocking_effect_def split: list.split_asm)
  then have "set (e # es) = set (sort_key (\<lambda>e. (oe_created e, oe_id e)) ?es)" by (rule arg_cong [OF sym])
  then have "e \<in> set ?es" unfolding set_sort by auto
  then show "e \<in> set (effects d)" "oe_projection e = i" "oe_state e = Dead" by simp_all
qed

lemma replay_recovers:
  assumes "blocking_effect d org (pr_id x) = Some e" "oe_policy_revision e = sp_revision p" "source_basis_matches e x basis"
    "dead_payload_matches sha p e x = Inr True" "current_basis sha d org x = Inr basis" "distinct (map oe_id (effects d))"
  shows "recovers sha org p x d (replay_dead n e x d)"
proof -
  note e = blocking_effectD [OF assms(1)]
  have v: "vouched sha org p d x (replayed n e)"
    using assms(2-5) e(2) dead_payload_matches_True [OF assms(4)]
    by (auto simp: vouched_def replayed_def source_basis_matches_def dead_payload_matches_def)
  have one: "f = e" if "f \<in> set (effects d)" "oe_id f = oe_id e" for f
    using that e(1) assms(6) by (auto simp: distinct_map inj_on_def)
  let ?es = "update_where (\<lambda>f. oe_id f = oe_id e \<and> oe_state f = Dead) (replayed n) (effects d)"
  have "f \<in> set (effects d) \<or> oe_state f = Succeeded \<or> vouched sha org p d x f" if "f \<in> set ?es" for f
    using that by (rule update_whereE) (use one v in auto)
  moreover have "map oe_id ?es = map oe_id (effects d)" by (rule map_update_where) (simp add: replayed_def)
  ultimately show ?thesis
    by (simp add: recovers_def replay_dead_def update_projection_def)
qed

lemma supersede_recovers:
  "recovers sha org p x d (supersede_dead n p e d)"
  unfolding recovers_def supersede_dead_def Let_def
  by (auto simp: in_update_where map_update_where)

lemma supersede_dead_observations: "observations (supersede_dead n p e d) = observations d"
  by (simp add: supersede_dead_def Let_def)

lemma recover_projection_recovers:
  assumes "recover_projection sha org p st x d = (Inr b, d')" "distinct (map oe_id (effects d))"
  shows "recovers sha org p x d d'"
proof -
  from assms(1) obtain basis where basis: "current_basis sha d org x = Inr basis"
    and run: "(case blocking_effect d org (pr_id x) of
         None \<Rightarrow> recover_evidence sha st org p x basis None
       | Some e \<Rightarrow>
           bindT (liftT (dead_payload_matches sha p e x)) (\<lambda>payload.
             if oe_policy_revision e = sp_revision p \<and> source_basis_matches e x basis \<and> payload
             then bindT (writeT (replay_dead (st_now st) e x)) (\<lambda>_. returnT True)
             else bindT (writeT (supersede_dead (st_now st) p e)) (\<lambda>_. recover_evidence sha st org p x basis (Some e)))) d = (Inr b, d')"
    unfolding recover_projection_def by (auto simp: transaction_Inr)
  show ?thesis
  proof (cases "blocking_effect d org (pr_id x)")
    case None
    with run show ?thesis by (auto intro: recover_evidence_recovers basis)
  next
    case (Some e)
    consider (replay) "oe_policy_revision e = sp_revision p" "source_basis_matches e x basis" "dead_payload_matches sha p e x = Inr True"
        "d' = replay_dead (st_now st) e x d"
      | (supersede) "recover_evidence sha st org p x basis (Some e) (supersede_dead (st_now st) p e d) = (Inr b, d')"
      using run Some by (auto simp: transaction_Inr split: if_split_asm)
    then show ?thesis
    proof cases
      case replay
      then show ?thesis using replay_recovers [OF Some] basis assms(2) by blast
    next
      case supersede
      have "current_basis sha (supersede_dead (st_now st) p e d) org x = Inr basis"
        using basis by (simp add: current_basis_def supersede_dead_observations)
      from recover_evidence_recovers [OF supersede this] supersede_recovers show ?thesis by (rule recovers_trans [rotated])
    qed
  qed
qed


lemma recover_all_recovers:
  assumes "recover_all sha org p sts k xs d = (Inr n, d')" "distinct (map oe_id (effects d))"
  shows "n \<le> length xs \<and> observations d' = observations d \<and> (\<exists>new. map oe_id (effects d') = map oe_id (effects d) @ new)
    \<and> (\<forall>e \<in> set (effects d'). e \<in> set (effects d) \<or> oe_state e = Succeeded \<or> (\<exists>x \<in> set xs. vouched sha org p d x e))"
  using assms
proof (induction xs arbitrary: k d n)
  case Nil
  then show ?case by (simp add: transaction_Inr)
next
  case (Cons x xs)
  from Cons.prems(1) obtain b d1 m where one: "recover_projection sha org p (sts k) x d = (Inr b, d1)"
    and rest: "recover_all sha org p sts (Suc k) xs d1 = (Inr m, d')" and n: "n = (if b then m + 1 else m)"
    by (auto simp: transaction_Inr)
  note r = recover_projection_recovers [OF one Cons.prems(2), unfolded recovers_def]
  then have "distinct (map oe_id (effects d1))" using Cons.prems(2) by blast
  note ih = Cons.IH [OF rest this]
  have v: "vouched sha org p d1 y e = vouched sha org p d y e" for y e using r by (simp add: vouched_def current_basis_def)
  have "n \<le> length (x # xs)" using ih n by auto
  moreover have "\<exists>new. map oe_id (effects d') = map oe_id (effects d) @ new" using ih r by (metis append.assoc)
  moreover have "e \<in> set (effects d) \<or> oe_state e = Succeeded \<or> (\<exists>y \<in> set (x # xs). vouched sha org p d y e)" if "e \<in> set (effects d')" for e
    using that ih r v by (metis list.set_intros)
  ultimately show ?case using ih r by simp
qed

text \<open>
  C18: A recovery replays only verified intents. It touches at most a hundred blocked copies of the policy. No
  effect is lost; every effect that is not as before was either superseded or is waiting to run, and then it
  is of a blocked copy, of the current revision of the policy and of the current state of the source, writes
  what is recorded for that copy and generation, and is marked to read and check the event before it writes.
\<close>

theorem recovery_replays_only_verified_intents:
  assumes "retryBlocked valid_uuid sha sts tk co pid d = (Inr n, d')" "distinct (map oe_id (effects d))"
  shows "\<exists>p. find_live_policy (co_organization co) pid d = Some p \<and> n \<le> 100
    \<and> (\<exists>new. map oe_id (effects d') = map oe_id (effects d) @ new)
    \<and> (\<forall>e \<in> set (effects d'). e \<in> set (effects d) \<or> oe_state e = Succeeded
         \<or> (\<exists>x \<in> set (projections d). pr_policy x = pid \<and> is_blocked d x \<and> vouched sha (co_organization co) p d x e))"
proof -
  let ?xs = "blocked_projections (co_organization co) pid d"
  from assms(1) obtain p d1 where p: "find_live_policy (co_organization co) pid d = Some p"
    and run: "recover_all sha (co_organization co) p sts 0 ?xs d = (Inr n, d1)" and es: "effects d' = effects d1"
    by (auto simp: retryBlocked_def transaction_Inr liftS_Inr audit_command_def)
  have xs: "length ?xs \<le> 100" "x \<in> set ?xs \<Longrightarrow> x \<in> set (projections d) \<and> pr_policy x = pid \<and> is_blocked d x" for x
    by (auto simp: blocked_projections_def dest: in_set_takeD)
  note r = recover_all_recovers [OF run assms(2)]
  have "n \<le> 100" using r xs(1) by linarith
  moreover have "\<exists>new. map oe_id (effects d') = map oe_id (effects d) @ new" using r es by simp
  moreover have "\<forall>e \<in> set (effects d'). e \<in> set (effects d) \<or> oe_state e = Succeeded
         \<or> (\<exists>x \<in> set (projections d). pr_policy x = pid \<and> is_blocked d x \<and> vouched sha (co_organization co) p d x e)"
    using r xs(2) unfolding es by blast
  ultimately show ?thesis using p by blast
qed

definition dead_effect :: effect_row where
  "dead_effect = sample_effect\<lparr>oe_state := Dead, oe_owner := None, oe_expires := None\<rparr>"

definition recovery_db :: db where
  "recovery_db = (notice_db held_removal)\<lparr>effects := [dead_effect]\<rparr>"

lemma recovery_run:
  "\<exists>d'. retryBlocked any_id sample_sha (\<lambda>k. sample_stamp) home_ticket home_command ''p1'' recovery_db = (Inr 1, d')
     \<and> effects d' = [replayed 9 dead_effect]"
proof -
  have es: "effects recovery_db = [dead_effect]" by (simp add: recovery_db_def)
  have p: "find_live_policy ''o'' ''p1'' recovery_db = Some sample_policy_row"
    by (simp add: find_live_policy_def recovery_db_def notice_db_def executor_db_def sample_policy_row_def)
  have x: "pr_organization held_removal = ''o''" "pr_policy held_removal = ''p1''" "pr_id held_removal = ''x1''"
    "pr_status held_removal = ''held''" "pr_desired_hash held_removal = None" "pr_desired held_removal = None"
    "pr_basis held_removal = Some ''sha256:61''"
    by (simp_all add: held_removal_def held_simps)
  have e: "oe_organization dead_effect = ''o''" "oe_projection dead_effect = ''x1''" "oe_state dead_effect = Dead" "oe_operation dead_effect = DeleteCopy"
    "oe_policy_revision dead_effect = 1" "oe_basis dead_effect = Some ''sha256:61''"
    by (simp_all add: dead_effect_def sample_effect_def)
  have xs: "blocked_projections ''o'' ''p1'' recovery_db = [held_removal]"
    by (simp add: blocked_projections_def recovery_db_def notice_db_def is_blocked_def x)
  have dead: "blocking_effect recovery_db ''o'' ''x1'' = Some dead_effect"
    by (simp add: blocking_effect_def es e)
  have basis: "current_basis sample_sha recovery_db ''o'' held_removal = Inr (Some ''sha256:61'')"
    using held_basis [of held_removal] by (simp add: recovery_db_def current_basis_def)
  have "dead_payload_matches sample_sha sample_policy_row dead_effect held_removal = Inr True" by (simp add: dead_payload_matches_def x e)
  moreover have "source_basis_matches dead_effect held_removal (Some ''sha256:61'')" by (simp add: source_basis_matches_def x e)
  moreover have "sp_revision sample_policy_row = 1" by (simp add: sample_policy_row_def)
  ultimately have "recover_projection sample_sha ''o'' sample_policy_row sample_stamp held_removal recovery_db =
      (Inr True, replay_dead 9 dead_effect held_removal recovery_db)"
    by (simp add: recover_projection_def transaction_simps x dead basis liftE_def e) (simp add: sample_stamp_def)
  then show ?thesis
    by (simp add: retryBlocked_def in_transaction_def transaction_simps liftS_def requireLocalPolicyId_def require_def home_command_def p xs
        audit_command_def replay_dead_def update_projection_def es e update_where_def)
qed

theorem recovery_replays_only_verified_intents_witness:
  "\<exists>d'. retryBlocked any_id sample_sha (\<lambda>k. sample_stamp) home_ticket home_command ''p1'' recovery_db = (Inr 1, d')
     \<and> effects d' = [replayed 9 dead_effect] \<and> vouched sample_sha ''o'' sample_policy_row recovery_db held_removal (replayed 9 dead_effect)"
proof -
  from recovery_run obtain d' where run: "retryBlocked any_id sample_sha (\<lambda>k. sample_stamp) home_ticket home_command ''p1'' recovery_db = (Inr 1, d')"
    and es: "effects d' = [replayed 9 dead_effect]" by blast
  have d: "effects recovery_db = [dead_effect]" "projections recovery_db = [held_removal]" by (simp_all add: recovery_db_def notice_db_def)
  have p: "find_live_policy (co_organization home_command) ''p1'' recovery_db = Some sample_policy_row"
    by (simp add: find_live_policy_def recovery_db_def notice_db_def executor_db_def sample_policy_row_def home_command_def)
  have new: "replayed 9 dead_effect \<noteq> dead_effect" "oe_state (replayed 9 dead_effect) \<noteq> Succeeded"
    by (simp_all add: replayed_def dead_effect_def sample_effect_def)
  have "distinct (map oe_id (effects recovery_db))" by (simp add: d)
  from recovery_replays_only_verified_intents [OF run this] p new
  have "vouched sample_sha (co_organization home_command) sample_policy_row recovery_db held_removal (replayed 9 dead_effect)"
    by (simp add: es d)
  with run es show ?thesis by (auto simp: home_command_def)
qed

end
