(* ===== verification/Sync_Coordinator.thy ===== *)
theory Sync_Coordinator
  imports Verification
begin

section \<open>Synchronizing calendars (server/src/sync/coordinator.ts)\<close>

text \<open>
  The coordinator runs the jobs of the queue: it discovers the calendars of a connection, reads the events
  of a source calendar into the table of observations, reconciles policies and verifies destinations. A
  synchronization is several transactions with calls to the provider between them; the provider is a
  parameter that answers every call, and what other workers do to the tables during a call is the
  parameter \<open>others\<close>.
\<close>

datatype coordinator_error =
    NonRetryableJobError (nr_code: string) (nr_message: string)
  | ProviderThrew failure
  | CoordinatorThrew sync_error
  | QueueThrew queue_error

definition provider_error :: "string \<Rightarrow> coordinator_error" where
  "provider_error c = ProviderThrew (ProviderFailure c True False None)"

definition MAX_PAGES_PER_SYNC :: nat where "MAX_PAGES_PER_SYNC = 200"
definition FULL_SYNC_REFRESH_MILLISECONDS :: int where "FULL_SYNC_REFRESH_MILLISECONDS = 24 * 60 * 60000"
definition MINIMUM_POLL_INTERVAL_MILLISECONDS :: int where "MINIMUM_POLL_INTERVAL_MILLISECONDS = 60000"

definition policyCapabilitiesForRole :: "intended_role \<Rightarrow> bool \<Rightarrow> bool \<Rightarrow> bool \<times> bool" where
  "policyCapabilitiesForRole role remotelyReadable remotelyWritable =
     (remotelyReadable \<and> (role = SourceRole \<or> role = BothRoles), remotelyWritable \<and> (role = DestinationRole \<or> role = BothRoles))"

definition roleCanSyncEventContent :: "intended_role \<Rightarrow> bool" where
  "roleCanSyncEventContent role \<longleftrightarrow> role = SourceRole \<or> role = BothRoles"

definition requiredId :: "json \<Rightarrow> string \<Rightarrow> coordinator_error + string" where
  "requiredId payload key =
     (case payload of
        JObj ms \<Rightarrow>
          if key \<notin> fst ` set ms then Inl (NonRetryableJobError ''invalid_job_payload'' (''job payload is missing '' @ key))
          else (case json_member payload key of
                  Some (JStr s) \<Rightarrow> if length s < 1 then Inl (NonRetryableJobError ''invalid_job_payload'' (''job payload has an invalid '' @ key)) else Inr s
                | _ \<Rightarrow> Inl (NonRetryableJobError ''invalid_job_payload'' (''job payload has an invalid '' @ key)))
      | _ \<Rightarrow> Inl (NonRetryableJobError ''invalid_job_payload'' (''job payload is missing '' @ key)))"

definition providerErrorCode :: "coordinator_error \<Rightarrow> string" where
  "providerErrorCode e = (case e of ProviderThrew (ProviderFailure c r a s) \<Rightarrow> c | _ \<Rightarrow> ''sync_failed'')"

subsection \<open>Discovering calendars\<close>

record provider_calendar =
  rc_remote_id :: string
  rc_name :: string
  rc_timezone :: string
  rc_access_role :: string
  rc_freebusy :: "bool option"
  rc_readable :: bool
  rc_writable :: bool
  rc_primary :: bool

definition discovered_capabilities :: "provider_calendar \<Rightarrow> json" where
  "discovered_capabilities c = JObj [(''private_visibility'', Some (JBool True)), (''conference_copy'', Some (JBool False)),
     (''color'', Some (JBool True)),
     (''freebusy_readable'', Some (JBool (case rc_freebusy c of Some b \<Rightarrow> b | None \<Rightarrow> rc_readable c)))]"

definition refresh_endpoint :: "intended_role \<Rightarrow> provider_calendar \<Rightarrow> calendar_endpoint \<Rightarrow> calendar_endpoint" where
  "refresh_endpoint role c e =
     (let (readable, writable) = policyCapabilitiesForRole role (rc_readable c) (rc_writable c) in
      e\<lparr>ce_name := rc_name c, ce_timezone := rc_timezone c, ce_access_role := rc_access_role c, ce_readable := readable,
        ce_writable := writable, ce_primary := rc_primary c, ce_capabilities := discovered_capabilities c\<rparr>)"

definition new_endpoint :: "string \<Rightarrow> string \<Rightarrow> string \<Rightarrow> provider_calendar \<Rightarrow> calendar_endpoint" where
  "new_endpoint ident org connectionId c =
     \<lparr>ce_id = ident, ce_organization = org, ce_connection = connectionId, ce_remote_id = rc_remote_id c, ce_name = '''', ce_timezone = '''',
      ce_access_role = '''', ce_readable = False, ce_writable = False, ce_primary = False, ce_capabilities = JNull\<rparr>"

text \<open>\<open>insert ... on conflict (connection_id, remote_id) do update\<close>\<close>

definition upsert_endpoint :: "string \<Rightarrow> string \<Rightarrow> string \<Rightarrow> intended_role \<Rightarrow> provider_calendar \<Rightarrow> calendar_endpoint list \<Rightarrow> calendar_endpoint \<times> calendar_endpoint list" where
  "upsert_endpoint ident org connectionId role c es =
     (case find (\<lambda>e. ce_connection e = connectionId \<and> ce_remote_id e = rc_remote_id c) es of
        Some e \<Rightarrow> (refresh_endpoint role c e, update_where (\<lambda>x. ce_connection x = connectionId \<and> ce_remote_id x = rc_remote_id c) (refresh_endpoint role c) es)
      | None \<Rightarrow> (let e = refresh_endpoint role c (new_endpoint ident org connectionId c) in (e, es @ [e])))"

definition sync_job :: "int \<Rightarrow> string \<Rightarrow> string \<Rightarrow> string \<Rightarrow> db \<Rightarrow> db" where
  "sync_job nowMs jobId org calendarId d =
     (case enqueue nowMs jobId org ''sync_calendar'' (''calendar:'' @ calendarId) (JObj [(''calendar_id'', Some (JStr calendarId))]) nowMs (jobs_table d) of
        Inl _ \<Rightarrow> d | Inr (_, q) \<Rightarrow> d\<lparr>jobs_table := q\<rparr>)"

fun store_calendars :: "int \<Rightarrow> (nat \<Rightarrow> string \<times> string) \<Rightarrow> nat \<Rightarrow> string \<Rightarrow> string \<Rightarrow> intended_role \<Rightarrow> provider_calendar list \<Rightarrow> db \<Rightarrow> db" where
  "store_calendars nowMs ids k org connectionId role [] d = d"
| "store_calendars nowMs ids k org connectionId role (c # cs) d =
     (let (e, es) = upsert_endpoint (fst (ids k)) org connectionId role c (endpoints d);
          d1 = d\<lparr>endpoints := es\<rparr>;
          d2 = (if ce_readable e \<and> roleCanSyncEventContent role then sync_job nowMs (snd (ids k)) org (ce_id e) d1 else d1)
      in store_calendars nowMs ids (Suc k) org connectionId role cs d2)"

definition find_connection :: "string \<Rightarrow> string \<Rightarrow> db \<Rightarrow> provider_connection option" where
  "find_connection org connectionId d = find (\<lambda>c. pc_organization c = org \<and> pc_id c = connectionId) (connections d)"

definition active_connection :: "string \<Rightarrow> string \<Rightarrow> string \<Rightarrow> db \<Rightarrow> coordinator_error + provider_connection" where
  "active_connection message org connectionId d =
     (case find_connection org connectionId d of
        Some c \<Rightarrow> if pc_status c = ConnectionActive then Inr c else Inl (NonRetryableJobError ''connection_unavailable'' message)
      | None \<Rightarrow> Inl (NonRetryableJobError ''connection_unavailable'' message))"

definition discoverCalendars ::
  "(string \<Rightarrow> failure + provider_calendar list) \<Rightarrow> (db \<Rightarrow> db) \<Rightarrow> int \<Rightarrow> (nat \<Rightarrow> string \<times> string) \<Rightarrow> string \<Rightarrow> string \<Rightarrow> db
   \<Rightarrow> (coordinator_error + nat) \<times> db" where
  "discoverCalendars listCalendars others nowMs ids org connectionId d =
     (case active_connection ''provider connection is unavailable'' org connectionId d of
        Inl e \<Rightarrow> (Inl e, d)
      | Inr c \<Rightarrow>
          (case listCalendars connectionId of
             Inl f \<Rightarrow> (Inl (ProviderThrew f), others d)
           | Inr calendars \<Rightarrow>
               (case active_connection ''provider connection changed during calendar discovery'' org connectionId (others d) of
                  Inl e \<Rightarrow> (Inl e, others d)
                | Inr c' \<Rightarrow>
                    let d1 = store_calendars nowMs ids 0 org connectionId (pc_role c') calendars (others d)
                    in (Inr (length calendars),
                        d1\<lparr>connections := update_where (\<lambda>x. pc_id x = connectionId)
                             (\<lambda>x. x\<lparr>pc_last_success := Some nowMs, pc_error := None, pc_updated := nowMs\<rparr>) (connections d1)\<rparr>))))"

subsection \<open>The document of an observation\<close>

definition lifecycle_text :: "lifecycle \<Rightarrow> string" where
  "lifecycle_text l = (case l of Confirmed \<Rightarrow> ''confirmed'' | Cancelled \<Rightarrow> ''cancelled'' | Deleted \<Rightarrow> ''deleted'')"

definition role_text :: "role \<Rightarrow> string" where
  "role_text r = (case r of Organizer \<Rightarrow> ''organizer'' | Attendee \<Rightarrow> ''attendee'' | NoRole \<Rightarrow> ''none'')"

definition response_text :: "response \<Rightarrow> string" where
  "response_text r = (case r of Accepted \<Rightarrow> ''accepted'' | Tentative \<Rightarrow> ''tentative'' | Declined \<Rightarrow> ''declined''
     | NeedsAction \<Rightarrow> ''needs_action'' | NotApplicable \<Rightarrow> ''not_applicable'')"

definition observation_json :: "source_observation \<Rightarrow> json" where
  "observation_json s = JObj
     [(''source_event_ref'', Some (JStr (source_event_ref s))), (''source_occurrence_ref'', Some (JStr (source_occurrence_ref s))),
      (''remote_revision'', Some (JStr (remote_revision s))), (''lifecycle'', Some (JStr (lifecycle_text (s_lifecycle s)))),
      (''origin'', Some (JStr (case s_origin s of ProviderOriginal \<Rightarrow> ''provider_original'' | PlanipusManaged \<Rightarrow> ''planipus_managed''))),
      (''timing'', map_option timing_json (s_timing s)),
      (''recurrence'', map_option (\<lambda>r. JObj [(''mode'', Some (JStr ''materialized_occurrence'')), (''series_ref'', Some (JStr (series_ref r))),
         (''original_start'', Some (JStr (original_start r)))]) (s_recurrence s)),
      (''availability'', map_option (\<lambda>a. JStr (case a of Busy \<Rightarrow> ''busy'' | Free \<Rightarrow> ''free'')) (s_availability s)),
      (''relationship'', Some (JObj [(''role'', Some (JStr (role_text (r_role (s_relationship s))))),
         (''response'', Some (JStr (response_text (r_response (s_relationship s))))),
         (''response_note'', map_option JStr (r_note (s_relationship s)))])),
      (''destination_identity_invited'', Some (JBool (destination_identity_invited s))),
      (''content'', Some (JObj [(''summary'', map_option JStr (c_summary (s_content s))), (''description'', map_option JStr (c_description (s_content s))),
         (''location'', map_option JStr (c_location (s_content s))), (''conference'', map_option JStr (c_conference (s_content s)))])),
      (''attendees'', map_option (\<lambda>xs. JArr (map JStr xs)) (s_attendees s)), (''organizer'', map_option JStr (s_organizer s)),
      (''attachments'', map_option (\<lambda>xs. JArr (map JStr xs)) (s_attachments s)), (''source_url'', map_option JStr (s_source_url s)),
      (''provider_metadata'', s_provider_metadata s)]"

definition observation_hash :: "(string \<Rightarrow> string) \<Rightarrow> source_observation \<Rightarrow> coordinator_error + string" where
  "observation_hash sha s = liftE (\<lambda>e. CoordinatorThrew (HashThrew e)) (sha256Canonical sha (observation_json s))"

subsection \<open>Storing a page of events\<close>

definition content_authority :: "string \<Rightarrow> string \<Rightarrow> db \<Rightarrow> coordinator_error + unit" where
  "content_authority org connectionId d =
     (case find_connection org connectionId d of
        Some c \<Rightarrow> if pc_status c = ConnectionActive \<and> roleCanSyncEventContent (pc_role c) then Inr ()
          else Inl (NonRetryableJobError ''connection_role_changed'' ''connection no longer authorizes event-content sync'')
      | None \<Rightarrow> Inl (NonRetryableJobError ''connection_role_changed'' ''connection no longer authorizes event-content sync''))"

definition page_authority :: "string \<Rightarrow> string \<Rightarrow> db \<Rightarrow> coordinator_error + unit" where
  "page_authority org calendarId d =
     (case Option.bind (find (\<lambda>e. ce_organization e = org \<and> ce_id e = calendarId) (endpoints d))
             (\<lambda>e. find (\<lambda>c. pc_id c = ce_connection e) (connections d)) of
        Some c \<Rightarrow> if pc_status c = ConnectionActive \<and> roleCanSyncEventContent (pc_role c) then Inr ()
          else Inl (NonRetryableJobError ''connection_role_changed'' ''connection no longer authorizes event-content sync'')
      | None \<Rightarrow> Inl (NonRetryableJobError ''connection_role_changed'' ''connection no longer authorizes event-content sync''))"

definition same_event :: "string \<Rightarrow> source_observation \<Rightarrow> observation_row \<Rightarrow> bool" where
  "same_event calendarId s r \<longleftrightarrow> so_calendar r = calendarId \<and> so_remote_event r = source_event_ref s \<and> so_recurrence r = source_occurrence_ref s"

definition observed_as :: "int \<Rightarrow> int \<Rightarrow> string \<Rightarrow> source_observation \<Rightarrow> observation_row \<Rightarrow> observation_row" where
  "observed_as nowMs generation h s r =
     r\<lparr>so_etag := (if remote_revision s = '''' then None else Some (remote_revision s)), so_event := s, so_hash := h,
       so_managed := (s_origin s = PlanipusManaged), so_tombstone := (s_lifecycle s \<noteq> Confirmed), so_generation := generation,
       so_observed := nowMs\<rparr>"

definition fresh_observation :: "string \<Rightarrow> string \<Rightarrow> string \<Rightarrow> source_observation \<Rightarrow> observation_row" where
  "fresh_observation ident org calendarId s =
     \<lparr>so_id = ident, so_organization = org, so_calendar = calendarId, so_remote_event = source_event_ref s,
      so_recurrence = source_occurrence_ref s, so_etag = None, so_event = s, so_hash = '''', so_managed = False, so_tombstone = False,
      so_generation = 0, so_observed = 0\<rparr>"

definition store_observation ::
  "(string \<Rightarrow> string) \<Rightarrow> int \<Rightarrow> string \<Rightarrow> string \<Rightarrow> string \<Rightarrow> int \<Rightarrow> source_observation \<Rightarrow> observation_row list \<Rightarrow> coordinator_error + observation_row list" where
  "store_observation sha nowMs ident org calendarId generation s rows =
     bindE (observation_hash sha s) (\<lambda>h.
       if list_ex (same_event calendarId s) rows then Inr (update_where (same_event calendarId s) (observed_as nowMs generation h s) rows)
       else Inr (rows @ [observed_as nowMs generation h s (fresh_observation ident org calendarId s)]))"

fun store_page ::
  "(string \<Rightarrow> string) \<Rightarrow> int \<Rightarrow> (nat \<Rightarrow> string) \<Rightarrow> nat \<Rightarrow> string \<Rightarrow> string \<Rightarrow> int \<Rightarrow> source_observation list \<Rightarrow> observation_row list
   \<Rightarrow> coordinator_error + observation_row list" where
  "store_page sha nowMs ids k org calendarId generation [] rows = Inr rows"
| "store_page sha nowMs ids k org calendarId generation (s # ss) rows =
     bindE (store_observation sha nowMs (ids k) org calendarId generation s rows)
       (store_page sha nowMs ids (Suc k) org calendarId generation ss)"

definition persistObservationPage ::
  "(string \<Rightarrow> string) \<Rightarrow> int \<Rightarrow> (nat \<Rightarrow> string) \<Rightarrow> string \<Rightarrow> string \<Rightarrow> int \<Rightarrow> source_observation list \<Rightarrow> db \<Rightarrow> coordinator_error + db" where
  "persistObservationPage sha nowMs ids org calendarId generation ss d =
     bindE (page_authority org calendarId d) (\<lambda>_.
     bindE (store_page sha nowMs ids 0 org calendarId generation ss (observations d)) (\<lambda>rows. Inr (d\<lparr>observations := rows\<rparr>)))"

subsection \<open>The cursor of a calendar\<close>

definition sql_max :: "int list \<Rightarrow> int option" where
  "sql_max xs = (if xs = [] then None else Some (Max (set xs)))"

definition or_zero :: "int option \<Rightarrow> int" where
  "or_zero v = (case v of None \<Rightarrow> 0 | Some i \<Rightarrow> i)"

definition nextCalendarGeneration :: "string \<Rightarrow> string \<Rightarrow> db \<Rightarrow> int" where
  "nextCalendarGeneration org calendarId d =
     max (or_zero (sql_max (map cu_generation (filter (\<lambda>c. cu_organization c = org \<and> cu_calendar c = calendarId) (cursors d)))))
         (or_zero (sql_max (map so_generation (filter (\<lambda>r. so_organization r = org \<and> so_calendar r = calendarId) (observations d)))))
     + 1"

definition new_cursor :: "int \<Rightarrow> string \<Rightarrow> string \<Rightarrow> string \<Rightarrow> string \<Rightarrow> db \<Rightarrow> cursor_row" where
  "new_cursor nowMs ident org calendarId fingerprint d =
     \<lparr>cu_id = ident, cu_organization = org, cu_calendar = calendarId, cu_fingerprint = fingerprint, cu_token = None,
      cu_generation = nextCalendarGeneration org calendarId d, cu_state = FullRequired, cu_last_started = None, cu_last_full = None,
      cu_last_success = None, cu_error = None, cu_updated = nowMs\<rparr>"

definition open_cursor :: "int \<Rightarrow> string \<Rightarrow> string \<Rightarrow> string \<Rightarrow> string \<Rightarrow> db \<Rightarrow> cursor_row \<times> db" where
  "open_cursor nowMs ident org calendarId fingerprint d =
     (case find (\<lambda>c. cu_calendar c = calendarId \<and> cu_fingerprint c = fingerprint) (cursors d) of
        Some c \<Rightarrow> (c, d)
      | None \<Rightarrow> let c = new_cursor nowMs ident org calendarId fingerprint d in (c, d\<lparr>cursors := cursors d @ [c]\<rparr>))"

definition update_cursor :: "(cursor_row \<Rightarrow> bool) \<Rightarrow> (cursor_row \<Rightarrow> cursor_row) \<Rightarrow> db \<Rightarrow> db" where
  "update_cursor p f d = d\<lparr>cursors := update_where p f (cursors d)\<rparr>"

definition reset_cursor :: "string option \<Rightarrow> int \<Rightarrow> cursor_row \<Rightarrow> cursor_row" where
  "reset_cursor err nowMs c = c\<lparr>cu_token := None, cu_generation := cu_generation c + 1, cu_state := FullRequired, cu_error := err,
     cu_updated := nowMs\<rparr>"

definition refresh_is_due :: "int \<Rightarrow> cursor_row \<Rightarrow> bool" where
  "refresh_is_due nowMs c \<longleftrightarrow> is_truthy (cu_token c)
     \<and> (case cu_last_full c of None \<Rightarrow> True | Some t \<Rightarrow> nowMs - t \<ge> FULL_SYNC_REFRESH_MILLISECONDS)"

definition polled_recently :: "int \<Rightarrow> cursor_row \<Rightarrow> bool" where
  "polled_recently nowMs c \<longleftrightarrow> cu_state c = CursorReady
     \<and> (case cu_last_started c of None \<Rightarrow> False | Some t \<Rightarrow> nowMs - t < MINIMUM_POLL_INTERVAL_MILLISECONDS)"

definition require_refresh :: "int \<Rightarrow> cursor_row \<Rightarrow> db \<Rightarrow> db" where
  "require_refresh nowMs c = update_cursor (\<lambda>x. cu_id x = cu_id c \<and> cu_token x = cu_token c) (reset_cursor None nowMs)"

definition start_cursor :: "int \<Rightarrow> cursor_row \<Rightarrow> db \<Rightarrow> db" where
  "start_cursor nowMs c = update_cursor (\<lambda>x. cu_id x = cu_id c)
     (\<lambda>x. x\<lparr>cu_state := Syncing, cu_last_started := Some nowMs, cu_error := None, cu_updated := nowMs\<rparr>)"

subsection \<open>Reading the pages\<close>

record page_request =
  pq_page :: "string option"
  pq_sync :: "string option"
  pq_time_min :: "string option"
  pq_time_max :: "string option"

record event_page =
  pg_observations :: "source_observation list"
  pg_next_page :: "string option"
  pg_next_sync :: "string option"

text \<open>
  What a synchronization meets: the answer to the request for an access token, the answer to the request
  for each page, what other transactions do to the tables while the call is under way (call \<open>0\<close> is the
  one for the token, call \<open>k + 1\<close> the one for page \<open>k\<close>), the clock, and the identifiers it draws.
\<close>

record surroundings =
  ask_token :: "failure option"
  ask_page :: "nat \<Rightarrow> string \<Rightarrow> page_request \<Rightarrow> failure + event_page"
  others :: "nat \<Rightarrow> db \<Rightarrow> db"
  start_clock :: int
  page_clock :: "nat \<Rightarrow> int"
  end_clock :: int
  cursor_id :: string
  page_ids :: "nat \<Rightarrow> nat \<Rightarrow> string"
  wake_ids :: "nat \<Rightarrow> string"

definition page_request_of :: "int \<Rightarrow> cursor_row \<Rightarrow> string option \<Rightarrow> page_request" where
  "page_request_of nowMs c pageToken =
     (if is_truthy (cu_token c)
      then \<lparr>pq_page = pageToken, pq_sync = cu_token c, pq_time_min = None, pq_time_max = None\<rparr>
      else \<lparr>pq_page = pageToken, pq_sync = None, pq_time_min = Some (toISOString (nowMs - FULL_SYNC_PAST_DAYS * DAY_MS)),
            pq_time_max = Some (toISOString (nowMs + FULL_SYNC_FUTURE_DAYS * DAY_MS))\<rparr>)"

definition next_page :: "event_page \<Rightarrow> string option" where
  "next_page page = (if is_truthy (pg_next_page page) then pg_next_page page else None)"

definition later_token :: "event_page \<Rightarrow> string option \<Rightarrow> string option" where
  "later_token page finalSyncToken = (case pg_next_sync page of None \<Rightarrow> finalSyncToken | Some t \<Rightarrow> Some t)"

text \<open>The loop: the first number is what is left of the page limit, the second the pages that were read.\<close>

fun sync_pages ::
  "surroundings \<Rightarrow> (string \<Rightarrow> string) \<Rightarrow> string \<Rightarrow> calendar_endpoint \<Rightarrow> cursor_row \<Rightarrow> nat \<Rightarrow> nat \<Rightarrow> string option
   \<Rightarrow> string option \<Rightarrow> nat \<Rightarrow> db \<Rightarrow> (coordinator_error + string option \<times> nat) \<times> db" where
  "sync_pages w sha org e c 0 k pageToken finalSyncToken observed d = (Inl (provider_error ''sync_page_limit''), d)"
| "sync_pages w sha org e c (Suc left) k pageToken finalSyncToken observed d =
     (let d1 = others w (Suc k) d in
      case ask_page w k (ce_remote_id e) (page_request_of (start_clock w) c pageToken) of
        Inl f \<Rightarrow> (Inl (ProviderThrew f), d1)
      | Inr page \<Rightarrow>
          (case persistObservationPage sha (page_clock w k) (page_ids w k) org (ce_id e) (cu_generation c) (pg_observations page) d1 of
             Inl err \<Rightarrow> (Inl err, d1)
           | Inr d2 \<Rightarrow>
               let observed' = observed + length (pg_observations page); token' = later_token page finalSyncToken
               in case next_page page of
                    None \<Rightarrow> (Inr (token', observed'), d2)
                  | Some t \<Rightarrow> sync_pages w sha org e c left (Suc k) (Some t) token' observed' d2))"

definition read_calendar :: "surroundings \<Rightarrow> (string \<Rightarrow> string) \<Rightarrow> string \<Rightarrow> calendar_endpoint \<Rightarrow> cursor_row \<Rightarrow> db
    \<Rightarrow> (coordinator_error + string option \<times> nat) \<times> db" where
  "read_calendar w sha org e c d =
     (case ask_token w of
        Some f \<Rightarrow> (Inl (ProviderThrew f), others w 0 d)
      | None \<Rightarrow> sync_pages w sha org e c MAX_PAGES_PER_SYNC 0 None None 0 (others w 0 d))"

definition is_gone :: "coordinator_error \<Rightarrow> bool" where
  "is_gone err \<longleftrightarrow> (case err of ProviderThrew (ProviderFailure code_text r a s) \<Rightarrow> s = Some 410 | _ \<Rightarrow> False)"

definition sync_failed :: "int \<Rightarrow> cursor_row \<Rightarrow> coordinator_error \<Rightarrow> db \<Rightarrow> coordinator_error \<times> db" where
  "sync_failed nowMs c err d =
     (if is_gone err
      then (provider_error ''cursor_reset'', update_cursor (\<lambda>x. cu_id x = cu_id c) (reset_cursor (Some ''cursor_reset'') nowMs) d)
      else (err, update_cursor (\<lambda>x. cu_id x = cu_id c)
             (\<lambda>x. x\<lparr>cu_state := CursorActionRequired, cu_error := Some (providerErrorCode err), cu_updated := nowMs\<rparr>) d))"

subsection \<open>The last transaction\<close>

definition is_stale :: "string \<Rightarrow> string \<Rightarrow> int \<Rightarrow> observation_row \<Rightarrow> bool" where
  "is_stale org calendarId generation r \<longleftrightarrow> so_organization r = org \<and> so_calendar r = calendarId \<and> so_generation r < generation"

definition as_deleted :: "source_observation \<Rightarrow> source_observation" where
  "as_deleted s = s\<lparr>s_lifecycle := Deleted\<rparr>"

definition bury :: "(string \<Rightarrow> string) \<Rightarrow> int \<Rightarrow> int \<Rightarrow> observation_row \<Rightarrow> coordinator_error + observation_row" where
  "bury sha nowMs generation r =
     bindE (observation_hash sha (as_deleted (so_event r))) (\<lambda>h.
       Inr (r\<lparr>so_event := as_deleted (so_event r), so_hash := h, so_tombstone := True, so_generation := generation, so_observed := nowMs\<rparr>))"

definition bury_stale :: "(string \<Rightarrow> string) \<Rightarrow> int \<Rightarrow> string \<Rightarrow> string \<Rightarrow> int \<Rightarrow> observation_row list \<Rightarrow> coordinator_error + observation_row list" where
  "bury_stale sha nowMs org calendarId generation =
     mapE (\<lambda>r. if is_stale org calendarId generation r then bury sha nowMs generation r else Inr r)"

definition cursorWakeup :: "(string \<Rightarrow> string) \<Rightarrow> string \<Rightarrow> int \<Rightarrow> coordinator_error + string" where
  "cursorWakeup sha token generation = liftE (\<lambda>e. CoordinatorThrew (HashThrew e))
     (sha256Canonical sha (JObj [(''token'', Some (JStr token)), (''generation'', Some (JNum (Whole generation)))]))"

definition wake_requests :: "string \<Rightarrow> string \<Rightarrow> string \<Rightarrow> db \<Rightarrow> job_request list" where
  "wake_requests wakeup org calendarId d =
     map (\<lambda>p. \<lparr>rq_once = False, rq_organization = org, rq_kind = ''reconcile_policy'',
         rq_key = ''policy:'' @ sp_id p @ '':revision:'' @ dec_int (sp_revision p) @ '':cursor:'' @ wakeup,
         rq_payload = JObj [(''policy_id'', Some (JStr (sp_id p)))]\<rparr>)
       (filter (\<lambda>p. sp_organization p = org \<and> sp_source_calendar p = calendarId \<and> sp_status p = PolicyActive) (policies d))
     @ map (\<lambda>r. \<lparr>rq_once = False, rq_organization = org, rq_kind = ''reconcile_conflict_response_rule'',
         rq_key = ''conflict-response-rule:'' @ ru_id r @ '':revision:'' @ dec_int (ru_revision r) @ '':cursor:'' @ wakeup,
         rq_payload = JObj [(''rule_id'', Some (JStr (ru_id r)))]\<rparr>)
       (filter (\<lambda>r. ru_organization r = org \<and> cr_response_calendar r = calendarId \<and> ru_status r = RuleActive) (conflict_rules d))"

definition enqueue_all :: "int \<Rightarrow> (nat \<Rightarrow> string) \<Rightarrow> job_request list \<Rightarrow> db \<Rightarrow> coordinator_error + db" where
  "enqueue_all nowMs ids rs d =
     bindE (liftE QueueThrew (foldE (enqueue_request nowMs ids) (0, jobs_table d) rs)) (\<lambda>nq. Inr (d\<lparr>jobs_table := snd nq\<rparr>))"

definition complete_cursor :: "int \<Rightarrow> cursor_row \<Rightarrow> string \<Rightarrow> db \<Rightarrow> db" where
  "complete_cursor nowMs c token = update_cursor (\<lambda>x. cu_id x = cu_id c)
     (\<lambda>x. x\<lparr>cu_token := Some token, cu_state := CursorReady,
            cu_last_full := (if cu_token c = None then Some nowMs else cu_last_full x), cu_last_success := Some nowMs, cu_error := None,
            cu_updated := nowMs\<rparr>)"

definition finish_sync :: "surroundings \<Rightarrow> (string \<Rightarrow> string) \<Rightarrow> string \<Rightarrow> calendar_endpoint \<Rightarrow> cursor_row \<Rightarrow> string \<Rightarrow> db \<Rightarrow> coordinator_error + db" where
  "finish_sync w sha org e c token d =
     bindE (content_authority org (ce_connection e) d) (\<lambda>_.
     bindE (if cu_token c = None then bury_stale sha (end_clock w) org (ce_id e) (cu_generation c) (observations d) else Inr (observations d)) (\<lambda>rows.
     bindE (cursorWakeup sha token (cu_generation c)) (\<lambda>wakeup.
       enqueue_all (end_clock w) (wake_ids w) (wake_requests wakeup org (ce_id e) d) (complete_cursor (end_clock w) c token (d\<lparr>observations := rows\<rparr>)))))"

subsection \<open>A synchronization\<close>

definition source_view :: "string \<Rightarrow> string \<Rightarrow> db \<Rightarrow> (calendar_endpoint \<times> provider_connection) option" where
  "source_view org calendarId d =
     Option.bind (find (\<lambda>e. ce_organization e = org \<and> ce_id e = calendarId) (endpoints d))
       (\<lambda>e. map_option (Pair e) (find (\<lambda>c. pc_id c = ce_connection e) (connections d)))"

definition source_calendar :: "string \<Rightarrow> string \<Rightarrow> db \<Rightarrow> coordinator_error + calendar_endpoint \<times> provider_connection" where
  "source_calendar org calendarId d =
     (case source_view org calendarId d of
        Some (e, p) \<Rightarrow> if source_usable e p then Inr (e, p) else Inl (NonRetryableJobError ''calendar_unavailable'' ''source calendar is unavailable'')
      | None \<Rightarrow> Inl (NonRetryableJobError ''calendar_unavailable'' ''source calendar is unavailable''))"

definition sync_from :: "surroundings \<Rightarrow> (string \<Rightarrow> string) \<Rightarrow> string \<Rightarrow> calendar_endpoint \<Rightarrow> cursor_row \<Rightarrow> db \<Rightarrow> (coordinator_error + nat) \<times> db" where
  "sync_from w sha org e c d =
     (case read_calendar w sha org e c (start_cursor (start_clock w) c d) of
        (Inl err, d1) \<Rightarrow> (let (err', d2) = sync_failed (end_clock w) c err d1 in (Inl err', d2))
      | (Inr (token, observed), d1) \<Rightarrow>
          if \<not> is_truthy token then (Inl (provider_error ''sync_token_missing''), d1)
          else case finish_sync w sha org e c (the token) d1 of
                 Inl err \<Rightarrow> (Inl err, d1)
               | Inr d2 \<Rightarrow> (Inr observed, d2))"

definition open_source :: "surroundings \<Rightarrow> (string \<Rightarrow> string) \<Rightarrow> string \<Rightarrow> string \<Rightarrow> db \<Rightarrow> coordinator_error + calendar_endpoint \<times> cursor_row \<times> db" where
  "open_source w sha org calendarId d =
     bindE (source_calendar org calendarId d) (\<lambda>(e, p).
     bindE (liftE (\<lambda>x. CoordinatorThrew (HashThrew x)) (calendarSyncQueryFingerprint sha (pc_provider p) (ce_remote_id e))) (\<lambda>fp.
     bindE (content_authority org (ce_connection e) d) (\<lambda>_.
       Inr (e, open_cursor (start_clock w) (cursor_id w) org (ce_id e) fp d))))"

definition syncCalendar :: "surroundings \<Rightarrow> (string \<Rightarrow> string) \<Rightarrow> string \<Rightarrow> string \<Rightarrow> db \<Rightarrow> (coordinator_error + nat) \<times> db" where
  "syncCalendar w sha org calendarId d =
     (case open_source w sha org calendarId d of
        Inl err \<Rightarrow> (Inl err, d)
      | Inr (e, c, d1) \<Rightarrow>
          if refresh_is_due (start_clock w) c then (Inl (provider_error ''horizon_refresh''), require_refresh (start_clock w) c d1)
          else if polled_recently (start_clock w) c then (Inr 0, d1)
          else sync_from w sha org e c d1)"

subsection \<open>Dispatching jobs\<close>

definition safety_requests :: "string \<Rightarrow> int \<Rightarrow> db \<Rightarrow> job_request list" where
  "safety_requests org nowMs d =
     map (\<lambda>e. \<lparr>rq_once = False, rq_organization = org, rq_kind = ''sync_calendar'', rq_key = ''calendar:'' @ ce_id e,
         rq_payload = JObj [(''calendar_id'', Some (JStr (ce_id e)))]\<rparr>)
       (filter (\<lambda>e. ce_organization e = org \<and> ce_readable e) (endpoints d))
     @ [\<lparr>rq_once = False, rq_organization = org, rq_kind = ''verify_destinations'',
         rq_key = ''organization:'' @ org @ '':window:'' @ dec_int (nowMs div DESTINATION_VERIFICATION_INTERVAL_MILLISECONDS),
         rq_payload = JObj []\<rparr>]"

definition scheduleSafetySync :: "int \<Rightarrow> (nat \<Rightarrow> string) \<Rightarrow> string \<Rightarrow> db \<Rightarrow> coordinator_error + db" where
  "scheduleSafetySync nowMs ids org d = enqueue_all nowMs ids (safety_requests org nowMs d) d"

definition enqueueSafetySweep :: "int \<Rightarrow> (nat \<Rightarrow> string) \<Rightarrow> string \<Rightarrow> int \<Rightarrow> db \<Rightarrow> coordinator_error + db" where
  "enqueueSafetySweep nowMs ids org window =
     enqueue_all nowMs ids [\<lparr>rq_once = False, rq_organization = org, rq_kind = ''safety_sync'',
       rq_key = ''organization:'' @ org @ '':window:'' @ dec_int window, rq_payload = JObj []\<rparr>]"

text \<open>What a job makes the coordinator do.\<close>

datatype work =
    DiscoverWork string
  | SyncWork string
  | ReconcileWork string
  | VerifyWork
  | SafetyWork

definition dispatch :: "leased_job \<Rightarrow> coordinator_error + work" where
  "dispatch job =
     (if l_kind job = ''discover_calendars'' then bindE (requiredId (l_payload job) ''connection_id'') (\<lambda>i. Inr (DiscoverWork i))
      else if l_kind job = ''sync_calendar'' then bindE (requiredId (l_payload job) ''calendar_id'') (\<lambda>i. Inr (SyncWork i))
      else if l_kind job = ''reconcile_policy'' then bindE (requiredId (l_payload job) ''policy_id'') (\<lambda>i. Inr (ReconcileWork i))
      else if l_kind job = ''verify_destinations'' then Inr VerifyWork
      else if l_kind job = ''safety_sync'' then Inr SafetyWork
      else Inl (NonRetryableJobError ''unknown_job_kind'' (''unknown scheduled job kind: '' @ l_kind job)))"

subsection \<open>What a table of observations says about a calendar\<close>

definition event_key :: "source_observation \<Rightarrow> string \<times> string" where
  "event_key s = (source_event_ref s, source_occurrence_ref s)"

definition row_key :: "observation_row \<Rightarrow> string \<times> string" where
  "row_key r = (so_remote_event r, so_recurrence r)"

text \<open>The last report of every event, in the order of the reports.\<close>

definition last_report :: "source_observation list \<Rightarrow> string \<times> string \<rightharpoonup> source_observation" where
  "last_report rs = map_of (rev (map (\<lambda>s. (event_key s, s)) rs))"

definition holds_event :: "int \<Rightarrow> source_observation \<Rightarrow> observation_row \<Rightarrow> bool" where
  "holds_event generation s r \<longleftrightarrow> so_event r = s \<and> so_tombstone r = (s_lifecycle s \<noteq> Confirmed)
     \<and> so_managed r = (s_origin s = PlanipusManaged) \<and> so_generation r = generation"

definition scan_progress :: "string \<Rightarrow> string \<Rightarrow> int \<Rightarrow> source_observation list \<Rightarrow> observation_row list \<Rightarrow> bool" where
  "scan_progress org calendarId generation rs rows \<longleftrightarrow>
     (\<forall>r \<in> set rows. so_calendar r = calendarId \<longrightarrow> so_organization r = org
        \<and> (case last_report rs (row_key r) of None \<Rightarrow> so_generation r < generation | Some s \<Rightarrow> holds_event generation s r))
     \<and> (\<forall>s \<in> set rs. \<exists>r \<in> set rows. so_calendar r = calendarId \<and> row_key r = event_key s)"

lemma last_report_snoc: "last_report (rs @ [s]) = (last_report rs)(event_key s \<mapsto> s)"
  by (simp add: last_report_def)

lemma last_report_Nil [simp]: "last_report [] = Map.empty"
  by (simp add: last_report_def)

lemma same_event_iff: "same_event calendarId s r \<longleftrightarrow> so_calendar r = calendarId \<and> row_key r = event_key s"
  by (auto simp: same_event_def row_key_def event_key_def)

lemma observed_as_simps [simp]:
  "so_calendar (observed_as n g h s r) = so_calendar r" "so_organization (observed_as n g h s r) = so_organization r"
  "row_key (observed_as n g h s r) = row_key r" "holds_event g s (observed_as n g h s r)"
  "so_id (observed_as n g h s r) = so_id r"
  by (simp_all add: observed_as_def row_key_def holds_event_def)

lemma fresh_observation_simps [simp]:
  "so_calendar (fresh_observation i org calendarId s) = calendarId" "so_organization (fresh_observation i org calendarId s) = org"
  "row_key (fresh_observation i org calendarId s) = event_key s"
  by (simp_all add: fresh_observation_def row_key_def event_key_def)

lemma store_observation_Inr:
  "store_observation sha n i org calendarId g s rows = Inr rows' \<longleftrightarrow>
     (\<exists>h. observation_hash sha s = Inr h
        \<and> rows' = (if list_ex (same_event calendarId s) rows then update_where (same_event calendarId s) (observed_as n g h s) rows
                   else rows @ [observed_as n g h s (fresh_observation i org calendarId s)]))"
  by (auto simp: store_observation_def bindE_Inr_iff)

lemma store_observation_progress:
  assumes "store_observation sha n i org calendarId g s rows = Inr rows'" "scan_progress org calendarId g rs rows"
  shows "scan_progress org calendarId g (rs @ [s]) rows'"
proof -
  from assms(1) obtain h where rows': "rows' = (if list_ex (same_event calendarId s) rows then update_where (same_event calendarId s) (observed_as n g h s) rows
                   else rows @ [observed_as n g h s (fresh_observation i org calendarId s)])"
    by (auto simp: store_observation_Inr)
  show ?thesis
  proof (cases "list_ex (same_event calendarId s) rows")
    case True
    with rows' have upd: "rows' = update_where (same_event calendarId s) (observed_as n g h s) rows" by simp
    from True obtain x where x: "x \<in> set rows" "so_calendar x = calendarId" "row_key x = event_key s"
      by (auto simp: list_ex_iff same_event_iff)
    have image: "\<exists>r' \<in> set rows'. so_calendar r' = so_calendar r \<and> row_key r' = row_key r" if "r \<in> set rows" for r
    proof -
      have "map (\<lambda>r. (so_calendar r, row_key r)) rows' = map (\<lambda>r. (so_calendar r, row_key r)) rows"
        unfolding upd by (rule map_update_where) simp
      then have "(so_calendar r, row_key r) \<in> set (map (\<lambda>r. (so_calendar r, row_key r)) rows')" using that by simp
      then show ?thesis by auto
    qed
    show ?thesis unfolding scan_progress_def
    proof (intro conjI ballI impI)
      fix r' assume r': "r' \<in> set rows'" "so_calendar r' = calendarId"
      from r' show "so_organization r' = org" using assms(2) unfolding upd scan_progress_def by (auto elim: update_whereE)
      from r' show "case last_report (rs @ [s]) (row_key r') of None \<Rightarrow> so_generation r' < g | Some s \<Rightarrow> holds_event g s r'"
        using assms(2) unfolding upd scan_progress_def by (auto elim!: update_whereE simp: last_report_snoc same_event_iff)
    next
      fix s' assume "s' \<in> set (rs @ [s])"
      then have "\<exists>r \<in> set rows. so_calendar r = calendarId \<and> row_key r = event_key s'"
        using assms(2) x unfolding scan_progress_def by auto
      then show "\<exists>r \<in> set rows'. so_calendar r = calendarId \<and> row_key r = event_key s'" using image by metis
    qed
  next
    case False
    with rows' have new: "rows' = rows @ [observed_as n g h s (fresh_observation i org calendarId s)]" by simp
    from False have "\<forall>r \<in> set rows. \<not> (so_calendar r = calendarId \<and> row_key r = event_key s)"
      by (auto simp: list_ex_iff same_event_iff)
    then show ?thesis using assms(2) unfolding new scan_progress_def by (auto simp: last_report_snoc)
  qed
qed

lemma store_page_progress:
  "store_page sha n ids k org calendarId g ss rows = Inr rows' \<Longrightarrow> scan_progress org calendarId g rs rows
   \<Longrightarrow> scan_progress org calendarId g (rs @ ss) rows'"
proof (induction ss arbitrary: k rows rs)
  case (Cons s ss)
  from Cons.prems(1) obtain m where m: "store_observation sha n (ids k) org calendarId g s rows = Inr m"
    "store_page sha n ids (Suc k) org calendarId g ss m = Inr rows'" by (auto simp: bindE_Inr_iff)
  from Cons.IH [OF m(2) store_observation_progress [OF m(1) Cons.prems(2)]] show ?case by simp
qed simp

lemma persist_Inr:
  "persistObservationPage sha n ids org calendarId g ss d = Inr d' \<longleftrightarrow> page_authority org calendarId d = Inr ()
     \<and> (\<exists>rows. store_page sha n ids 0 org calendarId g ss (observations d) = Inr rows \<and> d' = d\<lparr>observations := rows\<rparr>)"
  by (auto simp: persistObservationPage_def bindE_Inr_iff)

text \<open>Everything the provider reports in one pass over the pages.\<close>

fun scanned :: "surroundings \<Rightarrow> calendar_endpoint \<Rightarrow> cursor_row \<Rightarrow> nat \<Rightarrow> nat \<Rightarrow> string option \<Rightarrow> source_observation list" where
  "scanned w e c 0 k pageToken = []"
| "scanned w e c (Suc left) k pageToken =
     (case ask_page w k (ce_remote_id e) (page_request_of (start_clock w) c pageToken) of
        Inl f \<Rightarrow> []
      | Inr page \<Rightarrow> pg_observations page @ (case next_page page of None \<Rightarrow> [] | Some t \<Rightarrow> scanned w e c left (Suc k) (Some t)))"

abbreviation reported :: "surroundings \<Rightarrow> calendar_endpoint \<Rightarrow> cursor_row \<Rightarrow> source_observation list" where
  "reported w e c \<equiv> scanned w e c MAX_PAGES_PER_SYNC 0 None"

text \<open>Nobody else writes the observations of the calendar while it is synchronized.\<close>

definition undisturbed :: "surroundings \<Rightarrow> string \<Rightarrow> bool" where
  "undisturbed w calendarId \<longleftrightarrow> (\<forall>k d. filter (\<lambda>r. so_calendar r = calendarId) (observations (others w k d))
     = filter (\<lambda>r. so_calendar r = calendarId) (observations d))"

lemma undisturbed_rows:
  assumes "undisturbed w calendarId" "so_calendar r = calendarId"
  shows "r \<in> set (observations (others w k d)) \<longleftrightarrow> r \<in> set (observations d)"
proof -
  from assms(1) have "set (filter (\<lambda>r. so_calendar r = calendarId) (observations (others w k d)))
     = set (filter (\<lambda>r. so_calendar r = calendarId) (observations d))" by (simp add: undisturbed_def)
  with assms(2) show ?thesis by auto
qed

lemma scan_progress_filter:
  "scan_progress org calendarId g rs (filter (\<lambda>r. so_calendar r = calendarId) rows) \<longleftrightarrow> scan_progress org calendarId g rs rows"
  unfolding scan_progress_def by simp blast

lemma undisturbed_progress:
  "undisturbed w calendarId \<Longrightarrow> scan_progress org calendarId g rs (observations (others w k d)) \<longleftrightarrow> scan_progress org calendarId g rs (observations d)"
  by (metis scan_progress_filter undisturbed_def)

lemma sync_pages_step:
  assumes "sync_pages w sha org e c (Suc left) k tok fin ob d = (Inr (token, n), d')"
  obtains page d2 where "ask_page w k (ce_remote_id e) (page_request_of (start_clock w) c tok) = Inr page"
    "persistObservationPage sha (page_clock w k) (page_ids w k) org (ce_id e) (cu_generation c) (pg_observations page) (others w (Suc k) d) = Inr d2"
    "next_page page = None \<longrightarrow> d' = d2 \<and> n = ob + length (pg_observations page) \<and> token = later_token page fin"
    "\<forall>t. next_page page = Some t \<longrightarrow> sync_pages w sha org e c left (Suc k) (Some t) (later_token page fin)
       (ob + length (pg_observations page)) d2 = (Inr (token, n), d')"
proof -
  from assms obtain page where page: "ask_page w k (ce_remote_id e) (page_request_of (start_clock w) c tok) = Inr page"
    by (cases "ask_page w k (ce_remote_id e) (page_request_of (start_clock w) c tok)") (auto simp: Let_def)
  with assms obtain d2 where d2: "persistObservationPage sha (page_clock w k) (page_ids w k) org (ce_id e) (cu_generation c)
      (pg_observations page) (others w (Suc k) d) = Inr d2"
    by (cases "persistObservationPage sha (page_clock w k) (page_ids w k) org (ce_id e) (cu_generation c)
      (pg_observations page) (others w (Suc k) d)") (auto simp: Let_def)
  from assms page d2 show ?thesis by (intro that [OF page d2]) (auto simp: Let_def)
qed

lemma sync_pages_progress:
  assumes "sync_pages w sha org e c left k tok fin ob d = (Inr (token, n), d')" "undisturbed w (ce_id e)"
    "scan_progress org (ce_id e) (cu_generation c) rs (observations d)"
  shows "scan_progress org (ce_id e) (cu_generation c) (rs @ scanned w e c left k tok) (observations d')
     \<and> n = ob + length (scanned w e c left k tok)"
  using assms
proof (induction left arbitrary: k tok fin ob d rs)
  case (Suc left)
  from Suc.prems(1) obtain page d2 where page: "ask_page w k (ce_remote_id e) (page_request_of (start_clock w) c tok) = Inr page"
    and d2: "persistObservationPage sha (page_clock w k) (page_ids w k) org (ce_id e) (cu_generation c) (pg_observations page) (others w (Suc k) d) = Inr d2"
    and stop: "next_page page = None \<longrightarrow> d' = d2 \<and> n = ob + length (pg_observations page) \<and> token = later_token page fin"
    and go: "\<forall>t. next_page page = Some t \<longrightarrow> sync_pages w sha org e c left (Suc k) (Some t) (later_token page fin)
       (ob + length (pg_observations page)) d2 = (Inr (token, n), d')"
    by (rule sync_pages_step) (rule that)
  from Suc.prems(3) have "scan_progress org (ce_id e) (cu_generation c) rs (observations (others w (Suc k) d))"
    by (simp add: undisturbed_progress [OF Suc.prems(2)])
  with d2 have page_stored: "scan_progress org (ce_id e) (cu_generation c) (rs @ pg_observations page) (observations d2)"
    by (auto simp: persist_Inr dest: store_page_progress)
  show ?case
  proof (cases "next_page page")
    case None
    with stop page page_stored show ?thesis by simp
  next
    case (Some t)
    from Suc.IH [OF go [rule_format, OF Some] Suc.prems(2) page_stored] Some page show ?thesis by simp
  qed
qed simp

subsection \<open>A complete scan mirrors the calendar\<close>

definition mirrors :: "string \<Rightarrow> source_observation list \<Rightarrow> observation_row list \<Rightarrow> bool" where
  "mirrors calendarId rs rows \<longleftrightarrow>
     (\<forall>r \<in> set rows. so_calendar r = calendarId \<longrightarrow>
        (case last_report rs (row_key r) of
           Some s \<Rightarrow> so_event r = s \<and> so_tombstone r = (s_lifecycle s \<noteq> Confirmed)
         | None \<Rightarrow> so_tombstone r \<and> s_lifecycle (so_event r) = Deleted))
     \<and> (\<forall>s \<in> set rs. \<exists>r \<in> set rows. so_calendar r = calendarId \<and> row_key r = event_key s)"

text \<open>No observation of the calendar carries the generation of the cursor yet.\<close>

definition unseen :: "cursor_row \<Rightarrow> string \<Rightarrow> string \<Rightarrow> db \<Rightarrow> bool" where
  "unseen c org calendarId d \<longleftrightarrow>
     (\<forall>r \<in> set (observations d). so_calendar r = calendarId \<longrightarrow> so_organization r = org \<and> so_generation r < cu_generation c)"

lemma unseen_progress: "unseen c org calendarId d \<Longrightarrow> scan_progress org calendarId (cu_generation c) [] (observations d)"
  by (simp add: unseen_def scan_progress_def)

lemma bury_Inr:
  "bury sha n g r = Inr r' \<Longrightarrow> so_calendar r' = so_calendar r \<and> row_key r' = row_key r \<and> so_tombstone r'
     \<and> s_lifecycle (so_event r') = Deleted \<and> so_generation r' = g \<and> so_id r' = so_id r"
  by (auto simp: bury_def bindE_Inr_iff as_deleted_def row_key_def)

lemma mapE_Inr_hit: "mapE f xs = Inr ys \<Longrightarrow> x \<in> set xs \<Longrightarrow> \<exists>y \<in> set ys. f x = Inr y"
  by (induction xs arbitrary: ys) (auto simp: bindE_Inr_iff)

lemma bury_stale_mirrors:
  assumes "bury_stale sha n org calendarId g rows = Inr rows'" "scan_progress org calendarId g rs rows"
  shows "mirrors calendarId rs rows'"
  unfolding mirrors_def
proof (intro conjI ballI impI)
  fix r' assume r': "r' \<in> set rows'" "so_calendar r' = calendarId"
  from mapE_Inr_set [OF assms(1) [unfolded bury_stale_def] r'(1)] obtain r where r: "r \<in> set rows"
    "(if is_stale org calendarId g r then bury sha n g r else Inr r) = Inr r'" by blast
  have same: "so_calendar r = calendarId" "row_key r' = row_key r" using r(2) r'(2) by (auto split: if_splits dest: bury_Inr)
  with assms(2) r(1) have p: "so_organization r = org"
    "case last_report rs (row_key r) of None \<Rightarrow> so_generation r < g | Some s \<Rightarrow> holds_event g s r"
    by (simp_all add: scan_progress_def)
  show "case last_report rs (row_key r') of Some s \<Rightarrow> so_event r' = s \<and> so_tombstone r' = (s_lifecycle s \<noteq> Confirmed)
      | None \<Rightarrow> so_tombstone r' \<and> s_lifecycle (so_event r') = Deleted"
  proof (cases "last_report rs (row_key r)")
    case None
    with p same r(2) have "bury sha n g r = Inr r'" by (simp add: is_stale_def)
    with None same show ?thesis by (auto dest: bury_Inr)
  next
    case (Some s)
    with p have "holds_event g s r" by simp
    then have "\<not> is_stale org calendarId g r" by (simp add: holds_event_def is_stale_def)
    with r(2) Some \<open>holds_event g s r\<close> show ?thesis by (simp add: holds_event_def)
  qed
next
  fix s assume "s \<in> set rs"
  with assms(2) obtain r where r: "r \<in> set rows" "so_calendar r = calendarId" "row_key r = event_key s"
    by (auto simp: scan_progress_def)
  from mapE_Inr_hit [OF assms(1) [unfolded bury_stale_def] r(1)] obtain r' where "r' \<in> set rows'"
    "(if is_stale org calendarId g r then bury sha n g r else Inr r) = Inr r'" by blast
  with r show "\<exists>r \<in> set rows'. so_calendar r = calendarId \<and> row_key r = event_key s"
    by (intro bexI [of _ r']) (auto split: if_splits dest: bury_Inr)
qed

lemma enqueue_all_Inr:
  "enqueue_all n ids rs d = Inr d' \<Longrightarrow> \<exists>q. d' = d\<lparr>jobs_table := q\<rparr>"
  by (auto simp: enqueue_all_def bindE_Inr_iff)

lemma finish_sync_Inr:
  assumes "finish_sync w sha org e c token d = Inr d'"
  obtains rows wakeup where "content_authority org (ce_connection e) d = Inr ()"
    "if cu_token c = None then bury_stale sha (end_clock w) org (ce_id e) (cu_generation c) (observations d) = Inr rows else rows = observations d"
    "cursorWakeup sha token (cu_generation c) = Inr wakeup"
    "enqueue_all (end_clock w) (wake_ids w) (wake_requests wakeup org (ce_id e) d) (complete_cursor (end_clock w) c token (d\<lparr>observations := rows\<rparr>)) = Inr d'"
    "observations d' = rows" "cursors d' = cursors (complete_cursor (end_clock w) c token d)"
proof -
  from assms obtain rows wakeup where r: "content_authority org (ce_connection e) d = Inr ()"
    "if cu_token c = None then bury_stale sha (end_clock w) org (ce_id e) (cu_generation c) (observations d) = Inr rows else rows = observations d"
    "cursorWakeup sha token (cu_generation c) = Inr wakeup"
    "enqueue_all (end_clock w) (wake_ids w) (wake_requests wakeup org (ce_id e) d) (complete_cursor (end_clock w) c token (d\<lparr>observations := rows\<rparr>)) = Inr d'"
    by (auto simp: finish_sync_def bindE_Inr_iff split: if_splits)
  from enqueue_all_Inr [OF r(4)] have "observations d' = rows" "cursors d' = cursors (complete_cursor (end_clock w) c token d)"
    by (auto simp: complete_cursor_def update_cursor_def)
  with r show thesis by (rule that)
qed

lemma sync_from_Inr:
  assumes "sync_from w sha org e c d = (Inr n, d')"
  obtains token d1 where "sync_pages w sha org e c MAX_PAGES_PER_SYNC 0 None None 0 (others w 0 (start_cursor (start_clock w) c d)) = (Inr (Some token, n), d1)"
    "finish_sync w sha org e c token d1 = Inr d'" "token \<noteq> ''''"
proof -
  from assms have ask: "ask_token w = None"
    by (auto simp: sync_from_def read_calendar_def split: option.splits prod.splits)
  obtain res d1 where run: "sync_pages w sha org e c MAX_PAGES_PER_SYNC 0 None None 0 (others w 0 (start_cursor (start_clock w) c d)) = (res, d1)"
    by fastforce
  have "\<exists>tok. res = Inr (tok, n) \<and> is_truthy tok \<and> finish_sync w sha org e c (the tok) d1 = Inr d'"
    using assms ask run by (auto simp: sync_from_def read_calendar_def split: sum.splits prod.splits if_splits)
  then obtain token where "res = Inr (Some token, n)" "finish_sync w sha org e c token d1 = Inr d'" "token \<noteq> ''''"
    unfolding is_truthy_def by force
  with run show thesis by (intro that) auto
qed

lemma start_cursor_observations [simp]: "observations (start_cursor n c d) = observations d"
  by (simp add: start_cursor_def update_cursor_def)

lemma open_source_Inr:
  assumes "open_source w sha org calendarId d = Inr (e, c, d1)"
  obtains p fp where "source_calendar org calendarId d = Inr (e, p)"
    "calendarSyncQueryFingerprint sha (pc_provider p) (ce_remote_id e) = Inr fp"
    "content_authority org (ce_connection e) d = Inr ()"
    "open_cursor (start_clock w) (cursor_id w) org (ce_id e) fp d = (c, d1)"
  using assms by (auto simp: open_source_def bindE_Inr_iff)

lemma source_calendar_id: "source_calendar org calendarId d = Inr (e, p) \<Longrightarrow> ce_id e = calendarId \<and> ce_organization e = org"
  by (auto simp: source_calendar_def source_view_def find_Some_iff split: option.splits if_splits bind_splits)

lemma open_source_observations:
  "open_source w sha org calendarId d = Inr (e, c, d1) \<Longrightarrow> observations d1 = observations d \<and> ce_id e = calendarId"
  by (erule open_source_Inr) (auto simp: open_cursor_def Let_def dest: source_calendar_id split: option.splits)

lemma syncCalendar_full:
  assumes "open_source w sha org calendarId d = Inr (e, c, d1)" "cu_token c = None" "cu_state c \<noteq> CursorReady"
  shows "syncCalendar w sha org calendarId d = sync_from w sha org e c d1"
  using assms by (simp add: syncCalendar_def refresh_is_due_def polled_recently_def is_truthy_def)

lemma complete_scan_mirrors:
  assumes "open_source w sha org calendarId d = Inr (e, c, d1)" "cu_token c = None" "cu_state c \<noteq> CursorReady"
    "unseen c org calendarId d" "undisturbed w calendarId" "syncCalendar w sha org calendarId d = (Inr n, d')"
  shows "mirrors calendarId (reported w e c) (observations d') \<and> n = length (reported w e c)"
proof -
  from open_source_observations [OF assms(1)] have e: "ce_id e = calendarId" and same: "observations d1 = observations d" by simp_all
  from assms(6) have "sync_from w sha org e c d1 = (Inr n, d')" by (simp add: syncCalendar_full [OF assms(1-3)])
  then obtain token d2 where pages: "sync_pages w sha org e c MAX_PAGES_PER_SYNC 0 None None 0 (others w 0 (start_cursor (start_clock w) c d1))
      = (Inr (Some token, n), d2)" and fin: "finish_sync w sha org e c token d2 = Inr d'"
    by (rule sync_from_Inr)
  have "scan_progress org (ce_id e) (cu_generation c) [] (observations (others w 0 (start_cursor (start_clock w) c d1)))"
    using unseen_progress [OF assms(4)] by (simp add: e undisturbed_progress [OF assms(5)] same)
  from sync_pages_progress [OF pages _ this] assms(5) e
  have read: "scan_progress org calendarId (cu_generation c) (reported w e c) (observations d2)" "n = length (reported w e c)" by simp_all
  from fin obtain rows where "bury_stale sha (end_clock w) org calendarId (cu_generation c) (observations d2) = Inr rows" "observations d' = rows"
    by (rule finish_sync_Inr) (simp add: assms(2) e)
  with bury_stale_mirrors [OF _ read(1)] read(2) show ?thesis by blast
qed

text \<open>
  C9: A complete scan that starts at a generation no observation carries leaves the table as a mirror of what
  the provider reported: an event that was reported has its last report, an event that was not reported
  is a tombstone.
\<close>

theorem complete_scan_mirrors_the_calendar:
  assumes "open_source w sha org calendarId d = Inr (e, c, d1)" "cu_token c = None" "cu_state c \<noteq> CursorReady"
    "unseen c org calendarId d" "undisturbed w calendarId" "syncCalendar w sha org calendarId d = (Inr n, d')"
  shows "mirrors calendarId (reported w e c) (observations d') \<and> n = length (reported w e c)"
  using assms by (rule complete_scan_mirrors)

text \<open>A cursor that is created for a calendar, and one that is reset, starts at a generation no observation carries.\<close>

lemma sql_max_ge: "x \<in> set xs \<Longrightarrow> x \<le> or_zero (sql_max xs)"
  by (auto simp: sql_max_def or_zero_def)

lemma new_cursor_unseen:
  assumes "\<forall>r \<in> set (observations d). so_calendar r = calendarId \<longrightarrow> so_organization r = org"
  shows "unseen (new_cursor n i org calendarId fp d) org calendarId d"
  unfolding unseen_def
proof (intro ballI impI conjI)
  fix r assume r: "r \<in> set (observations d)" "so_calendar r = calendarId"
  with assms show org: "so_organization r = org" by blast
  have "so_generation r \<le> or_zero (sql_max (map so_generation (filter (\<lambda>r. so_organization r = org \<and> so_calendar r = calendarId) (observations d))))"
    using r org by (intro sql_max_ge) auto
  then show "so_generation r < cu_generation (new_cursor n i org calendarId fp d)"
    by (simp add: new_cursor_def nextCalendarGeneration_def)
qed

lemma reset_cursor_unseen:
  assumes "\<forall>r \<in> set (observations d). so_calendar r = calendarId \<longrightarrow> so_organization r = org \<and> so_generation r \<le> cu_generation c"
  shows "unseen (reset_cursor err n c) org calendarId d"
  using assms by (auto simp: unseen_def reset_cursor_def)

subsection \<open>An interrupted scan\<close>

lemma store_observation_keeps:
  assumes "store_observation sha n i org calendarId g s rows = Inr rows'" "r \<in> set rows" "\<not> same_event calendarId s r"
  shows "r \<in> set rows'"
  using assms by (auto simp: store_observation_Inr in_update_where intro!: bexI [of _ r])

lemma store_page_keeps:
  "store_page sha n ids k org calendarId g ss rows = Inr rows' \<Longrightarrow> r \<in> set rows \<Longrightarrow> row_key r \<notin> event_key ` set ss \<Longrightarrow> r \<in> set rows'"
proof (induction ss arbitrary: k rows)
  case (Cons s ss)
  from Cons.prems(1) obtain m where m: "store_observation sha n (ids k) org calendarId g s rows = Inr m"
    "store_page sha n ids (Suc k) org calendarId g ss m = Inr rows'" by (auto simp: bindE_Inr_iff)
  from Cons.prems(3) have "\<not> same_event calendarId s r" by (auto simp: same_event_iff)
  with Cons.IH [OF m(2) store_observation_keeps [OF m(1) Cons.prems(2)]] Cons.prems(3) show ?case by simp
qed simp

lemma sync_pages_keeps:
  assumes "sync_pages w sha org e c left k tok fin ob d = (Inr (token, n), d')" "undisturbed w (ce_id e)"
    "r \<in> set (observations d)" "so_calendar r = ce_id e" "row_key r \<notin> event_key ` set (scanned w e c left k tok)"
  shows "r \<in> set (observations d')"
  using assms
proof (induction left arbitrary: k tok fin ob d)
  case (Suc left)
  from Suc.prems(1) obtain page d2 where page: "ask_page w k (ce_remote_id e) (page_request_of (start_clock w) c tok) = Inr page"
    and d2: "persistObservationPage sha (page_clock w k) (page_ids w k) org (ce_id e) (cu_generation c) (pg_observations page) (others w (Suc k) d) = Inr d2"
    and stop: "next_page page = None \<longrightarrow> d' = d2 \<and> n = ob + length (pg_observations page) \<and> token = later_token page fin"
    and go: "\<forall>t. next_page page = Some t \<longrightarrow> sync_pages w sha org e c left (Suc k) (Some t) (later_token page fin)
       (ob + length (pg_observations page)) d2 = (Inr (token, n), d')"
    by (rule sync_pages_step) (rule that)
  from Suc.prems(3) have "r \<in> set (observations (others w (Suc k) d))" by (simp add: undisturbed_rows [OF Suc.prems(2,4)])
  with d2 Suc.prems(5) page have kept: "r \<in> set (observations d2)" by (auto simp: persist_Inr dest: store_page_keeps)
  show ?case
  proof (cases "next_page page")
    case None
    with stop kept show ?thesis by simp
  next
    case (Some t)
    with Suc.prems(5) page Suc.IH [OF go [rule_format, OF Some] Suc.prems(2) kept Suc.prems(4)] show ?thesis by auto
  qed
qed simp

text \<open>
  The scan infers that an event is gone from its older generation. An observation that an interrupted
  attempt stored already carries the generation of the cursor, which a failure does not advance: when
  the next attempt completes without a report of the event, the observation stays as it is.
\<close>

theorem interrupted_scan_leaves_its_observations:
  assumes "open_source w sha org calendarId d = Inr (e, c, d1)" "cu_token c = None" "cu_state c \<noteq> CursorReady" "undisturbed w calendarId"
    "syncCalendar w sha org calendarId d = (Inr n, d')" "r \<in> set (observations d)" "so_calendar r = calendarId"
    "so_generation r = cu_generation c" "row_key r \<notin> event_key ` set (reported w e c)"
  shows "r \<in> set (observations d')"
proof -
  from open_source_observations [OF assms(1)] have e: "ce_id e = calendarId" and same: "observations d1 = observations d" by simp_all
  from assms(5) have "sync_from w sha org e c d1 = (Inr n, d')" by (simp add: syncCalendar_full [OF assms(1-3)])
  then obtain token d2 where pages: "sync_pages w sha org e c MAX_PAGES_PER_SYNC 0 None None 0 (others w 0 (start_cursor (start_clock w) c d1))
      = (Inr (Some token, n), d2)" and fin: "finish_sync w sha org e c token d2 = Inr d'"
    by (rule sync_from_Inr)
  have "r \<in> set (observations d2)"
    by (rule sync_pages_keeps [OF pages]) (use assms e same in \<open>simp_all add: undisturbed_rows\<close>)
  moreover from fin obtain rows where b: "bury_stale sha (end_clock w) org calendarId (cu_generation c) (observations d2) = Inr rows" "observations d' = rows"
    by (rule finish_sync_Inr) (simp add: assms(2) e)
  ultimately obtain r' where "r' \<in> set rows" "(if is_stale org calendarId (cu_generation c) r then bury sha (end_clock w) (cu_generation c) r else Inr r) = Inr r'"
    using mapE_Inr_hit [OF b(1) [unfolded bury_stale_def]] by blast
  with assms(8) b(2) show ?thesis by (simp add: is_stale_def)
qed

subsection \<open>A failed synchronization\<close>

text \<open>Nobody else writes cursors and jobs while the calendar is synchronized.\<close>

definition alone :: "surroundings \<Rightarrow> bool" where
  "alone w \<longleftrightarrow> (\<forall>k d. cursors (others w k d) = cursors d \<and> jobs_table (others w k d) = jobs_table d)"

lemma persist_frame:
  "persistObservationPage sha n ids org calendarId g ss d = Inr d' \<Longrightarrow> cursors d' = cursors d \<and> jobs_table d' = jobs_table d"
  by (auto simp: persist_Inr)

lemma sync_pages_frame:
  "alone w \<Longrightarrow> sync_pages w sha org e c left k tok fin ob d = (res, d') \<Longrightarrow> cursors d' = cursors d \<and> jobs_table d' = jobs_table d"
proof (induction left arbitrary: k tok fin ob d)
  case (Suc left)
  have o: "cursors (others w (Suc k) d) = cursors d" "jobs_table (others w (Suc k) d) = jobs_table d"
    using Suc.prems(1) by (simp_all add: alone_def)
  show ?case
  proof (cases "ask_page w k (ce_remote_id e) (page_request_of (start_clock w) c tok)")
    case (Inl f)
    with Suc.prems(2) o show ?thesis by (auto simp: Let_def)
  next
    case page: (Inr page)
    show ?thesis
    proof (cases "persistObservationPage sha (page_clock w k) (page_ids w k) org (ce_id e) (cu_generation c) (pg_observations page) (others w (Suc k) d)")
      case (Inl f)
      with Suc.prems(2) page o show ?thesis by (auto simp: Let_def)
    next
      case (Inr d2)
      with persist_frame [OF Inr] o have d2: "cursors d2 = cursors d" "jobs_table d2 = jobs_table d" by simp_all
      show ?thesis
      proof (cases "next_page page")
        case None
        with Suc.prems(2) page Inr d2 show ?thesis by (auto simp: Let_def)
      next
        case (Some t)
        with Suc.prems(2) page Inr have "sync_pages w sha org e c left (Suc k) (Some t) (later_token page fin)
            (ob + length (pg_observations page)) d2 = (res, d')" by (simp add: Let_def)
        from Suc.IH [OF Suc.prems(1) this] d2 show ?thesis by simp
      qed
    qed
  qed
qed auto

lemma read_calendar_frame:
  assumes "alone w" "read_calendar w sha org e c d = (res, d')"
  shows "cursors d' = cursors d \<and> jobs_table d' = jobs_table d"
proof -
  have o: "cursors (others w 0 d) = cursors d" "jobs_table (others w 0 d) = jobs_table d"
    using assms(1) by (simp_all add: alone_def)
  show ?thesis
  proof (cases "ask_token w")
    case None
    with assms(2) have "sync_pages w sha org e c MAX_PAGES_PER_SYNC 0 None None 0 (others w 0 d) = (res, d')"
      by (simp add: read_calendar_def)
    from sync_pages_frame [OF assms(1) this] o show ?thesis by simp
  qed (use assms(2) o in \<open>auto simp: read_calendar_def\<close>)
qed

text \<open>A cursor of the later table with a token has the token, and the last success, of the cursor it was.\<close>

definition no_progress :: "cursor_row list \<Rightarrow> cursor_row list \<Rightarrow> bool" where
  "no_progress cs cs' \<longleftrightarrow> (\<forall>x \<in> set cs'. cu_token x \<noteq> None \<longrightarrow>
     (\<exists>y \<in> set cs. cu_id y = cu_id x \<and> cu_token y = cu_token x \<and> cu_last_success y = cu_last_success x \<and> cu_generation y = cu_generation x))"

lemma no_progress_trans: "no_progress a b \<Longrightarrow> no_progress b c \<Longrightarrow> no_progress a c"
  unfolding no_progress_def by metis

lemma no_progress_refl [simp]: "no_progress a a"
  unfolding no_progress_def by blast

lemma no_progress_snoc: "cu_token c = None \<Longrightarrow> no_progress a (a @ [c])"
  unfolding no_progress_def by auto

lemma no_progress_update:
  assumes "\<And>x. cu_token (f x) = None \<or> cu_id (f x) = cu_id x \<and> cu_token (f x) = cu_token x \<and> cu_last_success (f x) = cu_last_success x
      \<and> cu_generation (f x) = cu_generation x"
  shows "no_progress a (update_where p f a)"
  unfolding no_progress_def
proof (intro ballI impI)
  fix x assume x: "x \<in> set (update_where p f a)" "cu_token x \<noteq> None"
  from x(1) show "\<exists>y \<in> set a. cu_id y = cu_id x \<and> cu_token y = cu_token x \<and> cu_last_success y = cu_last_success x \<and> cu_generation y = cu_generation x"
  proof (cases rule: update_whereE)
    case (changed r)
    with assms [of r] x(2) show ?thesis by auto
  qed blast
qed

lemma no_progress_step:
  "no_progress a b \<Longrightarrow> (\<And>x. cu_token (f x) = None \<or> cu_id (f x) = cu_id x \<and> cu_token (f x) = cu_token x \<and> cu_last_success (f x) = cu_last_success x
      \<and> cu_generation (f x) = cu_generation x) \<Longrightarrow> no_progress a (update_where p f b)"
  by (erule no_progress_trans) (rule no_progress_update)

text \<open>
  C28: A synchronization that fails, for whatever reason and at whatever page, advances nothing: no cursor has
  a new token, no reconciliation is scheduled, so that the next attempt sees everything this one did not.
\<close>

theorem failed_sync_advances_nothing:
  assumes "alone w" "syncCalendar w sha org calendarId d = (Inl err, d')"
  shows "no_progress (cursors d) (cursors d') \<and> jobs_table d' = jobs_table d"
proof (cases "open_source w sha org calendarId d")
  case (Inl f)
  with assms show ?thesis by (simp add: syncCalendar_def)
next
  case (Inr ecd)
  obtain e c d1 where ecd: "ecd = (e, c, d1)" by (metis prod_cases3)
  have opened: "no_progress (cursors d) (cursors d1)" "jobs_table d1 = jobs_table d"
    by (rule open_source_Inr [OF Inr [unfolded ecd]];
        auto simp: open_cursor_def new_cursor_def Let_def split: option.splits intro: no_progress_snoc)+
  show ?thesis
  proof (cases "refresh_is_due (start_clock w) c")
    case True
    with assms(2) Inr ecd have "d' = require_refresh (start_clock w) c d1" by (simp add: syncCalendar_def)
    with opened show ?thesis
      by (simp add: require_refresh_def update_cursor_def no_progress_step reset_cursor_def [abs_def])
  next
    case False
    with assms(2) Inr ecd have run: "sync_from w sha org e c d1 = (Inl err, d')" by (auto simp: syncCalendar_def split: if_splits)
    obtain res d2 where read: "read_calendar w sha org e c (start_cursor (start_clock w) c d1) = (res, d2)" by fastforce
    have d2: "no_progress (cursors d) (cursors d2)" "jobs_table d2 = jobs_table d"
      using read_calendar_frame [OF assms(1) read] opened
      by (auto simp: start_cursor_def update_cursor_def intro: no_progress_step)
    have "d' = d2 \<or> (\<exists>x. d' = snd (sync_failed (end_clock w) c x d2))"
      using run read by (auto simp: sync_from_def split: sum.splits prod.splits if_splits) (metis snd_conv)
    with d2 show ?thesis
      by (auto simp: sync_failed_def update_cursor_def no_progress_step reset_cursor_def [abs_def])
  qed
qed

subsection \<open>What a completed synchronization wakes\<close>

lemma enqueue_all_schedules:
  assumes "enqueue_all n ids rs d = Inr d'" "list_all object_payload rs" "inj ids" "\<forall>i. ids i \<notin> j_id ` set (jobs_table d)" "r \<in> set rs"
  shows "scheduled (jobs_table d') r"
proof -
  from enqueue_requests [OF assms(2), of n ids 0 "jobs_table d"] obtain rows where rows:
    "foldE (enqueue_request n ids) (0, jobs_table d) rs = Inr (0 + length rs, jobs_table d @ rows)"
    "\<forall>r \<in> set rs. scheduled (jobs_table d @ rows) r" using assms(3,4) by auto
  with assms(1,5) show ?thesis by (auto simp: enqueue_all_def)
qed

lemma wake_requests_payload: "list_all object_payload (wake_requests wakeup org calendarId d)"
  by (auto simp: wake_requests_def list_all_iff object_payload_def)

text \<open>The synchronization tokens that the provider names on the pages of one pass, in their order.\<close>

fun named_tokens :: "surroundings \<Rightarrow> calendar_endpoint \<Rightarrow> cursor_row \<Rightarrow> nat \<Rightarrow> nat \<Rightarrow> string option \<Rightarrow> string list" where
  "named_tokens w e c 0 k pageToken = []"
| "named_tokens w e c (Suc left) k pageToken =
     (case ask_page w k (ce_remote_id e) (page_request_of (start_clock w) c pageToken) of
        Inl f \<Rightarrow> []
      | Inr page \<Rightarrow> (case pg_next_sync page of None \<Rightarrow> [] | Some t \<Rightarrow> [t])
          @ (case next_page page of None \<Rightarrow> [] | Some t \<Rightarrow> named_tokens w e c left (Suc k) (Some t)))"

definition last_of :: "string option \<Rightarrow> string list \<Rightarrow> string option" where
  "last_of fin ts = (if ts = [] then fin else Some (last ts))"

lemma last_of_later: "last_of (later_token page fin) ts = last_of fin ((case pg_next_sync page of None \<Rightarrow> [] | Some t \<Rightarrow> [t]) @ ts)"
  by (simp add: last_of_def later_token_def split: option.splits)

lemma sync_pages_token:
  "sync_pages w sha org e c left k tok fin ob d = (Inr (token, n), d') \<Longrightarrow> token = last_of fin (named_tokens w e c left k tok)"
proof (induction left arbitrary: k tok fin ob d)
  case (Suc left)
  from Suc.prems obtain page d2 where page: "ask_page w k (ce_remote_id e) (page_request_of (start_clock w) c tok) = Inr page"
    and stop: "next_page page = None \<longrightarrow> d' = d2 \<and> n = ob + length (pg_observations page) \<and> token = later_token page fin"
    and go: "\<forall>t. next_page page = Some t \<longrightarrow> sync_pages w sha org e c left (Suc k) (Some t) (later_token page fin)
       (ob + length (pg_observations page)) d2 = (Inr (token, n), d')"
    by (rule sync_pages_step) (rule that)
  show ?case
  proof (cases "next_page page")
    case None
    with stop page last_of_later [of page fin "[]"] show ?thesis by (simp add: last_of_def)
  next
    case (Some t)
    from Suc.IH [OF go [rule_format, OF Some]] Some page show ?thesis by (simp add: last_of_later)
  qed
qed simp

lemma open_source_cursor: "open_source w sha org calendarId d = Inr (e, c, d1) \<Longrightarrow> c \<in> set (cursors d1)"
  by (erule open_source_Inr) (auto simp: open_cursor_def Let_def find_Some_iff split: option.splits)

definition active_job :: "string \<Rightarrow> string \<Rightarrow> string \<Rightarrow> jobs \<Rightarrow> bool" where
  "active_job org kind key q \<longleftrightarrow> (\<exists>j \<in> set q. j_organization j = org \<and> j_kind j = kind \<and> j_dedupe j = key \<and> active_state (j_state j))"

text \<open>
  C29: A completed synchronization stores the last synchronization token that the provider named on the pages
  it read, and wakes the readers of the calendar: for every active policy that copies from the calendar and
  for every active private-reply rule that answers on it there is an active job, whose key names the policy
  or rule, its revision, and the hash of the token and the generation.
\<close>

theorem completed_sync_wakes_its_readers:
  assumes "open_source w sha org calendarId d = Inr (e, c, d1)" "\<not> refresh_is_due (start_clock w) c" "\<not> polled_recently (start_clock w) c"
    "syncCalendar w sha org calendarId d = (Inr n, d')" "alone w" "inj (wake_ids w)" "\<forall>i. wake_ids w i \<notin> j_id ` set (jobs_table d)"
    "ts = named_tokens w e c MAX_PAGES_PER_SYNC 0 None"
  shows "ts \<noteq> [] \<and> (\<exists>x \<in> set (cursors d'). cu_id x = cu_id c)
    \<and> (\<forall>x \<in> set (cursors d'). cu_id x = cu_id c \<longrightarrow> cu_token x = Some (last ts) \<and> cu_state x = CursorReady)
    \<and> (\<exists>wakeup. cursorWakeup sha (last ts) (cu_generation c) = Inr wakeup
      \<and> (\<forall>p \<in> set (policies d'). sp_organization p = org \<and> sp_source_calendar p = calendarId \<and> sp_status p = PolicyActive \<longrightarrow>
          active_job org ''reconcile_policy'' (''policy:'' @ sp_id p @ '':revision:'' @ dec_int (sp_revision p) @ '':cursor:'' @ wakeup) (jobs_table d'))
      \<and> (\<forall>r \<in> set (conflict_rules d'). ru_organization r = org \<and> cr_response_calendar r = calendarId \<and> ru_status r = RuleActive \<longrightarrow>
          active_job org ''reconcile_conflict_response_rule''
            (''conflict-response-rule:'' @ ru_id r @ '':revision:'' @ dec_int (ru_revision r) @ '':cursor:'' @ wakeup) (jobs_table d')))"
proof -
  from open_source_observations [OF assms(1)] have e: "ce_id e = calendarId" by simp
  have d1: "jobs_table d1 = jobs_table d"
    by (rule open_source_Inr [OF assms(1)]) (auto simp: open_cursor_def Let_def split: option.splits)
  from assms(1-4) have "sync_from w sha org e c d1 = (Inr n, d')" by (simp add: syncCalendar_def)
  then obtain token d2 where pages: "sync_pages w sha org e c MAX_PAGES_PER_SYNC 0 None None 0 (others w 0 (start_cursor (start_clock w) c d1))
      = (Inr (Some token, n), d2)" and fin: "finish_sync w sha org e c token d2 = Inr d'"
    by (rule sync_from_Inr)
  from sync_pages_token [OF pages] have ts: "ts \<noteq> []" "last ts = token"
    unfolding assms(8) last_of_def by (auto split: if_splits)
  have d2: "jobs_table d2 = jobs_table d" "map cu_id (cursors d2) = map cu_id (cursors d1)"
    using sync_pages_frame [OF assms(5) pages] assms(5) d1 by (simp_all add: alone_def start_cursor_def update_cursor_def map_update_where)
  from fin obtain rows wakeup where w: "enqueue_all (end_clock w) (wake_ids w) (wake_requests wakeup org calendarId d2)
      (complete_cursor (end_clock w) c token (d2\<lparr>observations := rows\<rparr>)) = Inr d'"
    and cs: "cursors d' = cursors (complete_cursor (end_clock w) c token d2)"
    and wakeup: "cursorWakeup sha token (cu_generation c) = Inr wakeup"
    by (rule finish_sync_Inr) (simp add: e that)
  from enqueue_all_Inr [OF w] have tables: "policies d' = policies d2" "conflict_rules d' = conflict_rules d2"
    by (auto simp: complete_cursor_def update_cursor_def)
  have woken: "scheduled (jobs_table d') r" if "r \<in> set (wake_requests wakeup org calendarId d2)" for r
    by (rule enqueue_all_schedules [OF w wake_requests_payload assms(6) _ that])
      (use assms(7) d2 in \<open>simp add: complete_cursor_def update_cursor_def\<close>)
  have stored: "\<forall>x \<in> set (cursors d'). cu_id x = cu_id c \<longrightarrow> cu_token x = Some token \<and> cu_state x = CursorReady"
    unfolding cs complete_cursor_def update_cursor_def by (auto elim!: update_whereE)
  have "map cu_id (cursors d') = map cu_id (cursors d1)"
    unfolding cs using d2(2) by (simp add: complete_cursor_def update_cursor_def map_update_where)
  then have "cu_id ` set (cursors d') = cu_id ` set (cursors d1)" by (metis set_map)
  with open_source_cursor [OF assms(1)] have there: "\<exists>x \<in> set (cursors d'). cu_id x = cu_id c" by (metis imageE imageI)
  have "active_job org ''reconcile_policy'' (''policy:'' @ sp_id p @ '':revision:'' @ dec_int (sp_revision p) @ '':cursor:'' @ wakeup) (jobs_table d')"
    if "p \<in> set (policies d')" "sp_organization p = org" "sp_source_calendar p = calendarId" "sp_status p = PolicyActive" for p
    using woken [of "\<lparr>rq_once = False, rq_organization = org, rq_kind = ''reconcile_policy'',
        rq_key = ''policy:'' @ sp_id p @ '':revision:'' @ dec_int (sp_revision p) @ '':cursor:'' @ wakeup,
        rq_payload = JObj [(''policy_id'', Some (JStr (sp_id p)))]\<rparr>"] that
    by (force simp: wake_requests_def tables scheduled_def request_key_def job_key_def active_job_def)
  moreover have "active_job org ''reconcile_conflict_response_rule''
      (''conflict-response-rule:'' @ ru_id r @ '':revision:'' @ dec_int (ru_revision r) @ '':cursor:'' @ wakeup) (jobs_table d')"
    if "r \<in> set (conflict_rules d')" "ru_organization r = org" "cr_response_calendar r = calendarId" "ru_status r = RuleActive" for r
    using woken [of "\<lparr>rq_once = False, rq_organization = org, rq_kind = ''reconcile_conflict_response_rule'',
        rq_key = ''conflict-response-rule:'' @ ru_id r @ '':revision:'' @ dec_int (ru_revision r) @ '':cursor:'' @ wakeup,
        rq_payload = JObj [(''rule_id'', Some (JStr (ru_id r)))]\<rparr>"] that
    by (force simp: wake_requests_def tables scheduled_def request_key_def job_key_def active_job_def)
  ultimately show ?thesis using ts there stored wakeup by simp
qed

subsection \<open>Discovery respects the role of a connection\<close>

text \<open>An endpoint offers no more than the role of its connection allows.\<close>

definition within_role :: "intended_role \<Rightarrow> calendar_endpoint \<Rightarrow> bool" where
  "within_role role e \<longleftrightarrow> (ce_readable e \<longrightarrow> role = SourceRole \<or> role = BothRoles) \<and> (ce_writable e \<longrightarrow> role = DestinationRole \<or> role = BothRoles)"

lemma refresh_endpoint_simps [simp]:
  "within_role role (refresh_endpoint role c e)" "ce_connection (refresh_endpoint role c e) = ce_connection e"
  "ce_remote_id (refresh_endpoint role c e) = ce_remote_id e" "ce_id (refresh_endpoint role c e) = ce_id e"
  by (auto simp: within_role_def refresh_endpoint_def policyCapabilitiesForRole_def split_beta)

text \<open>Every endpoint of the connection whose calendar is among the given ones is within the role, and every such calendar has an endpoint.\<close>

definition discovered :: "string \<Rightarrow> intended_role \<Rightarrow> string set \<Rightarrow> calendar_endpoint list \<Rightarrow> bool" where
  "discovered connectionId role remotes es \<longleftrightarrow>
     (\<forall>e \<in> set es. ce_connection e = connectionId \<and> ce_remote_id e \<in> remotes \<longrightarrow> within_role role e)
     \<and> (\<forall>r \<in> remotes. \<exists>e \<in> set es. ce_connection e = connectionId \<and> ce_remote_id e = r)"

lemma upsert_endpoint_new:
  assumes "\<forall>x \<in> set es. \<not> (ce_connection x = connectionId \<and> ce_remote_id x = remote)" "discovered connectionId role remotes es"
    "ce_connection e = connectionId" "ce_remote_id e = remote" "within_role role e"
  shows "discovered connectionId role (insert remote remotes) (es @ [e])"
  unfolding discovered_def
proof (intro conjI ballI impI)
  fix x assume x: "x \<in> set (es @ [e])" "ce_connection x = connectionId \<and> ce_remote_id x \<in> insert remote remotes"
  show "within_role role x"
  proof (cases "x = e")
    case False
    with x assms(1,2) show ?thesis by (simp add: discovered_def) blast
  qed (simp add: assms(5))
next
  fix r assume "r \<in> insert remote remotes"
  then show "\<exists>x \<in> set (es @ [e]). ce_connection x = connectionId \<and> ce_remote_id x = r"
    using assms(2-4) by (cases "r = remote") (auto simp: discovered_def)
qed

lemma upsert_endpoint_known:
  assumes "discovered connectionId role remotes es" "e \<in> set es" "ce_connection e = connectionId" "ce_remote_id e = remote"
    "\<And>x. within_role role (f x) \<and> ce_connection (f x) = ce_connection x \<and> ce_remote_id (f x) = ce_remote_id x"
  shows "discovered connectionId role (insert remote remotes) (update_where (\<lambda>x. ce_connection x = connectionId \<and> ce_remote_id x = remote) f es)"
    (is "discovered _ _ _ ?es")
  unfolding discovered_def
proof (intro conjI ballI impI)
  fix x assume x: "x \<in> set ?es" "ce_connection x = connectionId \<and> ce_remote_id x \<in> insert remote remotes"
  from x(1) show "within_role role x"
  proof (cases rule: update_whereE)
    case kept
    with x(2) assms(1) show ?thesis by (simp add: discovered_def)
  qed (simp add: assms(5))
next
  fix r assume r: "r \<in> insert remote remotes"
  have keys: "map (\<lambda>x. (ce_connection x, ce_remote_id x)) ?es = map (\<lambda>x. (ce_connection x, ce_remote_id x)) es"
    by (rule map_update_where) (simp add: assms(5))
  from r assms(1-4) obtain x where x: "x \<in> set es" "ce_connection x = connectionId" "ce_remote_id x = r"
    by (cases "r = remote") (auto simp: discovered_def)
  then have "(connectionId, r) \<in> set (map (\<lambda>x. (ce_connection x, ce_remote_id x)) es)" by (simp add: image_iff) metis
  then have "(connectionId, r) \<in> set (map (\<lambda>x. (ce_connection x, ce_remote_id x)) ?es)" by (simp only: keys)
  then show "\<exists>x \<in> set ?es. ce_connection x = connectionId \<and> ce_remote_id x = r" by auto
qed

lemma upsert_endpoint_discovered:
  assumes "discovered connectionId role remotes es"
  shows "discovered connectionId role (insert (rc_remote_id c) remotes) (snd (upsert_endpoint i org connectionId role c es))"
proof (cases "find (\<lambda>e. ce_connection e = connectionId \<and> ce_remote_id e = rc_remote_id c) es")
  case None
  then have "snd (upsert_endpoint i org connectionId role c es) = es @ [refresh_endpoint role c (new_endpoint i org connectionId c)]"
    by (simp add: upsert_endpoint_def Let_def)
  moreover have "\<forall>x \<in> set es. \<not> (ce_connection x = connectionId \<and> ce_remote_id x = rc_remote_id c)"
    using None by (simp add: find_None_iff)
  ultimately show ?thesis using assms by (simp add: upsert_endpoint_new new_endpoint_def)
next
  case (Some e)
  then have "e \<in> set es" "ce_connection e = connectionId" "ce_remote_id e = rc_remote_id c" by (auto simp: find_Some_iff)
  from upsert_endpoint_known [OF assms this, of "refresh_endpoint role c"] Some show ?thesis by (simp add: upsert_endpoint_def)
qed

lemma sync_job_endpoints [simp]: "endpoints (sync_job n j org calendarId d) = endpoints d"
  by (simp add: sync_job_def split: sum.splits)

lemma store_calendars_discovered:
  "discovered connectionId role remotes (endpoints d)
   \<Longrightarrow> discovered connectionId role (remotes \<union> rc_remote_id ` set cs) (endpoints (store_calendars n ids k org connectionId role cs d))"
proof (induction cs arbitrary: k d remotes)
  case (Cons c cs)
  let ?u = "upsert_endpoint (fst (ids k)) org connectionId role c (endpoints d)"
  let ?d1 = "d\<lparr>endpoints := snd ?u\<rparr>"
  let ?d2 = "if ce_readable (fst ?u) \<and> roleCanSyncEventContent role then sync_job n (snd (ids k)) org (ce_id (fst ?u)) ?d1 else ?d1"
  have "discovered connectionId role (insert (rc_remote_id c) remotes) (endpoints ?d2)"
    using upsert_endpoint_discovered [OF Cons.prems, of c "fst (ids k)" org] by simp
  from Cons.IH [OF this, of "Suc k"] show ?case by (simp add: split_beta Let_def)
qed simp

text \<open>
  After a discovery every calendar the provider listed has an endpoint, and an endpoint is readable only
  when the connection is meant as a source and writable only when it is meant as a destination, whatever
  the provider would permit: an availability-only connection gives neither.
\<close>

theorem discovery_respects_the_role:
  assumes "discoverCalendars listCalendars meanwhile n ids org connectionId d = (Inr m, d')" "listCalendars connectionId = Inr calendars"
    "find_connection org connectionId (meanwhile d) = Some p"
  shows "discovered connectionId (pc_role p) (rc_remote_id ` set calendars) (endpoints d') \<and> pc_status p = ConnectionActive"
proof -
  obtain c where c: "active_connection ''provider connection is unavailable'' org connectionId d = Inr c"
    using assms(1) by (cases "active_connection ''provider connection is unavailable'' org connectionId d") (auto simp: discoverCalendars_def)
  have act: "active_connection ''provider connection changed during calendar discovery'' org connectionId (meanwhile d) = Inr p" "pc_status p = ConnectionActive"
    using assms c by (auto simp: discoverCalendars_def active_connection_def split: if_splits)
  have "discovered connectionId (pc_role p) {} (endpoints (meanwhile d))" by (simp add: discovered_def)
  from store_calendars_discovered [OF this, of calendars n ids 0 org] act c assms(1,2) show ?thesis
    by (auto simp: discoverCalendars_def Let_def)
qed

subsection \<open>Jobs that are scheduled can be run\<close>

definition coordinator_kinds :: "string list" where
  "coordinator_kinds = [''discover_calendars'', ''sync_calendar'', ''reconcile_policy'', ''verify_destinations'', ''safety_sync'']"

lemma requiredId_single: "s \<noteq> '''' \<Longrightarrow> requiredId (JObj [(k, Some (JStr s))]) k = Inr s"
  by (simp add: requiredId_def json_member_def)

text \<open>The shape of a request: its kind, and the identifier its payload carries.\<close>

definition request_names :: "string \<Rightarrow> string \<Rightarrow> string set \<Rightarrow> job_request \<Rightarrow> bool" where
  "request_names kind key ids r \<longleftrightarrow> rq_kind r = kind \<and> (\<exists>i \<in> ids. rq_payload r = JObj [(key, Some (JStr i))])"

lemma tick_request_shape:
  assumes "r \<in> set (tick_requests planningEnabled s n)"
  shows "request_names ''discover_calendars'' ''connection_id'' (pc_id ` set (connections s)) r
    \<or> request_names ''sync_calendar'' ''calendar_id'' (ce_id ` set (endpoints s)) r
    \<or> request_names ''reconcile_policy'' ''policy_id'' (sp_id ` set (policies s)) r
    \<or> rq_kind r \<in> {''verify_destinations'', ''reconcile_planning_rule'', ''reconcile_conflict_response_rule''}"
  using assms
  by (auto simp: tick_requests_def organization_requests_def discovery_requests_def calendar_requests_def policy_requests_def
        rule_requests_def request_names_def Let_def split: if_splits)

lemma wake_request_shape:
  assumes "r \<in> set (wake_requests wakeup org calendarId d)"
  shows "request_names ''reconcile_policy'' ''policy_id'' (sp_id ` set (policies d)) r \<or> rq_kind r = ''reconcile_conflict_response_rule''"
  using assms by (auto simp: wake_requests_def request_names_def)

lemma request_names_dispatch:
  assumes "request_names kind key ids r" "'''' \<notin> ids" "l_kind job = rq_kind r" "l_payload job = rq_payload r"
    "(kind, key) \<in> {(''discover_calendars'', ''connection_id''), (''sync_calendar'', ''calendar_id''), (''reconcile_policy'', ''policy_id'')}"
  shows "\<exists>work. dispatch job = Inr work"
proof -
  from assms(1) obtain i where i: "i \<in> ids" "rq_payload r = JObj [(key, Some (JStr i))]" by (auto simp: request_names_def)
  with assms(2) have "requiredId (l_payload job) key = Inr i" by (simp add: assms(4)) (metis requiredId_single)
  with assms(1,3,5) show ?thesis by (auto simp: dispatch_def request_names_def)
qed

text \<open>
  Whatever the scheduler or a completed synchronization schedules for the coordinator, the coordinator
  finds the kind and the identifier it needs in the job.
\<close>

theorem scheduled_jobs_are_dispatched:
  assumes "r \<in> set (tick_requests planningEnabled s n) \<or> r \<in> set (wake_requests wakeup org calendarId d)"
    "'''' \<notin> pc_id ` set (connections s)" "'''' \<notin> ce_id ` set (endpoints s)" "'''' \<notin> sp_id ` set (policies s)" "'''' \<notin> sp_id ` set (policies d)"
    "rq_kind r \<in> set coordinator_kinds" "l_kind job = rq_kind r" "l_payload job = rq_payload r"
  shows "\<exists>work. dispatch job = Inr work"
proof -
  consider "request_names ''discover_calendars'' ''connection_id'' (pc_id ` set (connections s)) r"
    | "request_names ''sync_calendar'' ''calendar_id'' (ce_id ` set (endpoints s)) r"
    | "request_names ''reconcile_policy'' ''policy_id'' (sp_id ` set (policies s)) r"
    | "request_names ''reconcile_policy'' ''policy_id'' (sp_id ` set (policies d)) r"
    | "rq_kind r = ''verify_destinations''"
    using assms(1,6) tick_request_shape [of r planningEnabled s n] wake_request_shape [of r wakeup org calendarId d]
    by (auto simp: coordinator_kinds_def)
  then show ?thesis
  proof cases
    case 1
    from request_names_dispatch [OF this assms(2,7,8)] show ?thesis by simp
  next
    case 2
    from request_names_dispatch [OF this assms(3,7,8)] show ?thesis by simp
  next
    case 3
    from request_names_dispatch [OF this assms(4,7,8)] show ?thesis by simp
  next
    case 4
    from request_names_dispatch [OF this assms(5,7,8)] show ?thesis by simp
  next
    case 5
    with assms(7) show ?thesis by (simp add: dispatch_def)
  qed
qed

subsection \<open>Concrete synchronizations\<close>

definition scan_db :: db where
  "scan_db = executor_db\<lparr>observations := [], projections := [], effects := []\<rparr>"

definition scan_world :: "string \<Rightarrow> (failure + event_page) list \<Rightarrow> surroundings" where
  "scan_world prefix replies = \<lparr>ask_token = None, ask_page = (\<lambda>k r q. replies ! k), others = (\<lambda>k d. d), start_clock = 100, page_clock = (\<lambda>k. 101),
     end_clock = 102, cursor_id = ''u1'', page_ids = (\<lambda>k i. prefix @ dec k @ dec i), wake_ids = sample_ids\<rparr>"

definition second_source :: source_observation where
  "second_source = sample_source\<lparr>source_event_ref := ''e2'', source_occurrence_ref := ''o2''\<rparr>"

definition first_page :: event_page where
  "first_page = \<lparr>pg_observations = [sample_source], pg_next_page = Some ''2'', pg_next_sync = None\<rparr>"

definition only_page :: event_page where
  "only_page = \<lparr>pg_observations = [second_source], pg_next_page = None, pg_next_sync = Some ''t''\<rparr>"

definition interrupted_world :: surroundings where
  "interrupted_world = scan_world ''s'' [Inr first_page, Inl (ProviderFailure ''provider_unavailable'' True False (Some 503))]"

definition complete_world :: surroundings where
  "complete_world = scan_world ''t'' [Inr only_page]"

definition ghost_row :: observation_row where
  "ghost_row = \<lparr>so_id = ''s00'', so_organization = ''o'', so_calendar = ''home'', so_remote_event = ''e1'', so_recurrence = ''o1'',
     so_etag = Some ''r1'', so_event = sample_source, so_hash = ''sha256:444'', so_managed = False, so_tombstone = False, so_generation = 1,
     so_observed = 101\<rparr>"

definition scan_cursor :: cursor_row where
  "scan_cursor = \<lparr>cu_id = ''u1'', cu_organization = ''o'', cu_calendar = ''home'', cu_fingerprint = ''sha256:168'', cu_token = None,
     cu_generation = 1, cu_state = FullRequired, cu_last_started = None, cu_last_full = None, cu_last_success = None, cu_error = None,
     cu_updated = 100\<rparr>"

definition interrupted_cursor :: cursor_row where
  "interrupted_cursor = scan_cursor\<lparr>cu_state := CursorActionRequired, cu_last_started := Some 100, cu_error := Some ''provider_unavailable'',
     cu_updated := 102\<rparr>"

definition interrupted_db :: db where
  "interrupted_db = scan_db\<lparr>cursors := [interrupted_cursor], observations := [ghost_row]\<rparr>"

lemma scan_hashes:
  "observation_hash sample_sha sample_source = Inr ''sha256:444''" "observation_hash sample_sha second_source = Inr ''sha256:444''"
  "calendarSyncQueryFingerprint sample_sha ''google'' ''r-home'' = Inr ''sha256:168''" "cursorWakeup sample_sha ''t'' 1 = Inr ''sha256:28''"
  by code_simp+

lemmas scan_simps = scan_db_def executor_db_def empty_db_def sample_connection_def sample_endpoint_def scan_world_def
  interrupted_world_def complete_world_def first_page_def only_page_def

lemma open_first_scan:
  "open_source (scan_world prefix replies) sample_sha ''o'' ''home'' scan_db = Inr (sample_endpoint ''home'', scan_cursor, scan_db\<lparr>cursors := [scan_cursor]\<rparr>)"
  by (simp add: open_source_def source_calendar_def source_view_def source_usable_def content_authority_def find_connection_def
      roleCanSyncEventContent_def open_cursor_def scan_hashes new_cursor_def nextCalendarGeneration_def sql_max_def or_zero_def
      scan_cursor_def scan_simps Let_def)

lemma interrupted_run: "syncCalendar interrupted_world sample_sha ''o'' ''home'' scan_db
   = (Inl (ProviderThrew (ProviderFailure ''provider_unavailable'' True False (Some 503))), interrupted_db)"
  by code_simp

lemma scan_world_quiet: "undisturbed (scan_world prefix replies) calendarId" "alone (scan_world prefix replies)" "wake_ids (scan_world prefix replies) = sample_ids"
  by (simp_all add: undisturbed_def alone_def scan_world_def)

lemma complete_runs:
  "fst (syncCalendar complete_world sample_sha ''o'' ''home'' scan_db) = Inr 1"
  "fst (syncCalendar complete_world sample_sha ''o'' ''home'' interrupted_db) = Inr 1"
  "open_source complete_world sample_sha ''o'' ''home'' interrupted_db = Inr (sample_endpoint ''home'', interrupted_cursor, interrupted_db)"
  "reported complete_world (sample_endpoint ''home'') interrupted_cursor = [second_source]"
  "reported complete_world (sample_endpoint ''home'') scan_cursor = [second_source]"
  by code_simp+

theorem complete_scan_mirrors_the_calendar_witness:
  "mirrors ''home'' [second_source] (observations (snd (syncCalendar complete_world sample_sha ''o'' ''home'' scan_db)))"
proof -
  obtain d' where run: "syncCalendar complete_world sample_sha ''o'' ''home'' scan_db = (Inr 1, d')"
    using complete_runs(1) by (metis prod.collapse)
  have "unseen scan_cursor ''o'' ''home'' scan_db" by (simp add: unseen_def scan_db_def)
  with complete_scan_mirrors_the_calendar [OF open_first_scan [of "''t''" "[Inr only_page]", folded complete_world_def] _ _ this _ run] run
  show ?thesis using scan_world_quiet(1) [of "''t''" "[Inr only_page]" "''home''", folded complete_world_def] complete_runs(5)
    by (simp add: scan_cursor_def)
qed

theorem interrupted_scan_leaves_its_observations_witness:
  "\<exists>d'. syncCalendar interrupted_world sample_sha ''o'' ''home'' scan_db
       = (Inl (ProviderThrew (ProviderFailure ''provider_unavailable'' True False (Some 503))), interrupted_db)
    \<and> syncCalendar complete_world sample_sha ''o'' ''home'' interrupted_db = (Inr 1, d')
    \<and> reported complete_world (sample_endpoint ''home'') interrupted_cursor = [second_source]
    \<and> ghost_row \<in> set (observations d') \<and> \<not> so_tombstone ghost_row"
proof -
  obtain d' where run: "syncCalendar complete_world sample_sha ''o'' ''home'' interrupted_db = (Inr 1, d')"
    using complete_runs(2) by (metis prod.collapse)
  have "row_key ghost_row \<notin> event_key ` set (reported complete_world (sample_endpoint ''home'') interrupted_cursor)"
    unfolding complete_runs(4) by (simp add: ghost_row_def row_key_def event_key_def second_source_def sample_source_def)
  from interrupted_scan_leaves_its_observations [OF complete_runs(3) _ _ _ run _ _ _ this]
  have "ghost_row \<in> set (observations d')"
    by (simp add: interrupted_cursor_def scan_cursor_def ghost_row_def interrupted_db_def complete_world_def scan_world_quiet)
  with run interrupted_run complete_runs(4) show ?thesis by (simp add: ghost_row_def)
qed

theorem failed_sync_advances_nothing_witness:
  "no_progress (cursors scan_db) (cursors interrupted_db) \<and> cursors interrupted_db \<noteq> []"
  using failed_sync_advances_nothing [OF _ interrupted_run] scan_world_quiet(2)
  by (simp add: interrupted_world_def interrupted_db_def)

lemma complete_policies: "policies (snd (syncCalendar complete_world sample_sha ''o'' ''home'' scan_db)) = [sample_policy_row]"
  by code_simp

theorem completed_sync_wakes_its_readers_witness:
  "\<exists>q cs. jobs_table (snd (syncCalendar complete_world sample_sha ''o'' ''home'' scan_db)) = q
     \<and> cursors (snd (syncCalendar complete_world sample_sha ''o'' ''home'' scan_db)) = cs
     \<and> (\<exists>x \<in> set cs. cu_id x = ''u1'' \<and> cu_token x = Some ''t'')
     \<and> active_job ''o'' ''reconcile_policy'' ''policy:p1:revision:1:cursor:sha256:28'' q"
proof -
  obtain d' where run: "syncCalendar complete_world sample_sha ''o'' ''home'' scan_db = (Inr 1, d')"
    using complete_runs(1) by (metis prod.collapse)
  have pol: "policies d' = [sample_policy_row]"
    using run by (metis complete_policies snd_conv)
  have tokens: "named_tokens complete_world (sample_endpoint ''home'') scan_cursor MAX_PAGES_PER_SYNC 0 None = [''t'']" by code_simp
  have c: "cu_id scan_cursor = ''u1''" "cu_generation scan_cursor = 1" by (simp_all add: scan_cursor_def)
  have p: "sp_id sample_policy_row = ''p1''" "sp_revision sample_policy_row = 1" "sp_organization sample_policy_row = ''o''"
    "sp_source_calendar sample_policy_row = ''home''" "sp_status sample_policy_row = PolicyActive" by (simp_all add: sample_policy_row_def)
  have one: "dec_int 1 = ''1''" by code_simp
  from completed_sync_wakes_its_readers [OF open_first_scan [of "''t''" "[Inr only_page]", folded complete_world_def] _ _ run _ _ _ refl]
  have "(\<exists>x \<in> set (cursors d'). cu_id x = ''u1'') \<and> (\<forall>x \<in> set (cursors d'). cu_id x = ''u1'' \<longrightarrow> cu_token x = Some ''t'')
      \<and> active_job ''o'' ''reconcile_policy'' ''policy:p1:revision:1:cursor:sha256:28'' (jobs_table d')"
    using scan_world_quiet(2,3) [of "''t''" "[Inr only_page]", folded complete_world_def] sample_ids_inj
    by (auto simp: refresh_is_due_def polled_recently_def is_truthy_def scan_db_def executor_db_def empty_db_def pol tokens c p one scan_hashes
        scan_cursor_def [THEN arg_cong [where f = cu_token]] scan_cursor_def [THEN arg_cong [where f = cu_state]])
  with run show ?thesis by auto
qed

definition listed_calendar :: provider_calendar where
  "listed_calendar = \<lparr>rc_remote_id = ''r-home'', rc_name = ''Home'', rc_timezone = ''UTC'', rc_access_role = ''owner'', rc_freebusy = None,
     rc_readable = True, rc_writable = True, rc_primary = True\<rparr>"

definition availability_db :: db where
  "availability_db = scan_db\<lparr>connections := [sample_connection\<lparr>pc_role := AvailabilityRole\<rparr>]\<rparr>"

theorem discovery_respects_the_role_witness:
  "\<exists>d'. discoverCalendars (\<lambda>_. Inr [listed_calendar]) (\<lambda>d. d) 7 (\<lambda>k. (sample_ids k, sample_ids k)) ''o'' ''c'' availability_db = (Inr 1, d')
    \<and> (\<forall>e \<in> set (endpoints d'). ce_connection e = ''c'' \<and> ce_remote_id e = ''r-home'' \<longrightarrow> \<not> ce_readable e \<and> \<not> ce_writable e)"
proof -
  have found: "find_connection ''o'' ''c'' availability_db = Some (sample_connection\<lparr>pc_role := AvailabilityRole\<rparr>)"
    by (simp add: find_connection_def availability_db_def sample_connection_def)
  obtain d' where run: "discoverCalendars (\<lambda>_. Inr [listed_calendar]) (\<lambda>d. d) 7 (\<lambda>k. (sample_ids k, sample_ids k)) ''o'' ''c'' availability_db = (Inr 1, d')"
    by (simp add: discoverCalendars_def active_connection_def found sample_connection_def Let_def)
  from discovery_respects_the_role [OF run _ found] run show ?thesis
    by (auto simp: discovered_def within_role_def listed_calendar_def)
qed

theorem scheduled_jobs_are_dispatched_witness:
  "\<exists>r work. r \<in> set (tick_requests True sample_tables 7200000) \<and> rq_kind r = ''sync_calendar''
     \<and> dispatch (sample_handout\<lparr>l_kind := rq_kind r, l_payload := rq_payload r\<rparr>) = Inr work"
proof -
  let ?r = "\<lparr>rq_once = False, rq_organization = ''o'', rq_kind = ''sync_calendar'', rq_key = ''calendar:e'',
    rq_payload = JObj [(''calendar_id'', Some (JStr ''e''))]\<rparr>"
  have r: "?r \<in> set (tick_requests True sample_tables 7200000)"
    by (simp add: tick_requests_def organization_requests_def calendar_requests_def sample_tables_def Let_def)
  have "\<exists>work. dispatch (sample_handout\<lparr>l_kind := rq_kind ?r, l_payload := rq_payload ?r\<rparr>) = Inr work"
    by (rule scheduled_jobs_are_dispatched [OF disjI1 [OF r], where d = scan_db])
      (simp_all add: sample_tables_def coordinator_kinds_def scan_db_def executor_db_def sample_policy_row_def empty_db_def)
  with r show ?thesis by (intro exI [of _ ?r]) auto
qed

end
