(* ===== verification/Google_Events.thy ===== *)
theory Google_Events
  imports Sync_Coordinator Planning_Types
begin

section \<open>Events of Google Calendar (server/src/providers/google)\<close>

text \<open>
  The events as Google describes them, the events Planipus writes (serializer.ts), and how an event that
  was read is turned into an observation or recognized as one that Planipus wrote (calendar.ts). A field
  that Google may leave out is optional; a private extended property is looked up by its key.
\<close>

record google_attendee =
  ga_email :: "string option"
  ga_self :: "bool option"
  ga_optional :: "bool option"
  ga_response :: "string option"
  ga_comment :: "string option"

record google_time =
  gt_date :: "string option"
  gt_date_time :: "string option"
  gt_time_zone :: "string option"

record google_organizer =
  go_email :: "string option"
  go_self :: "bool option"

record google_event =
  ge_id :: "string option"
  ge_etag :: "string option"
  ge_status :: "string option"
  ge_summary :: "string option"
  ge_description :: "string option"
  ge_location :: "string option"
  ge_hangout :: "string option"
  ge_html :: "string option"
  ge_transparency :: "string option"
  ge_start :: "google_time option"
  ge_end :: "google_time option"
  ge_recurring :: "string option"
  ge_original_start :: "google_time option"
  ge_organizer :: "google_organizer option"
  ge_attendees :: "google_attendee list option"
  ge_private :: "(string \<times> string) list option"

definition marker :: "google_event \<Rightarrow> string \<Rightarrow> string option" where
  "marker ev key = Option.bind (ge_private ev) (\<lambda>ps. map_of ps key)"

text \<open>\<open>v ? {...} : {}\<close>: an empty text is left out.\<close>

definition if_truthy :: "string option \<Rightarrow> string option" where
  "if_truthy v = (if is_truthy v then v else None)"

definition or_else_text :: "string option \<Rightarrow> string \<Rightarrow> string" where
  "or_else_text v d = (case v of None \<Rightarrow> d | Some s \<Rightarrow> s)"

subsection \<open>Writing (serializer.ts)\<close>

record google_write =
  gw_id :: "string option"
  gw_summary :: string
  gw_description :: "string option"
  gw_location :: "string option"
  gw_start :: google_time
  gw_end :: google_time
  gw_transparency :: transparency
  gw_visibility :: visibility
  gw_color :: "string option"
  gw_attendees :: "(string \<times> bool) list option"
  gw_private :: "(string \<times> string) list"

definition at_instant :: "string \<Rightarrow> string \<Rightarrow> google_time" where
  "at_instant s tz = \<lparr>gt_date = None, gt_date_time = Some s, gt_time_zone = Some tz\<rparr>"

definition on_date :: "string \<Rightarrow> google_time" where
  "on_date s = \<lparr>gt_date = Some s, gt_date_time = None, gt_time_zone = None\<rparr>"

definition rule_kind_text :: "planning_rule_kind \<Rightarrow> string" where
  "rule_kind_text k = (case k of AvailabilityBoundary \<Rightarrow> ''availability_boundary'' | SmartMeeting \<Rightarrow> ''smart_meeting'')"

definition serializeGooglePlanningEvent :: "managed_planning_event \<Rightarrow> string option \<Rightarrow> google_write" where
  "serializeGooglePlanningEvent desired eventId =
     \<lparr>gw_id = if_truthy eventId, gw_summary = e_summary desired, gw_description = if_truthy (e_description desired),
      gw_location = if_truthy (e_location desired), gw_start = at_instant (e_start_instant desired) (e_timezone desired),
      gw_end = at_instant (e_end_instant desired) (e_timezone desired), gw_transparency = e_transparency desired,
      gw_visibility = e_visibility desired, gw_color = None,
      gw_attendees = (if e_attendees desired = [] then None else Some (e_attendees desired)),
      gw_private = [(''planipus_version'', ''1''), (''planipus_kind'', rule_kind_text (pp_kind (e_provenance desired))),
        (''planipus_rule'', pp_rule_ref (e_provenance desired)), (''planipus_planned_event'', pp_planned_event_ref (e_provenance desired)),
        (''planipus_occurrence'', pp_occurrence_key (e_provenance desired)),
        (''planipus_generation'', dec_int (pp_generation (e_provenance desired))),
        (''planipus_intent'', dec_int (pp_intent_sequence (e_provenance desired)))]\<rparr>"

definition copy_times :: "event_timing \<Rightarrow> google_time \<times> google_time" where
  "copy_times tm = (case tm of Timed s e z z' \<Rightarrow> (at_instant s z, at_instant e z') | AllDay s e z \<Rightarrow> (on_date s, on_date e))"

definition serializeGoogleDesiredCopy :: "desired_copy \<Rightarrow> string option \<Rightarrow> failure + google_write" where
  "serializeGoogleDesiredCopy desired eventId =
     (if is_truthy (d_conference desired) then Inl (OtherFailure (ThrownError ''Error'' None None))
      else Inr \<lparr>gw_id = if_truthy eventId, gw_summary = d_summary desired, gw_description = if_truthy (d_description desired),
        gw_location = if_truthy (d_location desired), gw_start = fst (copy_times (d_timing desired)), gw_end = snd (copy_times (d_timing desired)),
        gw_transparency = d_transparency desired, gw_visibility = d_visibility desired, gw_color = if_truthy (d_color desired),
        gw_attendees = None,
        gw_private = [(''planipus_version'', ''1''), (''planipus_policy'', prov_policy_ref (d_provenance desired)),
          (''planipus_projection'', prov_projection_ref (d_provenance desired)),
          (''planipus_generation'', dec_int (prov_generation (d_provenance desired)))]\<rparr>)"

subsection \<open>Recognizing what was written (calendar.ts)\<close>

text \<open>
  \<open>Number\<close> of a text, \<open>Number(undefined)\<close> being \<open>NaN\<close>. A text of decimal digits is read as it stands; how
  the platform reads any other text (signs, fractions, exponents, hexadecimal numerals, white space) is the
  parameter.
\<close>

definition number_of :: "(string \<Rightarrow> js_number) \<Rightarrow> string option \<Rightarrow> js_number" where
  "number_of other v =
     (case v of
        None \<Rightarrow> NonFinite
      | Some s \<Rightarrow> if s \<noteq> [] \<and> list_all is_digit s then Whole (int (undec s)) else other s)"

definition positive_integer :: "js_number \<Rightarrow> int option" where
  "positive_integer v = (case v of Whole i \<Rightarrow> if \<bar>i\<bar> \<le> max_safe_integer \<and> 1 \<le> i then Some i else None | _ \<Rightarrow> None)"

definition managedIdentity :: "(string \<Rightarrow> js_number) \<Rightarrow> google_event \<Rightarrow> managed_identity option" where
  "managedIdentity other ev =
     (if marker ev ''planipus_version'' \<noteq> Some ''1'' \<or> \<not> is_truthy (marker ev ''planipus_policy'')
         \<or> \<not> is_truthy (marker ev ''planipus_projection'') then None
      else map_option (\<lambda>g. \<lparr>mi_policy = the (marker ev ''planipus_policy''), mi_projection = the (marker ev ''planipus_projection''), mi_generation = g\<rparr>)
             (positive_integer (number_of other (marker ev ''planipus_generation''))))"

definition kind_of_text :: "string option \<Rightarrow> planning_rule_kind option" where
  "kind_of_text v = (if v = Some ''availability_boundary'' then Some AvailabilityBoundary else if v = Some ''smart_meeting'' then Some SmartMeeting else None)"

definition planningIdentity :: "(string \<Rightarrow> js_number) \<Rightarrow> google_event \<Rightarrow> planning_provenance option" where
  "planningIdentity other ev =
     (if marker ev ''planipus_version'' \<noteq> Some ''1'' \<or> \<not> is_truthy (marker ev ''planipus_rule'')
         \<or> \<not> is_truthy (marker ev ''planipus_planned_event'') \<or> \<not> is_truthy (marker ev ''planipus_occurrence'') then None
      else Option.bind (kind_of_text (marker ev ''planipus_kind'')) (\<lambda>k.
           Option.bind (positive_integer (number_of other (marker ev ''planipus_generation''))) (\<lambda>g.
           map_option (\<lambda>i. \<lparr>pp_kind = k, pp_rule_ref = the (marker ev ''planipus_rule''), pp_planned_event_ref = the (marker ev ''planipus_planned_event''),
               pp_occurrence_key = the (marker ev ''planipus_occurrence''), pp_generation = g, pp_intent_sequence = i\<rparr>)
             (positive_integer (number_of other (marker ev ''planipus_intent''))))))"

definition requireWriteResult :: "google_event \<Rightarrow> failure + write_result" where
  "requireWriteResult ev =
     (if \<not> is_truthy (ge_id ev) \<or> \<not> is_truthy (ge_etag ev) then Inl (ProviderFailure ''malformed_response'' False False None)
      else Inr \<lparr>wr_event = the (ge_id ev), wr_revision = the (ge_etag ev)\<rparr>)"

subsection \<open>Observing\<close>

text \<open>\<open>new Date(text).toISOString()\<close>\<close>

definition iso_of_text :: "platform \<Rightarrow> string \<Rightarrow> date_error + string" where
  "iso_of_text pf s = (case getTime pf s of None \<Rightarrow> Inl InvalidTime | Some ms \<Rightarrow> isoString ms)"

definition first_zone :: "string option list \<Rightarrow> string \<Rightarrow> string" where
  "first_zone vs d = or_else_text (fold (\<lambda>v acc. if acc = None then v else acc) vs None) d"

definition normalizeTiming :: "platform \<Rightarrow> google_event \<Rightarrow> string \<Rightarrow> date_error + event_timing option" where
  "normalizeTiming pf ev calendarTimezone =
     (case (ge_start ev, ge_end ev) of
        (Some s, Some e) \<Rightarrow>
          if is_truthy (gt_date s) \<and> is_truthy (gt_date e)
          then Inr (Some (AllDay (the (gt_date s)) (the (gt_date e)) (first_zone [gt_time_zone s, gt_time_zone e] calendarTimezone)))
          else if is_truthy (gt_date_time s) \<and> is_truthy (gt_date_time e)
          then bindE (iso_of_text pf (the (gt_date_time s))) (\<lambda>start.
               bindE (iso_of_text pf (the (gt_date_time e))) (\<lambda>fin.
                 Inr (Some (Timed start fin (first_zone [gt_time_zone s] ''UTC'') (first_zone [gt_time_zone e, gt_time_zone s] ''UTC'')))))
          else Inr None
      | _ \<Rightarrow> Inr None)"

definition self_attendee :: "google_event \<Rightarrow> google_attendee option" where
  "self_attendee ev = Option.bind (ge_attendees ev) (find (\<lambda>a. ga_self a = Some True))"

definition normalized_response :: "google_attendee option \<Rightarrow> response" where
  "normalized_response a =
     (case a of
        None \<Rightarrow> NotApplicable
      | Some x \<Rightarrow>
          if ga_response x = Some ''accepted'' then Accepted
          else if ga_response x = Some ''tentative'' then Tentative
          else if ga_response x = Some ''declined'' then Declined
          else NeedsAction)"

definition or_null :: "string option \<Rightarrow> json" where
  "or_null v = (case v of None \<Rightarrow> JNull | Some s \<Rightarrow> JStr s)"

definition organizer_self :: "google_event \<Rightarrow> bool" where
  "organizer_self ev \<longleftrightarrow> Option.bind (ge_organizer ev) go_self = Some True"

definition occurrence_ref :: "google_event \<Rightarrow> string" where
  "occurrence_ref ev = (case ge_original_start ev of None \<Rightarrow> '''' | Some t \<Rightarrow> first_zone [gt_date_time t, gt_date t] '''')"

definition normalizeGoogleEvent :: "platform \<Rightarrow> google_event \<Rightarrow> string \<Rightarrow> date_error + source_observation option" where
  "normalizeGoogleEvent pf ev calendarTimezone =
     (if \<not> is_truthy (ge_id ev) then Inr None
      else bindE (normalizeTiming pf ev calendarTimezone) (\<lambda>timing.
        let self = self_attendee ev
        in Inr (Some
          \<lparr>source_event_ref = the (ge_id ev), source_occurrence_ref = occurrence_ref ev, remote_revision = or_else_text (ge_etag ev) '''',
           s_lifecycle = (if ge_status ev = Some ''cancelled'' then Cancelled else Confirmed),
           s_origin = (if is_truthy (marker ev ''planipus_version'') then PlanipusManaged else ProviderOriginal),
           s_timing = timing, s_recurrence = None,
           s_availability = Some (if ge_transparency ev = Some ''transparent'' then Free else Busy),
           s_relationship = \<lparr>r_role = (if organizer_self ev then Organizer else if self \<noteq> None then Attendee else NoRole),
             r_response = normalized_response self, r_note = Option.bind self (\<lambda>a. if_truthy (ga_comment a))\<rparr>,
           destination_identity_invited = False,
           s_content = \<lparr>c_summary = if_truthy (ge_summary ev), c_description = if_truthy (ge_description ev),
             c_location = if_truthy (ge_location ev), c_conference = if_truthy (ge_hangout ev)\<rparr>,
           s_attendees = map_option (\<lambda>as. List.map_filter (\<lambda>a. if_truthy (ga_email a)) as) (ge_attendees ev),
           s_organizer = if_truthy (Option.bind (ge_organizer ev) go_email), s_attachments = None,
           s_source_url = if_truthy (ge_html ev),
           s_provider_metadata = Some (JObj [(''recurring_event_ref'', Some (or_null (ge_recurring ev))),
             (''planipus_planning_kind'', Some (or_null (marker ev ''planipus_kind''))),
             (''planipus_rule_ref'', Some (or_null (marker ev ''planipus_rule''))),
             (''planipus_planned_event_ref'', Some (or_null (marker ev ''planipus_planned_event'')))])\<rparr>)))"

text \<open>The events of a page, in order; an event without an identifier is skipped, an unreadable instant fails the page.\<close>

definition normalize_events :: "platform \<Rightarrow> string \<Rightarrow> google_event list \<Rightarrow> date_error + source_observation list" where
  "normalize_events pf tz evs = bindE (mapE (\<lambda>ev. normalizeGoogleEvent pf ev tz) evs) (\<lambda>rs. Inr (List.map_filter id rs))"

subsection \<open>What Planipus writes it recognizes\<close>

lemma number_of_dec_int: "0 \<le> n \<Longrightarrow> number_of other (Some (dec_int n)) = Whole n"
proof -
  assume "0 \<le> n"
  then have "dec_int n = dec (nat n)" by (simp add: dec_int_def)
  moreover have "dec (nat n) \<noteq> []" by (simp add: dec.simps [of "nat n"])
  ultimately show ?thesis using \<open>0 \<le> n\<close> by (simp add: number_of_def digits_dec)
qed

lemma is_truthy_Some [simp]: "is_truthy (Some s) \<longleftrightarrow> s \<noteq> ''''"
  by (simp add: is_truthy_def)

lemma positive_integer_Whole: "1 \<le> n \<Longrightarrow> n \<le> max_safe_integer \<Longrightarrow> positive_integer (Whole n) = Some n"
  by (simp add: positive_integer_def)

text \<open>The event Google returns keeps the private properties that were written.\<close>

definition keeps_markers :: "google_write \<Rightarrow> google_event \<Rightarrow> bool" where
  "keeps_markers wr ev \<longleftrightarrow> (\<forall>key. marker ev key = map_of (gw_private wr) key)"

definition well_marked :: "desired_copy \<Rightarrow> bool" where
  "well_marked c \<longleftrightarrow> prov_policy_ref (d_provenance c) \<noteq> '''' \<and> prov_projection_ref (d_provenance c) \<noteq> ''''
     \<and> 1 \<le> prov_generation (d_provenance c) \<and> prov_generation (d_provenance c) \<le> max_safe_integer"

lemma serialize_copy_markers:
  assumes "serializeGoogleDesiredCopy desired eventId = Inr wr" "keeps_markers wr ev"
  shows "marker ev ''planipus_version'' = Some ''1''" "marker ev ''planipus_policy'' = Some (prov_policy_ref (d_provenance desired))"
    "marker ev ''planipus_projection'' = Some (prov_projection_ref (d_provenance desired))"
    "marker ev ''planipus_generation'' = Some (dec_int (prov_generation (d_provenance desired)))"
    "marker ev ''planipus_kind'' = None" "marker ev ''planipus_rule'' = None"
  using assms by (auto simp: serializeGoogleDesiredCopy_def keeps_markers_def split: if_splits)

text \<open>
  C22: A copy that was written is recognized as the same copy when it is read: the identity that Google returns
  is the provenance that was written, for every copy and no other, so that the ownership test of the
  executor accepts exactly the copies of the projection and the generation.
\<close>

theorem written_copy_is_recognized:
  assumes "serializeGoogleDesiredCopy desired eventId = Inr wr" "keeps_markers wr ev" "well_marked desired"
  shows "eventBelongsToProjection \<lparr>el_event = i, el_revision = rv, el_identity = managedIdentity other ev\<rparr> policyId projectionId generation
    \<longleftrightarrow> d_provenance desired = \<lparr>prov_policy_ref = policyId, prov_projection_ref = projectionId, prov_generation = generation\<rparr>"
proof -
  have "managedIdentity other ev = Some \<lparr>mi_policy = prov_policy_ref (d_provenance desired), mi_projection = prov_projection_ref (d_provenance desired),
      mi_generation = prov_generation (d_provenance desired)\<rparr>"
    using assms(3) unfolding managedIdentity_def serialize_copy_markers [OF assms(1,2)] well_marked_def
    by (simp add: number_of_dec_int positive_integer_Whole)
  then show ?thesis by (cases "d_provenance desired") (auto simp: eventBelongsToProjection_def)
qed

text \<open>The same for the events of planning rules.\<close>

theorem written_planning_event_is_recognized:
  assumes "wr = serializeGooglePlanningEvent desired eventId" "keeps_markers wr ev" "pp_rule_ref (e_provenance desired) \<noteq> ''''"
    "pp_planned_event_ref (e_provenance desired) \<noteq> ''''" "pp_occurrence_key (e_provenance desired) \<noteq> ''''"
    "1 \<le> pp_generation (e_provenance desired)" "pp_generation (e_provenance desired) \<le> max_safe_integer"
    "1 \<le> pp_intent_sequence (e_provenance desired)" "pp_intent_sequence (e_provenance desired) \<le> max_safe_integer"
  shows "planningIdentity other ev = Some (e_provenance desired)" "managedIdentity other ev = None"
proof -
  have m: "marker ev ''planipus_version'' = Some ''1''" "marker ev ''planipus_kind'' = Some (rule_kind_text (pp_kind (e_provenance desired)))"
    "marker ev ''planipus_rule'' = Some (pp_rule_ref (e_provenance desired))"
    "marker ev ''planipus_planned_event'' = Some (pp_planned_event_ref (e_provenance desired))"
    "marker ev ''planipus_occurrence'' = Some (pp_occurrence_key (e_provenance desired))"
    "marker ev ''planipus_generation'' = Some (dec_int (pp_generation (e_provenance desired)))"
    "marker ev ''planipus_intent'' = Some (dec_int (pp_intent_sequence (e_provenance desired)))" "marker ev ''planipus_policy'' = None"
    using assms(1,2) by (simp_all add: serializeGooglePlanningEvent_def keeps_markers_def)
  have "kind_of_text (Some (rule_kind_text k)) = Some k" for k by (cases k) (simp_all add: kind_of_text_def rule_kind_text_def)
  with assms(3-9) show "planningIdentity other ev = Some (e_provenance desired)"
    by (simp add: planningIdentity_def m number_of_dec_int positive_integer_Whole)
  show "managedIdentity other ev = None" by (simp add: managedIdentity_def m is_truthy_def)
qed

subsection \<open>No feedback\<close>

lemma normalize_origin:
  assumes "normalizeGoogleEvent pf ev tz = Inr (Some s)" "marker ev ''planipus_version'' = Some ''1''"
  shows "s_origin s = PlanipusManaged"
  using assms by (auto simp: normalizeGoogleEvent_def bindE_Inr_iff Let_def split: if_splits)

text \<open>
  C23: Bridges do not feed each other. An event that Planipus wrote into a calendar, as a copy or for a
  planning rule, is read back as an event of Planipus, and no policy whose source is that calendar ever
  creates or updates a copy of it.
\<close>

theorem written_event_is_never_copied:
  assumes "serializeGoogleDesiredCopy desired eventId = Inr wr \<or> wr = serializeGooglePlanningEvent planned eventId" "keeps_markers wr ev"
    "normalizeGoogleEvent pf ev tz = Inr (Some s)" "source input = s" "evaluatePolicy t sha input = Inr r"
  shows "res_operation r \<in> {NoOperation, Delete} \<and> res_desired_copy r = None"
proof -
  have "marker ev ''planipus_version'' = Some ''1''"
    using assms(1,2) serialize_copy_markers(1) by (auto simp: serializeGooglePlanningEvent_def keeps_markers_def)
  from normalize_origin [OF assms(3) this] assms(4) have "s_origin (source input) = PlanipusManaged" by simp
  from managed_copy_is_never_copied [OF assms(5) this] show ?thesis .
qed

subsection \<open>A copy and its echo\<close>

definition echo_of :: "google_write \<Rightarrow> google_event" where
  "echo_of wr =
     \<lparr>ge_id = gw_id wr, ge_etag = Some ''1'', ge_status = Some ''confirmed'', ge_summary = Some (gw_summary wr), ge_description = gw_description wr,
      ge_location = gw_location wr, ge_hangout = None, ge_html = None, ge_transparency = None, ge_start = Some (gw_start wr), ge_end = Some (gw_end wr),
      ge_recurring = None, ge_original_start = None, ge_organizer = None, ge_attendees = None, ge_private = Some (gw_private wr)\<rparr>"

lemma echo_keeps_markers: "keeps_markers wr (echo_of wr)"
  by (simp add: keeps_markers_def marker_def echo_of_def)

theorem written_copy_is_recognized_witness:
  "\<exists>wr. serializeGoogleDesiredCopy sample_copy (Some ''ev'') = Inr wr
     \<and> eventBelongsToProjection \<lparr>el_event = ''ev'', el_revision = ''1'', el_identity = managedIdentity (\<lambda>_. NonFinite) (echo_of wr)\<rparr> ''p1'' ''x1'' 1"
proof -
  have "\<exists>wr. serializeGoogleDesiredCopy sample_copy (Some ''ev'') = Inr wr"
    by (simp add: serializeGoogleDesiredCopy_def sample_copy_def is_truthy_def)
  then obtain wr where wr: "serializeGoogleDesiredCopy sample_copy (Some ''ev'') = Inr wr" ..
  have "well_marked sample_copy" by (simp add: well_marked_def sample_copy_def max_safe_integer_def)
  from written_copy_is_recognized [OF wr echo_keeps_markers this, of "''ev''" "''1''" "\<lambda>_. NonFinite" "''p1''" "''x1''" 1] wr
  show ?thesis by (simp add: sample_copy_def)
qed

definition sample_echo :: google_event where
  "sample_echo = echo_of (projr (serializeGoogleDesiredCopy sample_copy (Some ''ev'')))"

definition echo_answered :: bool where
  "echo_answered =
     (case normalizeGoogleEvent utc_platform sample_echo ''UTC'' of
        Inr (Some s) \<Rightarrow> (case evaluatePolicy utc_library sample_sha (sample_input\<lparr>source := s\<rparr>) of Inr r \<Rightarrow> True | Inl e \<Rightarrow> False)
      | _ \<Rightarrow> False)"

lemma echo_is_answered: echo_answered
  by code_simp

theorem written_event_is_never_copied_witness:
  "\<exists>s r. normalizeGoogleEvent utc_platform sample_echo ''UTC'' = Inr (Some s)
     \<and> evaluatePolicy utc_library sample_sha (sample_input\<lparr>source := s\<rparr>) = Inr r \<and> res_desired_copy r = None"
proof -
  have "\<exists>wr. serializeGoogleDesiredCopy sample_copy (Some ''ev'') = Inr wr"
    by (simp add: serializeGoogleDesiredCopy_def sample_copy_def is_truthy_def)
  then obtain wr where wr: "serializeGoogleDesiredCopy sample_copy (Some ''ev'') = Inr wr" ..
  then have echo: "keeps_markers wr sample_echo" by (simp add: sample_echo_def echo_keeps_markers)
  from echo_is_answered obtain s where s: "normalizeGoogleEvent utc_platform sample_echo ''UTC'' = Inr (Some s)"
    by (auto simp: echo_answered_def split: sum.splits option.splits)
  with echo_is_answered obtain r where r: "evaluatePolicy utc_library sample_sha (sample_input\<lparr>source := s\<rparr>) = Inr r"
    by (cases "evaluatePolicy utc_library sample_sha (sample_input\<lparr>source := s\<rparr>)") (auto simp: echo_answered_def)
  from written_event_is_never_copied [OF disjI1 [OF wr] echo s _ r] s r show ?thesis by simp
qed

end
