(* ===== verification/Google_Calendar.thy ===== *)
theory Google_Calendar
  imports Google_Events
begin

section \<open>The Google Calendar client (server/src/providers/google/calendar.ts)\<close>

text \<open>
  The client turns the operations of a calendar provider into HTTP requests. The service is a parameter
  that answers every request, and it may answer differently every time: an answer depends on the requests
  before it. A request is recorded with the segments of its path before they are percent-encoded; the body
  that arrives is a value of the documented type, or it cannot be read, or it is too large, or it is no JSON.
\<close>

datatype http_method = HttpGet | HttpPost | HttpPut | HttpPatch | HttpDelete

record freebusy_request =
  fq_calendars :: "string list"
  fq_min :: string
  fq_max :: string

datatype http_body =
    NoBody
  | WriteBody google_write
  | DeclineBody (decline_email: string) (decline_comment: string)
  | FreeBusyBody freebusy_request

record http_call =
  hc_method :: http_method
  hc_path :: "string list"
  hc_query :: "(string \<times> string) list"
  hc_headers :: "(string \<times> string) list"
  hc_body :: http_body

datatype 'p http_text = Unreadable | TooLarge | NoJson | Parsed 'p
datatype 'p http_answer = FetchFailed | Answered int "'p http_text"

record google_calendar_entry =
  gc_id :: "string option"
  gc_summary :: "string option"
  gc_time_zone :: "string option"
  gc_access_role :: "string option"
  gc_primary :: "bool option"
  gc_deleted :: "bool option"

record google_calendar_list =
  gl_items :: "google_calendar_entry list option"
  gl_next_page :: "string option"

record google_event_list =
  gv_items :: "google_event list option"
  gv_next_page :: "string option"
  gv_next_sync :: "string option"
  gv_time_zone :: "string option"

record google_busy_calendar =
  gb_busy :: "(string option \<times> string option) list option"
  gb_errors :: "string list option"

record google_freebusy =
  gf_min :: "string option"
  gf_max :: "string option"
  gf_calendars :: "(string \<times> google_busy_calendar) list option"

record google =
  answer_event :: "http_call list \<Rightarrow> http_call \<Rightarrow> google_event http_answer"
  answer_events :: "http_call list \<Rightarrow> http_call \<Rightarrow> google_event_list http_answer"
  answer_calendars :: "http_call list \<Rightarrow> http_call \<Rightarrow> google_calendar_list http_answer"
  answer_freebusy :: "http_call list \<Rightarrow> http_call \<Rightarrow> google_freebusy http_answer"
  answer_delete :: "http_call list \<Rightarrow> http_call \<Rightarrow> unit http_answer"

type_synonym 'a web = "http_call list \<Rightarrow> (failure + 'a) \<times> http_call list"

definition returnW :: "'a \<Rightarrow> 'a web" where
  "returnW a h = (Inr a, h)"

definition liftW :: "failure + 'a \<Rightarrow> 'a web" where
  "liftW m h = (m, h)"

definition bindW :: "'a web \<Rightarrow> ('a \<Rightarrow> 'b web) \<Rightarrow> 'b web" where
  "bindW m f h = (case m h of (Inl e, h') \<Rightarrow> (Inl e, h') | (Inr a, h') \<Rightarrow> f a h')"

definition catchW :: "'a web \<Rightarrow> (failure \<Rightarrow> 'a web) \<Rightarrow> 'a web" where
  "catchW m handler h = (case m h of (Inl e, h') \<Rightarrow> handler e h' | (Inr a, h') \<Rightarrow> (Inr a, h'))"

subsection \<open>One request\<close>

definition http_code :: "int \<Rightarrow> string" where
  "http_code status =
     (if status = 401 then ''provider_auth''
      else if status = 410 then ''cursor_gone''
      else if status = 409 \<or> status = 412 then ''precondition_failed''
      else if status = 429 \<or> status \<ge> 500 then ''provider_throttled''
      else ''provider_http_'' @ dec_int status)"

text \<open>What becomes of an answer; \<open>None\<close> is the \<open>undefined\<close> of an answer without content.\<close>

definition received :: "bool \<Rightarrow> 'p http_answer \<Rightarrow> failure + 'p option" where
  "received write answer =
     (case answer of
        FetchFailed \<Rightarrow> Inl (ProviderFailure (if write then ''ambiguous_network_error'' else ''provider_network_error'') True write None)
      | Answered status text_of \<Rightarrow>
          if \<not> (200 \<le> status \<and> status \<le> 299)
          then Inl (ProviderFailure (http_code status) (status = 429 \<or> status \<ge> 500) (write \<and> status \<ge> 500) (Some status))
          else if status = 204 then Inr None
          else case text_of of
                 Unreadable \<Rightarrow> Inl (ProviderFailure (if write then ''ambiguous_response_error'' else ''provider_network_error'') True write (Some status))
               | TooLarge \<Rightarrow> Inl (ProviderFailure ''response_too_large'' write write None)
               | NoJson \<Rightarrow> Inl (ProviderFailure ''malformed_response'' write write None)
               | Parsed p \<Rightarrow> Inr (Some p))"

definition request :: "(http_call list \<Rightarrow> http_call \<Rightarrow> 'p http_answer) \<Rightarrow> http_call \<Rightarrow> bool \<Rightarrow> 'p option web" where
  "request answer c write h = (received write (answer h c), h @ [c])"

text \<open>Reading a property of \<open>undefined\<close> throws.\<close>

definition defined :: "'p option \<Rightarrow> 'p web" where
  "defined v = liftW (case v of None \<Rightarrow> Inl (OtherFailure (ThrownError ''TypeError'' None None)) | Some p \<Rightarrow> Inr p)"

definition fetch_event :: "google \<Rightarrow> http_call \<Rightarrow> bool \<Rightarrow> google_event web" where
  "fetch_event g c write = bindW (request (answer_event g) c write) defined"

definition is_status :: "int list \<Rightarrow> failure \<Rightarrow> bool" where
  "is_status codes e \<longleftrightarrow> (case e of ProviderFailure c r a (Some s) \<Rightarrow> s \<in> set codes | _ \<Rightarrow> False)"

subsection \<open>Calendars and availability\<close>

definition calendar_of_entry :: "google_calendar_entry \<Rightarrow> provider_calendar option" where
  "calendar_of_entry item =
     (if \<not> is_truthy (gc_id item) \<or> gc_deleted item = Some True then None
      else let accessRole = or_else_text (gc_access_role item) ''none''
           in Some \<lparr>rc_remote_id = the (gc_id item), rc_name = or_else_text (gc_summary item) ''Calendar'',
                rc_timezone = or_else_text (gc_time_zone item) ''UTC'', rc_access_role = accessRole,
                rc_freebusy = Some (accessRole \<in> {''freeBusyReader'', ''reader'', ''writer'', ''owner''}),
                rc_readable = (accessRole \<in> {''reader'', ''writer'', ''owner''}), rc_writable = (accessRole \<in> {''writer'', ''owner''}),
                rc_primary = (gc_primary item = Some True)\<rparr>)"

definition calendar_list_call :: "string option \<Rightarrow> http_call" where
  "calendar_list_call pageToken =
     \<lparr>hc_method = HttpGet, hc_path = [''users'', ''me'', ''calendarList''],
      hc_query = [(''maxResults'', ''250''), (''showDeleted'', ''false'')] @ (if is_truthy pageToken then [(''pageToken'', the pageToken)] else []),
      hc_headers = [], hc_body = NoBody\<rparr>"

text \<open>The pages of the list; a service that always names another page keeps the client reading, which is the value \<open>None\<close>.\<close>

partial_function (option) calendar_pages ::
  "google \<Rightarrow> string option \<Rightarrow> provider_calendar list \<Rightarrow> http_call list \<Rightarrow> ((failure + provider_calendar list) \<times> http_call list) option" where
  "calendar_pages g pageToken values h =
     (case bindW (request (answer_calendars g) (calendar_list_call pageToken) False) defined h of
        (Inl e, h') \<Rightarrow> Some (Inl e, h')
      | (Inr page, h') \<Rightarrow>
          let values' = values @ List.map_filter calendar_of_entry (case gl_items page of None \<Rightarrow> [] | Some items \<Rightarrow> items)
          in if is_truthy (gl_next_page page) then calendar_pages g (gl_next_page page) values' h' else Some (Inr values', h'))"

definition listCalendars :: "google \<Rightarrow> http_call list \<Rightarrow> ((failure + provider_calendar list) \<times> http_call list) option" where
  "listCalendars g = calendar_pages g None []"

record freebusy_result =
  fr_min :: string
  fr_max :: string
  fr_calendars :: "(string \<times> (string \<times> string) list) list"

definition MAX_FREEBUSY_INTERVALS_PER_CALENDAR :: nat where "MAX_FREEBUSY_INTERVALS_PER_CALENDAR = 10000"
definition MAX_FREEBUSY_INTERVALS_PER_RESPONSE :: nat where "MAX_FREEBUSY_INTERVALS_PER_RESPONSE = 50000"

definition malformed :: failure where
  "malformed = ProviderFailure ''malformed_response'' False False None"

definition assertFreeBusyRequest :: "platform \<Rightarrow> freebusy_request \<Rightarrow> failure + int \<times> int" where
  "assertFreeBusyRequest pf q =
     (case (getTime pf (fq_min q), getTime pf (fq_max q)) of
        (Some minimum, Some maximum) \<Rightarrow>
          if length (fq_calendars q) < 1 \<or> length (fq_calendars q) > 50 \<or> \<not> distinct (fq_calendars q) \<or> '''' \<in> set (fq_calendars q)
             \<or> minimum \<ge> maximum
          then Inl (ProviderFailure ''invalid_freebusy_request'' False False None) else Inr (minimum, maximum)
      | _ \<Rightarrow> Inl (ProviderFailure ''invalid_freebusy_request'' False False None))"

definition normalize_busy :: "platform \<Rightarrow> int \<Rightarrow> int \<Rightarrow> string option \<times> string option \<Rightarrow> failure + string \<times> string" where
  "normalize_busy pf minimum maximum interval =
     (case interval of (start, fin) \<Rightarrow>
        if \<not> is_truthy start \<or> \<not> is_truthy fin then Inl malformed
        else case (getTime pf (the start), getTime pf (the fin)) of
               (Some s, Some e) \<Rightarrow> if s \<ge> e \<or> s < minimum \<or> e > maximum then Inl malformed else Inr (toISOString s, toISOString e)
             | _ \<Rightarrow> Inl malformed)"

definition interval_compare :: "platform \<Rightarrow> string \<times> string \<Rightarrow> string \<times> string \<Rightarrow> int" where
  "interval_compare pf a b = (let c = locale_compare pf (fst a) (fst b) in if c \<noteq> 0 then c else locale_compare pf (snd a) (snd b))"

definition normalize_busy_calendar ::
  "platform \<Rightarrow> int \<Rightarrow> int \<Rightarrow> google_freebusy \<Rightarrow> nat \<times> (string \<times> (string \<times> string) list) list \<Rightarrow> string
   \<Rightarrow> failure + nat \<times> (string \<times> (string \<times> string) list) list" where
  "normalize_busy_calendar pf minimum maximum response acc calendarId =
     (case Option.bind (gf_calendars response) (\<lambda>cs. map_of cs calendarId) of
        None \<Rightarrow> Inl malformed
      | Some c \<Rightarrow>
          if gb_errors c \<noteq> None \<and> gb_errors c \<noteq> Some [] then Inl (ProviderFailure ''freebusy_unavailable'' True False None)
          else let intervals = (case gb_busy c of None \<Rightarrow> [] | Some bs \<Rightarrow> bs); total = fst acc + length intervals
               in if length intervals > MAX_FREEBUSY_INTERVALS_PER_CALENDAR \<or> total > MAX_FREEBUSY_INTERVALS_PER_RESPONSE
                  then Inl (ProviderFailure ''freebusy_too_large'' False False None)
                  else bindE (mapE (normalize_busy pf minimum maximum) intervals) (\<lambda>busy.
                    Inr (total, snd acc @ [(calendarId, js_sort (interval_compare pf) busy)])))"

definition normalizeFreeBusyResponse :: "platform \<Rightarrow> freebusy_request \<Rightarrow> google_freebusy \<Rightarrow> failure + freebusy_result" where
  "normalizeFreeBusyResponse pf q response =
     (case (getTime pf (fq_min q), getTime pf (fq_max q), getTime pf (or_else_text (gf_min response) ''''), getTime pf (or_else_text (gf_max response) '''')) of
        (requestedMinimum, requestedMaximum, Some responseMinimum, Some responseMaximum) \<Rightarrow>
          if Some responseMinimum \<noteq> requestedMinimum \<or> Some responseMaximum \<noteq> requestedMaximum then Inl malformed
          else bindE (foldE (normalize_busy_calendar pf responseMinimum responseMaximum response) (0, []) (fq_calendars q)) (\<lambda>r.
            Inr \<lparr>fr_min = toISOString responseMinimum, fr_max = toISOString responseMaximum, fr_calendars = snd r\<rparr>)
      | _ \<Rightarrow> Inl malformed)"

definition queryFreeBusy :: "platform \<Rightarrow> google \<Rightarrow> freebusy_request \<Rightarrow> freebusy_result web" where
  "queryFreeBusy pf g q =
     bindW (liftW (assertFreeBusyRequest pf q)) (\<lambda>_.
     bindW (bindW (request (answer_freebusy g)
        \<lparr>hc_method = HttpPost, hc_path = [''freeBusy''], hc_query = [], hc_headers = [(''content-type'', ''application/json'')],
         hc_body = FreeBusyBody q\<rparr> False) defined) (\<lambda>response.
       liftW (normalizeFreeBusyResponse pf q response)))"

subsection \<open>Reading events\<close>

definition events_path :: "string \<Rightarrow> string list" where
  "events_path calendarId = [''calendars'', calendarId, ''events'']"

definition event_path :: "string \<Rightarrow> string \<Rightarrow> string list" where
  "event_path calendarId eventId = [''calendars'', calendarId, ''events'', eventId]"

definition list_events_call :: "string \<Rightarrow> page_request \<Rightarrow> http_call" where
  "list_events_call calendarId q =
     \<lparr>hc_method = HttpGet, hc_path = events_path calendarId,
      hc_query = [(''maxResults'', ''1000''), (''showDeleted'', ''true''), (''singleEvents'', ''true'')]
        @ (if is_truthy (pq_page q) then [(''pageToken'', the (pq_page q))] else [])
        @ (if is_truthy (pq_sync q) then [(''syncToken'', the (pq_sync q))]
           else if is_truthy (pq_time_min q)
           then [(''timeMin'', the (pq_time_min q))] @ (if is_truthy (pq_time_max q) then [(''timeMax'', the (pq_time_max q))] else [])
           else []),
      hc_headers = [], hc_body = NoBody\<rparr>"

definition page_of_list :: "platform \<Rightarrow> google_event_list \<Rightarrow> failure + event_page" where
  "page_of_list pf response =
     bindE (liftE (\<lambda>_. OtherFailure (ThrownError ''RangeError'' None None))
       (normalize_events pf (or_else_text (gv_time_zone response) ''UTC'') (case gv_items response of None \<Rightarrow> [] | Some items \<Rightarrow> items))) (\<lambda>ss.
       Inr \<lparr>pg_observations = ss, pg_next_page = gv_next_page response, pg_next_sync = gv_next_sync response\<rparr>)"

definition listEvents :: "platform \<Rightarrow> google \<Rightarrow> string \<Rightarrow> page_request \<Rightarrow> event_page web" where
  "listEvents pf g calendarId q =
     bindW (bindW (request (answer_events g) (list_events_call calendarId q) False) defined) (\<lambda>response. liftW (page_of_list pf response))"

definition get_call :: "string \<Rightarrow> string \<Rightarrow> http_call" where
  "get_call calendarId eventId = \<lparr>hc_method = HttpGet, hc_path = event_path calendarId eventId, hc_query = [], hc_headers = [], hc_body = NoBody\<rparr>"

definition lookup_event :: "google \<Rightarrow> string \<Rightarrow> string \<Rightarrow> (google_event \<Rightarrow> write_result \<Rightarrow> 'a) \<Rightarrow> 'a option web" where
  "lookup_event g calendarId eventId view =
     catchW (bindW (fetch_event g (get_call calendarId eventId) False) (\<lambda>ev.
             bindW (liftW (requireWriteResult ev)) (\<lambda>r. returnW (Some (view ev r)))))
       (\<lambda>e. if is_status [404] e then returnW None else liftW (Inl e))"

definition getEvent :: "(string \<Rightarrow> js_number) \<Rightarrow> google \<Rightarrow> string \<Rightarrow> string \<Rightarrow> event_lookup option web" where
  "getEvent other g calendarId eventId =
     lookup_event g calendarId eventId (\<lambda>ev r. \<lparr>el_event = wr_event r, el_revision = wr_revision r, el_identity = managedIdentity other ev\<rparr>)"

definition getPlanningEvent :: "(string \<Rightarrow> js_number) \<Rightarrow> google \<Rightarrow> string \<Rightarrow> string \<Rightarrow> (write_result \<times> planning_provenance option) option web" where
  "getPlanningEvent other g calendarId eventId = lookup_event g calendarId eventId (\<lambda>ev r. (r, planningIdentity other ev))"

subsection \<open>Writing events\<close>

definition if_match :: "string option \<Rightarrow> (string \<times> string) list" where
  "if_match expected = (if is_truthy expected then [(''if-match'', the expected)] else [])"

definition create_call :: "string \<Rightarrow> string \<Rightarrow> google_write \<Rightarrow> http_call" where
  "create_call calendarId updates body =
     \<lparr>hc_method = HttpPost, hc_path = events_path calendarId, hc_query = [(''sendUpdates'', updates)],
      hc_headers = [(''content-type'', ''application/json''), (''if-none-match'', ''*'')], hc_body = WriteBody body\<rparr>"

definition update_call :: "string \<Rightarrow> string \<Rightarrow> string option \<Rightarrow> string \<Rightarrow> google_write \<Rightarrow> http_call" where
  "update_call calendarId eventId expected updates body =
     \<lparr>hc_method = HttpPut, hc_path = event_path calendarId eventId, hc_query = [(''sendUpdates'', updates)],
      hc_headers = [(''content-type'', ''application/json'')] @ if_match expected, hc_body = WriteBody body\<rparr>"

definition delete_call :: "string \<Rightarrow> string \<Rightarrow> string option \<Rightarrow> string \<Rightarrow> http_call" where
  "delete_call calendarId eventId expected updates =
     \<lparr>hc_method = HttpDelete, hc_path = event_path calendarId eventId, hc_query = [(''sendUpdates'', updates)],
      hc_headers = if_match expected, hc_body = NoBody\<rparr>"

definition written_event :: "google \<Rightarrow> http_call \<Rightarrow> write_result web" where
  "written_event g c = bindW (fetch_event g c True) (\<lambda>ev. liftW (requireWriteResult ev))"

definition createEvent :: "google \<Rightarrow> string \<Rightarrow> string \<Rightarrow> desired_copy \<Rightarrow> write_result web" where
  "createEvent g calendarId eventId desired =
     bindW (liftW (serializeGoogleDesiredCopy desired (Some eventId))) (\<lambda>body. written_event g (create_call calendarId ''none'' body))"

definition updateEvent :: "google \<Rightarrow> string \<Rightarrow> string \<Rightarrow> string option \<Rightarrow> desired_copy \<Rightarrow> write_result web" where
  "updateEvent g calendarId eventId expected desired =
     bindW (liftW (serializeGoogleDesiredCopy desired None)) (\<lambda>body. written_event g (update_call calendarId eventId expected ''none'' body))"

definition delete_remote :: "google \<Rightarrow> http_call \<Rightarrow> unit web" where
  "delete_remote g c =
     catchW (bindW (request (answer_delete g) c True) (\<lambda>_. returnW ())) (\<lambda>e. if is_status [404, 410] e then returnW () else liftW (Inl e))"

definition deleteEvent :: "google \<Rightarrow> string \<Rightarrow> string \<Rightarrow> string option \<Rightarrow> unit web" where
  "deleteEvent g calendarId eventId expected = delete_remote g (delete_call calendarId eventId expected ''none'')"

definition send_updates :: "bool \<Rightarrow> string" where
  "send_updates b = (if b then ''all'' else ''none'')"

definition createPlanningEvent :: "google \<Rightarrow> string \<Rightarrow> string \<Rightarrow> managed_planning_event \<Rightarrow> write_result web" where
  "createPlanningEvent g calendarId eventId desired =
     written_event g (create_call calendarId (send_updates (e_send_updates desired)) (serializeGooglePlanningEvent desired (Some eventId)))"

definition updatePlanningEvent :: "google \<Rightarrow> string \<Rightarrow> string \<Rightarrow> string option \<Rightarrow> managed_planning_event \<Rightarrow> write_result web" where
  "updatePlanningEvent g calendarId eventId expected desired =
     written_event g (update_call calendarId eventId expected (send_updates (e_send_updates desired)) (serializeGooglePlanningEvent desired None))"

definition deletePlanningEvent :: "google \<Rightarrow> string \<Rightarrow> string \<Rightarrow> string option \<Rightarrow> bool \<Rightarrow> unit web" where
  "deletePlanningEvent g calendarId eventId expected sendUpdates = delete_remote g (delete_call calendarId eventId expected (send_updates sendUpdates))"

subsection \<open>Declining an invitation\<close>

record decline_request =
  dr_expected :: "string option"
  dr_comment :: string

record decline_result = write_result +
  de_comment :: string
  de_retained :: bool
  de_changed :: bool

definition requireRespondableInvitation :: "google_event \<Rightarrow> failure + google_attendee" where
  "requireRespondableInvitation ev =
     (if ge_status ev = Some ''cancelled'' then Inl (ProviderFailure ''invitation_cancelled'' False False (Some 410))
      else case self_attendee ev of
             None \<Rightarrow> Inl (ProviderFailure ''not_invitation'' False False None)
           | Some self \<Rightarrow> if organizer_self ev \<or> \<not> is_truthy (ga_email self) then Inl (ProviderFailure ''not_invitation'' False False None) else Inr self)"

definition declineResult :: "google_event \<Rightarrow> string \<Rightarrow> bool \<Rightarrow> bool \<Rightarrow> failure + decline_result" where
  "declineResult ev comment changed retained =
     bindE (requireWriteResult ev) (\<lambda>r. Inr \<lparr>wr_event = wr_event r, wr_revision = wr_revision r, de_comment = comment, de_retained = retained, de_changed = changed\<rparr>)"

definition invitation_call :: "string \<Rightarrow> string \<Rightarrow> http_call" where
  "invitation_call calendarId eventId =
     \<lparr>hc_method = HttpGet, hc_path = event_path calendarId eventId,
      hc_query = [(''maxAttendees'', ''1''),
        (''fields'', ''id,etag,status,organizer(self),attendees(email,self,responseStatus,comment),attendeesOmitted'')],
      hc_headers = [], hc_body = NoBody\<rparr>"

definition decline_call :: "string \<Rightarrow> string \<Rightarrow> string \<Rightarrow> string \<Rightarrow> string \<Rightarrow> http_call" where
  "decline_call calendarId eventId revision email comment =
     \<lparr>hc_method = HttpPatch, hc_path = event_path calendarId eventId, hc_query = [(''maxAttendees'', ''1''), (''sendUpdates'', ''none'')],
      hc_headers = [(''content-type'', ''application/json''), (''if-match'', revision)], hc_body = DeclineBody email comment\<rparr>"

text \<open>An answer without content is \<open>undefined\<close> (\<open>None\<close>); whoever reads a field of it throws a \<open>TypeError\<close>.\<close>

definition getInvitationEvent :: "google \<Rightarrow> string \<Rightarrow> string \<Rightarrow> google_event option web" where
  "getInvitationEvent g calendarId eventId =
     catchW (request (answer_event g) (invitation_call calendarId eventId) False)
       (\<lambda>e. liftW (Inl (if is_status [404] e then ProviderFailure ''not_found'' False False (Some 404) else e)))"

definition declined_outcome :: "google_event \<Rightarrow> google_attendee \<Rightarrow> string \<Rightarrow> bool \<Rightarrow> failure + decline_result" where
  "declined_outcome ev self expectedComment changed =
     (let observedComment = or_else_text (ga_comment self) '''' in declineResult ev observedComment changed (observedComment = expectedComment))"

definition verifyDeclinedInvitation :: "google \<Rightarrow> string \<Rightarrow> string \<Rightarrow> string \<Rightarrow> failure \<Rightarrow> decline_result web" where
  "verifyDeclinedInvitation g calendarId eventId expectedComment ambiguousError =
     bindW (catchW (getInvitationEvent g calendarId eventId) (\<lambda>_. liftW (Inl ambiguousError))) (\<lambda>answer.
     bindW (defined answer) (\<lambda>observed.
     bindW (liftW (requireRespondableInvitation observed)) (\<lambda>self.
       if ga_response self = Some ''declined'' then liftW (declined_outcome observed self expectedComment True)
       else if ga_response self \<noteq> Some ''needsAction'' then liftW (Inl (ProviderFailure ''invitation_already_answered'' False False None))
       else liftW (Inl ambiguousError))))"

definition unverified :: failure where
  "unverified = ProviderFailure ''ambiguous_decline_verification'' True True None"

definition patch_decline :: "google \<Rightarrow> string \<Rightarrow> string \<Rightarrow> string \<Rightarrow> string \<Rightarrow> string \<Rightarrow> decline_result web" where
  "patch_decline g calendarId eventId revision email comment h =
     (case request (answer_event g) (decline_call calendarId eventId revision email comment) True h of
        (Inl (ProviderFailure c r True s), h') \<Rightarrow> verifyDeclinedInvitation g calendarId eventId comment (ProviderFailure c r True s) h'
      | (Inl e, h') \<Rightarrow> (Inl e, h')
      | (Inr _, h') \<Rightarrow> verifyDeclinedInvitation g calendarId eventId comment unverified h')"

text \<open>What is done with an invitation that was read: nothing more when it is answered, otherwise the answer.\<close>

definition answer_invitation :: "google \<Rightarrow> string \<Rightarrow> string \<Rightarrow> decline_request \<Rightarrow> google_event \<Rightarrow> google_attendee \<Rightarrow> string \<Rightarrow> decline_result web" where
  "answer_invitation g calendarId eventId q current self revision =
     (if ga_response self = Some ''declined'' then liftW (declined_outcome current self (dr_comment q) False)
      else if ga_response self \<noteq> Some ''needsAction'' then liftW (Inl (ProviderFailure ''invitation_already_answered'' False False None))
      else if is_truthy (dr_expected q) \<and> dr_expected q \<noteq> Some revision
      then liftW (Inl (ProviderFailure ''precondition_failed'' False False (Some 412)))
      else patch_decline g calendarId eventId revision (the (ga_email self)) (dr_comment q))"

definition declineInvitation :: "google \<Rightarrow> string \<Rightarrow> string \<Rightarrow> decline_request \<Rightarrow> decline_result web" where
  "declineInvitation g calendarId eventId q =
     bindW (getInvitationEvent g calendarId eventId) (\<lambda>answer.
     bindW (defined answer) (\<lambda>current.
     bindW (liftW (requireRespondableInvitation current)) (\<lambda>self.
     bindW (liftW (requireWriteResult current)) (\<lambda>r. answer_invitation g calendarId eventId q current self (wr_revision r)))))"

subsection \<open>Failures that leave a write in doubt\<close>

text \<open>The service may have carried out the request: no answer came, or one that speaks of success or of a fault of the service.\<close>

definition may_have_acted :: "'p http_answer \<Rightarrow> bool" where
  "may_have_acted answer \<longleftrightarrow> (case answer of FetchFailed \<Rightarrow> True | Answered status t \<Rightarrow> status \<ge> 500 \<or> 200 \<le> status \<and> status \<le> 299)"

text \<open>
  C25: When a writing request fails, the failure is marked ambiguous exactly when the service may have carried
  the request out; the failure of a reading request is never ambiguous.
\<close>

theorem doubtful_writes_are_ambiguous:
  assumes "fst (request answer c write h) = Inl e"
  shows "\<exists>code_text retry status. e = ProviderFailure code_text retry (write \<and> may_have_acted (answer h c)) status"
  using assms by (cases "answer h c") (auto simp: request_def received_def may_have_acted_def split: if_splits http_text.splits)

text \<open>
  The one exception: an answer of success that lacks the identifier or the revision of the event. The
  write was carried out, and the failure says that it was not in doubt and need not be tried again.
\<close>

theorem incomplete_answer_is_taken_for_a_failure:
  assumes "serializeGoogleDesiredCopy desired (Some eventId) = Inr body" "c = create_call calendarId ''none'' body"
    "answer_event g h c = Answered 200 (Parsed ev)" "\<not> is_truthy (ge_id ev) \<or> \<not> is_truthy (ge_etag ev)"
  shows "createEvent g calendarId eventId desired h = (Inl (ProviderFailure ''malformed_response'' False False None), h @ [c])
    \<and> may_have_acted (answer_event g h c)"
  using assms by (auto simp: createEvent_def written_event_def fetch_event_def request_def received_def requireWriteResult_def
      bindW_def liftW_def defined_def may_have_acted_def)

subsection \<open>Declining takes care\<close>

definition shows_event :: "google \<Rightarrow> http_call list \<Rightarrow> http_call \<Rightarrow> google_event \<Rightarrow> bool" where
  "shows_event g h c ev \<longleftrightarrow> (\<exists>status. answer_event g h c = Answered status (Parsed ev) \<and> 200 \<le> status \<and> status \<le> 299)"

lemma received_Some: "received write a = Inr (Some p) \<Longrightarrow> \<exists>status. a = Answered status (Parsed p) \<and> 200 \<le> status \<and> status \<le> 299"
  by (auto simp: received_def split: http_answer.splits http_text.splits if_splits)

lemma getInvitationEvent_step:
  assumes "getInvitationEvent g calendarId eventId h = (res, h')"
  shows "h' = h @ [invitation_call calendarId eventId] \<and> (\<forall>ev. res = Inr (Some ev) \<longrightarrow> shows_event g h (invitation_call calendarId eventId) ev)"
proof (cases "received False (answer_event g h (invitation_call calendarId eventId))")
  case (Inl e)
  with assms show ?thesis by (auto simp: getInvitationEvent_def catchW_def bindW_def request_def liftW_def)
next
  case (Inr v)
  then show ?thesis
  proof (cases v)
    case None
    with Inr assms show ?thesis by (auto simp: getInvitationEvent_def catchW_def bindW_def request_def liftW_def defined_def)
  next
    case (Some p)
    with Inr assms received_Some [of False] show ?thesis
      by (auto simp: getInvitationEvent_def catchW_def bindW_def request_def liftW_def defined_def shows_event_def)
  qed
qed

text \<open>An answer in which the invitation is declined by its addressee.\<close>

definition shows_declined :: "google \<Rightarrow> http_call list \<Rightarrow> http_call \<Rightarrow> bool" where
  "shows_declined g h c \<longleftrightarrow> (\<exists>ev self. shows_event g h c ev \<and> requireRespondableInvitation ev = Inr self \<and> ga_response self = Some ''declined'')"

lemma verifyDeclinedInvitation_step:
  assumes "verifyDeclinedInvitation g calendarId eventId comment e h = (res, h')"
  shows "h' = h @ [invitation_call calendarId eventId] \<and> (\<forall>r. res = Inr r \<longrightarrow> shows_declined g h (invitation_call calendarId eventId))"
proof -
  obtain got h1 where got: "getInvitationEvent g calendarId eventId h = (got, h1)" by fastforce
  note step = getInvitationEvent_step [OF got]
  show ?thesis
  proof (cases got)
    case (Inl f)
    with assms got step show ?thesis by (auto simp: verifyDeclinedInvitation_def bindW_def catchW_def liftW_def)
  next
    case (Inr answer)
    show ?thesis
    proof (cases answer)
      case None
      with assms got Inr step show ?thesis by (auto simp: verifyDeclinedInvitation_def bindW_def catchW_def liftW_def defined_def)
    next
      case (Some ev)
      with step Inr have ev: "h1 = h @ [invitation_call calendarId eventId]" "shows_event g h (invitation_call calendarId eventId) ev" by simp_all
      with assms got Inr Some show ?thesis
        by (cases "requireRespondableInvitation ev")
          (auto simp: verifyDeclinedInvitation_def bindW_def catchW_def liftW_def defined_def shows_declined_def split: if_splits)
    qed
  qed
qed

lemma patch_decline_step:
  assumes "patch_decline g calendarId eventId rv email comment h = (res, h')"
  shows "\<exists>cs. h' = h @ decline_call calendarId eventId rv email comment # cs \<and> (cs = [] \<or> cs = [invitation_call calendarId eventId])
    \<and> (\<forall>r. res = Inr r \<longrightarrow> cs \<noteq> [] \<and> shows_declined g (h @ [decline_call calendarId eventId rv email comment]) (invitation_call calendarId eventId))"
proof -
  let ?c = "decline_call calendarId eventId rv email comment"
  obtain a where a: "request (answer_event g) ?c True h = (a, h @ [?c])" by (simp add: request_def)
  consider (verify) e where "verifyDeclinedInvitation g calendarId eventId comment e (h @ [?c]) = (res, h')"
    | (failed) e where "res = Inl e" "h' = h @ [?c]"
    using assms a by (auto simp: patch_decline_def split: sum.splits failure.splits bool.splits)
  then show ?thesis
  proof cases
    case verify
    from verifyDeclinedInvitation_step [OF verify] show ?thesis by (intro exI [of _ "[invitation_call calendarId eventId]"]) simp
  next
    case failed
    then show ?thesis by (intro exI [of _ "[]"]) simp
  qed
qed

lemma call_methods [simp]:
  "hc_method (invitation_call calendarId eventId) = HttpGet" "hc_method (decline_call calendarId eventId rv email comment) = HttpPatch"
  by (simp_all add: invitation_call_def decline_call_def)

text \<open>The answer showed an invitation that waits for an answer, in the revision the caller expects.\<close>

definition answerable :: "google \<Rightarrow> http_call list \<Rightarrow> string \<Rightarrow> string \<Rightarrow> decline_request \<Rightarrow> http_call \<Rightarrow> bool" where
  "answerable g h calendarId eventId q c \<longleftrightarrow>
     (\<exists>ev self. shows_event g h (invitation_call calendarId eventId) ev \<and> requireRespondableInvitation ev = Inr self
        \<and> ga_response self = Some ''needsAction'' \<and> (is_truthy (dr_expected q) \<longrightarrow> dr_expected q = ge_etag ev)
        \<and> c = decline_call calendarId eventId (the (ge_etag ev)) (the (ga_email self)) (dr_comment q))"

lemma answer_invitation_cases:
  assumes "answer_invitation g calendarId eventId q ev self rv h = (res, h')"
  obtains (stopped) e where "h' = h" "res = Inl e"
  | (declined) r where "h' = h" "res = Inr r" "ga_response self = Some ''declined''"
  | (patched) "ga_response self = Some ''needsAction''" "is_truthy (dr_expected q) \<longrightarrow> dr_expected q = Some rv"
      "patch_decline g calendarId eventId rv (the (ga_email self)) (dr_comment q) h = (res, h')"
proof (cases "ga_response self = Some ''needsAction'' \<and> (is_truthy (dr_expected q) \<longrightarrow> dr_expected q = Some rv)")
  case True
  with assms have "patch_decline g calendarId eventId rv (the (ga_email self)) (dr_comment q) h = (res, h')"
    by (auto simp: answer_invitation_def)
  with True show thesis by (intro patched) auto
next
  case False
  have "h' = h \<and> ((\<exists>e. res = Inl e) \<or> (\<exists>r. res = Inr r \<and> ga_response self = Some ''declined''))"
  proof (cases "ga_response self = Some ''declined''")
    case True
    with assms show ?thesis by (cases res) (auto simp: answer_invitation_def liftW_def)
  qed (use False assms in \<open>auto simp: answer_invitation_def liftW_def split: if_splits\<close>)
  with stopped declined show thesis by blast
qed

lemma declineInvitation_cases:
  assumes "declineInvitation g calendarId eventId q h = (res, h')"
  obtains (stopped) e where "h' = h @ [invitation_call calendarId eventId]" "res = Inl e"
  | (declined) r where "h' = h @ [invitation_call calendarId eventId]" "res = Inr r" "shows_declined g h (invitation_call calendarId eventId)"
  | (patched) c cs where "h' = h @ invitation_call calendarId eventId # c # cs" "answerable g h calendarId eventId q c"
      "cs = [] \<or> cs = [invitation_call calendarId eventId]"
      "\<forall>r. res = Inr r \<longrightarrow> cs \<noteq> [] \<and> shows_declined g (h @ [invitation_call calendarId eventId, c]) (invitation_call calendarId eventId)"
proof -
  let ?i = "invitation_call calendarId eventId"
  obtain got h1 where got: "getInvitationEvent g calendarId eventId h = (got, h1)" by fastforce
  note step = getInvitationEvent_step [OF got]
  show thesis
  proof (cases "\<exists>ev self r. got = Inr (Some ev) \<and> requireRespondableInvitation ev = Inr self \<and> requireWriteResult ev = Inr r")
    case False
    have "h' = h @ [?i] \<and> (\<exists>e. res = Inl e)"
    proof (cases got)
      case (Inr answer)
      show ?thesis
      proof (cases answer)
        case (Some ev)
        with assms got step False Inr show ?thesis
          by (cases "requireRespondableInvitation ev"; cases "requireWriteResult ev") (auto simp: declineInvitation_def bindW_def liftW_def defined_def)
      qed (use assms got step Inr in \<open>auto simp: declineInvitation_def bindW_def liftW_def defined_def\<close>)
    qed (use assms got step in \<open>auto simp: declineInvitation_def bindW_def liftW_def\<close>)
    then show thesis using stopped by blast
  next
    case True
    then obtain ev self r where ev: "got = Inr (Some ev)" "requireRespondableInvitation ev = Inr self" "requireWriteResult ev = Inr r" by blast
    with step have shown: "shows_event g h ?i ev" and h1: "h1 = h @ [?i]" by simp_all
    from ev(3) have rv: "ge_etag ev = Some (wr_revision r)" by (auto simp: requireWriteResult_def is_truthy_def split: if_splits)
    have "answer_invitation g calendarId eventId q ev self (wr_revision r) (h @ [?i]) = (res, h')"
      using assms got h1 ev by (simp add: declineInvitation_def bindW_def liftW_def defined_def)
    then show thesis
    proof (cases rule: answer_invitation_cases)
      case (declined r')
      with shown ev(2) show thesis by (intro that(2)) (auto simp: shows_declined_def)
    next
      case patched
      let ?c = "decline_call calendarId eventId (wr_revision r) (the (ga_email self)) (dr_comment q)"
      from patch_decline_step [OF patched(3)] obtain cs where "h' = (h @ [?i]) @ ?c # cs" "cs = [] \<or> cs = [?i]"
        "\<forall>r. res = Inr r \<longrightarrow> cs \<noteq> [] \<and> shows_declined g ((h @ [?i]) @ [?c]) ?i" by blast
      moreover have "answerable g h calendarId eventId q ?c"
        using shown ev(2) patched(1,2) rv unfolding answerable_def by (metis option.sel)
      ultimately show thesis by (intro that(3) [of ?c cs]) simp_all
    qed (rule that(1))
  qed
qed

text \<open>
  C24: Declining takes at most three requests and at most one of them writes. It writes only after an answer
  in which the invitation waited for an answer, in the revision the caller expects, and changes the
  addressee's own entry under that revision; it reports success only on an answer in which the invitation
  is declined.
\<close>

theorem decline_is_careful:
  assumes "declineInvitation g calendarId eventId q h = (res, h')"
  shows "\<exists>cs. h' = h @ cs \<and> length cs \<le> 3
    \<and> (\<forall>i < length cs. hc_method (cs ! i) \<noteq> HttpGet \<longrightarrow> i = 1 \<and> answerable g h calendarId eventId q (cs ! i))
    \<and> (\<forall>r. res = Inr r \<longrightarrow> shows_declined g (h @ butlast cs) (last cs))"
  using assms
proof (cases rule: declineInvitation_cases)
  case stopped
  then show ?thesis by (intro exI [of _ "[invitation_call calendarId eventId]"]) simp
next
  case declined
  then show ?thesis by (intro exI [of _ "[invitation_call calendarId eventId]"]) simp
next
  case (patched c cs)
  have "hc_method (cs ! k) = HttpGet" if "k < length cs" for k using patched(3) that by auto
  with patched show ?thesis
    by (intro exI [of _ "invitation_call calendarId eventId # c # cs"]) (auto simp: nth_Cons split: nat.splits)
qed

subsection \<open>Availability is answered for what was asked\<close>

text \<open>A busy interval, as two instants, inside a window.\<close>

definition busy_inside :: "int \<Rightarrow> int \<Rightarrow> string \<times> string \<Rightarrow> bool" where
  "busy_inside lo hi b \<longleftrightarrow> (\<exists>s e. b = (toISOString s, toISOString e) \<and> lo \<le> s \<and> s < e \<and> e \<le> hi)"

lemma normalize_busy_inside: "normalize_busy pf lo hi i = Inr b \<Longrightarrow> busy_inside lo hi b"
  by (auto simp: normalize_busy_def busy_inside_def not_less not_le split: prod.splits option.splits if_splits)

definition busy_total :: "(string \<times> (string \<times> string) list) list \<Rightarrow> nat" where
  "busy_total cs = sum_list (map (\<lambda>c. length (snd c)) cs)"

definition calendars_inside :: "int \<Rightarrow> int \<Rightarrow> (string \<times> (string \<times> string) list) list \<Rightarrow> bool" where
  "calendars_inside lo hi cs \<longleftrightarrow> (\<forall>c \<in> set cs. length (snd c) \<le> MAX_FREEBUSY_INTERVALS_PER_CALENDAR \<and> (\<forall>b \<in> set (snd c). busy_inside lo hi b))"

lemma normalize_busy_calendar_Inr:
  assumes "normalize_busy_calendar pf lo hi response (n, cs) i = Inr (n', cs')"
  obtains bs where "cs' = cs @ [(i, bs)]" "n' = n + length bs" "n' \<le> MAX_FREEBUSY_INTERVALS_PER_RESPONSE"
    "calendars_inside lo hi [(i, bs)]"
proof -
  from assms obtain c where c: "Option.bind (gf_calendars response) (\<lambda>cs. map_of cs i) = Some c"
    by (cases "Option.bind (gf_calendars response) (\<lambda>cs. map_of cs i)") (auto simp: normalize_busy_calendar_def)
  let ?is = "case gb_busy c of None \<Rightarrow> [] | Some bs \<Rightarrow> bs"
  from assms c obtain busy where busy: "mapE (normalize_busy pf lo hi) ?is = Inr busy" "cs' = cs @ [(i, js_sort (interval_compare pf) busy)]"
    "n' = n + length ?is" "length ?is \<le> MAX_FREEBUSY_INTERVALS_PER_CALENDAR" "n' \<le> MAX_FREEBUSY_INTERVALS_PER_RESPONSE"
    by (auto simp: normalize_busy_calendar_def Let_def bindE_Inr_iff split: if_splits)
  have "length busy = length ?is" using busy(1) by (rule mapE_Inr_length)
  moreover have "busy_inside lo hi b" if "b \<in> set busy" for b using mapE_Inr_set [OF busy(1) that] normalize_busy_inside by blast
  ultimately show thesis using busy by (intro that [OF busy(2)]) (auto simp: calendars_inside_def)
qed

lemma normalize_busy_calendars:
  assumes "foldE (normalize_busy_calendar pf lo hi response) (n, cs) is = Inr (n', cs')" "n = busy_total cs" "calendars_inside lo hi cs"
    "n \<le> MAX_FREEBUSY_INTERVALS_PER_RESPONSE"
  shows "map fst cs' = map fst cs @ is \<and> n' = busy_total cs' \<and> calendars_inside lo hi cs' \<and> n' \<le> MAX_FREEBUSY_INTERVALS_PER_RESPONSE"
  using assms
proof (induction "is" arbitrary: n cs)
  case (Cons i "is")
  from Cons.prems(1) obtain t1 cs1 where one: "normalize_busy_calendar pf lo hi response (n, cs) i = Inr (t1, cs1)"
    and rest: "foldE (normalize_busy_calendar pf lo hi response) (t1, cs1) is = Inr (n', cs')" by (auto simp: bindE_Inr_iff)
  from one obtain bs where bs: "cs1 = cs @ [(i, bs)]" "t1 = n + length bs" "t1 \<le> MAX_FREEBUSY_INTERVALS_PER_RESPONSE"
    "calendars_inside lo hi [(i, bs)]" by (rule normalize_busy_calendar_Inr)
  have "t1 = busy_total cs1" "calendars_inside lo hi cs1"
    using bs Cons.prems(2,3) by (auto simp: busy_total_def calendars_inside_def)
  from Cons.IH [OF rest this bs(3)] bs(1) show ?case by simp
qed simp

text \<open>
  C26: The availability that the client hands on covers exactly the calendars that were asked for, in their
  order, consists of proper intervals inside the window that was asked for, and is bounded in size; a
  service that answers for another window, leaves out a calendar or reports an error makes it fail.
\<close>

theorem availability_covers_the_request:
  assumes "queryFreeBusy pf g q h = (Inr r, h')"
  shows "\<exists>lo hi. getTime pf (fq_min q) = Some lo \<and> getTime pf (fq_max q) = Some hi \<and> lo < hi
    \<and> fr_min r = toISOString lo \<and> fr_max r = toISOString hi \<and> map fst (fr_calendars r) = fq_calendars q
    \<and> calendars_inside lo hi (fr_calendars r) \<and> busy_total (fr_calendars r) \<le> MAX_FREEBUSY_INTERVALS_PER_RESPONSE"
proof -
  from assms obtain lo hi where a: "assertFreeBusyRequest pf q = Inr (lo, hi)"
    by (cases "assertFreeBusyRequest pf q") (auto simp: queryFreeBusy_def bindW_def liftW_def)
  then have window: "getTime pf (fq_min q) = Some lo" "getTime pf (fq_max q) = Some hi" "lo < hi"
    by (auto simp: assertFreeBusyRequest_def split: option.splits if_splits)
  from assms a obtain response where n: "normalizeFreeBusyResponse pf q response = Inr r"
    by (auto simp: queryFreeBusy_def bindW_def liftW_def split: sum.splits prod.splits)
  then obtain t where fold: "foldE (normalize_busy_calendar pf lo hi response) (0, []) (fq_calendars q) = Inr (t, fr_calendars r)"
    and ends: "fr_min r = toISOString lo" "fr_max r = toISOString hi"
    by (auto simp: normalizeFreeBusyResponse_def window bindE_Inr_iff split: option.splits if_splits)
  from normalize_busy_calendars [OF fold] have "map fst (fr_calendars r) = fq_calendars q" "calendars_inside lo hi (fr_calendars r)"
    "busy_total (fr_calendars r) \<le> MAX_FREEBUSY_INTERVALS_PER_RESPONSE" by (simp_all add: busy_total_def calendars_inside_def)
  with window ends show ?thesis by blast
qed

subsection \<open>The list of calendars\<close>

text \<open>A service that names no further page after a number of requests makes the client return.\<close>

lemma calendar_pages_return:
  assumes "\<And>h c status page. N \<le> length h \<Longrightarrow> answer_calendars g h c = Answered status (Parsed page) \<Longrightarrow> \<not> is_truthy (gl_next_page page)"
  shows "\<exists>y. calendar_pages g pageToken values h = Some y"
proof (induction "N - length h" arbitrary: pageToken "values" h rule: less_induct)
  case less
  let ?c = "calendar_list_call pageToken"
  have unfold: "calendar_pages g pageToken values h = (case bindW (request (answer_calendars g) ?c False) defined h of
        (Inl e, h') \<Rightarrow> Some (Inl e, h')
      | (Inr page, h') \<Rightarrow>
          let values' = values @ List.map_filter calendar_of_entry (case gl_items page of None \<Rightarrow> [] | Some items \<Rightarrow> items)
          in if is_truthy (gl_next_page page) then calendar_pages g (gl_next_page page) values' h' else Some (Inr values', h'))"
    by (rule calendar_pages.simps)
  show ?case
  proof (cases "fst (bindW (request (answer_calendars g) ?c False) defined h)")
    case (Inl e)
    then show ?thesis unfolding unfold by (cases "bindW (request (answer_calendars g) ?c False) defined h") simp
  next
    case (Inr page)
    then have run: "bindW (request (answer_calendars g) ?c False) defined h = (Inr page, h @ [?c])"
      and shown: "\<exists>status. answer_calendars g h ?c = Answered status (Parsed page)"
      by (auto simp: bindW_def request_def defined_def liftW_def split: sum.splits option.splits prod.splits dest!: received_Some)
    show ?thesis
    proof (cases "is_truthy (gl_next_page page)")
      case True
      with shown assms have "length h < N" by (meson not_le)
      then have "N - length (h @ [?c]) < N - length h" by simp
      from less [OF this] True show ?thesis unfolding unfold run by (simp add: Let_def)
    next
      case False
      then show ?thesis unfolding unfold run by (simp add: Let_def)
    qed
  qed
qed

subsection \<open>Concrete conversations\<close>

definition sample_invited :: "string \<Rightarrow> string \<Rightarrow> google_event" where
  "sample_invited etag answer =
     \<lparr>ge_id = Some ''e1'', ge_etag = Some etag, ge_status = Some ''confirmed'', ge_summary = None, ge_description = None, ge_location = None,
      ge_hangout = None, ge_html = None, ge_transparency = None, ge_start = None, ge_end = None, ge_recurring = None, ge_original_start = None,
      ge_organizer = None, ge_attendees = Some [\<lparr>ga_email = Some ''me'', ga_self = Some True, ga_optional = None, ga_response = Some answer, ga_comment = Some ''busy''\<rparr>],
      ge_private = None\<rparr>"

definition sample_google :: google where
  "sample_google =
     \<lparr>answer_event = (\<lambda>h c. if hc_method c = HttpGet \<and> h = [] then Answered 200 (Parsed (sample_invited ''1'' ''needsAction''))
        else if hc_method c = HttpPatch then Answered 502 Unreadable else Answered 200 (Parsed (sample_invited ''2'' ''declined''))),
      answer_events = (\<lambda>h c. FetchFailed), answer_calendars = (\<lambda>h c. FetchFailed),
      answer_freebusy = (\<lambda>h c. Answered 200 (Parsed \<lparr>gf_min = Some ''2026-07-21T00:00:00Z'', gf_max = Some ''2026-07-22T00:00:00Z'',
         gf_calendars = Some [(''r'', \<lparr>gb_busy = Some [(Some ''2026-07-21T09:00:00Z'', Some ''2026-07-21T10:00:00Z'')], gb_errors = None\<rparr>)]\<rparr>)),
      answer_delete = (\<lambda>h c. FetchFailed)\<rparr>"

definition sample_decline :: decline_request where
  "sample_decline = \<lparr>dr_expected = Some ''1'', dr_comment = ''busy''\<rparr>"

lemma sample_decline_run:
  "declineInvitation sample_google ''r'' ''e1'' sample_decline []
   = (Inr \<lparr>wr_event = ''e1'', wr_revision = ''2'', de_comment = ''busy'', de_retained = True, de_changed = True\<rparr>,
      [invitation_call ''r'' ''e1'', decline_call ''r'' ''e1'' ''1'' ''me'' ''busy'', invitation_call ''r'' ''e1''])"
  by code_simp

theorem decline_is_careful_witness:
  "\<exists>r h'. declineInvitation sample_google ''r'' ''e1'' sample_decline [] = (Inr r, h') \<and> length h' \<le> 3
     \<and> answerable sample_google [] ''r'' ''e1'' sample_decline (h' ! 1)"
proof -
  from decline_is_careful [OF sample_decline_run] have "answerable sample_google [] ''r'' ''e1'' sample_decline (decline_call ''r'' ''e1'' ''1'' ''me'' ''busy'')"
    by (elim exE conjE) (drule spec [where x = 1], auto)
  with sample_decline_run show ?thesis by simp
qed

theorem doubtful_writes_are_ambiguous_witness:
  "\<exists>code_text retry status. received True (answer_event sample_google [] (decline_call ''r'' ''e1'' ''1'' ''me'' ''busy''))
     = Inl (ProviderFailure code_text retry True status)"
proof -
  have "fst (request (answer_event sample_google) (decline_call ''r'' ''e1'' ''1'' ''me'' ''busy'') True [])
      = Inl (ProviderFailure ''provider_throttled'' True True (Some 502))"
    by code_simp
  from doubtful_writes_are_ambiguous [OF this] this show ?thesis by (auto simp: request_def)
qed

definition silent_google :: google where
  "silent_google = sample_google\<lparr>answer_event := (\<lambda>h c. Answered 200 (Parsed ((sample_invited ''1'' ''accepted'')\<lparr>ge_etag := None\<rparr>)))\<rparr>"

theorem incomplete_answer_is_taken_for_a_failure_witness:
  "\<exists>c. createEvent silent_google ''r'' ''ev'' sample_copy [] = (Inl (ProviderFailure ''malformed_response'' False False None), [c])
     \<and> may_have_acted (answer_event silent_google [] c)"
proof -
  have "\<exists>body. serializeGoogleDesiredCopy sample_copy (Some ''ev'') = Inr body"
    by (simp add: serializeGoogleDesiredCopy_def sample_copy_def is_truthy_def)
  then obtain body where body: "serializeGoogleDesiredCopy sample_copy (Some ''ev'') = Inr body" ..
  have "answer_event silent_google [] (create_call ''r'' ''none'' body) = Answered 200 (Parsed ((sample_invited ''1'' ''accepted'')\<lparr>ge_etag := None\<rparr>))"
    by (simp add: silent_google_def)
  from incomplete_answer_is_taken_for_a_failure [OF body refl this] show ?thesis by (auto simp: is_truthy_def)
qed

definition sample_availability :: freebusy_request where
  "sample_availability = \<lparr>fq_calendars = [''r''], fq_min = ''2026-07-21T00:00:00Z'', fq_max = ''2026-07-22T00:00:00Z''\<rparr>"

theorem availability_covers_the_request_witness:
  "\<exists>r h'. queryFreeBusy utc_platform sample_google sample_availability [] = (Inr r, h') \<and> map fst (fr_calendars r) = [''r''] \<and> busy_total (fr_calendars r) \<le> 50000"
proof -
  have "\<exists>r. fst (queryFreeBusy utc_platform sample_google sample_availability []) = Inr r"
    by (rule exI [of _ "\<lparr>fr_min = ''2026-07-21T00:00:00.000Z'', fr_max = ''2026-07-22T00:00:00.000Z'',
      fr_calendars = [(''r'', [(''2026-07-21T09:00:00.000Z'', ''2026-07-21T10:00:00.000Z'')])]\<rparr>"]) code_simp
  then obtain r h' where "queryFreeBusy utc_platform sample_google sample_availability [] = (Inr r, h')" by (metis prod.collapse)
  from availability_covers_the_request [OF this] this show ?thesis
    by (auto simp: sample_availability_def MAX_FREEBUSY_INTERVALS_PER_RESPONSE_def)
qed

end
