(* ===== verification/Fake_Provider.thy ===== *)
theory Fake_Provider
  imports Google_Calendar Effects
begin

section \<open>The in-memory calendar provider (server/src/providers/fake.ts)\<close>

text \<open>
  The provider that development and tests run against keeps calendars, events and invitations in maps. An
  operation changes the state and returns a value or throws; what it changed before it throws stays
  changed. A failure can be planned for the next operation that meets it, among them one that carries out
  a write and then loses the answer.
\<close>

record fake_event =
  fe_desired :: "desired_copy option"
  fe_revision :: int

record fake_planning_event =
  fp_desired :: managed_planning_event
  fp_revision :: int

datatype invitation_response = InvAccepted | InvTentative | InvDeclined | InvNeedsAction

record fake_invitation =
  fi_organizer_self :: bool
  fi_self_email :: "string option"
  fi_cancelled :: bool
  fi_response :: invitation_response
  fi_comment :: string
  fi_revision :: int

datatype fake_failure = TimeoutAfterWrite | RateLimited | Precondition | GoneCursor | Unauthorized

record fake =
  fk_calendars :: "string \<Rightarrow> (string \<times> provider_calendar) list"
  fk_events :: "string \<rightharpoonup> fake_event"
  fk_observations :: "string \<Rightarrow> string \<rightharpoonup> source_observation list"
  fk_freebusy :: "string \<Rightarrow> string \<rightharpoonup> (string \<times> string) list"
  fk_invitations :: "string \<rightharpoonup> fake_invitation"
  fk_planning :: "string \<rightharpoonup> fake_planning_event"
  fk_seen :: "string \<Rightarrow> string list"
  fk_failure :: "fake_failure option"

type_synonym 'a fk = "fake \<Rightarrow> (failure + 'a) \<times> fake"

definition returnF :: "'a \<Rightarrow> 'a fk" where
  "returnF a s = (Inr a, s)"

definition throwF :: "failure \<Rightarrow> 'a fk" where
  "throwF e s = (Inl e, s)"

definition bindF :: "'a fk \<Rightarrow> ('a \<Rightarrow> 'b fk) \<Rightarrow> 'b fk" where
  "bindF m f s = (case m s of (Inl e, s') \<Rightarrow> (Inl e, s') | (Inr a, s') \<Rightarrow> f a s')"

definition modifyF :: "(fake \<Rightarrow> fake) \<Rightarrow> unit fk" where
  "modifyF f s = (Inr (), f s)"

definition readF :: "(fake \<Rightarrow> 'a) \<Rightarrow> 'a fk" where
  "readF f s = (Inr (f s), s)"

subsection \<open>Keys, tokens and planned failures\<close>

definition DEFAULT_FAKE_ACCESS_TOKEN :: string where "DEFAULT_FAKE_ACCESS_TOKEN = ''fake-access-token''"

definition fakeAccessTokenForConnection :: "string \<Rightarrow> string" where
  "fakeAccessTokenForConnection connectionId = DEFAULT_FAKE_ACCESS_TOKEN @ '':'' @ connectionId"

definition fake_key :: "string \<Rightarrow> string \<Rightarrow> string \<Rightarrow> string" where
  "fake_key accessToken calendarId eventId = accessToken @ CHR 0x00 # calendarId @ CHR 0x00 # eventId"

definition rememberAccessToken :: "string \<Rightarrow> string \<Rightarrow> unit fk" where
  "rememberAccessToken calendarId accessToken =
     modifyF (\<lambda>s. s\<lparr>fk_seen := (fk_seen s)(calendarId := (if accessToken \<in> set (fk_seen s calendarId) then fk_seen s calendarId
                                                   else fk_seen s calendarId @ [accessToken]))\<rparr>)"

definition accessTokenForHook :: "string \<Rightarrow> string option \<Rightarrow> string fk" where
  "accessTokenForHook calendarId explicit s =
     (if is_truthy explicit then (Inr (the explicit), s)
      else case fk_seen s calendarId of
             [] \<Rightarrow> (Inr DEFAULT_FAKE_ACCESS_TOKEN, s)
           | [t] \<Rightarrow> (Inr t, s)
           | _ \<Rightarrow> (Inl (OtherFailure (ThrownError ''Error'' None None)), s))"

definition consumeFailure :: "fake_failure \<Rightarrow> bool fk" where
  "consumeFailure expected s = (if fk_failure s = Some expected then (Inr True, s\<lparr>fk_failure := None\<rparr>) else (Inr False, s))"

definition fail_if :: "fake_failure \<Rightarrow> failure \<Rightarrow> unit fk" where
  "fail_if expected e = bindF (consumeFailure expected) (\<lambda>b. if b then throwF e else returnF ())"

definition maybeFailAuthentication :: "unit fk" where
  "maybeFailAuthentication = fail_if Unauthorized (ProviderFailure ''provider_auth'' False False (Some 401))"

definition precondition_failed :: failure where
  "precondition_failed = ProviderFailure ''precondition_failed'' False False (Some 412)"

definition maybeFailBeforeWrite :: "unit fk" where
  "maybeFailBeforeWrite =
     bindF maybeFailAuthentication (\<lambda>_.
     bindF (fail_if RateLimited (ProviderFailure ''rate_limited'' True False (Some 429))) (\<lambda>_.
       fail_if Precondition precondition_failed))"

definition lost_answer :: failure where
  "lost_answer = ProviderFailure ''ambiguous_timeout'' True True None"

definition answer_unless_lost :: "'a \<Rightarrow> 'a fk" where
  "answer_unless_lost a = bindF (fail_if TimeoutAfterWrite lost_answer) (\<lambda>_. returnF a)"

subsection \<open>Fixtures\<close>

fun map_set :: "'k \<Rightarrow> 'v \<Rightarrow> ('k \<times> 'v) list \<Rightarrow> ('k \<times> 'v) list" where
  "map_set k v [] = [(k, v)]"
| "map_set k v ((k', v') # xs) = (if k' = k then (k, v) # xs else (k', v') # map_set k v xs)"

definition addCalendar :: "provider_calendar \<Rightarrow> string \<Rightarrow> fake \<Rightarrow> fake" where
  "addCalendar c accessToken s = s\<lparr>fk_calendars := (fk_calendars s)(accessToken := map_set (rc_remote_id c) c (fk_calendars s accessToken))\<rparr>"

definition setObservations :: "string \<Rightarrow> source_observation list \<Rightarrow> string \<Rightarrow> fake \<Rightarrow> fake" where
  "setObservations calendarId vs accessToken s = s\<lparr>fk_observations := (fk_observations s)(accessToken := (fk_observations s accessToken)(calendarId \<mapsto> vs))\<rparr>"

definition setFreeBusy :: "string \<Rightarrow> (string \<times> string) list \<Rightarrow> string \<Rightarrow> fake \<Rightarrow> fake" where
  "setFreeBusy calendarId vs accessToken s = s\<lparr>fk_freebusy := (fk_freebusy s)(accessToken := (fk_freebusy s accessToken)(calendarId \<mapsto> vs))\<rparr>"

text \<open>The fields a fixture leaves out have a default; a missing address differs from the address \<open>null\<close>.\<close>

record invitation_fixture =
  fx_organizer_self :: "bool option"
  fx_self_email :: "string option option"
  fx_cancelled :: "bool option"
  fx_response :: "invitation_response option"
  fx_comment :: "string option"
  fx_revision :: "int option"

definition fixture_default :: "'a option \<Rightarrow> 'a \<Rightarrow> 'a" where
  "fixture_default v d = (case v of None \<Rightarrow> d | Some x \<Rightarrow> x)"

definition setInvitation :: "string \<Rightarrow> string \<Rightarrow> invitation_fixture \<Rightarrow> string \<Rightarrow> fake \<Rightarrow> fake" where
  "setInvitation calendarId eventId fixture accessToken s =
     s\<lparr>fk_invitations := (fk_invitations s)(fake_key accessToken calendarId eventId \<mapsto>
         \<lparr>fi_organizer_self = fixture_default (fx_organizer_self fixture) False,
          fi_self_email = fixture_default (fx_self_email fixture) (Some ''self@example.invalid''),
          fi_cancelled = fixture_default (fx_cancelled fixture) False, fi_response = fixture_default (fx_response fixture) InvNeedsAction,
          fi_comment = fixture_default (fx_comment fixture) '''', fi_revision = fixture_default (fx_revision fixture) 1\<rparr>)\<rparr>"

definition failNext :: "fake_failure \<Rightarrow> fake \<Rightarrow> fake" where
  "failNext f s = s\<lparr>fk_failure := Some f\<rparr>"

definition setUnmanagedEvent :: "string \<Rightarrow> string \<Rightarrow> string option \<Rightarrow> unit fk" where
  "setUnmanagedEvent calendarId eventId explicit =
     bindF (accessTokenForHook calendarId explicit) (\<lambda>token.
       modifyF (\<lambda>s. s\<lparr>fk_events := (fk_events s)(fake_key token calendarId eventId \<mapsto> \<lparr>fe_desired = None, fe_revision = 1\<rparr>)\<rparr>))"

definition simulateManualEdit :: "string \<Rightarrow> string \<Rightarrow> (desired_copy \<Rightarrow> desired_copy) \<Rightarrow> string option \<Rightarrow> unit fk" where
  "simulateManualEdit calendarId eventId change explicit =
     bindF (accessTokenForHook calendarId explicit) (\<lambda>token s.
       let key = fake_key token calendarId eventId in
       case Option.bind (fk_events s key) (\<lambda>e. map_option (\<lambda>c. (c, fe_revision e)) (fe_desired e)) of
         Some (c, n) \<Rightarrow> (Inr (), s\<lparr>fk_events := (fk_events s)(key \<mapsto> \<lparr>fe_desired = Some (change c), fe_revision = n + 1\<rparr>)\<rparr>)
       | None \<Rightarrow> (Inl (OtherFailure (ThrownError ''Error'' None None)), s))"

definition simulateManualDelete :: "string \<Rightarrow> string \<Rightarrow> string option \<Rightarrow> unit fk" where
  "simulateManualDelete calendarId eventId explicit =
     bindF (accessTokenForHook calendarId explicit) (\<lambda>token.
       modifyF (\<lambda>s. s\<lparr>fk_events := (fk_events s)(fake_key token calendarId eventId := None)\<rparr>))"

subsection \<open>Reading\<close>

definition fake_listCalendars :: "string \<Rightarrow> provider_calendar list fk" where
  "fake_listCalendars accessToken = bindF maybeFailAuthentication (\<lambda>_. readF (\<lambda>s. map snd (fk_calendars s accessToken)))"

definition fake_queryFreeBusy :: "platform \<Rightarrow> string \<Rightarrow> freebusy_request \<Rightarrow> freebusy_result fk" where
  "fake_queryFreeBusy pf accessToken q =
     bindF maybeFailAuthentication (\<lambda>_ s.
       case assertFreeBusyRequest pf q of
         Inl e \<Rightarrow> (Inl e, s)
       | Inr _ \<Rightarrow> (Inr \<lparr>fr_min = fq_min q, fr_max = fq_max q,
             fr_calendars = map (\<lambda>c. (c, case fk_freebusy s accessToken c of None \<Rightarrow> [] | Some bs \<Rightarrow> bs)) (fq_calendars q)\<rparr>, s))"

text \<open>
  The page tokens that the provider hands out are numbers in decimal digits. Any other text stands for no
  number (\<open>None\<close>), which selects no event and ends the list; the other ways to write a number that
  \<open>Number\<close> knows, such as \<open>1e2\<close>, are outside the model.
\<close>

definition page_offset :: "string option \<Rightarrow> nat option" where
  "page_offset token = (if is_truthy token then (if list_all is_digit (the token) then Some (undec (the token)) else None) else Some 0)"

definition fake_page :: "source_observation list \<Rightarrow> nat option \<Rightarrow> event_page" where
  "fake_page vs offset =
     (let page = (case offset of None \<Rightarrow> [] | Some n \<Rightarrow> take 100 (drop n vs));
          next = (case offset of None \<Rightarrow> None | Some n \<Rightarrow> if n + length page < length vs then Some (n + length page) else None)
      in \<lparr>pg_observations = page, pg_next_page = map_option dec next,
          pg_next_sync = (if next = None then Some (''fake-sync-'' @ dec (length vs)) else None)\<rparr>)"

definition fake_listEvents :: "string \<Rightarrow> string \<Rightarrow> page_request \<Rightarrow> event_page fk" where
  "fake_listEvents accessToken calendarId q =
     bindF maybeFailAuthentication (\<lambda>_.
     bindF (fail_if GoneCursor (ProviderFailure ''cursor_gone'' False False (Some 410))) (\<lambda>_.
       readF (\<lambda>s. fake_page (case fk_observations s accessToken calendarId of None \<Rightarrow> [] | Some vs \<Rightarrow> vs) (page_offset (pq_page q)))))"

definition fake_getEvent :: "string \<Rightarrow> string \<Rightarrow> string \<Rightarrow> event_lookup option fk" where
  "fake_getEvent accessToken calendarId eventId =
     bindF maybeFailAuthentication (\<lambda>_.
     bindF (rememberAccessToken calendarId accessToken) (\<lambda>_.
       readF (\<lambda>s. map_option (\<lambda>e. \<lparr>el_event = eventId, el_revision = dec_int (fe_revision e),
           el_identity = map_option (\<lambda>c. \<lparr>mi_policy = prov_policy_ref (d_provenance c), mi_projection = prov_projection_ref (d_provenance c),
             mi_generation = prov_generation (d_provenance c)\<rparr>) (fe_desired e)\<rparr>)
         (fk_events s (fake_key accessToken calendarId eventId)))))"

subsection \<open>Writing\<close>

definition set_event :: "string \<Rightarrow> fake_event option \<Rightarrow> unit fk" where
  "set_event key v = modifyF (\<lambda>s. s\<lparr>fk_events := (fk_events s)(key := v)\<rparr>)"

definition stale_revision :: "string option \<Rightarrow> int \<Rightarrow> bool" where
  "stale_revision expected n \<longleftrightarrow> is_truthy expected \<and> expected \<noteq> Some (dec_int n)"

definition fake_createEvent :: "string \<Rightarrow> string \<Rightarrow> string \<Rightarrow> desired_copy \<Rightarrow> write_result fk" where
  "fake_createEvent accessToken calendarId eventId desired =
     (let key = fake_key accessToken calendarId eventId in
      bindF maybeFailBeforeWrite (\<lambda>_.
      bindF (rememberAccessToken calendarId accessToken) (\<lambda>_.
      bindF (readF (\<lambda>s. fk_events s key)) (\<lambda>existing.
        if existing \<noteq> None then throwF precondition_failed
        else bindF (set_event key (Some \<lparr>fe_desired = Some desired, fe_revision = 1\<rparr>)) (\<lambda>_.
               answer_unless_lost \<lparr>wr_event = eventId, wr_revision = ''1''\<rparr>)))))"

definition fake_updateEvent :: "string \<Rightarrow> string \<Rightarrow> string \<Rightarrow> string option \<Rightarrow> desired_copy \<Rightarrow> write_result fk" where
  "fake_updateEvent accessToken calendarId eventId expected desired =
     (let key = fake_key accessToken calendarId eventId in
      bindF maybeFailBeforeWrite (\<lambda>_.
      bindF (rememberAccessToken calendarId accessToken) (\<lambda>_.
      bindF (readF (\<lambda>s. fk_events s key)) (\<lambda>existing.
        case existing of
          None \<Rightarrow> throwF (ProviderFailure ''not_found'' False False (Some 404))
        | Some e \<Rightarrow>
            if stale_revision expected (fe_revision e) then throwF precondition_failed
            else bindF (set_event key (Some \<lparr>fe_desired = Some desired, fe_revision = fe_revision e + 1\<rparr>)) (\<lambda>_.
                   answer_unless_lost \<lparr>wr_event = eventId, wr_revision = dec_int (fe_revision e + 1)\<rparr>)))))"

definition fake_deleteEvent :: "string \<Rightarrow> string \<Rightarrow> string \<Rightarrow> string option \<Rightarrow> unit fk" where
  "fake_deleteEvent accessToken calendarId eventId expected =
     (let key = fake_key accessToken calendarId eventId in
      bindF maybeFailBeforeWrite (\<lambda>_.
      bindF (rememberAccessToken calendarId accessToken) (\<lambda>_.
      bindF (readF (\<lambda>s. fk_events s key)) (\<lambda>existing.
        case existing of
          None \<Rightarrow> returnF ()
        | Some e \<Rightarrow>
            if stale_revision expected (fe_revision e) then throwF precondition_failed
            else bindF (set_event key None) (\<lambda>_. answer_unless_lost ())))))"

subsection \<open>Invitations\<close>

definition fake_respondable :: "fake_invitation \<Rightarrow> failure option" where
  "fake_respondable e =
     (if fi_cancelled e then Some (ProviderFailure ''invitation_cancelled'' False False (Some 410))
      else if fi_organizer_self e \<or> \<not> is_truthy (fi_self_email e) then Some (ProviderFailure ''not_invitation'' False False None)
      else None)"

definition fake_declineResult :: "string \<Rightarrow> fake_invitation \<Rightarrow> bool \<Rightarrow> decline_result" where
  "fake_declineResult eventId e changed =
     \<lparr>wr_event = eventId, wr_revision = dec_int (fi_revision e), de_comment = fi_comment e, de_retained = True, de_changed = changed\<rparr>"

definition fake_declineInvitation :: "string \<Rightarrow> string \<Rightarrow> string \<Rightarrow> decline_request \<Rightarrow> decline_result fk" where
  "fake_declineInvitation accessToken calendarId eventId q =
     (let key = fake_key accessToken calendarId eventId in
      bindF maybeFailBeforeWrite (\<lambda>_.
      bindF (rememberAccessToken calendarId accessToken) (\<lambda>_.
      bindF (readF (\<lambda>s. fk_invitations s key)) (\<lambda>existing.
        case existing of
          None \<Rightarrow> throwF (ProviderFailure ''not_found'' False False (Some 404))
        | Some e \<Rightarrow>
            (case fake_respondable e of
               Some err \<Rightarrow> throwF err
             | None \<Rightarrow>
                 if fi_response e = InvDeclined \<and> fi_comment e = dr_comment q then returnF (fake_declineResult eventId e False)
                 else if fi_response e \<noteq> InvNeedsAction then throwF (ProviderFailure ''invitation_already_answered'' False False None)
                 else if stale_revision (dr_expected q) (fi_revision e) then throwF precondition_failed
                 else let updated = e\<lparr>fi_response := InvDeclined, fi_comment := dr_comment q, fi_revision := fi_revision e + 1\<rparr>
                      in bindF (modifyF (\<lambda>s. s\<lparr>fk_invitations := (fk_invitations s)(key \<mapsto> updated)\<rparr>)) (\<lambda>_.
                         bindF (consumeFailure TimeoutAfterWrite) (\<lambda>_. returnF (fake_declineResult eventId updated True))))))))"

subsection \<open>Planning events\<close>

definition set_planning :: "string \<Rightarrow> fake_planning_event option \<Rightarrow> unit fk" where
  "set_planning key v = modifyF (\<lambda>s. s\<lparr>fk_planning := (fk_planning s)(key := v)\<rparr>)"

definition fake_getPlanningEvent :: "string \<Rightarrow> string \<Rightarrow> string \<Rightarrow> (write_result \<times> planning_provenance) option fk" where
  "fake_getPlanningEvent accessToken calendarId eventId =
     bindF maybeFailAuthentication (\<lambda>_.
     bindF (rememberAccessToken calendarId accessToken) (\<lambda>_.
       readF (\<lambda>s. map_option (\<lambda>e. (\<lparr>wr_event = eventId, wr_revision = dec_int (fp_revision e)\<rparr>, e_provenance (fp_desired e)))
         (fk_planning s (fake_key accessToken calendarId eventId)))))"

definition fake_createPlanningEvent :: "string \<Rightarrow> string \<Rightarrow> string \<Rightarrow> managed_planning_event \<Rightarrow> write_result fk" where
  "fake_createPlanningEvent accessToken calendarId eventId desired =
     (let key = fake_key accessToken calendarId eventId in
      bindF maybeFailBeforeWrite (\<lambda>_.
      bindF (rememberAccessToken calendarId accessToken) (\<lambda>_.
      bindF (readF (\<lambda>s. fk_planning s key \<noteq> None \<or> fk_events s key \<noteq> None)) (\<lambda>taken.
        if taken then throwF precondition_failed
        else bindF (set_planning key (Some \<lparr>fp_desired = desired, fp_revision = 1\<rparr>)) (\<lambda>_.
               answer_unless_lost \<lparr>wr_event = eventId, wr_revision = ''1''\<rparr>)))))"

definition fake_updatePlanningEvent :: "string \<Rightarrow> string \<Rightarrow> string \<Rightarrow> string option \<Rightarrow> managed_planning_event \<Rightarrow> write_result fk" where
  "fake_updatePlanningEvent accessToken calendarId eventId expected desired =
     (let key = fake_key accessToken calendarId eventId in
      bindF maybeFailBeforeWrite (\<lambda>_.
      bindF (rememberAccessToken calendarId accessToken) (\<lambda>_.
      bindF (readF (\<lambda>s. fk_planning s key)) (\<lambda>existing.
        case existing of
          None \<Rightarrow> throwF (ProviderFailure ''not_found'' False False (Some 404))
        | Some e \<Rightarrow>
            if stale_revision expected (fp_revision e) then throwF precondition_failed
            else bindF (set_planning key (Some \<lparr>fp_desired = desired, fp_revision = fp_revision e + 1\<rparr>)) (\<lambda>_.
                   answer_unless_lost \<lparr>wr_event = eventId, wr_revision = dec_int (fp_revision e + 1)\<rparr>)))))"

definition fake_deletePlanningEvent :: "string \<Rightarrow> string \<Rightarrow> string \<Rightarrow> string option \<Rightarrow> unit fk" where
  "fake_deletePlanningEvent accessToken calendarId eventId expected =
     (let key = fake_key accessToken calendarId eventId in
      bindF maybeFailBeforeWrite (\<lambda>_.
      bindF (rememberAccessToken calendarId accessToken) (\<lambda>_.
      bindF (readF (\<lambda>s. fk_planning s key)) (\<lambda>existing.
        case existing of
          None \<Rightarrow> returnF ()
        | Some e \<Rightarrow>
            if stale_revision expected (fp_revision e) then throwF precondition_failed
            else bindF (set_planning key None) (\<lambda>_. answer_unless_lost ())))))"

subsection \<open>The provider the executor talks to\<close>

text \<open>
  The executor records its calls; the state of the provider after them is found by running them. A call
  for a token selects the token of the following calls.
\<close>

fun fake_call :: "provider_call \<Rightarrow> string \<times> fake \<Rightarrow> string \<times> fake" where
  "fake_call (AccessToken c) (tok, s) = (fakeAccessTokenForConnection c, s)"
| "fake_call (GetEvent cal ev) (tok, s) = (tok, snd (fake_getEvent tok cal ev s))"
| "fake_call (CreateEvent cal ev x) (tok, s) = (tok, snd (fake_createEvent tok cal ev x s))"
| "fake_call (UpdateEvent cal ev rv x) (tok, s) = (tok, snd (fake_updateEvent tok cal ev rv x s))"
| "fake_call (DeleteEvent cal ev rv) (tok, s) = (tok, snd (fake_deleteEvent tok cal ev rv s))"

definition fake_after :: "fake \<Rightarrow> calls \<Rightarrow> string \<times> fake" where
  "fake_after s h = foldl (\<lambda>ts c. fake_call c ts) (DEFAULT_FAKE_ACCESS_TOKEN, s) h"

definition fake_provider :: "fake \<Rightarrow> provider" where
  "fake_provider s0 =
     \<lparr>ask_access = (\<lambda>h name connection. Inr ()),
      ask_get = (\<lambda>h cal ev. case fake_after s0 h of (tok, s) \<Rightarrow> fst (fake_getEvent tok cal ev s)),
      ask_create = (\<lambda>h cal ev x. case fake_after s0 h of (tok, s) \<Rightarrow> fst (fake_createEvent tok cal ev x s)),
      ask_update = (\<lambda>h cal ev rv x. case fake_after s0 h of (tok, s) \<Rightarrow> fst (fake_updateEvent tok cal ev rv x s)),
      ask_delete = (\<lambda>h cal ev rv. case fake_after s0 h of (tok, s) \<Rightarrow> fst (fake_deleteEvent tok cal ev rv s))\<rparr>"

definition hook_view :: "(fake \<Rightarrow> string \<Rightarrow> 'a option) \<Rightarrow> string \<Rightarrow> string \<Rightarrow> string option \<Rightarrow> 'a option fk" where
  "hook_view view calendarId eventId explicit =
     bindF (accessTokenForHook calendarId explicit) (\<lambda>token. readF (\<lambda>s. view s (fake_key token calendarId eventId)))"

definition planningDesired :: "string \<Rightarrow> string \<Rightarrow> string option \<Rightarrow> managed_planning_event option fk" where
  "planningDesired = hook_view (\<lambda>s key. map_option fp_desired (fk_planning s key))"

definition desired_hook :: "string \<Rightarrow> string \<Rightarrow> string option \<Rightarrow> desired_copy option fk" where
  "desired_hook = hook_view (\<lambda>s key. Option.bind (fk_events s key) fe_desired)"

definition invitation_hook :: "string \<Rightarrow> string \<Rightarrow> string option \<Rightarrow> fake_invitation option fk" where
  "invitation_hook = hook_view fk_invitations"

subsection \<open>What a calendar service promises about writes\<close>

definition is_ambiguous :: "failure \<Rightarrow> bool" where
  "is_ambiguous e \<longleftrightarrow> (case e of ProviderFailure c r a s \<Rightarrow> a | OtherFailure t \<Rightarrow> False)"

text \<open>
  \<open>content s q\<close> is what is stored under the key \<open>q\<close>, with its revision. A write that succeeds stores what it
  was given; a conditional write succeeds only in the revision it names, and changes the revision. A write
  that fails for certain changes nothing; one whose outcome is in doubt did either nothing or its work.
\<close>

locale write_service =
  fixes key :: "'k \<Rightarrow> 'q" and content :: "'s \<Rightarrow> 'q \<Rightarrow> ('d option \<times> string) option"
    and create :: "'k \<Rightarrow> 'd \<Rightarrow> 's \<Rightarrow> (failure + write_result) \<times> 's"
    and update :: "'k \<Rightarrow> string option \<Rightarrow> 'd \<Rightarrow> 's \<Rightarrow> (failure + write_result) \<times> 's"
    and remove :: "'k \<Rightarrow> string option \<Rightarrow> 's \<Rightarrow> (failure + unit) \<times> 's"
  assumes create_ok: "create k x s = (Inr w, s') \<Longrightarrow> content s (key k) = None \<and> content s' = (content s)(key k \<mapsto> (Some x, wr_revision w))"
    and create_failed: "create k x s = (Inl e, s') \<Longrightarrow> content s' = content s
      \<or> is_ambiguous e \<and> content s (key k) = None \<and> (\<exists>rv. content s' = (content s)(key k \<mapsto> (Some x, rv)))"
    and update_ok: "update k expected x s = (Inr w, s') \<Longrightarrow> \<exists>old rv. content s (key k) = Some (old, rv)
      \<and> (is_truthy expected \<longrightarrow> expected = Some rv) \<and> wr_revision w \<noteq> rv \<and> content s' = (content s)(key k \<mapsto> (Some x, wr_revision w))"
    and update_failed: "update k expected x s = (Inl e, s') \<Longrightarrow> content s' = content s
      \<or> is_ambiguous e \<and> (\<exists>old rv rv'. content s (key k) = Some (old, rv) \<and> (is_truthy expected \<longrightarrow> expected = Some rv) \<and> rv' \<noteq> rv
          \<and> content s' = (content s)(key k \<mapsto> (Some x, rv')))"
    and remove_ok: "remove k expected s = (Inr (), s') \<Longrightarrow> content s' = (content s)(key k := None)"
    and remove_failed: "remove k expected s = (Inl e, s') \<Longrightarrow> content s' = content s \<or> is_ambiguous e \<and> content s' = (content s)(key k := None)"
begin

lemma no_lost_update:
  assumes "update k (Some rv) x s = (Inr w, s')" "rv \<noteq> ''''" "content s'' (key k) = content s' (key k)"
  shows "\<nexists>w' s3. update k (Some rv) y s'' = (Inr w', s3)"
proof
  assume "\<exists>w' s3. update k (Some rv) y s'' = (Inr w', s3)"
  then obtain w' s3 where "update k (Some rv) y s'' = (Inr w', s3)" by blast
  from update_ok [OF this] obtain old where "content s'' (key k) = Some (old, rv)" using assms(2) by auto
  moreover from update_ok [OF assms(1)] have "content s' (key k) = Some (Some x, wr_revision w)" "wr_revision w \<noteq> rv"
    using assms(2) by auto
  ultimately show False using assms(3) by simp
qed

lemma one_creation:
  assumes "create k x s = (Inr w, s')" "content s'' (key k) = content s' (key k)"
  shows "\<nexists>w' s3. create k y s'' = (Inr w', s3)"
  using create_ok [OF assms(1)] create_ok [of k y s''] assms(2) by auto

lemma other_keys:
  "q \<noteq> key k \<Longrightarrow> content (snd (create k x s)) q = content s q" "q \<noteq> key k \<Longrightarrow> content (snd (update k expected x s)) q = content s q"
  "q \<noteq> key k \<Longrightarrow> content (snd (remove k expected s)) q = content s q"
proof -
  assume q: "q \<noteq> key k"
  show "content (snd (create k x s)) q = content s q"
    using q create_ok [of k x s] create_failed [of k x s] by (cases "create k x s"; cases "fst (create k x s)") auto
  show "content (snd (update k expected x s)) q = content s q"
    using q update_ok [of k expected x s] update_failed [of k expected x s] by (cases "update k expected x s"; cases "fst (update k expected x s)") auto
  show "content (snd (remove k expected s)) q = content s q"
    using q remove_ok [of k expected s] remove_failed [of k expected s] by (cases "remove k expected s"; cases "fst (remove k expected s)") auto
qed

end

subsection \<open>The in-memory provider keeps the promise\<close>

lemma fk_simps:
  "returnF a s = (Inr a, s)" "throwF e s = (Inl e, s)" "modifyF f s = (Inr (), f s)" "readF g s = (Inr (g s), s)"
  "bindF m k s = (case m s of (Inl e, s') \<Rightarrow> (Inl e, s') | (Inr a, s') \<Rightarrow> k a s')"
  by (simp_all add: returnF_def throwF_def modifyF_def readF_def bindF_def)

lemma fail_if_eq: "fail_if f e s = (if fk_failure s = Some f then (Inl e, s\<lparr>fk_failure := None\<rparr>) else (Inr (), s))"
  by (simp add: fail_if_def consumeFailure_def fk_simps)

lemma answer_unless_lost_eq:
  "answer_unless_lost a s = (if fk_failure s = Some TimeoutAfterWrite then (Inl lost_answer, s\<lparr>fk_failure := None\<rparr>) else (Inr a, s))"
  by (simp add: answer_unless_lost_def fail_if_eq fk_simps)

lemma before_write_eq:
  "maybeFailBeforeWrite s =
     (if fk_failure s = Some Unauthorized then (Inl (ProviderFailure ''provider_auth'' False False (Some 401)), s\<lparr>fk_failure := None\<rparr>)
      else if fk_failure s = Some RateLimited then (Inl (ProviderFailure ''rate_limited'' True False (Some 429)), s\<lparr>fk_failure := None\<rparr>)
      else if fk_failure s = Some Precondition then (Inl precondition_failed, s\<lparr>fk_failure := None\<rparr>)
      else (Inr (), s))"
  by (simp add: maybeFailBeforeWrite_def maybeFailAuthentication_def fail_if_eq fk_simps)

lemma before_write_cases:
  obtains (passed) "maybeFailBeforeWrite s = (Inr (), s)"
  | (stopped) e where "maybeFailBeforeWrite s = (Inl e, s\<lparr>fk_failure := None\<rparr>)" "\<not> is_ambiguous e"
proof -
  have "maybeFailBeforeWrite s = (Inr (), s) \<or> (\<exists>e. maybeFailBeforeWrite s = (Inl e, s\<lparr>fk_failure := None\<rparr>) \<and> \<not> is_ambiguous e)"
    unfolding before_write_eq by (auto simp: is_ambiguous_def precondition_failed_def)
  with passed stopped show thesis by blast
qed

lemma not_ambiguous [simp]:
  "\<not> is_ambiguous precondition_failed" "\<not> is_ambiguous (ProviderFailure c r False v)" "is_ambiguous lost_answer"
  by (simp_all add: is_ambiguous_def precondition_failed_def lost_answer_def)

lemma dec_int_inject [simp]: "dec_int i = dec_int j \<longleftrightarrow> i = j"
  using dec_int_prefix_code [of i "[]" j "[]"] by (auto simp: no_digit_front_def)

definition stored_event :: "fake \<Rightarrow> string \<Rightarrow> (desired_copy option \<times> string) option" where
  "stored_event s q = map_option (\<lambda>e. (fe_desired e, dec_int (fe_revision e))) (fk_events s q)"

definition planning_content :: "fake \<Rightarrow> string \<Rightarrow> (managed_planning_event option \<times> string) option" where
  "planning_content s q = map_option (\<lambda>e. (Some (fp_desired e), dec_int (fp_revision e))) (fk_planning s q)"

definition key_of :: "string \<times> string \<times> string \<Rightarrow> string" where
  "key_of k = (case k of (tok, cal, ev) \<Rightarrow> fake_key tok cal ev)"

definition remembered :: "string \<Rightarrow> string \<Rightarrow> fake \<Rightarrow> fake" where
  "remembered cal tok s = snd (rememberAccessToken cal tok s)"

lemma remembered_simps [simp]:
  "rememberAccessToken cal tok s = (Inr (), remembered cal tok s)" "fk_events (remembered cal tok s) = fk_events s"
  "fk_planning (remembered cal tok s) = fk_planning s" "fk_failure (remembered cal tok s) = fk_failure s"
  by (simp_all add: remembered_def rememberAccessToken_def fk_simps)

lemma content_simps [simp]:
  "stored_event (s\<lparr>fk_failure := f\<rparr>) = stored_event s" "stored_event (remembered cal tok s) = stored_event s"
  "planning_content (s\<lparr>fk_failure := f\<rparr>) = planning_content s" "planning_content (remembered cal tok s) = planning_content s"
  by (simp_all add: stored_event_def [abs_def] planning_content_def [abs_def])

lemma stored_event_upd [simp]:
  "stored_event (s\<lparr>fk_events := (fk_events t)(q := v)\<rparr>) = (stored_event t)(q := map_option (\<lambda>e. (fe_desired e, dec_int (fe_revision e))) v)"
  by (rule ext) (simp add: stored_event_def)

lemma planning_content_upd [simp]:
  "planning_content (s\<lparr>fk_planning := (fk_planning t)(q := u)\<rparr>) = (planning_content t)(q := map_option (\<lambda>e. (Some (fp_desired e), dec_int (fp_revision e))) u)"
  by (rule ext) (simp add: planning_content_def)

lemma dec_int_one [simp]: "dec_int 1 = ''1''"
  by code_simp

text \<open>How a write goes on once the planned failures are passed: it may be refused, or it does its work and answers.\<close>

lemma bindF_passed: "maybeFailBeforeWrite s = (Inr (), s) \<Longrightarrow> bindF maybeFailBeforeWrite k s = k () s"
  and bindF_stopped: "maybeFailBeforeWrite s = (Inl e, s') \<Longrightarrow> bindF maybeFailBeforeWrite k s = (Inl e, s')"
  by (simp_all add: bindF_def)

lemma bindF_remember: "bindF (rememberAccessToken cal tok) k s = k () (remembered cal tok s)"
  by (simp add: bindF_def)

lemma bindF_read: "bindF (readF g) k s = k (g s) s"
  by (simp add: bindF_def readF_def)

lemma set_event_answer:
  "bindF (set_event q v) (\<lambda>_. answer_unless_lost a) s =
     (if fk_failure s = Some TimeoutAfterWrite then (Inl lost_answer, s\<lparr>fk_events := (fk_events s)(q := v), fk_failure := None\<rparr>)
      else (Inr a, s\<lparr>fk_events := (fk_events s)(q := v)\<rparr>))"
  by (simp add: bindF_def set_event_def modifyF_def answer_unless_lost_eq)

lemma set_planning_answer:
  "bindF (set_planning q v) (\<lambda>_. answer_unless_lost a) s =
     (if fk_failure s = Some TimeoutAfterWrite then (Inl lost_answer, s\<lparr>fk_planning := (fk_planning s)(q := v), fk_failure := None\<rparr>)
      else (Inr a, s\<lparr>fk_planning := (fk_planning s)(q := v)\<rparr>))"
  by (simp add: bindF_def set_planning_def modifyF_def answer_unless_lost_eq)

lemma set_unit_answer:
  "bindF (set_event q v) answer_unless_lost s =
     (if fk_failure s = Some TimeoutAfterWrite then (Inl lost_answer, s\<lparr>fk_events := (fk_events s)(q := v), fk_failure := None\<rparr>)
      else (Inr (), s\<lparr>fk_events := (fk_events s)(q := v)\<rparr>))"
  "bindF (set_planning q u) answer_unless_lost s =
     (if fk_failure s = Some TimeoutAfterWrite then (Inl lost_answer, s\<lparr>fk_planning := (fk_planning s)(q := u), fk_failure := None\<rparr>)
      else (Inr (), s\<lparr>fk_planning := (fk_planning s)(q := u)\<rparr>))"
  using set_event_answer [of q v "()"] set_planning_answer [of q u "()"] by simp_all

lemmas run_simps = Let_def bindF_passed bindF_stopped bindF_remember bindF_read set_event_answer set_planning_answer throwF_def returnF_def
  stale_revision_def stored_event_def [of _ "fake_key _ _ _"] planning_content_def [of _ "fake_key _ _ _"]

lemma fake_createEvent_run:
  assumes "fake_createEvent tok cal ev x s = (res, s')"
  shows "(\<exists>w. res = Inr w \<and> stored_event s (fake_key tok cal ev) = None \<and> stored_event s' = (stored_event s)(fake_key tok cal ev \<mapsto> (Some x, wr_revision w)))
    \<or> (\<exists>e. res = Inl e \<and> (stored_event s' = stored_event s
        \<or> is_ambiguous e \<and> stored_event s (fake_key tok cal ev) = None \<and> stored_event s' = (stored_event s)(fake_key tok cal ev \<mapsto> (Some x, ''1''))))"
proof (cases rule: before_write_cases [of s])
  case passed
  with assms show ?thesis by (auto simp: fake_createEvent_def run_simps split: if_splits)
next
  case (stopped e)
  with assms show ?thesis by (auto simp: fake_createEvent_def run_simps)
qed

lemma fake_updateEvent_run:
  assumes "fake_updateEvent tok cal ev expected x s = (res, s')"
  shows "(\<exists>w old rv. res = Inr w \<and> stored_event s (fake_key tok cal ev) = Some (old, rv) \<and> (is_truthy expected \<longrightarrow> expected = Some rv)
        \<and> wr_revision w \<noteq> rv \<and> stored_event s' = (stored_event s)(fake_key tok cal ev \<mapsto> (Some x, wr_revision w)))
    \<or> (\<exists>e. res = Inl e \<and> (stored_event s' = stored_event s
        \<or> is_ambiguous e \<and> (\<exists>old rv rv'. stored_event s (fake_key tok cal ev) = Some (old, rv) \<and> (is_truthy expected \<longrightarrow> expected = Some rv)
            \<and> rv' \<noteq> rv \<and> stored_event s' = (stored_event s)(fake_key tok cal ev \<mapsto> (Some x, rv')))))"
proof (cases rule: before_write_cases [of s])
  case passed
  show ?thesis
  proof (cases "fk_events s (fake_key tok cal ev)")
    case None
    with passed assms show ?thesis by (auto simp: fake_updateEvent_def run_simps)
  next
    case (Some e)
    let ?q = "fake_key tok cal ev" and ?rv = "dec_int (fe_revision e + 1)"
    have old: "stored_event s ?q = Some (fe_desired e, dec_int (fe_revision e))" "?rv \<noteq> dec_int (fe_revision e)" using Some by (simp_all add: stored_event_def)
    consider (refused) f where "res = Inl f" "stored_event s' = stored_event s"
      | (stored) w where "res = Inr w" "wr_revision w = ?rv" "is_truthy expected \<longrightarrow> expected = Some (dec_int (fe_revision e))"
          "stored_event s' = (stored_event s)(?q \<mapsto> (Some x, ?rv))"
      | (lost) f where "res = Inl f" "is_ambiguous f" "is_truthy expected \<longrightarrow> expected = Some (dec_int (fe_revision e))"
          "stored_event s' = (stored_event s)(?q \<mapsto> (Some x, ?rv))"
      using passed assms Some by (cases "stale_revision expected (fe_revision e)") (auto simp: fake_updateEvent_def run_simps split: if_splits)
    then show ?thesis
    proof cases
      case (stored w)
      with old show ?thesis by (intro disjI1 exI [of _ w]) auto
    next
      case (lost f)
      with old show ?thesis by (intro disjI2 exI [of _ f]) blast
    qed blast
  qed
next
  case (stopped e)
  with assms show ?thesis by (auto simp: fake_updateEvent_def run_simps)
qed

lemma fake_deleteEvent_run:
  assumes "fake_deleteEvent tok cal ev expected s = (res, s')"
  shows "(res = Inr () \<and> stored_event s' = (stored_event s)(fake_key tok cal ev := None))
    \<or> (\<exists>e. res = Inl e \<and> (stored_event s' = stored_event s \<or> is_ambiguous e \<and> stored_event s' = (stored_event s)(fake_key tok cal ev := None)))"
proof (cases rule: before_write_cases [of s])
  case passed
  show ?thesis
  proof (cases "fk_events s (fake_key tok cal ev)")
    case None
    then have "stored_event s (fake_key tok cal ev) = None" by (simp add: stored_event_def)
    then have "(stored_event s)(fake_key tok cal ev := None) = stored_event s" by (rule fun_upd_idem)
    with passed assms None show ?thesis by (auto simp: fake_deleteEvent_def run_simps)
  next
    case (Some e)
    with passed assms show ?thesis
      by (cases "stale_revision expected (fe_revision e)") (auto simp: fake_deleteEvent_def set_unit_answer run_simps split: if_splits)
  qed
next
  case (stopped e)
  with assms show ?thesis by (auto simp: fake_deleteEvent_def run_simps)
qed

lemma fake_createPlanningEvent_run:
  assumes "fake_createPlanningEvent tok cal ev x s = (res, s')"
  shows "(\<exists>w. res = Inr w \<and> planning_content s (fake_key tok cal ev) = None \<and> planning_content s' = (planning_content s)(fake_key tok cal ev \<mapsto> (Some x, wr_revision w)))
    \<or> (\<exists>e. res = Inl e \<and> (planning_content s' = planning_content s
        \<or> is_ambiguous e \<and> planning_content s (fake_key tok cal ev) = None \<and> planning_content s' = (planning_content s)(fake_key tok cal ev \<mapsto> (Some x, ''1''))))"
proof (cases rule: before_write_cases [of s])
  case passed
  with assms show ?thesis by (auto simp: fake_createPlanningEvent_def run_simps split: if_splits)
next
  case (stopped e)
  with assms show ?thesis by (auto simp: fake_createPlanningEvent_def run_simps)
qed

lemma fake_updatePlanningEvent_run:
  assumes "fake_updatePlanningEvent tok cal ev expected x s = (res, s')"
  shows "(\<exists>w old rv. res = Inr w \<and> planning_content s (fake_key tok cal ev) = Some (old, rv) \<and> (is_truthy expected \<longrightarrow> expected = Some rv)
        \<and> wr_revision w \<noteq> rv \<and> planning_content s' = (planning_content s)(fake_key tok cal ev \<mapsto> (Some x, wr_revision w)))
    \<or> (\<exists>e. res = Inl e \<and> (planning_content s' = planning_content s
        \<or> is_ambiguous e \<and> (\<exists>old rv rv'. planning_content s (fake_key tok cal ev) = Some (old, rv) \<and> (is_truthy expected \<longrightarrow> expected = Some rv)
            \<and> rv' \<noteq> rv \<and> planning_content s' = (planning_content s)(fake_key tok cal ev \<mapsto> (Some x, rv')))))"
proof (cases rule: before_write_cases [of s])
  case passed
  show ?thesis
  proof (cases "fk_planning s (fake_key tok cal ev)")
    case None
    with passed assms show ?thesis by (auto simp: fake_updatePlanningEvent_def run_simps)
  next
    case (Some e)
    let ?q = "fake_key tok cal ev" and ?rv = "dec_int (fp_revision e + 1)"
    have old: "planning_content s ?q = Some (Some (fp_desired e), dec_int (fp_revision e))" "?rv \<noteq> dec_int (fp_revision e)" using Some by (simp_all add: planning_content_def)
    consider (refused) f where "res = Inl f" "planning_content s' = planning_content s"
      | (stored) w where "res = Inr w" "wr_revision w = ?rv" "is_truthy expected \<longrightarrow> expected = Some (dec_int (fp_revision e))"
          "planning_content s' = (planning_content s)(?q \<mapsto> (Some x, ?rv))"
      | (lost) f where "res = Inl f" "is_ambiguous f" "is_truthy expected \<longrightarrow> expected = Some (dec_int (fp_revision e))"
          "planning_content s' = (planning_content s)(?q \<mapsto> (Some x, ?rv))"
      using passed assms Some by (cases "stale_revision expected (fp_revision e)") (auto simp: fake_updatePlanningEvent_def run_simps split: if_splits)
    then show ?thesis
    proof cases
      case (stored w)
      with old show ?thesis by (intro disjI1 exI [of _ w]) auto
    next
      case (lost f)
      with old show ?thesis by (intro disjI2 exI [of _ f]) blast
    qed blast
  qed
next
  case (stopped e)
  with assms show ?thesis by (auto simp: fake_updatePlanningEvent_def run_simps)
qed

lemma fake_deletePlanningEvent_run:
  assumes "fake_deletePlanningEvent tok cal ev expected s = (res, s')"
  shows "(res = Inr () \<and> planning_content s' = (planning_content s)(fake_key tok cal ev := None))
    \<or> (\<exists>e. res = Inl e \<and> (planning_content s' = planning_content s \<or> is_ambiguous e \<and> planning_content s' = (planning_content s)(fake_key tok cal ev := None)))"
proof (cases rule: before_write_cases [of s])
  case passed
  show ?thesis
  proof (cases "fk_planning s (fake_key tok cal ev)")
    case None
    then have "planning_content s (fake_key tok cal ev) = None" by (simp add: planning_content_def)
    then have "(planning_content s)(fake_key tok cal ev := None) = planning_content s" by (rule fun_upd_idem)
    with passed assms None show ?thesis by (auto simp: fake_deletePlanningEvent_def run_simps)
  next
    case (Some e)
    with passed assms show ?thesis
      by (cases "stale_revision expected (fp_revision e)") (auto simp: fake_deletePlanningEvent_def set_unit_answer run_simps split: if_splits)
  qed
next
  case (stopped e)
  with assms show ?thesis by (auto simp: fake_deletePlanningEvent_def run_simps)
qed

interpretation fake_events: write_service key_of stored_event "\<lambda>k. fake_createEvent (fst k) (fst (snd k)) (snd (snd k))"
  "\<lambda>k. fake_updateEvent (fst k) (fst (snd k)) (snd (snd k))" "\<lambda>k. fake_deleteEvent (fst k) (fst (snd k)) (snd (snd k))"
proof (unfold_locales, goal_cases)
  case (1 k x s w s')
  from fake_createEvent_run [OF this] show ?case by (cases k) (auto simp: key_of_def)
next
  case (2 k x s e s')
  from fake_createEvent_run [OF this] show ?case by (cases k) (auto simp: key_of_def)
next
  case (3 k expected x s w s')
  from fake_updateEvent_run [OF this] show ?case by (cases k) (auto simp: key_of_def)
next
  case (4 k expected x s e s')
  from fake_updateEvent_run [OF this] show ?case by (cases k) (auto simp: key_of_def)
next
  case (5 k expected s s')
  from fake_deleteEvent_run [OF this] show ?case by (cases k) (auto simp: key_of_def)
next
  case (6 k expected s e s')
  from fake_deleteEvent_run [OF this] show ?case by (cases k) (auto simp: key_of_def)
qed

interpretation fake_planning: write_service key_of planning_content "\<lambda>k. fake_createPlanningEvent (fst k) (fst (snd k)) (snd (snd k))"
  "\<lambda>k. fake_updatePlanningEvent (fst k) (fst (snd k)) (snd (snd k))" "\<lambda>k. fake_deletePlanningEvent (fst k) (fst (snd k)) (snd (snd k))"
proof (unfold_locales, goal_cases)
  case (1 k x s w s')
  from fake_createPlanningEvent_run [OF this] show ?case by (cases k) (auto simp: key_of_def)
next
  case (2 k x s e s')
  from fake_createPlanningEvent_run [OF this] show ?case by (cases k) (auto simp: key_of_def)
next
  case (3 k expected x s w s')
  from fake_updatePlanningEvent_run [OF this] show ?case by (cases k) (auto simp: key_of_def)
next
  case (4 k expected x s e s')
  from fake_updatePlanningEvent_run [OF this] show ?case by (cases k) (auto simp: key_of_def)
next
  case (5 k expected s s')
  from fake_deletePlanningEvent_run [OF this] show ?case by (cases k) (auto simp: key_of_def)
next
  case (6 k expected s e s')
  from fake_deletePlanningEvent_run [OF this] show ?case by (cases k) (auto simp: key_of_def)
qed

subsection \<open>A write whose answer is lost\<close>

lemma fake_after_snoc: "fake_after s (h @ [c]) = fake_call c (fake_after s h)"
  by (simp add: fake_after_def)

lemma fake_getEvent_eq:
  "fake_getEvent tok cal ev s =
     (if fk_failure s = Some Unauthorized then (Inl (ProviderFailure ''provider_auth'' False False (Some 401)), s\<lparr>fk_failure := None\<rparr>)
      else (Inr (map_option (\<lambda>e. \<lparr>el_event = ev, el_revision = dec_int (fe_revision e),
           el_identity = map_option (\<lambda>c. \<lparr>mi_policy = prov_policy_ref (d_provenance c), mi_projection = prov_projection_ref (d_provenance c),
             mi_generation = prov_generation (d_provenance c)\<rparr>) (fe_desired e)\<rparr>) (fk_events s (fake_key tok cal ev))), remembered cal tok s))"
  by (simp add: fake_getEvent_def maybeFailAuthentication_def fail_if_eq fk_simps)

definition is_retryable :: "failure \<Rightarrow> bool" where
  "is_retryable e \<longleftrightarrow> (case e of ProviderFailure c r a s \<Rightarrow> r | OtherFailure t \<Rightarrow> False)"

text \<open>The executor's talk with the provider, in the state of the provider: what it answers and what it keeps.\<close>

definition talk :: "string \<Rightarrow> string \<Rightarrow> string \<Rightarrow> leased_effect \<Rightarrow> target \<Rightarrow> desired_copy \<Rightarrow> outcome fk" where
  "talk tok cal ev eff t desired =
     bindF (fake_getEvent tok cal ev) (\<lambda>found.
       case found of
         Some l \<Rightarrow> if \<not> mine eff t l then returnF OwnershipMismatch
           else bindF (fake_updateEvent tok cal (el_event l) (Some (el_revision l)) desired) (\<lambda>w. returnF (Written (Some (wr_event w)) (Some (wr_revision w))))
       | None \<Rightarrow> if le_ambiguous eff then returnF MissingDestination
           else bindF (fake_createEvent tok cal ev desired) (\<lambda>w. returnF (Written (Some (wr_event w)) (Some (wr_revision w)))))"

lemma run_create_talk:
  assumes "le_operation eff = CreateCopy" "le_desired eff = Some desired" "run_effect (fake_provider s0) eff t h = (res, h')"
    "fake_after s0 h = (tok0, s)"
  shows "\<exists>s'. fake_after s0 h' = (fakeAccessTokenForConnection (ce_connection (tg_endpoint t)), s')
    \<and> talk (fakeAccessTokenForConnection (ce_connection (tg_endpoint t))) (ce_remote_id (tg_endpoint t)) (target_event_id t) eff t desired s = (res, s')"
proof -
  let ?tok = "fakeAccessTokenForConnection (ce_connection (tg_endpoint t))" and ?cal = "ce_remote_id (tg_endpoint t)" and ?ev = "target_event_id t"
  let ?h1 = "h @ [AccessToken (ce_connection (tg_endpoint t))]" and ?pv = "fake_provider s0"
  have a1: "fake_after s0 ?h1 = (?tok, s)" by (simp add: fake_after_snoc assms(4))
  have run: "run_create ?pv eff t ?h1 = (res, h')"
    using assms(1,3) by (simp add: run_effect_def bindR_def accessR_def fake_provider_def)
  obtain found s1 where get: "fake_getEvent ?tok ?cal ?ev s = (found, s1)" by fastforce
  let ?h2 = "?h1 @ [GetEvent ?cal ?ev]"
  have a2: "fake_after s0 ?h2 = (?tok, s1)" unfolding fake_after_snoc [of s0 ?h1] a1 by (simp add: get)
  have asked: "getR ?pv ?cal ?ev ?h1 = (found, ?h2)" unfolding getR_def fake_provider_def using a1 get by simp
  show ?thesis
  proof (cases found)
    case (Inl e)
    with run asked a2 get assms(2) show ?thesis
      by (auto simp: run_create_def requireDesiredCopy_def orThrow_def liftR_def bindR_def talk_def bindF_def Let_def)
  next
    case found: (Inr l)
    show ?thesis
    proof (cases l)
      case None
      obtain w s2 where c: "fake_createEvent ?tok ?cal ?ev desired s1 = (w, s2)" by fastforce
      have a3: "fake_after s0 (?h2 @ [CreateEvent ?cal ?ev desired]) = (?tok, s2)" unfolding fake_after_snoc [of s0 ?h2] a2 by (simp add: c)
      have created: "createR ?pv ?cal ?ev desired ?h2 = (w, ?h2 @ [CreateEvent ?cal ?ev desired])" unfolding createR_def fake_provider_def using a2 c by simp
      from run asked a2 get assms(2) found None c a3 created show ?thesis
        by (cases w) (auto simp: run_create_def requireDesiredCopy_def orThrow_def liftR_def bindR_def talk_def bindF_def returnR_def returnF_def
            written_def Let_def)
    next
      case (Some lk)
      let ?c = "UpdateEvent ?cal (el_event lk) (Some (el_revision lk)) desired"
      obtain w s2 where u: "fake_updateEvent ?tok ?cal (el_event lk) (Some (el_revision lk)) desired s1 = (w, s2)" by fastforce
      have a3: "fake_after s0 (?h2 @ [?c]) = (?tok, s2)" unfolding fake_after_snoc [of s0 ?h2] a2 by (simp add: u)
      have updated: "updateR ?pv ?cal (el_event lk) (Some (el_revision lk)) desired ?h2 = (w, ?h2 @ [?c])" unfolding updateR_def fake_provider_def using a2 u by simp
      from run asked a2 get assms(2) found Some u a3 updated show ?thesis
        by (cases w) (auto simp: run_create_def requireDesiredCopy_def orThrow_def liftR_def bindR_def talk_def bindF_def returnR_def returnF_def
            written_def Let_def)
    qed
  qed
qed

lemma talk_first:
  assumes "talk tok cal ev eff t desired s = (Inl e, s')" "is_retryable e" "\<not> le_ambiguous eff" "fk_events s (fake_key tok cal ev) = None"
  shows "fk_failure s' = None \<and> (if is_ambiguous e then fk_events s' = (fk_events s)(fake_key tok cal ev \<mapsto> \<lparr>fe_desired = Some desired, fe_revision = 1\<rparr>)
    else fk_events s' = fk_events s)"
proof -
  let ?q = "fake_key tok cal ev"
  have auth: "fk_failure s \<noteq> Some Unauthorized" using assms(1,2) by (auto simp: talk_def bindF_def fake_getEvent_eq is_retryable_def)
  then have "bindF (fake_createEvent tok cal ev desired) (\<lambda>w. returnF (Written (Some (wr_event w)) (Some (wr_revision w)))) (remembered cal tok s) = (Inl e, s')"
    using assms(1,3,4) by (simp add: talk_def bindF_def fake_getEvent_eq)
  then have c: "fake_createEvent tok cal ev desired (remembered cal tok s) = (Inl e, s')"
    by (auto simp: bindF_def returnF_def split: prod.splits sum.splits)
  have passed: "maybeFailBeforeWrite (remembered cal tok s) = (Inr (), remembered cal tok s)"
    if "fk_failure s \<noteq> Some RateLimited" "fk_failure s \<noteq> Some Precondition"
    using that auth by (simp add: before_write_eq)
  consider "fk_failure s = Some RateLimited" | "fk_failure s = Some Precondition" | "fk_failure s = Some TimeoutAfterWrite"
    | "fk_failure s \<notin> {Some RateLimited, Some Precondition, Some TimeoutAfterWrite}" by blast
  then show ?thesis
  proof cases
    case 1
    then have "maybeFailBeforeWrite (remembered cal tok s) =
        (Inl (ProviderFailure ''rate_limited'' True False (Some 429)), (remembered cal tok s)\<lparr>fk_failure := None\<rparr>)" by (simp add: before_write_eq)
    from c [unfolded fake_createEvent_def Let_def bindF_stopped [OF this]] show ?thesis by auto
  next
    case 2
    then have "maybeFailBeforeWrite (remembered cal tok s) = (Inl precondition_failed, (remembered cal tok s)\<lparr>fk_failure := None\<rparr>)" by (simp add: before_write_eq)
    from c [unfolded fake_createEvent_def Let_def bindF_stopped [OF this]] assms(2) show ?thesis by (auto simp: is_retryable_def precondition_failed_def)
  next
    case 3
    with c passed assms(4) show ?thesis by (auto simp: fake_createEvent_def run_simps)
  next
    case 4
    with c passed assms(4) show ?thesis by (auto simp: fake_createEvent_def run_simps)
  qed
qed

lemma talk_again:
  assumes "fk_failure s = None" "mine eff t \<lparr>el_event = ev, el_revision = ''1'', el_identity = Some \<lparr>mi_policy = prov_policy_ref (d_provenance desired),
      mi_projection = prov_projection_ref (d_provenance desired), mi_generation = prov_generation (d_provenance desired)\<rparr>\<rparr>"
    "if le_ambiguous eff then fk_events s (fake_key tok cal ev) = Some \<lparr>fe_desired = Some desired, fe_revision = 1\<rparr> else fk_events s (fake_key tok cal ev) = None"
  shows "\<exists>rv s'. talk tok cal ev eff t desired s = (Inr (Written (Some ev) (Some rv)), s')
    \<and> stored_event s' = (stored_event s)(fake_key tok cal ev \<mapsto> (Some desired, rv))"
proof -
  have passed: "maybeFailBeforeWrite (remembered cal tok s) = (Inr (), remembered cal tok s)" using assms(1) by (simp add: before_write_eq)
  show ?thesis
  proof (cases "le_ambiguous eff")
    case True
    with assms passed have "talk tok cal ev eff t desired s = (Inr (Written (Some ev) (Some (dec_int 2))),
        (remembered cal tok (remembered cal tok s))\<lparr>fk_events := (fk_events s)(fake_key tok cal ev \<mapsto> \<lparr>fe_desired = Some desired, fe_revision = 2\<rparr>)\<rparr>)"
      by (simp add: talk_def bindF_def [of "fake_getEvent tok cal ev"] fake_getEvent_eq fake_updateEvent_def bindF_def [of "bindF _ _"] run_simps)
    then show ?thesis by (intro exI conjI) (assumption, simp)
  next
    case False
    with assms passed have "talk tok cal ev eff t desired s = (Inr (Written (Some ev) (Some ''1'')),
        (remembered cal tok (remembered cal tok s))\<lparr>fk_events := (fk_events s)(fake_key tok cal ev \<mapsto> \<lparr>fe_desired = Some desired, fe_revision = 1\<rparr>)\<rparr>)"
      by (simp add: talk_def bindF_def [of "fake_getEvent tok cal ev"] fake_getEvent_eq fake_createEvent_def bindF_def [of "bindF _ _"] run_simps)
    then show ?thesis by (intro exI conjI) (assumption, simp)
  qed
qed

text \<open>
  C20: A copy is created once. When the creation of a copy fails in a way that is worth a retry, be it that the
  provider refused it for now or that it was carried out and the answer was lost, the next run of the
  effect, marked ambiguous as the executor marks it, succeeds: afterwards the copy is in its place with
  the content it should have, and nothing else in the calendar has changed.
\<close>

theorem retried_creation_converges:
  assumes "le_operation eff = CreateCopy" "le_desired eff = Some desired" "\<not> le_ambiguous eff"
    "d_provenance desired = \<lparr>prov_policy_ref = le_policy eff, prov_projection_ref = pr_id (tg_projection t), prov_generation = pr_generation (tg_projection t)\<rparr>"
    "q = fake_key (fakeAccessTokenForConnection (ce_connection (tg_endpoint t))) (ce_remote_id (tg_endpoint t)) (target_event_id t)"
    "stored_event (snd (fake_after s0 h)) q = None"
    "run_effect (fake_provider s0) eff t h = (Inl e, h1)" "is_retryable e"
    "run_effect (fake_provider s0) (eff\<lparr>le_ambiguous := is_ambiguous e\<rparr>) t h1 = (res, h2)"
  shows "\<exists>rv. res = Inr (Written (Some (target_event_id t)) (Some rv))
    \<and> stored_event (snd (fake_after s0 h2)) = (stored_event (snd (fake_after s0 h)))(q \<mapsto> (Some desired, rv))"
proof -
  let ?tok = "fakeAccessTokenForConnection (ce_connection (tg_endpoint t))" and ?cal = "ce_remote_id (tg_endpoint t)" and ?ev = "target_event_id t"
  let ?eff = "eff\<lparr>le_ambiguous := is_ambiguous e\<rparr>"
  obtain tok0 s where s: "fake_after s0 h = (tok0, s)" by fastforce
  from run_create_talk [OF assms(1,2,7) s] obtain s1 where s1: "fake_after s0 h1 = (?tok, s1)" "talk ?tok ?cal ?ev eff t desired s = (Inl e, s1)" by blast
  have free: "fk_events s q = None" using assms(6) s by (simp add: stored_event_def)
  note first = talk_first [OF s1(2) assms(8,3), folded assms(5), OF free]
  have "le_operation ?eff = CreateCopy" "le_desired ?eff = Some desired" using assms(1,2) by simp_all
  from run_create_talk [OF this assms(9) s1(1)] obtain s2 where s2: "fake_after s0 h2 = (?tok, s2)" "talk ?tok ?cal ?ev ?eff t desired s1 = (res, s2)" by blast
  have "if le_ambiguous ?eff then fk_events s1 (fake_key ?tok ?cal ?ev) = Some \<lparr>fe_desired = Some desired, fe_revision = 1\<rparr>
      else fk_events s1 (fake_key ?tok ?cal ?ev) = None"
    using first free assms(5) by (auto split: if_splits)
  moreover have "mine ?eff t \<lparr>el_event = ?ev, el_revision = ''1'', el_identity = Some \<lparr>mi_policy = prov_policy_ref (d_provenance desired),
      mi_projection = prov_projection_ref (d_provenance desired), mi_generation = prov_generation (d_provenance desired)\<rparr>\<rparr>"
    by (simp add: mine_def eventBelongsToProjection_def assms(4))
  ultimately obtain rv where rv: "res = Inr (Written (Some ?ev) (Some rv))" "stored_event s2 = (stored_event s1)(q \<mapsto> (Some desired, rv))"
    using talk_again [of s1 ?eff t ?ev desired ?tok ?cal] first s2(2) unfolding assms(5) by fastforce
  have "stored_event s1 = stored_event s \<or> stored_event s1 = (stored_event s)(q \<mapsto> (Some desired, ''1''))"
    using first by (auto simp: stored_event_def [abs_def] split: if_splits)
  then have "stored_event s2 = (stored_event s)(q \<mapsto> (Some desired, rv))" using rv(2) by auto
  with rv(1) s s2(1) show ?thesis by simp
qed


text \<open>
  Two writers who read an event in the same revision cannot both change it: once one of the changes is
  carried out, the in-memory provider refuses the other for as long as the event is left as it is then.
\<close>

theorem second_writer_is_refused:
  assumes "fake_updateEvent tok cal ev (Some rv) x s = (Inr w, s')" "rv \<noteq> ''''"
    "stored_event s'' (fake_key tok cal ev) = stored_event s' (fake_key tok cal ev)"
  shows "\<exists>e s3. fake_updateEvent tok cal ev (Some rv) y s'' = (Inl e, s3)
    \<and> (stored_event s3 = stored_event s'' \<or> is_ambiguous e)"
proof -
  have "\<nexists>w' s3. fake_updateEvent tok cal ev (Some rv) y s'' = (Inr w', s3)"
    using fake_events.no_lost_update [of "(tok, cal, ev)" rv x s w s' s'' y] assms by (simp add: key_of_def)
  then obtain e s3 where failed: "fake_updateEvent tok cal ev (Some rv) y s'' = (Inl e, s3)" by (metis surj_pair sumE)
  with fake_updateEvent_run [OF this] show ?thesis by auto
qed

subsection \<open>Witnesses\<close>

definition empty_fake :: fake where
  "empty_fake = \<lparr>fk_calendars = \<lambda>_. [], fk_events = Map.empty, fk_observations = \<lambda>_. Map.empty, fk_freebusy = \<lambda>_. Map.empty,
     fk_invitations = Map.empty, fk_planning = Map.empty, fk_seen = \<lambda>_. [], fk_failure = None\<rparr>"

definition creation :: leased_effect where
  "creation = (leased_view sample_effect)\<lparr>le_operation := CreateCopy, le_desired := Some sample_copy\<rparr>"

definition creation_target :: target where
  "creation_target = \<lparr>tg_projection = sample_projection, tg_observation = observed_row, tg_endpoint = sample_endpoint ''work'', tg_connection = sample_connection\<rparr>"

lemma creation_fields: "le_operation creation = CreateCopy" "le_desired creation = Some sample_copy" "\<not> le_ambiguous creation"
  "target_event_id creation_target = ''ev''" "ce_connection (tg_endpoint creation_target) = ''c''" "ce_remote_id (tg_endpoint creation_target) = ''r-work''"
  "d_provenance sample_copy = \<lparr>prov_policy_ref = le_policy creation, prov_projection_ref = pr_id (tg_projection creation_target), prov_generation = pr_generation (tg_projection creation_target)\<rparr>"
  by (simp_all add: creation_def creation_target_def leased_view_def sample_effect_def sample_projection_def sample_endpoint_def sample_copy_def target_event_id_def)

lemma creation_times_out:
  "\<exists>h1. run_effect (fake_provider (failNext TimeoutAfterWrite empty_fake)) creation creation_target [] = (Inl lost_answer, h1)"
proof -
  let ?s = "failNext TimeoutAfterWrite empty_fake" and ?tok = "fakeAccessTokenForConnection ''c''"
  obtain res h1 where run: "run_effect (fake_provider ?s) creation creation_target [] = (res, h1)" by fastforce
  from run_create_talk [OF creation_fields(1,2) run, of DEFAULT_FAKE_ACCESS_TOKEN ?s] obtain s1
    where "talk ?tok ''r-work'' ''ev'' creation creation_target sample_copy ?s = (res, s1)"
    by (auto simp: fake_after_def creation_fields)
  then have "res = Inl lost_answer"
    by (auto simp: talk_def bindF_def [of "fake_getEvent _ _ _"] bindF_def [of "bindF _ _"] fake_getEvent_eq fake_createEvent_def before_write_eq
        failNext_def empty_fake_def creation_fields run_simps)
  with run show ?thesis by auto
qed

theorem retried_creation_converges_witness:
  "\<exists>h1 h2 rv. run_effect (fake_provider (failNext TimeoutAfterWrite empty_fake)) creation creation_target [] = (Inl lost_answer, h1)
    \<and> run_effect (fake_provider (failNext TimeoutAfterWrite empty_fake)) (creation\<lparr>le_ambiguous := True\<rparr>) creation_target h1 = (Inr (Written (Some ''ev'') (Some rv)), h2)
    \<and> stored_event (snd (fake_after (failNext TimeoutAfterWrite empty_fake) h2)) (fake_key (fakeAccessTokenForConnection ''c'') ''r-work'' ''ev'') = Some (Some sample_copy, rv)"
proof -
  let ?s = "failNext TimeoutAfterWrite empty_fake"
  obtain h1 where h1: "run_effect (fake_provider ?s) creation creation_target [] = (Inl lost_answer, h1)" using creation_times_out by blast
  obtain res h2 where h2: "run_effect (fake_provider ?s) (creation\<lparr>le_ambiguous := is_ambiguous lost_answer\<rparr>) creation_target h1 = (res, h2)" by fastforce
  have "stored_event (snd (fake_after ?s [])) q = None" for q by (simp add: fake_after_def stored_event_def failNext_def empty_fake_def)
  moreover have "is_retryable lost_answer" by (simp add: is_retryable_def lost_answer_def)
  ultimately show ?thesis using retried_creation_converges [OF creation_fields(1,2,3,7) refl _ h1 _ h2] h1 h2 by (auto simp: creation_fields)
qed

theorem second_writer_is_refused_witness:
  "\<exists>e s3. fake_updateEvent ''t'' ''c'' ''e'' (Some ''1'') sample_copy
      (snd (fake_updateEvent ''t'' ''c'' ''e'' (Some ''1'') edited_copy (snd (fake_createEvent ''t'' ''c'' ''e'' sample_copy empty_fake)))) = (Inl e, s3)"
proof -
  let ?s = "snd (fake_createEvent ''t'' ''c'' ''e'' sample_copy empty_fake)"
  have "?s = (remembered ''c'' ''t'' empty_fake)\<lparr>fk_events := [fake_key ''t'' ''c'' ''e'' \<mapsto> \<lparr>fe_desired = Some sample_copy, fe_revision = 1\<rparr>]\<rparr>"
    by (simp add: fake_createEvent_def before_write_eq run_simps empty_fake_def)
  then have "\<exists>w s'. fake_updateEvent ''t'' ''c'' ''e'' (Some ''1'') edited_copy ?s = (Inr w, s')"
    by (simp add: fake_updateEvent_def before_write_eq run_simps empty_fake_def)
  then obtain w s' where run: "fake_updateEvent ''t'' ''c'' ''e'' (Some ''1'') edited_copy ?s = (Inr w, s')" by blast
  from second_writer_is_refused [OF run _ refl, of sample_copy] show ?thesis by (auto simp: run)
qed

end
