(* ===== verification/Access.thy ===== *)
theory Access
  imports Tables
begin

section \<open>Sessions and API tokens (server/src/auth)\<close>

text \<open>
  A browser proves who it is with a session token, a program with an API token. Both services keep only
  the digest of a token, give it an end, and can revoke it. The digest, the random texts and the clock are
  parameters. What the two services have in common is the locale \<open>credential_store\<close>: once a token is
  revoked it is never accepted again, whatever else happens to the store.
\<close>

subsection \<open>A store of credentials\<close>

text \<open>
  A step of the store may issue a token. \<open>accepts s t n\<close> says that the store accepts the token \<open>t\<close> at the
  time \<open>n\<close>. A step keeps every row, up to revoking it, and adds only rows of the token it issues.
\<close>

locale credential_store =
  fixes rows :: "'s \<Rightarrow> 'r list" and row_hash :: "'r \<Rightarrow> string" and row_revoked :: "'r \<Rightarrow> int option" and row_expires :: "'r \<Rightarrow> int"
    and accepts :: "'s \<Rightarrow> string \<Rightarrow> int \<Rightarrow> bool" and sha :: "string \<Rightarrow> string" and step :: "'s \<Rightarrow> string option \<Rightarrow> 's \<Rightarrow> bool"
  assumes accepts_live: "accepts s t n \<Longrightarrow> \<exists>r \<in> set (rows s). row_hash r = sha t \<and> row_revoked r = None \<and> n < row_expires r"
    and step_rows: "step s issued s' \<Longrightarrow> r' \<in> set (rows s') \<Longrightarrow>
      (\<exists>r \<in> set (rows s). row_hash r' = row_hash r \<and> row_expires r' = row_expires r \<and> (row_revoked r \<noteq> None \<longrightarrow> row_revoked r' \<noteq> None))
      \<or> (\<exists>t. issued = Some t \<and> row_hash r' = sha t)"
begin

definition dead :: "string \<Rightarrow> 's \<Rightarrow> bool" where
  "dead t s \<longleftrightarrow> (\<forall>r \<in> set (rows s). row_hash r = sha t \<longrightarrow> row_revoked r \<noteq> None)"

definition over :: "int \<Rightarrow> string \<Rightarrow> 's \<Rightarrow> bool" where
  "over n t s \<longleftrightarrow> (\<forall>r \<in> set (rows s). row_hash r = sha t \<longrightarrow> row_expires r \<le> n)"

text \<open>Sequences of steps, with the tokens they issue.\<close>

inductive runs :: "'s \<Rightarrow> string list \<Rightarrow> 's \<Rightarrow> bool" where
  runs_stop: "runs s [] s"
| runs_step: "runs s ts s1 \<Longrightarrow> step s1 None s2 \<Longrightarrow> runs s ts s2"
| runs_issue: "runs s ts s1 \<Longrightarrow> step s1 (Some t) s2 \<Longrightarrow> runs s (ts @ [t]) s2"

lemma dead_step: "step s issued s' \<Longrightarrow> dead t s \<Longrightarrow> (\<And>t'. issued = Some t' \<Longrightarrow> sha t' \<noteq> sha t) \<Longrightarrow> dead t s'"
  unfolding dead_def by (metis step_rows)

lemma over_step: "step s issued s' \<Longrightarrow> over n t s \<Longrightarrow> (\<And>t'. issued = Some t' \<Longrightarrow> sha t' \<noteq> sha t) \<Longrightarrow> over n t s'"
  unfolding over_def by (metis step_rows)

lemma dead_runs: "runs s ts s' \<Longrightarrow> dead t s \<Longrightarrow> \<forall>t' \<in> set ts. sha t' \<noteq> sha t \<Longrightarrow> dead t s'"
  by (induction rule: runs.induct) (auto intro: dead_step)

lemma over_runs: "runs s ts s' \<Longrightarrow> over n t s \<Longrightarrow> \<forall>t' \<in> set ts. sha t' \<noteq> sha t \<Longrightarrow> over n t s'"
  by (induction rule: runs.induct) (auto intro: over_step)

lemma dead_is_refused: "dead t s \<Longrightarrow> \<not> accepts s t n"
  unfolding dead_def using accepts_live by blast

lemma over_is_refused: "over n t s \<Longrightarrow> n \<le> m \<Longrightarrow> \<not> accepts s t m"
  unfolding over_def using accepts_live by fastforce

lemma revoked_stays_refused: "runs s ts s' \<Longrightarrow> dead t s \<Longrightarrow> \<forall>t' \<in> set ts. sha t' \<noteq> sha t \<Longrightarrow> \<not> accepts s' t n"
  using dead_runs dead_is_refused by blast

lemma expired_stays_refused: "runs s ts s' \<Longrightarrow> over n t s \<Longrightarrow> \<forall>t' \<in> set ts. sha t' \<noteq> sha t \<Longrightarrow> n \<le> m \<Longrightarrow> \<not> accepts s' t m"
  using over_runs over_is_refused by blast

end

subsection \<open>Tables\<close>

datatype principal_status = PrincipalActive | PrincipalDisabled
datatype member_role = OwnerMember | OrdinaryMember

record principal_row =
  pn_id :: string
  pn_status :: principal_status

record membership_row =
  ms_organization :: string
  ms_principal :: string
  ms_role :: member_role

record token_row =
  at_id :: string
  at_organization :: string
  at_principal :: string
  at_label :: string
  at_hash :: string
  at_scopes :: json
  at_expires :: int
  at_last_used :: "int option"
  at_revoked :: "int option"
  at_created :: int

record session_row =
  bs_id :: string
  bs_principal :: string
  bs_organization :: string
  bs_hash :: string
  bs_expires :: int
  bs_last_seen :: int
  bs_revoked :: "int option"

record access_db =
  principals :: "principal_row list"
  memberships :: "membership_row list"
  token_rows :: "token_row list"
  session_rows :: "session_row list"
  access_audits :: "audit_row list"

subsection \<open>API tokens (api-token.ts)\<close>

datatype api_scope = ReadScope | ProposeScope | ApplyScope

datatype token_error = ApiTokenInputError (te_code: string) (te_message: string)

definition invalid_token :: "string \<Rightarrow> token_error" where
  "invalid_token message = ApiTokenInputError ''invalid_api_token'' message"

definition scope_text :: "api_scope \<Rightarrow> string" where
  "scope_text s = (case s of ReadScope \<Rightarrow> ''read'' | ProposeScope \<Rightarrow> ''propose'' | ApplyScope \<Rightarrow> ''apply'')"

definition scope_of :: "json \<Rightarrow> api_scope option" where
  "scope_of v = (if v = JStr ''read'' then Some ReadScope else if v = JStr ''propose'' then Some ProposeScope else if v = JStr ''apply'' then Some ApplyScope else None)"

definition hasApiScope :: "api_scope list \<Rightarrow> api_scope \<Rightarrow> bool" where
  "hasApiScope scopes required \<longleftrightarrow> required \<in> set scopes"

definition with_implied :: "api_scope list \<Rightarrow> api_scope list" where
  "with_implied requested =
     (let r1 = (if ApplyScope \<in> set requested then ProposeScope # requested else requested);
          r2 = (if ProposeScope \<in> set r1 then ReadScope # r1 else r1)
      in filter (\<lambda>s. s \<in> set r2) [ReadScope, ProposeScope, ApplyScope])"

definition normalizeScopes :: "json option \<Rightarrow> token_error + api_scope list" where
  "normalizeScopes v =
     (case v of
        Some (JArr vs) \<Rightarrow>
          if vs = [] \<or> length vs > 3 then Inl (invalid_token ''one or more API token scopes are required'')
          else bindE (mapE (\<lambda>x. case scope_of x of None \<Rightarrow> Inl (invalid_token ''API token scope is invalid'') | Some s \<Rightarrow> Inr s) vs)
                 (\<lambda>requested. Inr (with_implied requested))
      | _ \<Rightarrow> Inl (invalid_token ''one or more API token scopes are required''))"

definition storedScopes :: "json \<Rightarrow> api_scope list" where
  "storedScopes v = (case v of JArr vs \<Rightarrow> uniq (List.map_filter scope_of vs) | _ \<Rightarrow> [])"

definition normalizedText :: "json option \<Rightarrow> nat \<Rightarrow> string \<Rightarrow> token_error + string" where
  "normalizedText v maximum label =
     (case v of
        Some (JStr s) \<Rightarrow>
          let t = trim (normalize_NFC s) in if length t < 1 \<or> length t > maximum then Inl (invalid_token (label @ '' is invalid'')) else Inr t
      | _ \<Rightarrow> Inl (invalid_token (label @ '' is required'')))"

definition expiry_days :: "json option \<Rightarrow> token_error + int" where
  "expiry_days v =
     (case v of
        None \<Rightarrow> Inr 30
      | Some (JNum (Whole i)) \<Rightarrow>
          if \<bar>i\<bar> > max_safe_integer \<or> i < 1 \<or> i > 365 then Inl (invalid_token ''token expiry must be from 1 through 365 days'') else Inr i
      | _ \<Rightarrow> Inl (invalid_token ''token expiry must be from 1 through 365 days''))"

record token_input =
  ti_label :: "json option"
  ti_scopes :: "json option"
  ti_days :: "json option"

record issued_token =
  it_id :: string
  it_principal :: string
  it_organization :: string
  it_scopes :: "api_scope list"
  it_expires :: int

text \<open>\<open>JSON.stringify\<close> of a list of texts, and of the facts about a token that the audit keeps.\<close>

definition scopes_json :: "api_scope list \<Rightarrow> json" where
  "scopes_json scopes = JArr (map (\<lambda>s. JStr (scope_text s)) scopes)"

definition token_facts :: "string \<Rightarrow> string \<Rightarrow> api_scope list \<Rightarrow> int \<Rightarrow> string" where
  "token_facts ident label scopes expires =
     ''{\"id\":'' @ json_quote ident @ '',\"label\":'' @ json_quote label @ '',\"scopes\":['' @ join_comma (map (\<lambda>s. json_quote (scope_text s)) scopes)
       @ ''],\"expires_at\":'' @ json_quote (toISOString expires) @ ''}''"

definition may_issue :: "string \<Rightarrow> string \<Rightarrow> access_db \<Rightarrow> bool" where
  "may_issue org principalId d \<longleftrightarrow>
     (case find (\<lambda>m. ms_organization m = org \<and> ms_principal m = principalId \<and> principalId \<in> pn_id ` set (principals d)) (memberships d) of
        None \<Rightarrow> False
      | Some m \<Rightarrow> ms_role m = OwnerMember
          \<and> (case find (\<lambda>p. pn_id p = principalId) (principals d) of None \<Rightarrow> False | Some p \<Rightarrow> pn_status p = PrincipalActive))"

definition token_audit :: "string \<Rightarrow> string \<Rightarrow> string \<Rightarrow> string \<Rightarrow> string \<Rightarrow> string \<Rightarrow> string option \<Rightarrow> json \<Rightarrow> audit_row" where
  "token_audit auditId org principalId action ident reason afterHash detail =
     \<lparr>af_id = auditId, af_organization = org, af_principal = Some principalId, af_actor = ActorUser, af_action = action,
      af_target_type = ''api_token'', af_target = ident, af_reason = reason, af_before = None, af_after = afterHash, af_detail = detail\<rparr>"

text \<open>\<open>secret\<close> is the random text that the token carries after its prefix.\<close>

definition token_of :: "string \<Rightarrow> string" where
  "token_of secret = ''pln_api_'' @ secret"

definition issue :: "(string \<Rightarrow> string) \<Rightarrow> int \<Rightarrow> string \<Rightarrow> string \<Rightarrow> string \<Rightarrow> string \<Rightarrow> string \<Rightarrow> token_input \<Rightarrow> access_db
    \<Rightarrow> token_error + issued_token \<times> access_db" where
  "issue sha nowMs ident auditId secret org principalId input d =
     bindE (normalizedText (ti_label input) 80 ''token label'') (\<lambda>label.
     bindE (normalizeScopes (ti_scopes input)) (\<lambda>scopes.
     bindE (expiry_days (ti_days input)) (\<lambda>days.
       let expiresAt = nowMs + days * 86400000 in
       if \<not> may_issue org principalId d then Inl (ApiTokenInputError ''authorization_required'' ''only an active owner may create API tokens'')
       else Inr (\<lparr>it_id = ident, it_principal = principalId, it_organization = org, it_scopes = scopes, it_expires = expiresAt\<rparr>,
              d\<lparr>token_rows := token_rows d @ [\<lparr>at_id = ident, at_organization = org, at_principal = principalId, at_label = label,
                   at_hash = sha (token_of secret), at_scopes = scopes_json scopes, at_expires = expiresAt, at_last_used = None,
                   at_revoked = None, at_created = nowMs\<rparr>],
                access_audits := access_audits d @ [token_audit auditId org principalId ''api_token.created'' ident ''owner_created''
                   (Some (''sha256:'' @ sha (token_facts ident label scopes expiresAt)))
                   (JObj [(''label'', Some (JStr label)), (''scopes'', Some (scopes_json scopes)), (''expires_at'', Some (JStr (toISOString expiresAt)))])]\<rparr>))))"

definition token_is_live :: "(string \<Rightarrow> string) \<Rightarrow> int \<Rightarrow> string \<Rightarrow> access_db \<Rightarrow> token_row \<Rightarrow> bool" where
  "token_is_live sha nowMs t d r \<longleftrightarrow> at_hash r = sha t \<and> at_revoked r = None \<and> nowMs < at_expires r
     \<and> list_ex (\<lambda>p. pn_id p = at_principal r \<and> pn_status p = PrincipalActive) (principals d)
     \<and> list_ex (\<lambda>m. ms_organization m = at_organization r \<and> ms_principal m = at_principal r \<and> ms_role m = OwnerMember) (memberships d)"

definition plausible_token :: "string option \<Rightarrow> bool" where
  "plausible_token token \<longleftrightarrow> (case token of None \<Rightarrow> False | Some t \<Rightarrow> t \<noteq> '''' \<and> take 8 t = ''pln_api_'' \<and> length t \<le> 200)"

definition authenticate :: "(string \<Rightarrow> string) \<Rightarrow> int \<Rightarrow> string option \<Rightarrow> access_db \<Rightarrow> issued_token option \<times> access_db" where
  "authenticate sha nowMs token d =
     (if \<not> plausible_token token then (None, d)
      else case find (token_is_live sha nowMs (the token) d) (token_rows d) of
             None \<Rightarrow> (None, d)
           | Some r \<Rightarrow>
               let scopes = storedScopes (at_scopes r)
               in if scopes = [] then (None, d)
                  else (Some \<lparr>it_id = at_id r, it_principal = at_principal r, it_organization = at_organization r, it_scopes = scopes, it_expires = at_expires r\<rparr>,
                        d\<lparr>token_rows := update_where (\<lambda>x. at_id x = at_id r) (\<lambda>x. x\<lparr>at_last_used := Some nowMs\<rparr>) (token_rows d)\<rparr>))"

text \<open>The list shows the tokens of a principal, the newest first, and never the digest of one.\<close>

record token_view =
  tv_id :: string
  tv_label :: string
  tv_scopes :: json
  tv_expires :: int
  tv_last_used :: "int option"
  tv_revoked :: "int option"
  tv_created :: int

definition list_tokens :: "string \<Rightarrow> string \<Rightarrow> access_db \<Rightarrow> token_view list" where
  "list_tokens org principalId d =
     map (\<lambda>r. \<lparr>tv_id = at_id r, tv_label = at_label r, tv_scopes = at_scopes r, tv_expires = at_expires r, tv_last_used = at_last_used r,
           tv_revoked = at_revoked r, tv_created = at_created r\<rparr>)
       (sort_key (\<lambda>r. - at_created r) (filter (\<lambda>r. at_organization r = org \<and> at_principal r = principalId) (token_rows d)))"

definition revocable :: "string \<Rightarrow> string \<Rightarrow> string \<Rightarrow> token_row \<Rightarrow> bool" where
  "revocable org principalId tokenId r \<longleftrightarrow> at_organization r = org \<and> at_principal r = principalId \<and> at_id r = tokenId \<and> at_revoked r = None"

definition revoke :: "(string \<Rightarrow> bool) \<Rightarrow> int \<Rightarrow> string \<Rightarrow> string \<Rightarrow> string \<Rightarrow> string \<Rightarrow> access_db \<Rightarrow> token_error + access_db" where
  "revoke valid_uuid nowMs auditId org principalId tokenId d =
     (if \<not> valid_uuid tokenId then Inl (invalid_token ''API token identifier is invalid'')
      else if \<not> list_ex (revocable org principalId tokenId) (token_rows d) then Inl (ApiTokenInputError ''not_found'' ''API token was not found'')
      else Inr (d\<lparr>token_rows := update_where (revocable org principalId tokenId) (\<lambda>r. r\<lparr>at_revoked := Some nowMs\<rparr>) (token_rows d),
             access_audits := access_audits d @ [token_audit auditId org principalId ''api_token.revoked'' tokenId ''owner_revoked'' None (JObj [])]\<rparr>))"

subsection \<open>Browser sessions (session.ts)\<close>

definition PERSONAL_ORGANIZATION_ID :: string where "PERSONAL_ORGANIZATION_ID = ''00000000-0000-7000-8000-000000000001''"
definition OWNER_PRINCIPAL_ID :: string where "OWNER_PRINCIPAL_ID = ''00000000-0000-7000-8000-000000000002''"

record session =
  se_id :: string
  se_principal :: string
  se_organization :: string
  se_expires :: int

definition exchangeBootstrapToken :: "(string \<Rightarrow> string) \<Rightarrow> string \<Rightarrow> int \<Rightarrow> int \<Rightarrow> string \<Rightarrow> string \<Rightarrow> string \<Rightarrow> access_db \<Rightarrow> session option \<times> access_db" where
  "exchangeBootstrapToken sha bootstrapToken sessionTtlSeconds nowMs ident token candidate d =
     (if candidate \<noteq> bootstrapToken then (None, d)
      else let expiresAt = nowMs + sessionTtlSeconds * 1000
           in (Some \<lparr>se_id = ident, se_principal = OWNER_PRINCIPAL_ID, se_organization = PERSONAL_ORGANIZATION_ID, se_expires = expiresAt\<rparr>,
               d\<lparr>session_rows := session_rows d @ [\<lparr>bs_id = ident, bs_principal = OWNER_PRINCIPAL_ID, bs_organization = PERSONAL_ORGANIZATION_ID,
                   bs_hash = sha token, bs_expires = expiresAt, bs_last_seen = nowMs, bs_revoked = None\<rparr>]\<rparr>))"

definition session_is_live :: "(string \<Rightarrow> string) \<Rightarrow> int \<Rightarrow> string \<Rightarrow> access_db \<Rightarrow> session_row \<Rightarrow> bool" where
  "session_is_live sha nowMs t d r \<longleftrightarrow> bs_hash r = sha t \<and> bs_revoked r = None \<and> nowMs < bs_expires r
     \<and> list_ex (\<lambda>p. pn_id p = bs_principal r \<and> pn_status p = PrincipalActive) (principals d)"

definition authenticate_session :: "(string \<Rightarrow> string) \<Rightarrow> int \<Rightarrow> string option \<Rightarrow> access_db \<Rightarrow> session option \<times> access_db" where
  "authenticate_session sha nowMs token d =
     (if token = None \<or> token = Some '''' then (None, d)
      else case find (session_is_live sha nowMs (the token) d) (session_rows d) of
             None \<Rightarrow> (None, d)
           | Some r \<Rightarrow> (Some \<lparr>se_id = bs_id r, se_principal = bs_principal r, se_organization = bs_organization r, se_expires = bs_expires r\<rparr>,
                 d\<lparr>session_rows := update_where (\<lambda>x. bs_id x = bs_id r) (\<lambda>x. x\<lparr>bs_last_seen := nowMs\<rparr>) (session_rows d)\<rparr>))"

definition revoke_session :: "int \<Rightarrow> string \<Rightarrow> access_db \<Rightarrow> access_db" where
  "revoke_session nowMs sessionId d = d\<lparr>session_rows := update_where (\<lambda>r. bs_id r = sessionId) (\<lambda>r. r\<lparr>bs_revoked := Some nowMs\<rparr>) (session_rows d)\<rparr>"

subsection \<open>The steps of the two stores\<close>

text \<open>Principals and memberships may change in any way, and old rows may be cleaned up.\<close>

inductive token_step :: "(string \<Rightarrow> string) \<Rightarrow> access_db \<Rightarrow> string option \<Rightarrow> access_db \<Rightarrow> bool" for sha where
  token_issue: "issue sha n i a secret org p input d = Inr (it, d') \<Longrightarrow> token_step sha d (Some (token_of secret)) d'"
| token_use: "authenticate sha n token d = (res, d') \<Longrightarrow> token_step sha d None d'"
| token_revoke: "revoke valid_uuid n a org p i d = Inr d' \<Longrightarrow> token_step sha d None d'"
| token_cleanup: "set (token_rows d') \<subseteq> set (token_rows d) \<Longrightarrow> token_step sha d None d'"

inductive session_step :: "(string \<Rightarrow> string) \<Rightarrow> access_db \<Rightarrow> string option \<Rightarrow> access_db \<Rightarrow> bool" for sha where
  session_open: "exchangeBootstrapToken sha b ttl n i token candidate d = (Some se, d') \<Longrightarrow> session_step sha d (Some token) d'"
| session_use: "authenticate_session sha n token d = (res, d') \<Longrightarrow> session_step sha d None d'"
| session_revoke: "session_step sha d None (revoke_session n i d)"
| session_cleanup: "set (session_rows d') \<subseteq> set (session_rows d) \<Longrightarrow> session_step sha d None d'"

definition accepts_token :: "(string \<Rightarrow> string) \<Rightarrow> access_db \<Rightarrow> string \<Rightarrow> int \<Rightarrow> bool" where
  "accepts_token sha d t n \<longleftrightarrow> fst (authenticate sha n (Some t) d) \<noteq> None"

definition accepts_session :: "(string \<Rightarrow> string) \<Rightarrow> access_db \<Rightarrow> string \<Rightarrow> int \<Rightarrow> bool" where
  "accepts_session sha d t n \<longleftrightarrow> fst (authenticate_session sha n (Some t) d) \<noteq> None"

lemma issue_Inr:
  assumes "issue sha n i a secret org p input d = Inr (it, d')"
  obtains label scopes days where "normalizeScopes (ti_scopes input) = Inr scopes" "expiry_days (ti_days input) = Inr days" "may_issue org p d"
    "it = \<lparr>it_id = i, it_principal = p, it_organization = org, it_scopes = scopes, it_expires = n + days * 86400000\<rparr>"
    "token_rows d' = token_rows d @ [\<lparr>at_id = i, at_organization = org, at_principal = p, at_label = label, at_hash = sha (token_of secret),
       at_scopes = scopes_json scopes, at_expires = n + days * 86400000, at_last_used = None, at_revoked = None, at_created = n\<rparr>]"
    "principals d' = principals d" "memberships d' = memberships d"
proof -
  from assms obtain label scopes days where parts: "normalizedText (ti_label input) 80 ''token label'' = Inr label"
    "normalizeScopes (ti_scopes input) = Inr scopes" "expiry_days (ti_days input) = Inr days"
    unfolding issue_def by (auto simp: bindE_Inr_iff)
  with assms have may: "may_issue org p d" unfolding issue_def by (auto simp: Let_def split: if_splits)
  from assms parts may show thesis by (intro that [OF parts(2,3) may, of label]) (auto simp: issue_def Let_def)
qed

lemma token_step_rows:
  assumes "token_step sha d issued d'" "r' \<in> set (token_rows d')"
  shows "(\<exists>r \<in> set (token_rows d). at_hash r' = at_hash r \<and> at_expires r' = at_expires r \<and> (at_revoked r \<noteq> None \<longrightarrow> at_revoked r' \<noteq> None))
      \<or> (\<exists>t. issued = Some t \<and> at_hash r' = sha t)"
  using assms(1)
proof cases
  case (token_issue n i a secret org p input it)
  from token_issue(2) obtain row where "token_rows d' = token_rows d @ [row]" "at_hash row = sha (token_of secret)"
    by (rule issue_Inr) simp
  with assms(2) token_issue(1) show ?thesis by auto
next
  case (token_use n token res)
  then consider "d' = d" | i where "token_rows d' = update_where (\<lambda>x. at_id x = i) (\<lambda>x. x\<lparr>at_last_used := Some n\<rparr>) (token_rows d)"
    by (auto simp: authenticate_def Let_def split: if_splits option.splits)
  then show ?thesis
  proof cases
    case 2
    from assms(2) [unfolded 2] show ?thesis by (cases rule: update_whereE) auto
  qed (use assms(2) in auto)
next
  case (token_revoke valid_uuid n a org p i)
  then have rows: "token_rows d' = update_where (revocable org p i) (\<lambda>r. r\<lparr>at_revoked := Some n\<rparr>) (token_rows d)"
    by (auto simp: revoke_def split: if_splits)
  from assms(2) [unfolded rows] show ?thesis by (cases rule: update_whereE) auto
next
  case token_cleanup
  with assms(2) show ?thesis by blast
qed

lemma session_step_rows:
  assumes "session_step sha d issued d'" "r' \<in> set (session_rows d')"
  shows "(\<exists>r \<in> set (session_rows d). bs_hash r' = bs_hash r \<and> bs_expires r' = bs_expires r \<and> (bs_revoked r \<noteq> None \<longrightarrow> bs_revoked r' \<noteq> None))
      \<or> (\<exists>t. issued = Some t \<and> bs_hash r' = sha t)"
  using assms(1)
proof cases
  case (session_open b ttl n i token candidate se)
  with assms(2) show ?thesis by (auto simp: exchangeBootstrapToken_def Let_def split: if_splits)
next
  case (session_use n token res)
  then consider "d' = d" | i where "session_rows d' = update_where (\<lambda>x. bs_id x = i) (\<lambda>x. x\<lparr>bs_last_seen := n\<rparr>) (session_rows d)"
    by (auto simp: authenticate_session_def split: if_splits option.splits)
  then show ?thesis
  proof cases
    case 2
    from assms(2) [unfolded 2] show ?thesis by (cases rule: update_whereE) auto
  qed (use assms(2) in auto)
next
  case (session_revoke n i)
  then have rows: "session_rows d' = update_where (\<lambda>r. bs_id r = i) (\<lambda>r. r\<lparr>bs_revoked := Some n\<rparr>) (session_rows d)" by (simp add: revoke_session_def)
  from assms(2) [unfolded rows] show ?thesis by (cases rule: update_whereE) auto
next
  case session_cleanup
  with assms(2) show ?thesis by blast
qed

lemma find_hit: "find P xs = Some x \<Longrightarrow> x \<in> set xs \<and> P x"
  by (induction xs) (auto split: if_splits)

interpretation token_store: credential_store token_rows at_hash at_revoked at_expires "accepts_token sha" sha "token_step sha" for sha
proof
  fix s t n assume "accepts_token sha s t n"
  then show "\<exists>r \<in> set (token_rows s). at_hash r = sha t \<and> at_revoked r = None \<and> n < at_expires r"
    by (auto simp: accepts_token_def authenticate_def token_is_live_def Let_def dest!: find_hit split: if_splits option.splits)
qed (rule token_step_rows)

interpretation session_store: credential_store session_rows bs_hash bs_revoked bs_expires "accepts_session sha" sha "session_step sha" for sha
proof
  fix s t n assume "accepts_session sha s t n"
  then show "\<exists>r \<in> set (session_rows s). bs_hash r = sha t \<and> bs_revoked r = None \<and> n < bs_expires r"
    by (auto simp: accepts_session_def authenticate_session_def session_is_live_def dest!: find_hit split: if_splits option.splits)
qed (rule session_step_rows)

subsection \<open>Issued tokens work, revoked tokens do not\<close>

lemma with_implied_mem:
  "ApplyScope \<in> set (with_implied xs) \<longleftrightarrow> ApplyScope \<in> set xs"
  "ProposeScope \<in> set (with_implied xs) \<longleftrightarrow> ProposeScope \<in> set xs \<or> ApplyScope \<in> set xs"
  "ReadScope \<in> set (with_implied xs) \<longleftrightarrow> ReadScope \<in> set xs \<or> ProposeScope \<in> set xs \<or> ApplyScope \<in> set xs"
  "distinct (with_implied xs)"
  by (auto simp: with_implied_def Let_def)

lemma with_implied_read: "xs \<noteq> [] \<Longrightarrow> ReadScope \<in> set (with_implied xs)"
  unfolding with_implied_mem by (metis api_scope.exhaust list.set_intros(1) neq_Nil_conv)

lemma normalizeScopes_Inr:
  assumes "normalizeScopes v = Inr scopes"
  obtains xs where "xs \<noteq> []" "scopes = with_implied xs"
proof -
  from assms obtain vs xs where v: "v = Some (JArr vs)" "vs \<noteq> []" "scopes = with_implied xs"
    and m: "mapE (\<lambda>x. case scope_of x of None \<Rightarrow> Inl (invalid_token ''API token scope is invalid'') | Some s \<Rightarrow> Inr s) vs = Inr xs"
    by (auto simp: normalizeScopes_def bindE_Inr_iff split: option.split_asm json.split_asm if_split_asm)
  from mapE_Inr_length [OF m] v(2) have "xs \<noteq> []" by auto
  with v(3) show thesis by (intro that)
qed

lemma scope_of_text: "scope_of (JStr (scope_text s)) = Some s"
  by (cases s) (simp_all add: scope_of_def scope_text_def)

lemma storedScopes_back: "distinct scopes \<Longrightarrow> storedScopes (scopes_json scopes) = scopes"
proof -
  have "List.map_filter scope_of (map (\<lambda>s. JStr (scope_text s)) xs) = xs" for xs
    by (induction xs) (simp_all add: List.map_filter_simps scope_of_text)
  then show "distinct scopes \<Longrightarrow> ?thesis" by (simp add: storedScopes_def scopes_json_def)
qed

lemma may_issue_members:
  assumes "may_issue org p d"
  shows "list_ex (\<lambda>x. pn_id x = p \<and> pn_status x = PrincipalActive) (principals d)"
    "list_ex (\<lambda>m. ms_organization m = org \<and> ms_principal m = p \<and> ms_role m = OwnerMember) (memberships d)"
proof -
  from assms obtain m x where m: "find (\<lambda>m. ms_organization m = org \<and> ms_principal m = p \<and> p \<in> pn_id ` set (principals d)) (memberships d) = Some m"
    "ms_role m = OwnerMember" and x: "find (\<lambda>x. pn_id x = p) (principals d) = Some x" "pn_status x = PrincipalActive"
    by (auto simp: may_issue_def split: option.split_asm)
  from m show "list_ex (\<lambda>m. ms_organization m = org \<and> ms_principal m = p \<and> ms_role m = OwnerMember) (memberships d)"
    by (auto simp: find_Some_iff list_ex_iff)
  from x show "list_ex (\<lambda>x. pn_id x = p \<and> pn_status x = PrincipalActive) (principals d)" by (auto simp: find_Some_iff list_ex_iff)
qed

lemma expiry_days_Inr: "expiry_days v = Inr days \<Longrightarrow> 1 \<le> days \<and> days \<le> 365"
  by (auto simp: expiry_days_def split: option.split_asm json.split_asm js_number.split_asm if_split_asm)

text \<open>
  C40: A token that was issued is accepted until it ends, as the owner it was issued to, with the scopes it was
  issued with; these contain every scope that a stronger one implies, and the token lives for at least a
  day and at most a year.
\<close>

theorem issued_token_is_accepted:
  assumes "issue sha n i a secret org p input d = Inr (it, d')" "\<forall>r \<in> set (token_rows d). at_hash r \<noteq> sha (token_of secret)"
    "length secret \<le> 192" "m < it_expires it"
  shows "fst (authenticate sha m (Some (token_of secret)) d') = Some it
    \<and> n + 86400000 \<le> it_expires it \<and> it_expires it \<le> n + 365 * 86400000
    \<and> hasApiScope (it_scopes it) ReadScope \<and> (hasApiScope (it_scopes it) ApplyScope \<longrightarrow> hasApiScope (it_scopes it) ProposeScope)"
proof -
  from assms(1) obtain label scopes days where s: "normalizeScopes (ti_scopes input) = Inr scopes" and days: "expiry_days (ti_days input) = Inr days"
    and may: "may_issue org p d" and it: "it = \<lparr>it_id = i, it_principal = p, it_organization = org, it_scopes = scopes, it_expires = n + days * 86400000\<rparr>"
    and rows: "token_rows d' = token_rows d @ [\<lparr>at_id = i, at_organization = org, at_principal = p, at_label = label, at_hash = sha (token_of secret),
       at_scopes = scopes_json scopes, at_expires = n + days * 86400000, at_last_used = None, at_revoked = None, at_created = n\<rparr>]" (is "_ = _ @ [?r]")
    and same: "principals d' = principals d" "memberships d' = memberships d" by (rule issue_Inr)
  from s obtain xs where xs: "xs \<noteq> []" "scopes = with_implied xs" by (rule normalizeScopes_Inr)
  have read: "ReadScope \<in> set scopes" using with_implied_read xs by simp
  have "find (token_is_live sha m (token_of secret) d') (token_rows d) = None"
    using assms(2) by (auto simp: find_None_iff token_is_live_def)
  moreover have "token_is_live sha m (token_of secret) d' ?r"
    using assms(4) may_issue_members [OF may] same it by (simp add: token_is_live_def)
  ultimately have found: "find (token_is_live sha m (token_of secret) d') (token_rows d') = Some ?r" by (simp add: rows find_snoc)
  have "plausible_token (Some (token_of secret))" using assms(3) by (simp add: plausible_token_def token_of_def)
  moreover have "storedScopes (scopes_json scopes) = scopes" using xs(2) with_implied_mem(4) by (simp add: storedScopes_back)
  moreover have "scopes \<noteq> []" using read by auto
  ultimately have "fst (authenticate sha m (Some (token_of secret)) d') = Some it"
    by (simp add: authenticate_def found it)
  with expiry_days_Inr [OF days] read show ?thesis by (auto simp: it hasApiScope_def xs(2) with_implied_mem)
qed

text \<open>
  C27: A revoked token is never accepted again: neither later uses, nor other tokens that are issued or
  revoked, nor any change of principals and memberships, nor the clean-up of old rows bring it back.
\<close>

theorem revoked_token_stays_out:
  assumes "revoke valid_uuid n a org p i d = Inr d1" "r \<in> set (token_rows d)" "at_hash r = sha t" "revocable org p i r"
    "\<forall>x \<in> set (token_rows d). at_hash x = sha t \<longrightarrow> x = r"
    "credential_store.runs (token_step sha) d1 ts d2" "\<forall>t' \<in> set ts. sha t' \<noteq> sha t"
  shows "fst (authenticate sha m (Some t) d2) = None"
proof -
  have rows: "token_rows d1 = update_where (revocable org p i) (\<lambda>r. r\<lparr>at_revoked := Some n\<rparr>) (token_rows d)"
    using assms(1) by (auto simp: revoke_def split: if_splits)
  have "token_store.dead sha t d1" unfolding token_store.dead_def
  proof (intro ballI impI)
    fix x assume "x \<in> set (token_rows d1)" "at_hash x = sha t"
    then show "at_revoked x \<noteq> None" unfolding rows
      by (cases rule: update_whereE) (use assms(4,5) in auto)
  qed
  from token_store.revoked_stays_refused [OF assms(6) this assms(7)] show ?thesis by (simp add: accepts_token_def)
qed

text \<open>The same for the sessions of a browser.\<close>

theorem revoked_session_stays_out:
  assumes "r \<in> set (session_rows d)" "bs_hash r = sha t" "bs_id r = i" "\<forall>x \<in> set (session_rows d). bs_hash x = sha t \<longrightarrow> x = r"
    "credential_store.runs (session_step sha) (revoke_session n i d) ts d2" "\<forall>t' \<in> set ts. sha t' \<noteq> sha t"
  shows "fst (authenticate_session sha m (Some t) d2) = None"
proof -
  have "session_store.dead sha t (revoke_session n i d)" unfolding session_store.dead_def
  proof (intro ballI impI)
    fix x assume "x \<in> set (session_rows (revoke_session n i d))" "bs_hash x = sha t"
    then have "x \<in> set (update_where (\<lambda>r. bs_id r = i) (\<lambda>r. r\<lparr>bs_revoked := Some n\<rparr>) (session_rows d))" "bs_hash x = sha t"
      by (simp_all add: revoke_session_def)
    then show "bs_revoked x \<noteq> None" by (cases rule: update_whereE) (use assms(3,4) in auto)
  qed
  from session_store.revoked_stays_refused [OF assms(5) this assms(6)] show ?thesis by (simp add: accepts_session_def)
qed

subsection \<open>A token from its issue to its revocation\<close>

definition owner_db :: access_db where
  "owner_db = \<lparr>principals = [\<lparr>pn_id = ''p'', pn_status = PrincipalActive\<rparr>],
     memberships = [\<lparr>ms_organization = ''o'', ms_principal = ''p'', ms_role = OwnerMember\<rparr>], token_rows = [], session_rows = [], access_audits = []\<rparr>"

definition apply_input :: token_input where
  "apply_input = \<lparr>ti_label = Some (JStr '' laptop ''), ti_scopes = Some (JArr [JStr ''apply'']), ti_days = None\<rparr>"

definition laptop_token :: issued_token where
  "laptop_token = \<lparr>it_id = ''t1'', it_principal = ''p'', it_organization = ''o'', it_scopes = [ReadScope, ProposeScope, ApplyScope], it_expires = 2592000000\<rparr>"

definition laptop_row :: token_row where
  "laptop_row = \<lparr>at_id = ''t1'', at_organization = ''o'', at_principal = ''p'', at_label = ''laptop'', at_hash = ''9'',
     at_scopes = scopes_json [ReadScope, ProposeScope, ApplyScope], at_expires = 2592000000, at_last_used = None, at_revoked = None, at_created = 0\<rparr>"

definition laptop_audit :: audit_row where
  "laptop_audit = token_audit ''a1'' ''o'' ''p'' ''api_token.created'' ''t1'' ''owner_created''
     (Some (''sha256:'' @ sample_sha (token_facts ''t1'' ''laptop'' [ReadScope, ProposeScope, ApplyScope] 2592000000)))
     (JObj [(''label'', Some (JStr ''laptop'')), (''scopes'', Some (scopes_json [ReadScope, ProposeScope, ApplyScope])),
       (''expires_at'', Some (JStr (toISOString 2592000000)))])"

definition laptop_db :: access_db where
  "laptop_db = owner_db\<lparr>token_rows := [laptop_row], access_audits := [laptop_audit]\<rparr>"

lemma apply_input_parts:
  "normalizedText (ti_label apply_input) 80 ''token label'' = Inr ''laptop''"
  "normalizeScopes (ti_scopes apply_input) = Inr [ReadScope, ProposeScope, ApplyScope]"
  "expiry_days (ti_days apply_input) = Inr 30" "sample_sha (token_of ''x'') = ''9''" "sample_sha (token_of ''xyz'') = ''11''"
  by code_simp+

lemma laptop_issue: "issue sample_sha 0 ''t1'' ''a1'' ''x'' ''o'' ''p'' apply_input owner_db = Inr (laptop_token, laptop_db)"
  unfolding issue_def apply_input_parts bindE_simps
  by (simp add: may_issue_def owner_db_def laptop_db_def laptop_token_def laptop_row_def laptop_audit_def Let_def)

lemma laptop_rows: "token_rows laptop_db = [laptop_row]"
  by (simp add: laptop_db_def)

theorem issued_token_is_accepted_witness:
  "issue sample_sha 0 ''t1'' ''a1'' ''x'' ''o'' ''p'' apply_input owner_db = Inr (laptop_token, laptop_db)
   \<and> fst (authenticate sample_sha 1000 (Some (token_of ''x'')) laptop_db) = Some laptop_token \<and> hasApiScope (it_scopes laptop_token) ReadScope"
  using issued_token_is_accepted [OF laptop_issue, of 1000] laptop_issue by (simp add: owner_db_def laptop_token_def)

theorem revoked_token_stays_out_witness:
  "\<exists>d1 d2 it. revoke (\<lambda>_. True) 5 ''a2'' ''o'' ''p'' ''t1'' laptop_db = Inr d1
     \<and> issue sample_sha 6 ''t2'' ''a3'' ''xyz'' ''o'' ''p'' apply_input d1 = Inr (it, d2)
     \<and> fst (authenticate sample_sha 7 (Some (token_of ''x'')) d2) = None"
proof -
  obtain d1 where d1: "revoke (\<lambda>_. True) 5 ''a2'' ''o'' ''p'' ''t1'' laptop_db = Inr d1"
    and same: "principals d1 = principals owner_db" "memberships d1 = memberships owner_db"
    by (simp add: revoke_def laptop_db_def laptop_row_def revocable_def)
  have "may_issue ''o'' ''p'' d1" by (simp add: may_issue_def same owner_db_def)
  then obtain it d2 where d2: "issue sample_sha 6 ''t2'' ''a3'' ''xyz'' ''o'' ''p'' apply_input d1 = Inr (it, d2)"
    unfolding issue_def apply_input_parts bindE_simps by (simp add: Let_def)
  have runs: "credential_store.runs (token_step sample_sha) d1 ([] @ [token_of ''xyz'']) d2"
    by (rule token_store.runs_issue [OF token_store.runs_stop token_step.token_issue [OF d2]])
  have "fst (authenticate sample_sha 7 (Some (token_of ''x'')) d2) = None"
    by (rule revoked_token_stays_out [OF d1, of laptop_row sample_sha "token_of ''x''", OF _ _ _ _ runs])
      (simp_all add: laptop_rows apply_input_parts laptop_row_def revocable_def)
  with d1 d2 show ?thesis by blast
qed

end
