(* ===== verification/Spec2Isabelle.thy ===== *)
theory Spec2Isabelle
  imports Evaluate Destination_Edits Planning_Engine Planning_Validation Conflict_Engine Conflict_Validation
    Leased_Job Scheduler Effects Notices Verification Policy_Service Policy_Recovery Sync_Coordinator Google_Calendar
    Fake_Provider Access
begin

text \<open>
  Planipus bridges calendars: it observes the events of a source calendar, decides by a policy what
  of them may appear on a destination calendar, and keeps managed copies there. Beside the bridges it
  has planning rules (protected time and recurring meetings) and private replies (declining
  invitations that clash with other calendars). It is a TypeScript program: a pure contract package
  (src/packages/calendar-sync), a server with a PostgreSQL database and background workers
  (src/server), a web interface (src/web) and an MCP adapter (src/mcp). This library models the
  contract and the core of the server.

  \<^bold>\<open>The parts and how they interact.\<close> A user previews a policy and activates the preview. The scheduler puts
  periodic jobs into the job queue; workers lease and run them. The synchronization coordinator reads a
  calendar page by page from the provider and stores what it reports as observations; when it is done it
  schedules the policies and rules that read the calendar. Reconciliation evaluates the policy on every
  observation and stores a projection (what the copy should be and what is known of it) together with an
  outbox effect (an intent to write). The effect executor leases effects and performs them at the calendar
  provider, guarded by ownership markers and revisions. Verification reads copies again, and repairs or
  holds those that were edited; a held copy leads to a notice and a decision of the user. The provider is
  Google Calendar over HTTP, or an in-memory substitute.

  \<^bold>\<open>Foundations.\<close> \<open>Prelude\<close> has the error monad \<open>bindE\<close> (a throw is \<open>Inl\<close>), lists with first occurrences,
  JavaScript's stable sort with its locale of comparison functions, and half-open intervals with their
  locale. \<open>Js_Text\<close> and \<open>Js_Date\<close> model strings, decimal numbers, \<open>JSON.stringify\<close> of strings, and
  the calendar arithmetic of \<open>Date\<close>; \<open>Platform\<close> and \<open>Temporal\<close> are the parameters that stand for the zone
  database, \<open>Intl\<close>, and the Temporal library, with the laws the code relies on.

  \<^bold>\<open>The contract\<close> (src/packages/calendar-sync/src). \<open>Sync_Types\<close> is types.ts, \<open>Canonical\<close> canonical.ts
  (two values have the same text exactly when they are the same document up to the normalization of
  texts, which is a parameter there), \<open>Hours\<close> hours.ts (which
  instants are inside the hours of a profile), \<open>Evaluate\<close> evaluate.ts (authority of every planned
  operation, noninterference of undisclosed content, convergence, truthfulness of the disclosure
  manifest), \<open>Destination_Edits\<close> destination-edits.ts.

  \<^bold>\<open>Planning and private replies\<close> (src/server/src/planning, src/server/src/conflict-response).
  \<open>Planning_Types\<close> and \<open>Planning_Engine\<close> are types.ts and engine.ts of planning: the slot search is
  optimal, planned meetings do not collide, boundaries protect exactly the requested time. \<open>Draft_Fields\<close>
  and \<open>Planning_Validation\<close> are validation.ts: accepted rules are well formed and read back as they were
  stored. \<open>Conflict_Engine\<close> and \<open>Conflict_Validation\<close> are the engine and the validation of private replies.

  \<^bold>\<open>Queue and jobs\<close> (src/server/src). \<open>Foundation\<close> is \<open>safeErrorCode\<close> of foundation.ts. \<open>Job_Queue\<close> is
  jobs/queue.ts with the table of jobs as a list of rows; its operations, the clean-up of the scheduler and
  the retirement of jobs in providers/google/oauth.ts are the steps of an inductive relation, with the
  invariant of every reachable table. \<open>Leased_Job\<close> is jobs/leased-job.ts: the run of a job is interleaved
  with heartbeats and the steps of other workers (a held lease gets its result recorded, a lost one leaves
  no trace); it relies on the queue through
  the locale \<open>lease_queue\<close>, which is interpreted on the operations of \<open>Job_Queue\<close>. \<open>Tables\<close> has the rows
  of database/types.ts. \<open>Scheduler\<close> is scheduler.ts: a tick schedules everything that is due and is a run
  of the queue.

  \<^bold>\<open>Synchronization\<close> (src/server/src/sync). \<open>Sync_Coordinator\<close> is coordinator.ts: a complete scan leaves a
  mirror of the calendar, a failed one advances nothing, a completed one wakes its readers, and discovery
  respects the role of a connection. \<open>Policy_Draft\<close> has the compilation of stored drafts, the basis hash and
  the query fingerprint (basis.ts, query.ts, ../policy/runtime.ts). \<open>Reconciliation\<close> is reconciliation.ts,
  \<open>Effects\<close> effects.ts, \<open>Notices\<close> notices.ts, \<open>Verification\<close> verification.ts: what is queued is authorized,
  nothing is overwritten blindly, leasing hands out the next effect of a copy and no other, every run is
  settled, repairs and restores start consistent intents, held copies wait for their decision. An operation on the database
  takes the tables and returns the new ones or an error; a transaction that throws leaves the tables
  unchanged. Between two transactions other writers may run where the statement says so. Clocks and new
  identities are arguments.

  \<^bold>\<open>Policies\<close> (src/server/src/policy/service.ts and the parser in src/server/src/api/app.ts).
  \<open>Hours_Draft\<close> and \<open>Policy_Input\<close> check submitted hours and drafts; \<open>Calendar_Identity\<close> is
  providers/calendar-identity.ts and calendar-protection-lock.ts; \<open>Policy_Service\<close> previews, activates,
  pauses and resumes; \<open>Policy_Recovery\<close> recovers blocked copies. An activation stores what was previewed, no
  active bridge touches a protected calendar, and a recovery replays only intents that still fit.

  \<^bold>\<open>Providers\<close> (src/server/src/providers). \<open>Google_Events\<close> is google/serializer.ts and the mapping half of
  google/calendar.ts: an event that was written is recognized and never copied again. \<open>Google_Calendar\<close> is
  the client half: doubtful writes are reported as ambiguous, a decline is only sent for an open invitation
  in the expected revision, an availability answer covers the request. \<open>Fake_Provider\<close> is fake.ts; the locale
  \<open>write_service\<close> says what a calendar service promises about writes and is interpreted on its events and
  on its planning events; the effect executor running against it creates a copy once even when the answer
  is lost. The theorem below composes it with the coordinator.

  \<^bold>\<open>Access\<close> (src/server/src/auth). \<open>Access\<close> is session.ts and api-token.ts: issued credentials are accepted
  until they end, revoked ones never again; both services interpret the locale \<open>credential_store\<close>.

  \<^bold>\<open>Parameters.\<close> The SHA-256 digest is a function on strings; theorems that need it assume that it does
  not collide. The calendar provider of the executor, of verification and of the coordinator is a record of
  functions that answer every call, so nothing is assumed about it; the HTTP service behind the Google
  client is such a record, too. The Temporal library, the zone database and \<open>localeCompare\<close> are records of
  functions with locales for their documented laws.

  \<^bold>\<open>Bounds.\<close> Numbers are unbounded integers; where JavaScript distinguishes safe integers the check is
  written out. Strings are sequences of characters below 256; Unicode normalization is a parameter of the
  canonical text, and the identity where other operations use it, which it is on these characters. Loops of the code end by the data they walk over or by the page limit of a synchronization (200
  pages), which is the recursion argument of the model; the paging loop of the reconciliation and the slot
  search have termination proofs. The list of calendars of the Google client has no limit in the code: it
  is a partial function, which returns when the service stops naming further pages. No fuel is used.

  \<^bold>\<open>Not modelled.\<close> The routes of the HTTP API, the web interface and the MCP adapter are adapters over
  frameworks that are not part of the repository. OAuth (but for its step on the job queue), the choice of a provider for a connection and the
  encryption of stored credentials are calls into cryptographic and network libraries. Configuration,
  migrations and the entry points of the processes are input and output. The services and coordinators of
  planning and of private replies orchestrate the engines that are modelled with tables that are not;
  their engines and the validation of their rules are covered.
\<close>

section \<open>Synchronizing with the in-memory provider\<close>

text \<open>The answers of the provider to the requests of the coordinator, and the calendar they come from.\<close>

definition fake_pages :: "fake \<Rightarrow> string \<Rightarrow> nat \<Rightarrow> string \<Rightarrow> page_request \<Rightarrow> failure + event_page" where
  "fake_pages s tok = (\<lambda>k cal q. fst (fake_listEvents tok cal q s))"

definition fake_calendar :: "fake \<Rightarrow> string \<Rightarrow> string \<Rightarrow> source_observation list" where
  "fake_calendar s tok cal = (case fk_observations s tok cal of None \<Rightarrow> [] | Some vs \<Rightarrow> vs)"

text \<open>A calendar with two events, and a synchronization that reads it.\<close>

definition stocked_fake :: fake where
  "stocked_fake = setObservations ''r-home'' [sample_source, second_source] ''fake'' empty_fake"

definition fake_world :: surroundings where
  "fake_world = (scan_world ''t'' [])\<lparr>ask_page := fake_pages stocked_fake ''fake''\<rparr>"

lemma fake_listEvents_run:
  "fk_failure s = None \<Longrightarrow> fake_listEvents tok cal q s = (Inr (fake_page (fake_calendar s tok cal) (page_offset (pq_page q))), s)"
  by (simp add: fake_listEvents_def maybeFailAuthentication_def fail_if_eq fk_simps fake_calendar_def)

lemma page_request_of_page [simp]: "pq_page (page_request_of n c t) = t"
  by (simp add: page_request_of_def)

lemma page_offset_dec [simp]: "page_offset (Some (dec n)) = Some n" "page_offset None = Some 0"
  by (simp_all add: page_offset_def is_truthy_def digits_dec)

lemma fake_page_simps:
  "pg_observations (fake_page vs (Some n)) = take 100 (drop n vs)"
  "next_page (fake_page vs (Some n)) = (if n + 100 < length vs then Some (dec (n + 100)) else None)"
  by (auto simp: fake_page_def next_page_def Let_def is_truthy_def min_def)

lemma fake_scan:
  assumes "ask_page w = fake_pages s tok" "fk_failure s = None"
  shows "page_offset t = Some n \<Longrightarrow> length (fake_calendar s tok (ce_remote_id e)) \<le> n + 100 * left \<Longrightarrow> 0 < left
    \<Longrightarrow> scanned w e c left k t = drop n (fake_calendar s tok (ce_remote_id e))"
proof (induction left arbitrary: k t n)
  case (Suc left)
  let ?vs = "fake_calendar s tok (ce_remote_id e)"
  have page: "ask_page w k (ce_remote_id e) (page_request_of (start_clock w) c t) = Inr (fake_page ?vs (Some n))"
    using Suc.prems(1) by (simp add: assms(1) fake_pages_def fake_listEvents_run [OF assms(2)])
  show ?case
  proof (cases "n + 100 < length ?vs")
    case True
    then have "scanned w e c left (Suc k) (Some (dec (n + 100))) = drop (n + 100) ?vs"
      using Suc.prems(2) by (intro Suc.IH) auto
    moreover have "drop (n + 100) ?vs = drop 100 (drop n ?vs)" by (simp add: add.commute)
    ultimately show ?thesis using True by (simp add: page fake_page_simps del: drop_drop)
  next
    case False
    then show ?thesis by (simp add: page fake_page_simps)
  qed
qed simp

text \<open>
  C21: The synchronization of a calendar that the in-memory provider keeps: a full scan that completes leaves
  the observations as a mirror of the whole calendar, however many pages it has, as long as its events fit
  into the pages of one synchronization.
\<close>

theorem fake_calendar_is_mirrored:
  assumes "ask_page w = fake_pages s tok" "fk_failure s = None" "open_source w sha org calendarId d = Inr (e, c, d1)" "cu_token c = None"
    "cu_state c \<noteq> CursorReady" "unseen c org calendarId d" "undisturbed w calendarId" "syncCalendar w sha org calendarId d = (Inr n, d')"
    "length (fake_calendar s tok (ce_remote_id e)) \<le> 20000"
  shows "mirrors calendarId (fake_calendar s tok (ce_remote_id e)) (observations d') \<and> n = length (fake_calendar s tok (ce_remote_id e))"
proof -
  have "reported w e c = fake_calendar s tok (ce_remote_id e)"
    using fake_scan [OF assms(1,2), of None 0 e MAX_PAGES_PER_SYNC c 0] assms(9) by (simp add: MAX_PAGES_PER_SYNC_def)
  with complete_scan_mirrors [OF assms(3-8)] show ?thesis by simp
qed

lemma fake_world_open: "open_source fake_world sample_sha ''o'' ''home'' scan_db = Inr (sample_endpoint ''home'', scan_cursor, scan_db\<lparr>cursors := [scan_cursor]\<rparr>)"
  by code_simp

lemma fake_world_run: "fst (syncCalendar fake_world sample_sha ''o'' ''home'' scan_db) = Inr 2"
  by code_simp

theorem fake_calendar_is_mirrored_witness:
  "mirrors ''home'' [sample_source, second_source] (observations (snd (syncCalendar fake_world sample_sha ''o'' ''home'' scan_db)))"
proof -
  obtain d' where run: "syncCalendar fake_world sample_sha ''o'' ''home'' scan_db = (Inr 2, d')"
    using fake_world_run by (metis prod.collapse)
  have parts: "ask_page fake_world = fake_pages stocked_fake ''fake''" "fk_failure stocked_fake = None" "undisturbed fake_world ''home''"
    "unseen scan_cursor ''o'' ''home'' scan_db" "fake_calendar stocked_fake ''fake'' (ce_remote_id (sample_endpoint ''home'')) = [sample_source, second_source]"
    by (simp_all add: fake_world_def scan_world_def stocked_fake_def setObservations_def empty_fake_def undisturbed_def unseen_def scan_db_def fake_calendar_def
        sample_endpoint_def)
  from fake_calendar_is_mirrored [OF parts(1,2) fake_world_open _ _ parts(4,3) run] run show ?thesis
    by (simp add: parts(5) scan_cursor_def)
qed

end
